(* ===== verification/Prelude.thy ===== *)
theory Prelude
  imports Main "HOL-Library.AList" "HOL-Library.Sublist"
begin

text \<open>
  Shared vocabulary of the development: JavaScript values that reach the API as untyped
  input (JSON), the string operations the source uses (\<open>split\<close>, \<open>startsWith\<close>,
  \<open>trim\<close>, \<open>slice\<close>), the uuid pattern that every identifier is checked against, results
  that may fail, and the lemmas on association lists, suffixes and strictly increasing
  sequences that the component theories rest on.

  A JavaScript \<open>Map\<close> iterates in insertion order, so it is an association list with
  distinct keys: \<open>set\<close> on a present key keeps its position and on an absent key appends
  (\<open>AList.update\<close>), \<open>delete\<close> removes the entry (\<open>AList.delete\<close>).
\<close>

named_theorems model_simps \<open>unfolding equations of the model's operations\<close>
named_theorems inv_intros \<open>an operation keeps the invariant of its component\<close>

section \<open>Identifiers, clocks and JSON\<close>

type_synonym ident = string
type_synonym millis = int

datatype jsnum = JInt int | JFrac

text \<open>
  \<open>JInt\<close> is a number with an integral value; \<open>JFrac\<close> stands for every other number
  (fractions, NaN and the infinities), which the source only ever rejects.
\<close>

datatype json =
    JNull
  | JBool bool
  | JNum jsnum
  | JStr string
  | JArr "json list"
  | JObj "(string \<times> json) list"

fun json_field :: "json \<Rightarrow> string \<Rightarrow> json option" where
  "json_field (JObj kvs) k = map_of kvs k"
| "json_field _ k = None"

definition max_safe_integer :: int where
  "max_safe_integer = 2 ^ 53 - 1"

fun is_safe_integer :: "jsnum \<Rightarrow> bool" where
  "is_safe_integer (JInt n) = (\<bar>n\<bar> \<le> max_safe_integer)"
| "is_safe_integer JFrac = False"

section \<open>Strings\<close>

text \<open>\<open>s.split(c)\<close> for a one-character separator: never empty.\<close>

fun split_on :: "char \<Rightarrow> string \<Rightarrow> string list" where
  "split_on c [] = [[]]"
| "split_on c (x # xs) =
     (if x = c then [] # split_on c xs
      else (case split_on c xs of [] \<Rightarrow> [[x]] | w # ws \<Rightarrow> (x # w) # ws))"

definition starts_with :: "string \<Rightarrow> string \<Rightarrow> bool" where
  "starts_with p s \<longleftrightarrow> take (length p) s = p"

text \<open>The ASCII white space that \<open>String.prototype.trim\<close> strips.\<close>

definition is_space :: "char \<Rightarrow> bool" where
  "is_space c \<longleftrightarrow> c \<in> {CHR '' '', CHR 0x09, CHR 0x0A, CHR 0x0B, CHR 0x0C, CHR 0x0D}"

definition trim :: "string \<Rightarrow> string" where
  "trim s = rev (dropWhile is_space (rev (dropWhile is_space s)))"

text \<open>\<open>toLowerCase\<close> on the ASCII letters.\<close>

definition lower_char :: "char \<Rightarrow> char" where
  "lower_char c =
     (if 65 \<le> (of_char c :: nat) \<and> (of_char c :: nat) \<le> 90 then char_of ((of_char c :: nat) + 32) else c)"

definition lower :: "string \<Rightarrow> string" where
  "lower s = map lower_char s"

text \<open>\<open>values.join(sep)\<close>\<close>

fun join_with :: "string \<Rightarrow> string list \<Rightarrow> string" where
  "join_with sep [] = []"
| "join_with sep [w] = w"
| "join_with sep (w # ws) = w @ sep @ join_with sep ws"

definition is_hex :: "char \<Rightarrow> bool" where
  "is_hex c \<longleftrightarrow> c \<in> set ''0123456789abcdefABCDEF''"

text \<open>
  The pattern \<^verbatim>\<open>/^[0-9a-f]{8}-[0-9a-f]{4}-[0-9a-f]{4}-[0-9a-f]{4}-[0-9a-f]{12}$/i\<close>, which the
  source repeats in several files: five hexadecimal groups of fixed lengths.
\<close>

definition is_uuid :: "string \<Rightarrow> bool" where
  "is_uuid s \<longleftrightarrow>
     (let gs = split_on (CHR ''-'') s
      in map length gs = [8, 4, 4, 4, 12] \<and> list_all (list_all is_hex) gs)"

lemma split_on_not_Nil [simp]: "split_on c s \<noteq> []"
  by (induction s) (auto split: list.splits)

lemma split_on_no_sep: "c \<notin> set s \<Longrightarrow> split_on c s = [s]"
  by (induction s) auto

lemma split_on_append_sep: "c \<notin> set u \<Longrightarrow> split_on c (u @ c # v) = u # split_on c v"
  by (induction u) auto

lemma split_on_parts_no_sep: "w \<in> set (split_on c s) \<Longrightarrow> c \<notin> set w"
  by (induction s arbitrary: w) (auto split: if_splits list.splits)

lemma split_on_join: "join_with [c] (split_on c s) = s"
proof (induction s)
  case Nil
  then show ?case by simp
next
  case (Cons x xs)
  then show ?case
    by (cases "split_on c xs"; cases "tl (split_on c xs)") auto
qed

lemma split_on_char:
  assumes "x \<in> set s"
  shows "x = c \<or> (\<exists>w \<in> set (split_on c s). x \<in> set w)"
  using assms
proof (induction s)
  case (Cons a s)
  then show ?case by (cases "split_on c s") auto
qed simp

lemma starts_with_append [simp]: "starts_with p (p @ s)"
  by (simp add: starts_with_def)

lemma starts_with_drop: "starts_with p s \<Longrightarrow> s = p @ drop (length p) s"
  by (metis append_take_drop_id starts_with_def)

lemma not_hex_colon [simp]: "\<not> is_hex (CHR '':'')" and not_hex_dash [simp]: "\<not> is_hex (CHR ''-'')"
  by (simp_all add: is_hex_def)

lemma is_uuid_chars:
  assumes "is_uuid s" and "c \<in> set s"
  shows "c = CHR ''-'' \<or> is_hex c"
  using assms split_on_char [of c s "CHR ''-''"]
  by (auto simp: is_uuid_def Let_def list_all_iff)

lemma is_uuid_no_colon: "is_uuid s \<Longrightarrow> CHR '':'' \<notin> set s"
  using is_uuid_chars [of s "CHR '':''"] by auto

lemma is_uuid_not_Nil: "is_uuid s \<Longrightarrow> s \<noteq> []"
  by (auto simp: is_uuid_def)

section \<open>Results that may fail\<close>

fun is_ok :: "'e + 'a \<Rightarrow> bool" where
  "is_ok (Inl _) = False"
| "is_ok (Inr _) = True"

fun bindE :: "'e + 'a \<Rightarrow> ('a \<Rightarrow> 'e + 'b) \<Rightarrow> 'e + 'b" where
  "bindE (Inl e) f = Inl e"
| "bindE (Inr x) f = f x"

lemma bindE_eq_Inr: "bindE r f = Inr y \<longleftrightarrow> (\<exists>x. r = Inr x \<and> f x = Inr y)"
  by (cases r) auto

lemma bindE_eq_Inl: "bindE r f = Inl e \<longleftrightarrow> r = Inl e \<or> (\<exists>x. r = Inr x \<and> f x = Inl e)"
  by (cases r) auto

section \<open>Insertion-ordered sets and maps\<close>

text \<open>\<open>[...new Set(xs)]\<close>: the first occurrence of each element, in order.\<close>

definition dedup :: "'a list \<Rightarrow> 'a list" where
  "dedup xs = rev (remdups (rev xs))"

lemma set_dedup [simp]: "set (dedup xs) = set xs"
  by (simp add: dedup_def)

lemma distinct_dedup [simp]: "distinct (dedup xs)"
  by (simp add: dedup_def)

lemma dedup_eq_Nil [simp]: "dedup xs = [] \<longleftrightarrow> xs = []"
  by (simp add: dedup_def)


lemma map_of_delete_eq: "map_of (AList.delete k m) x = (if x = k then None else map_of m x)"
  by (simp add: AList.delete_conv')

lemma map_of_update_eq: "map_of (AList.update k v m) x = (if x = k then Some v else map_of m x)"
  by (simp add: AList.update_conv')

lemmas alist_lookup = map_of_delete_eq map_of_update_eq

lemma update_absent: "map_of m k = None \<Longrightarrow> AList.update k v m = m @ [(k, v)]"
  by (induction m) (auto split: if_splits)

lemma length_delete_present:
  "distinct (map fst m) \<Longrightarrow> map_of m k \<noteq> None \<Longrightarrow> length m = Suc (length (AList.delete k m))"
proof (induction m)
  case (Cons a m)
  have "filter (\<lambda>(k', _). k \<noteq> k') m = m" if "k \<notin> fst ` set m"
    using that by (force simp: filter_id_conv)
  with Cons show ?case
    by (cases "fst a = k") (auto simp: AList.delete_eq split: if_splits)
qed simp

lemma distinct_key_eq: "distinct (map f xs) \<Longrightarrow> x \<in> set xs \<Longrightarrow> y \<in> set xs \<Longrightarrow> f x = f y \<Longrightarrow> x = y"
  by (auto simp: distinct_map inj_on_def)

lemma distinct_tail_key: "distinct (map f (x # xs)) \<Longrightarrow> y \<in> set xs \<Longrightarrow> f y \<noteq> f x"
  by (simp, metis image_eqI)

lemma find_SomeD: "find P xs = Some x \<Longrightarrow> x \<in> set xs \<and> P x"
  by (auto simp: find_Some_iff)

section \<open>Suffixes of strictly increasing sequences\<close>

lemma suffix_dropped_below:
  fixes f :: "'a \<Rightarrow> nat"
  assumes "sorted_wrt (<) (map f xs)" and "suffix (b # bs) xs" and "x \<in> set xs" and "x \<notin> set (b # bs)"
  shows "f x < f b"
proof -
  from assms(2) obtain zs where xs: "xs = zs @ b # bs" by (auto simp: suffix_def)
  with assms(3,4) have "x \<in> set zs" by auto
  with assms(1) xs show ?thesis by (auto simp: sorted_wrt_append)
qed

lemma filter_suffix_above:
  fixes f :: "'a \<Rightarrow> nat"
  assumes "sorted_wrt (<) (map f xs)" and "suffix (b # bs) xs" and "f b \<le> Suc c"
  shows "filter (\<lambda>x. c < f x \<and> P x) xs = filter (\<lambda>x. c < f x \<and> P x) (b # bs)"
proof -
  from assms(2) obtain zs where xs: "xs = zs @ b # bs" by (auto simp: suffix_def)
  have "f z < f b" if "z \<in> set zs" for z
    using that assms(1) xs by (auto simp: sorted_wrt_append)
  with assms(3) have "filter (\<lambda>x. c < f x \<and> P x) zs = []"
    by (fastforce simp: filter_empty_conv)
  with xs show ?thesis by simp
qed

end
