(* ===== verification/App_Errors.thy ===== *)
theory App_Errors
  imports Prelude
begin

text \<open>
  The error contract of \<open>src/src/common/errors\<close>: the closed catalog of codes and their HTTP
  statuses, \<open>AppException\<close>, the exception filter that turns everything a request can throw
  into one envelope, the structural tests on database errors and the flattening of nested
  validation errors.
\<close>

section \<open>The catalog\<close>

datatype error_code =
    malformed_request | invalid_filter | invalid_sort | invalid_cursor
  | unauthenticated | forbidden | not_found | conflict | idempotency_in_flight
  | validation_failed | idempotency_key_reused | rate_limited | internal_error
  | integration_dormant

fun statusForCode :: "error_code \<Rightarrow> nat" where
  "statusForCode malformed_request = 400"
| "statusForCode invalid_filter = 400"
| "statusForCode invalid_sort = 400"
| "statusForCode invalid_cursor = 400"
| "statusForCode unauthenticated = 401"
| "statusForCode forbidden = 403"
| "statusForCode not_found = 404"
| "statusForCode conflict = 409"
| "statusForCode idempotency_in_flight = 409"
| "statusForCode validation_failed = 422"
| "statusForCode idempotency_key_reused = 422"
| "statusForCode rate_limited = 429"
| "statusForCode internal_error = 500"
| "statusForCode integration_dormant = 503"

record error_detail =
  field :: string
  issue :: string

datatype app_exception =
  AppException (ex_code: error_code) (ex_message: string) (ex_details: "error_detail list option")

abbreviation app_error :: "error_code \<Rightarrow> string \<Rightarrow> app_exception" where
  "app_error c m \<equiv> AppException c m None"

definition notFound :: "string \<Rightarrow> app_exception" where
  "notFound resource = app_error not_found (''No such '' @ resource @ ''.'')"

definition forbidden_exception :: app_exception where
  "forbidden_exception =
     app_error forbidden ''This operation requires a permission your role does not hold.''"

section \<open>What a request can throw\<close>

text \<open>
  The body of a Nest \<open>HttpException\<close> is a string or an object whose \<open>message\<close> is a
  string, a list of strings or something else. \<open>RawError\<close> is every other thrown value,
  reduced to what the source reads of it: its \<open>code\<close> and the \<open>code\<close> of its
  \<open>cause\<close>, when those are strings.
\<close>

datatype http_body = BodyString string | BodyMessage string | BodyMessages "string list" | BodyOther

datatype thrown =
    App app_exception
  | Http nat http_body string
  | RawError "string option" "string option"

fun isForeignKeyViolation :: "thrown \<Rightarrow> bool" where
  "isForeignKeyViolation (RawError code cause) = (code = Some ''P2003'')"
| "isForeignKeyViolation _ = False"

fun isUniqueViolation :: "thrown \<Rightarrow> bool" where
  "isUniqueViolation (RawError code cause) = (code = Some ''P2002'' \<or> cause = Some ''23505'')"
| "isUniqueViolation _ = False"

section \<open>The exception filter\<close>

record error_envelope =
  env_code :: error_code
  env_message :: string
  env_details :: "error_detail list option"

definition GENERAL_CODES :: "error_code list" where
  "GENERAL_CODES =
     [malformed_request, unauthenticated, forbidden, not_found, conflict, validation_failed,
      rate_limited, internal_error]"

definition CODE_BY_STATUS :: "nat \<rightharpoonup> error_code" where
  "CODE_BY_STATUS = map_of (rev (map (\<lambda>code. (statusForCode code, code)) GENERAL_CODES))"

definition codeForStatus :: "nat \<Rightarrow> error_code" where
  "codeForStatus status =
     (case CODE_BY_STATUS status of Some code \<Rightarrow> code | None \<Rightarrow> internal_error)"

fun messageOf :: "http_body \<Rightarrow> string \<Rightarrow> string" where
  "messageOf (BodyString s) m = s"
| "messageOf (BodyMessage s) m = s"
| "messageOf (BodyMessages ss) m = join_with ''; '' ss"
| "messageOf BodyOther m = m"

fun normalise :: "thrown \<Rightarrow> nat \<times> error_envelope" where
  "normalise (App e) =
     (statusForCode (ex_code e),
      \<lparr>env_code = ex_code e, env_message = ex_message e, env_details = ex_details e\<rparr>)"
| "normalise (Http status body msg) =
     (status, \<lparr>env_code = codeForStatus status, env_message = messageOf body msg, env_details = None\<rparr>)"
| "normalise (RawError code cause) =
     (500, \<lparr>env_code = internal_error, env_message = ''An unexpected error occurred.'',
            env_details = None\<rparr>)"

section \<open>Validation errors\<close>

datatype validation_error =
  ValidationError (ve_property: string) (ve_constraints: "(string \<times> string) list")
    (ve_children: "validation_error list")

definition UNKNOWN_PROPERTY :: string where
  "UNKNOWN_PROPERTY = ''whitelistValidation''"

definition own_details :: "string \<Rightarrow> (string \<times> string) list \<Rightarrow> error_detail list" where
  "own_details fld cs =
     map (\<lambda>(constraint, text). \<lparr>field = fld,
            issue = (if constraint = UNKNOWN_PROPERTY then ''is not a recognised property'' else text)\<rparr>) cs"

definition field_path :: "string \<Rightarrow> string \<Rightarrow> string" where
  "field_path pre property = (if pre \<noteq> [] then pre @ ''.'' @ property else property)"

fun flatten_one :: "string \<Rightarrow> validation_error \<Rightarrow> error_detail list" where
  "flatten_one pre (ValidationError p cs children) =
     own_details (field_path pre p) cs @ concat (map (flatten_one (field_path pre p)) children)"

definition flatten :: "string \<Rightarrow> validation_error list \<Rightarrow> error_detail list" where
  "flatten pre errors = concat (map (flatten_one pre) errors)"

definition toAppException :: "validation_error list \<Rightarrow> app_exception" where
  "toAppException errors =
     AppException validation_failed ''The request failed validation.'' (Some (flatten [] errors))"

section \<open>Properties\<close>

lemma statuses_are_errors: "400 \<le> statusForCode c \<and> statusForCode c < 600"
  by (cases c) auto

lemma codeForStatus_general: "c \<in> set GENERAL_CODES \<Longrightarrow> codeForStatus (statusForCode c) = c"
  by (auto simp: GENERAL_CODES_def codeForStatus_def CODE_BY_STATUS_def)

lemma codeForStatus_specific:
  "statusForCode (codeForStatus s) = s \<or> codeForStatus s = internal_error"
  by (auto simp: GENERAL_CODES_def codeForStatus_def CODE_BY_STATUS_def)

fun constraint_count :: "validation_error \<Rightarrow> nat" where
  "constraint_count (ValidationError p cs children) =
     length cs + sum_list (map constraint_count children)"

lemma length_flatten_one: "length (flatten_one pre e) = constraint_count e"
proof (induction e arbitrary: pre)
  case (ValidationError p cs children)
  then have "map (\<lambda>c. length (flatten_one (field_path pre p) c)) children = map constraint_count children"
    by (intro map_cong) auto
  then show ?case by (simp add: own_details_def length_concat comp_def del: map_eq_conv)
qed

end
