(* ===== verification/Authz.thy ===== *)
theory Authz
  imports App_Errors
begin

text \<open>
  Who is asking and what they may do: the request principals of
  \<open>src/src/auth/request-principal.ts\<close>, the permission catalog and the scopes a machine
  credential may hold (\<open>src/src/authz/permissions.ts\<close>, \<open>service-scopes.ts\<close>), and the
  fail-closed \<open>PermissionGuard\<close>.
\<close>

section \<open>The permission vocabulary\<close>

datatype permission =
    ticket_read | ticket_create | ticket_reply | ticket_transition | ticket_assign
  | ticket_priority | note_read | note_write | contact_read | analytics_read | user_read
  | ticket_close | ticket_delete | user_invite | user_deactivate | sla_configure
  | token_manage | audit_read

fun permission_name :: "permission \<Rightarrow> string" where
  "permission_name ticket_read = ''ticket:read''"
| "permission_name ticket_create = ''ticket:create''"
| "permission_name ticket_reply = ''ticket:reply''"
| "permission_name ticket_transition = ''ticket:transition''"
| "permission_name ticket_assign = ''ticket:assign''"
| "permission_name ticket_priority = ''ticket:priority''"
| "permission_name note_read = ''note:read''"
| "permission_name note_write = ''note:write''"
| "permission_name contact_read = ''contact:read''"
| "permission_name analytics_read = ''analytics:read''"
| "permission_name user_read = ''user:read''"
| "permission_name ticket_close = ''ticket:close''"
| "permission_name ticket_delete = ''ticket:delete''"
| "permission_name user_invite = ''user:invite''"
| "permission_name user_deactivate = ''user:deactivate''"
| "permission_name sla_configure = ''sla:configure''"
| "permission_name token_manage = ''token:manage''"
| "permission_name audit_read = ''audit:read''"

definition SUPPORT_WORK :: "permission list" where
  "SUPPORT_WORK =
     [ticket_read, ticket_create, ticket_reply, ticket_transition, ticket_assign,
      ticket_priority, note_read, note_write, contact_read, analytics_read, user_read]"

definition PERMISSIONS :: "permission list" where
  "PERMISSIONS =
     [ticket_read, ticket_create, ticket_reply, ticket_transition, ticket_assign,
      ticket_priority, note_read, note_write, contact_read, analytics_read, user_read,
      ticket_close, ticket_delete, user_invite, user_deactivate, sla_configure,
      token_manage, audit_read]"

text \<open>
  The role is the string a verified token carries: a role the table does not cover answers
  \<open>None\<close>, and \<open>permissionsFor\<close> turns that into no authority.
\<close>

definition ROLE_PERMISSIONS :: "string \<rightharpoonup> permission list" where
  "ROLE_PERMISSIONS role =
     (if role = ''agent'' then Some SUPPORT_WORK
      else if role = ''admin'' then Some (SUPPORT_WORK @
        [ticket_close, ticket_delete, user_invite, user_deactivate, sla_configure,
         token_manage, audit_read])
      else None)"

section \<open>Principals\<close>

datatype request_principal =
    StaffPrincipal (tenantOf: ident) ident string
  | ContactPrincipal (tenantOf: ident) ident
  | WidgetPrincipal (tenantOf: ident) ident "ident option"
  | ServicePrincipal (tenantOf: ident) ident "permission list"

datatype principal_kind = user_kind | contact_kind | widget_kind | service_kind

fun kindOf :: "request_principal \<Rightarrow> principal_kind" where
  "kindOf (StaffPrincipal _ _ _) = user_kind"
| "kindOf (ContactPrincipal _ _) = contact_kind"
| "kindOf (WidgetPrincipal _ _ _) = widget_kind"
| "kindOf (ServicePrincipal _ _ _) = service_kind"

fun permissionsFor :: "request_principal \<Rightarrow> permission set" where
  "permissionsFor (ServicePrincipal _ _ scopes) = set scopes"
| "permissionsFor (StaffPrincipal _ _ role) =
     set (case ROLE_PERMISSIONS role of Some ps \<Rightarrow> ps | None \<Rightarrow> [])"
| "permissionsFor _ = {}"

section \<open>Scopes of a machine credential\<close>

definition ASSIGNABLE_SCOPES :: "permission list" where
  "ASSIGNABLE_SCOPES = SUPPORT_WORK"

definition UNGRANTABLE_SCOPES :: "permission list" where
  "UNGRANTABLE_SCOPES = filter (\<lambda>p. p \<notin> set ASSIGNABLE_SCOPES) PERMISSIONS"

datatype scope_verdict =
    ScopesAccept "permission list"
  | ScopesUnknown "string list"
  | ScopesForbidden "string list"
  | ScopesEmpty

definition permission_of :: "string \<Rightarrow> permission option" where
  "permission_of s = find (\<lambda>p. permission_name p = s) PERMISSIONS"

definition classifyScopes :: "string list \<Rightarrow> scope_verdict" where
  "classifyScopes requested =
     (let deduplicated = dedup requested;
          unknown = filter (\<lambda>scope. scope \<notin> set (map permission_name PERMISSIONS)) deduplicated;
          not_assignable = filter (\<lambda>scope. scope \<notin> set (map permission_name ASSIGNABLE_SCOPES)) deduplicated
      in if deduplicated = [] then ScopesEmpty
         else if unknown \<noteq> [] then ScopesUnknown unknown
         else if not_assignable \<noteq> [] then ScopesForbidden not_assignable
         else ScopesAccept (List.map_filter permission_of deduplicated))"

definition grantedScopes :: "string list \<Rightarrow> permission list" where
  "grantedScopes stored =
     List.map_filter permission_of
       (filter (\<lambda>scope. scope \<in> set (map permission_name ASSIGNABLE_SCOPES)) stored)"

section \<open>The permission guard\<close>

text \<open>
  What the decorators of a handler or of its controller class declare. \<open>getAllAndOverride\<close>
  of Nest's reflector answers the first declared value over \<open>[handler, class]\<close>.
\<close>

record route_meta =
  meta_public :: "bool option"
  meta_kind :: "principal_kind option"
  meta_permission :: "permission option"
  meta_authenticated_only :: "bool option"

fun getAllAndOverride :: "'a option list \<Rightarrow> 'a option" where
  "getAllAndOverride [] = None"
| "getAllAndOverride (Some x # _) = Some x"
| "getAllAndOverride (None # xs) = getAllAndOverride xs"

definition guard_canActivate ::
  "route_meta list \<Rightarrow> request_principal option \<Rightarrow> app_exception + bool" where
  "guard_canActivate sources who =
     (if getAllAndOverride (map meta_public sources) = Some True then Inr True
      else case who of
        None \<Rightarrow> Inl (app_error unauthenticated ''A valid access token is required for this operation.'')
      | Some p \<Rightarrow>
          (let requiredKind = getAllAndOverride (map meta_kind sources);
               required = getAllAndOverride (map meta_permission sources)
           in if requiredKind \<noteq> None \<and> requiredKind \<noteq> Some (kindOf p) then Inl forbidden_exception
              else case required of
                None \<Rightarrow>
                  if getAllAndOverride (map meta_authenticated_only sources) = Some True then Inr True
                  else if requiredKind \<noteq> None then Inr True
                  else Inl forbidden_exception
              | Some r \<Rightarrow> if r \<in> permissionsFor p then Inr True else Inl forbidden_exception))"

section \<open>Lemmas\<close>

lemma PERMISSIONS_all [simp]: "p \<in> set PERMISSIONS"
  by (cases p) (simp_all add: PERMISSIONS_def)

lemma permission_name_inj: "permission_name p = permission_name q \<Longrightarrow> p = q"
  by (cases p; cases q; simp)

lemma permission_of_name [simp]: "permission_of (permission_name p) = Some p"
proof -
  have "find (\<lambda>q. permission_name q = permission_name p) xs = Some p" if "p \<in> set xs" for xs
    using that by (induction xs) (auto dest: permission_name_inj)
  then show ?thesis by (simp add: permission_of_def)
qed

lemma permission_of_Some: "permission_of s = Some p \<Longrightarrow> s = permission_name p"
  by (auto simp: permission_of_def find_Some_iff)

lemma set_map_filter_names:
  "set (List.map_filter permission_of (map permission_name ps)) = set ps"
  by (auto simp: List.map_filter_def)

lemma permission_of_in_names:
  "s \<in> permission_name ` A \<longleftrightarrow> (\<exists>p. permission_of s = Some p \<and> p \<in> A)"
  using permission_of_Some by auto

lemma set_map_filter_permission_of:
  "set (List.map_filter permission_of ss) = {p. permission_name p \<in> set ss}"
  using permission_of_Some by (force simp: List.map_filter_def)

lemma granted_scopes_assignable: "set (grantedScopes stored) \<subseteq> set ASSIGNABLE_SCOPES"
  by (auto simp: grantedScopes_def set_map_filter_permission_of dest: permission_name_inj)

lemma assignable_below_agent: "set ASSIGNABLE_SCOPES = permissionsFor (StaffPrincipal t u ''agent'')"
  by (simp add: ASSIGNABLE_SCOPES_def ROLE_PERMISSIONS_def)

lemma agent_below_admin:
  "permissionsFor (StaffPrincipal t u ''agent'') \<subseteq> permissionsFor (StaffPrincipal t' u' ''admin'')"
  by (auto simp: ROLE_PERMISSIONS_def)

section \<open>Properties\<close>

text \<open>
  C20. The guard fails closed: when it lets a request through, the route is public, or the
  request carries a principal of the kind the route names and holds the permission the
  route names, or the route asks for no permission and says so. In particular a route
  with no metadata admits nobody, a customer passes no route that names a permission, and
  a machine credential passes no route whose permission is beyond an agent's, whatever
  scopes its row stores.
\<close>

theorem guard_fails_closed:
  assumes "guard_canActivate sources who = Inr b"
  shows "getAllAndOverride (map meta_public sources) = Some True \<or>
    (\<exists>p. who = Some p \<and>
       getAllAndOverride (map meta_kind sources) \<in> {None, Some (kindOf p)} \<and>
       (case getAllAndOverride (map meta_permission sources) of
          None \<Rightarrow> getAllAndOverride (map meta_authenticated_only sources) = Some True \<or>
                  getAllAndOverride (map meta_kind sources) \<noteq> None
        | Some r \<Rightarrow> r \<in> permissionsFor p \<and> kindOf p \<in> {user_kind, service_kind} \<and>
            (\<forall>t k stored. p = ServicePrincipal t k (grantedScopes stored) \<longrightarrow>
               r \<in> permissionsFor (StaffPrincipal t k ''agent''))))"
proof (cases "getAllAndOverride (map meta_public sources) = Some True")
  case False
  then obtain p where p: "who = Some p" using assms by (cases who) (simp_all add: guard_canActivate_def)
  have kind: "kindOf p \<in> {user_kind, service_kind}" if "r \<in> permissionsFor p" for r
    using that by (cases p) auto
  have scope: "r \<in> permissionsFor (StaffPrincipal t k ''agent'')"
    if "r \<in> permissionsFor (ServicePrincipal t k (grantedScopes stored))" for r t k stored
    using that granted_scopes_assignable [of stored] assignable_below_agent [of t k] by auto
  show ?thesis
    using assms False p kind scope
    by (auto simp: guard_canActivate_def Let_def split: if_splits option.splits)
qed simp

definition read_route :: route_meta where
  "read_route = \<lparr>meta_public = None, meta_kind = None, meta_permission = Some ticket_read,
     meta_authenticated_only = None\<rparr>"

theorem guard_fails_closed_witness:
  "guard_canActivate [read_route] (Some (StaffPrincipal ''t'' ''u'' ''agent'')) = Inr True \<and>
   ticket_read \<in> permissionsFor (StaffPrincipal ''t'' ''u'' ''agent'')"
proof -
  have ok: "guard_canActivate [read_route] (Some (StaffPrincipal ''t'' ''u'' ''agent'')) = Inr True" by code_simp
  with guard_fails_closed [OF ok] show ?thesis by (simp add: read_route_def)
qed

end
