(* ===== verification/Tenancy.thy ===== *)
theory Tenancy
  imports Authz
begin

text \<open>
  The tenant context of \<open>src/src/tenancy\<close>: a context is validated, reduced to the settings
  the row-level security policies read, and armed for exactly one transaction. A
  transaction is a function from the armed session and the database to a thrown value or a
  result with the new database; \<open>withTenant\<close> runs it, and a thrown value leaves the
  database as it was.

  The policies compare with \<open>NULLIF(current_setting('app.current_tenant', true), '')\<close>, so a
  session whose tenant is empty matches no row at all.
\<close>

section \<open>Contexts and settings\<close>

text \<open>A context as it arrives at run time, before \<open>contextSettings\<close> has vetted it.\<close>

record tenant_context =
  ctx_tenant :: string
  ctx_actor_kind :: "string option"
  ctx_actor_id :: "string option"

record session =
  s_tenant :: string
  s_actor_kind :: string
  s_actor_id :: string
  s_scheduler :: bool
  s_sweeper :: bool
  s_installations :: bool
  s_now :: millis

definition ACTOR_KINDS :: "string list" where
  "ACTOR_KINDS = [''user'', ''contact'', ''service'', ''system'']"

definition isTenantIdShaped :: "string \<Rightarrow> bool" where
  "isTenantIdShaped value = is_uuid value"

text \<open>\<open>InvalidTenantContextError\<close> is not an \<open>AppException\<close>: it surfaces as a 500.\<close>

definition invalid_tenant_context :: thrown where
  "invalid_tenant_context = RawError None None"

definition contextSettings :: "tenant_context \<Rightarrow> thrown + (string \<times> string \<times> string)" where
  "contextSettings ctx =
     (if ctx_tenant ctx = [] then Inl invalid_tenant_context
      else if \<not> isTenantIdShaped (ctx_tenant ctx) then Inl invalid_tenant_context
      else case ctx_actor_kind ctx of
        None \<Rightarrow> Inl invalid_tenant_context
      | Some kind \<Rightarrow>
          if kind = [] then Inl invalid_tenant_context
          else if kind \<notin> set ACTOR_KINDS then Inl invalid_tenant_context
          else if kind = ''system'' then Inr (ctx_tenant ctx, ''system'', [])
          else case ctx_actor_id ctx of
            None \<Rightarrow> Inl invalid_tenant_context
          | Some i \<Rightarrow>
              if i = [] then Inl invalid_tenant_context else Inr (ctx_tenant ctx, kind, i))"

section \<open>From a principal to a context\<close>

fun actorFor :: "request_principal \<Rightarrow> thrown + (string \<times> string)" where
  "actorFor (StaffPrincipal _ u _) = Inr (''user'', u)"
| "actorFor (ContactPrincipal _ c) = Inr (''contact'', c)"
| "actorFor (ServicePrincipal _ k _) = Inr (''service'', k)"
| "actorFor (WidgetPrincipal _ s c) =
     (case c of None \<Rightarrow> Inl invalid_tenant_context
      | Some i \<Rightarrow> if i = [] then Inl invalid_tenant_context else Inr (''contact'', i))"

definition tenantContextFor :: "request_principal \<Rightarrow> thrown + tenant_context" where
  "tenantContextFor p =
     (case actorFor p of
        Inl e \<Rightarrow> Inl e
      | Inr (kind, i) \<Rightarrow>
          Inr \<lparr>ctx_tenant = tenantOf p, ctx_actor_kind = Some kind, ctx_actor_id = Some i\<rparr>)"

definition systemContextFor :: "ident \<Rightarrow> tenant_context" where
  "systemContextFor tenant =
     \<lparr>ctx_tenant = tenant, ctx_actor_kind = Some ''system'', ctx_actor_id = None\<rparr>"

section \<open>Armed transactions\<close>

type_synonym ('db, 'a) transaction = "session \<Rightarrow> 'db \<Rightarrow> thrown + ('a \<times> 'db)"

definition tenant_session :: "millis \<Rightarrow> string \<Rightarrow> string \<Rightarrow> string \<Rightarrow> session" where
  "tenant_session now tenant kind i =
     \<lparr>s_tenant = tenant, s_actor_kind = kind, s_actor_id = i, s_scheduler = False,
      s_sweeper = False, s_installations = False, s_now = now\<rparr>"

definition withTenant ::
  "millis \<Rightarrow> tenant_context \<Rightarrow> ('db, 'a) transaction \<Rightarrow> 'db \<Rightarrow> thrown + ('a \<times> 'db)" where
  "withTenant now ctx work d =
     (case contextSettings ctx of
        Inl e \<Rightarrow> Inl e
      | Inr (tenant, kind, i) \<Rightarrow> work (tenant_session now tenant kind i) d)"

definition withScheduler :: "millis \<Rightarrow> ('db, 'a) transaction \<Rightarrow> 'db \<Rightarrow> thrown + ('a \<times> 'db)" where
  "withScheduler now work d = work ((tenant_session now [] ''system'' [])\<lparr>s_scheduler := True\<rparr>) d"

definition withInstallationLookup ::
  "millis \<Rightarrow> ('db, 'a) transaction \<Rightarrow> 'db \<Rightarrow> thrown + ('a \<times> 'db)" where
  "withInstallationLookup now work d =
     work ((tenant_session now [] ''system'' [])\<lparr>s_installations := True\<rparr>) d"

text \<open>\<open>principal \<rightarrow> context \<rightarrow> withTenant\<close>, the route every request-scoped handler takes.\<close>

definition asPrincipal ::
  "millis \<Rightarrow> request_principal \<Rightarrow> ('db, 'a) transaction \<Rightarrow> 'db \<Rightarrow> thrown + ('a \<times> 'db)" where
  "asPrincipal now p work d =
     (case tenantContextFor p of Inl e \<Rightarrow> Inl e | Inr ctx \<Rightarrow> withTenant now ctx work d)"

text \<open>
  The sweeps: one armed transaction per enumerated tenant, collecting what each visit
  returns. A visit that throws ends the loop, and the visits before it stay committed,
  which is why the database is part of both outcomes.
\<close>

fun forEachTenant ::
  "millis \<Rightarrow> (ident \<Rightarrow> ('db, 'a list) transaction) \<Rightarrow> ident list \<Rightarrow> 'a list \<Rightarrow> 'db \<Rightarrow>
   (thrown + 'a list) \<times> 'db" where
  "forEachTenant now work [] acc d = (Inr acc, d)"
| "forEachTenant now work (tenant # rest) acc d =
     (case withTenant now (systemContextFor tenant) (work tenant) d of
        Inl e \<Rightarrow> (Inl e, d)
      | Inr (xs, d') \<Rightarrow> forEachTenant now work rest (acc @ xs) d')"

section \<open>Policy predicates\<close>

definition current_actor_is_contact :: "session \<Rightarrow> bool" where
  "current_actor_is_contact s \<longleftrightarrow> s_actor_kind s = ''contact''"

definition tenant_matches :: "session \<Rightarrow> ident \<Rightarrow> bool" where
  "tenant_matches s tenant \<longleftrightarrow> s_tenant s \<noteq> [] \<and> tenant = s_tenant s"

text \<open>The actor a trigger stamps: the database refuses a kind with no id unless it is \<open>system\<close>.\<close>

definition current_actor :: "session \<Rightarrow> thrown + (string \<times> ident option)" where
  "current_actor s =
     (if s_actor_kind s = [] then Inl (RawError None (Some ''42501''))
      else if s_actor_id s = [] then
        (if s_actor_kind s = ''system'' then Inr (''system'', None)
         else Inl (RawError None (Some ''42501'')))
      else Inr (s_actor_kind s, Some (s_actor_id s)))"

section \<open>Lemmas\<close>

lemma contextSettings_shape:
  assumes "contextSettings ctx = Inr (tenant, kind, i)"
  shows "tenant = ctx_tenant ctx" and "is_uuid tenant" and "kind \<in> set ACTOR_KINDS"
    and "(kind = ''system'') = (i = [])"
  using assms
  by (auto simp: contextSettings_def isTenantIdShaped_def ACTOR_KINDS_def split: if_splits option.splits)

lemma withTenant_session:
  assumes "withTenant now ctx work d = Inr r"
  obtains kind i where "contextSettings ctx = Inr (ctx_tenant ctx, kind, i)"
    and "work (tenant_session now (ctx_tenant ctx) kind i) d = Inr r"
proof (cases "contextSettings ctx")
  case (Inl e)
  with assms show ?thesis by (simp add: withTenant_def)
next
  case (Inr st)
  obtain tenant kind i where st: "st = (tenant, kind, i)" by (cases st) auto
  with Inr have "tenant = ctx_tenant ctx" using contextSettings_shape(1) by blast
  with Inr st assms show ?thesis by (intro that [of kind i]) (simp_all add: withTenant_def)
qed

lemma asPrincipal_session:
  assumes "asPrincipal now p work d = Inr r"
  obtains kind i where "actorFor p = Inr (kind, i)" and "is_uuid (tenantOf p)"
    and "kind \<in> {''user'', ''contact'', ''service''}" and "i \<noteq> []"
    and "work (tenant_session now (tenantOf p) kind i) d = Inr r"
proof -
  from assms obtain kind i where a: "actorFor p = Inr (kind, i)"
    and w: "withTenant now \<lparr>ctx_tenant = tenantOf p, ctx_actor_kind = Some kind, ctx_actor_id = Some i\<rparr> work d = Inr r"
    by (auto simp: asPrincipal_def tenantContextFor_def split: sum.splits)
  from a have k: "kind \<in> {''user'', ''contact'', ''service''}"
    by (cases p) (auto split: option.splits if_splits)
  from w k have "i \<noteq> []" and "is_uuid (tenantOf p)"
    and "work (tenant_session now (tenantOf p) kind i) d = Inr r"
    by (auto simp: withTenant_def contextSettings_def isTenantIdShaped_def split: if_splits)
  with a k show ?thesis by (intro that)
qed

lemma tenant_session_simps [simp]:
  "s_tenant (tenant_session now t k i) = t"
  "s_actor_kind (tenant_session now t k i) = k"
  "s_actor_id (tenant_session now t k i) = i"
  "s_now (tenant_session now t k i) = now"
  "s_scheduler (tenant_session now t k i) = False"
  "s_sweeper (tenant_session now t k i) = False"
  "s_installations (tenant_session now t k i) = False"
  by (simp_all add: tenant_session_def)

lemma contact_axis: "actorFor p = Inr (kind, i) \<Longrightarrow>
    kind = ''contact'' \<longleftrightarrow> kindOf p \<in> {contact_kind, widget_kind}"
  by (cases p) (auto split: option.splits if_splits)

end
