(* ===== verification/Database.thy ===== *)
theory Database
  imports Tenancy
begin

text \<open>
  The tables the conversation lives in and the rules the migrations attach to them:
  \<open>ticket\<close>, \<open>message\<close>, \<open>note\<close> and \<open>audit_log\<close>, their row-level security policies,
  the \<open>BEFORE\<close> triggers on \<open>ticket\<close> (transition table, closed lock, latches, pause
  clock, linkage), the partial unique indexes and the foreign keys
  (\<open>src/prisma/migrations\<close>). A statement is a function on the database that fails with
  the error the driver reports; the services of the other theories are written over these
  statements.

  Identifiers are canonical uuid strings, so comparing the columns is comparing strings.
\<close>

section \<open>Rows\<close>

datatype ticket_state = TOpen | TPending | TOnHold | TResolved | TClosed
datatype ticket_priority = PLow | PNormal | PHigh | PUrgent
datatype ticket_source = SrcPortal | SrcWidget | SrcSlack

fun state_text :: "ticket_state \<Rightarrow> string" where
  "state_text TOpen = ''open''"
| "state_text TPending = ''pending''"
| "state_text TOnHold = ''on_hold''"
| "state_text TResolved = ''resolved''"
| "state_text TClosed = ''closed''"

fun priority_text :: "ticket_priority \<Rightarrow> string" where
  "priority_text PLow = ''low''"
| "priority_text PNormal = ''normal''"
| "priority_text PHigh = ''high''"
| "priority_text PUrgent = ''urgent''"

fun source_text :: "ticket_source \<Rightarrow> string" where
  "source_text SrcPortal = ''portal''"
| "source_text SrcWidget = ''widget''"
| "source_text SrcSlack = ''slack''"

record ticket =
  t_id :: ident
  t_tenant :: ident
  t_subject :: string
  t_contact :: ident
  t_assignee :: "ident option"
  t_state :: ticket_state
  t_priority :: ticket_priority
  t_source :: ticket_source
  t_spawned :: "ident option"
  t_root :: "ident option"
  t_slack_channel :: "string option"
  t_slack_thread :: "string option"
  t_first_response :: "millis option"
  t_paused_ms :: int
  t_pause_started :: "millis option"
  t_first_response_breached :: "millis option"
  t_resolution_breached :: "millis option"
  t_created :: millis
  t_updated :: millis
  t_last_activity :: millis

datatype audit_action =
    ticket_created | ticket_transitioned | ticket_assigned | ticket_priority_changed
  | sla_breached | token_minted | token_revoked | integration_failed

record audit_row =
  a_tenant :: ident
  a_action :: audit_action
  a_actor_kind :: string
  a_actor_id :: "ident option"
  a_target_kind :: string
  a_target_id :: ident
  a_ticket :: "ident option"
  a_from :: "string option"
  a_to :: "string option"
  a_metadata :: "json option"

text \<open>A row of \<open>message\<close> or of \<open>note\<close>: the two tables have the same columns.\<close>

record thread_row =
  m_id :: ident
  m_tenant :: ident
  m_ticket :: ident
  m_body :: string
  m_author_kind :: string
  m_author_id :: "ident option"
  m_created :: millis

datatype delivery_status = DPending | DDelivered | DDead

record delivery_row =
  d_id :: ident
  d_tenant :: ident
  d_source :: string
  d_message :: ident
  d_target :: string
  d_status :: delivery_status
  d_attempts :: nat
  d_external :: "string option"
  d_last_error :: "string option"
  d_delivered_at :: "millis option"

datatype job_status = JReady | JActive | JDone | JDead

record job_row =
  j_id :: ident
  j_tenant :: ident
  j_kind :: string
  j_payload :: json
  j_run_after :: millis
  j_attempts :: nat
  j_max_attempts :: nat
  j_status :: job_status
  j_locked :: "millis option"
  j_last_error :: "string option"
  j_created :: millis

record db =
  contacts :: "(ident \<times> ident) list"
  users :: "(ident \<times> ident) list"
  tickets :: "ticket list"
  messages :: "thread_row list"
  note_rows :: "thread_row list"
  audit :: "audit_row list"
  deliveries :: "delivery_row list"
  jobs :: "job_row list"

section \<open>Errors the driver reports\<close>

definition foreign_key_error :: thrown where "foreign_key_error = RawError (Some ''P2003'') None"
definition unique_error :: thrown where "unique_error = RawError (Some ''P2002'') None"
definition policy_error :: thrown where "policy_error = RawError None (Some ''42501'')"
definition check_error :: thrown where "check_error = RawError None (Some ''23514'')"
definition raised :: "string \<Rightarrow> thrown" where "raised sqlstate = RawError None (Some sqlstate)"

section \<open>Policies\<close>

definition visible_ticket :: "session \<Rightarrow> ticket \<Rightarrow> bool" where
  "visible_ticket s t \<longleftrightarrow>
     tenant_matches s (t_tenant t) \<and> (\<not> current_actor_is_contact s \<or> t_contact t = s_actor_id s)"

definition owns_ticket :: "session \<Rightarrow> db \<Rightarrow> ident \<Rightarrow> ident \<Rightarrow> bool" where
  "owns_ticket s d tenant i \<longleftrightarrow>
     (\<exists>t \<in> set (tickets d). t_tenant t = tenant \<and> t_id t = i \<and> t_contact t = s_actor_id s)"

definition visible_message :: "session \<Rightarrow> db \<Rightarrow> thread_row \<Rightarrow> bool" where
  "visible_message s d m \<longleftrightarrow>
     tenant_matches s (m_tenant m) \<and>
     (\<not> current_actor_is_contact s \<or> owns_ticket s d (m_tenant m) (m_ticket m))"

definition visible_note :: "session \<Rightarrow> thread_row \<Rightarrow> bool" where
  "visible_note s n \<longleftrightarrow> tenant_matches s (m_tenant n) \<and> \<not> current_actor_is_contact s"

definition visible_audit :: "session \<Rightarrow> db \<Rightarrow> audit_row \<Rightarrow> bool" where
  "visible_audit s d a \<longleftrightarrow>
     tenant_matches s (a_tenant a) \<and>
     (\<not> current_actor_is_contact s \<or>
      (case a_ticket a of None \<Rightarrow> False | Some i \<Rightarrow> owns_ticket s d (a_tenant a) i))"

section \<open>The audit log\<close>

record audit_values =
  v_action :: audit_action
  v_target_kind :: string
  v_target_id :: ident
  v_ticket :: "ident option"
  v_from :: "string option"
  v_to :: "string option"
  v_metadata :: "json option"

definition audit_row_of :: "ident \<Rightarrow> string \<Rightarrow> ident option \<Rightarrow> audit_values \<Rightarrow> audit_row" where
  "audit_row_of tenant kind i v =
     \<lparr>a_tenant = tenant, a_action = v_action v, a_actor_kind = kind, a_actor_id = i,
      a_target_kind = v_target_kind v, a_target_id = v_target_id v, a_ticket = v_ticket v,
      a_from = v_from v, a_to = v_to v, a_metadata = v_metadata v\<rparr>"

text \<open>
  An insert into \<open>audit_log\<close>: \<open>stamp_actor\<close> overwrites the actor with the armed one, the
  policy checks the row, the composite foreign key checks its ticket.
\<close>

definition audit_insert :: "session \<Rightarrow> db \<Rightarrow> ident \<Rightarrow> audit_values \<Rightarrow> thrown + audit_row" where
  "audit_insert s d tenant v =
     (case current_actor s of
        Inl e \<Rightarrow> Inl e
      | Inr (kind, i) \<Rightarrow>
          (let row = audit_row_of tenant kind i v
           in if \<not> visible_audit s d row then Inl policy_error
              else if (case v_ticket v of None \<Rightarrow> False
                       | Some tid \<Rightarrow> \<not> (\<exists>t \<in> set (tickets d). t_tenant t = tenant \<and> t_id t = tid))
              then Inl foreign_key_error
              else Inr row))"

text \<open>\<open>AuditService.record\<close>: the tenant is the column default, read off the session.\<close>

definition audit_record :: "audit_values \<Rightarrow> (db, unit) transaction" where
  "audit_record v s d =
     (case audit_insert s d (s_tenant s) v of
        Inl e \<Rightarrow> Inl e
      | Inr row \<Rightarrow> Inr ((), d\<lparr>audit := audit d @ [row]\<rparr>))"

section \<open>Triggers on ticket\<close>

definition ticket_transition_is_legal :: "ticket_state \<Rightarrow> ticket_state \<Rightarrow> bool" where
  "ticket_transition_is_legal from_state to_state \<longleftrightarrow>
     (from_state, to_state) \<in> set
       [(TOpen, TPending), (TOpen, TOnHold), (TPending, TOpen), (TPending, TOnHold),
        (TOnHold, TOpen), (TOnHold, TPending),
        (TOpen, TResolved), (TPending, TResolved), (TOnHold, TResolved),
        (TResolved, TOpen), (TResolved, TClosed)]"

definition pauses_sla :: "ticket_state \<Rightarrow> bool" where
  "pauses_sla st \<longleftrightarrow> st \<in> {TPending, TResolved, TClosed}"

definition keep_latch :: "'a option \<Rightarrow> 'a option \<Rightarrow> 'a option" where
  "keep_latch old new = (case old of None \<Rightarrow> new | Some x \<Rightarrow> Some x)"

definition keep_latches :: "ticket \<Rightarrow> ticket \<Rightarrow> ticket" where
  "keep_latches old new = new
     \<lparr>t_first_response := keep_latch (t_first_response old) (t_first_response new),
      t_first_response_breached := keep_latch (t_first_response_breached old) (t_first_response_breached new),
      t_resolution_breached := keep_latch (t_resolution_breached old) (t_resolution_breached new)\<rparr>"

definition accrue_pause :: "millis \<Rightarrow> ticket \<Rightarrow> ticket \<Rightarrow> ticket" where
  "accrue_pause now old new =
     (let n1 = (case t_pause_started old of
                  None \<Rightarrow> new
                | Some began \<Rightarrow> new\<lparr>t_paused_ms := t_paused_ms old + max 0 (now - began),
                                      t_pause_started := None\<rparr>)
      in if pauses_sla (t_state new) then n1\<lparr>t_pause_started := Some now\<rparr> else n1)"

definition ticket_audit_values ::
  "audit_action \<Rightarrow> ident \<Rightarrow> string option \<Rightarrow> string option \<Rightarrow> audit_values" where
  "ticket_audit_values action i from_v to_v =
     \<lparr>v_action = action, v_target_kind = ''ticket'', v_target_id = i, v_ticket = Some i,
      v_from = from_v, v_to = to_v, v_metadata = None\<rparr>"

fun audit_inserts ::
  "session \<Rightarrow> db \<Rightarrow> ident \<Rightarrow> audit_values list \<Rightarrow> thrown + audit_row list" where
  "audit_inserts s d tenant [] = Inr []"
| "audit_inserts s d tenant (v # vs) =
     (case audit_insert s d tenant v of
        Inl e \<Rightarrow> Inl e
      | Inr row \<Rightarrow> (case audit_inserts s d tenant vs of Inl e \<Rightarrow> Inl e | Inr rows \<Rightarrow> Inr (row # rows)))"

text \<open>The audit entries of one update, in the order the trigger writes them.\<close>

definition change_entries :: "ticket \<Rightarrow> ticket \<Rightarrow> audit_values list" where
  "change_entries old new =
     (if t_state new \<noteq> t_state old
      then [ticket_audit_values ticket_transitioned (t_id new)
              (Some (state_text (t_state old))) (Some (state_text (t_state new)))] else []) @
     (if t_assignee new \<noteq> t_assignee old
      then [ticket_audit_values ticket_assigned (t_id new) (t_assignee old) (t_assignee new)] else []) @
     (if t_priority new \<noteq> t_priority old
      then [ticket_audit_values ticket_priority_changed (t_id new)
              (Some (priority_text (t_priority old))) (Some (priority_text (t_priority new)))] else [])"

text \<open>The columns the trigger writes once it has let the change through.\<close>

definition transition_effect :: "millis \<Rightarrow> ticket \<Rightarrow> ticket \<Rightarrow> ticket" where
  "transition_effect now old new =
     (let n1 = (if t_state new \<noteq> t_state old then accrue_pause now old new else new)
      in if t_state new \<noteq> t_state old \<or> t_assignee new \<noteq> t_assignee old \<or>
            t_priority new \<noteq> t_priority old
         then n1\<lparr>t_last_activity := now\<rparr> else n1)"

definition ticket_enforce_transition ::
  "session \<Rightarrow> db \<Rightarrow> ticket \<Rightarrow> ticket \<Rightarrow> thrown + (ticket \<times> audit_row list)" where
  "ticket_enforce_transition s d old new0 =
     (let new = keep_latches old new0 in
      if t_state old = TClosed \<and> (t_priority new \<noteq> t_priority old \<or> t_assignee new \<noteq> t_assignee old)
      then Inl (raised ''TK002'')
      else if t_state new \<noteq> t_state old \<and> \<not> ticket_transition_is_legal (t_state old) (t_state new)
      then Inl (raised ''TK001'')
      else case audit_inserts s d (t_tenant new) (change_entries old new) of
             Inl e \<Rightarrow> Inl e
           | Inr rows \<Rightarrow> Inr (transition_effect (s_now s) old new, rows))"

definition ticket_linkage_on_update :: "ticket \<Rightarrow> ticket \<Rightarrow> thrown + ticket" where
  "ticket_linkage_on_update old new =
     (if t_spawned new \<noteq> t_spawned old \<or> t_root new \<noteq> t_root old then Inl (raised ''TK004'')
      else if t_slack_channel new \<noteq> t_slack_channel old \<or> t_slack_thread new \<noteq> t_slack_thread old
      then Inl (raised ''TK005'')
      else Inr new)"

definition chainRootOf :: "ticket \<Rightarrow> ident" where
  "chainRootOf t = (case t_root t of None \<Rightarrow> t_id t | Some r \<Rightarrow> r)"

text \<open>The parent is looked up under row-level security, like every statement of the session.\<close>

definition ticket_linkage_on_insert :: "session \<Rightarrow> db \<Rightarrow> ticket \<Rightarrow> thrown + ticket" where
  "ticket_linkage_on_insert s d new =
     (case t_spawned new of
        None \<Rightarrow> Inr (new\<lparr>t_root := None\<rparr>)
      | Some p \<Rightarrow>
          (case find (\<lambda>t. visible_ticket s t \<and> t_tenant t = t_tenant new \<and> t_id t = p) (tickets d) of
             None \<Rightarrow> Inl (raised ''TK003'')
           | Some parent \<Rightarrow>
               Inr (new\<lparr>t_root := Some (case t_root parent of None \<Rightarrow> p | Some r \<Rightarrow> r),
                        t_slack_channel := t_slack_channel parent,
                        t_slack_thread := t_slack_thread parent\<rparr>)))"

section \<open>Constraints\<close>

definition live :: "ticket \<Rightarrow> bool" where
  "live t \<longleftrightarrow> t_state t \<noteq> TClosed"

text \<open>\<open>ticket_one_live_per_chain\<close> and \<open>ticket_one_live_per_slack_thread\<close>.\<close>

definition one_live_per_chain :: "ticket list \<Rightarrow> bool" where
  "one_live_per_chain ts \<longleftrightarrow>
     distinct (map (\<lambda>t. (t_tenant t, chainRootOf t)) (filter live ts))"

definition one_live_per_slack_thread :: "ticket list \<Rightarrow> bool" where
  "one_live_per_slack_thread ts \<longleftrightarrow>
     distinct (map (\<lambda>t. (t_tenant t, t_slack_channel t, t_slack_thread t))
       (filter (\<lambda>t. live t \<and> t_slack_thread t \<noteq> None) ts))"

definition linkage_is_whole :: "ticket \<Rightarrow> bool" where
  "linkage_is_whole t \<longleftrightarrow> (t_spawned t = None) = (t_root t = None)"

definition slack_route_is_whole :: "ticket \<Rightarrow> bool" where
  "slack_route_is_whole t \<longleftrightarrow> (t_slack_channel t = None) = (t_slack_thread t = None)"

definition references_ok :: "db \<Rightarrow> ticket \<Rightarrow> bool" where
  "references_ok d t \<longleftrightarrow>
     (t_tenant t, t_contact t) \<in> set (contacts d) \<and>
     (case t_assignee t of None \<Rightarrow> True | Some u \<Rightarrow> (t_tenant t, u) \<in> set (users d))"

section \<open>Statements\<close>

definition ticket_findUnique :: "ident \<Rightarrow> session \<Rightarrow> db \<Rightarrow> ticket option" where
  "ticket_findUnique i s d = find (\<lambda>t. t_id t = i \<and> visible_ticket s t) (tickets d)"

definition ticket_select :: "(ticket \<Rightarrow> bool) \<Rightarrow> session \<Rightarrow> db \<Rightarrow> ticket list" where
  "ticket_select sel s d = filter (\<lambda>t. visible_ticket s t \<and> sel t) (tickets d)"

text \<open>
  Before-triggers run in the order of their names: \<open>enforce_linkage_on_update\<close> and then
  \<open>enforce_transition\<close>; the policy's \<open>WITH CHECK\<close> sees the row they leave.
\<close>

definition ticket_before_update ::
  "session \<Rightarrow> db \<Rightarrow> ticket \<Rightarrow> ticket \<Rightarrow> thrown + (ticket \<times> audit_row list)" where
  "ticket_before_update s d old new =
     (case ticket_linkage_on_update old new of
        Inl e \<Rightarrow> Inl e
      | Inr n \<Rightarrow> (case ticket_enforce_transition s d old n of
                     Inl e \<Rightarrow> Inl e
                   | Inr (n', rows) \<Rightarrow>
                       if visible_ticket s n' then Inr (n', rows) else Inl policy_error))"

fun update_rows ::
  "session \<Rightarrow> db \<Rightarrow> (ticket \<Rightarrow> bool) \<Rightarrow> (ticket \<Rightarrow> ticket) \<Rightarrow> ticket list \<Rightarrow>
   thrown + (nat \<times> ticket list \<times> audit_row list)" where
  "update_rows s d sel f [] = Inr (0, [], [])"
| "update_rows s d sel f (t # ts) =
     (if visible_ticket s t \<and> sel t then
        (case ticket_before_update s d t (f t) of
           Inl e \<Rightarrow> Inl e
         | Inr (t', rows) \<Rightarrow>
             (case update_rows s d sel f ts of
                Inl e \<Rightarrow> Inl e
              | Inr (n, ts', rows') \<Rightarrow> Inr (Suc n, t' # ts', rows @ rows')))
      else
        (case update_rows s d sel f ts of
           Inl e \<Rightarrow> Inl e
         | Inr (n, ts', rows') \<Rightarrow> Inr (n, t # ts', rows')))"

definition ticket_updateMany ::
  "(ticket \<Rightarrow> bool) \<Rightarrow> (ticket \<Rightarrow> ticket) \<Rightarrow> (db, nat) transaction" where
  "ticket_updateMany sel f s d =
     (case update_rows s d sel f (tickets d) of
        Inl e \<Rightarrow> Inl e
      | Inr (n, ts, rows) \<Rightarrow>
          if \<not> (list_all linkage_is_whole ts \<and> list_all slack_route_is_whole ts) then Inl check_error
          else if \<not> (one_live_per_chain ts \<and> one_live_per_slack_thread ts) then Inl unique_error
          else if \<not> list_all (references_ok d) ts then Inl foreign_key_error
          else Inr (n, d\<lparr>tickets := ts, audit := audit d @ rows\<rparr>))"

definition ticket_insert :: "ticket \<Rightarrow> (db, ticket) transaction" where
  "ticket_insert new s d =
     (if t_state new \<noteq> TOpen then Inl (raised ''TK001'')
      else case ticket_linkage_on_insert s d new of
        Inl e \<Rightarrow> Inl e
      | Inr t \<Rightarrow>
          (let ts = tickets d @ [t] in
           if \<not> visible_ticket s t then Inl policy_error
           else if \<not> (linkage_is_whole t \<and> slack_route_is_whole t) then Inl check_error
           else if t_id t \<in> t_id ` set (tickets d) \<or> \<not> one_live_per_chain ts \<or>
                   \<not> one_live_per_slack_thread ts then Inl unique_error
           else if \<not> references_ok d t then Inl foreign_key_error
           else Inr (t, d\<lparr>tickets := ts\<rparr>)))"

text \<open>
  Inserting a message: the author is stamped from the session, the policy and the foreign
  key are checked, and \<open>observe_message\<close> then updates the ticket, which passes the
  triggers of that table again.
\<close>

definition observe_message :: "thread_row \<Rightarrow> ticket \<Rightarrow> ticket" where
  "observe_message m t = t
     \<lparr>t_last_activity := m_created m,
      t_first_response :=
        (if t_first_response t = None \<and> m_author_kind m \<in> {''user'', ''service''}
         then Some (m_created m) else t_first_response t)\<rparr>"

definition thread_row_of ::
  "ident \<Rightarrow> ident \<Rightarrow> ident \<Rightarrow> string \<Rightarrow> session \<Rightarrow> thrown + thread_row" where
  "thread_row_of i tenant tid body s =
     (case current_actor s of
        Inl e \<Rightarrow> Inl e
      | Inr (kind, aid) \<Rightarrow>
          Inr \<lparr>m_id = i, m_tenant = tenant, m_ticket = tid, m_body = body,
               m_author_kind = kind, m_author_id = aid, m_created = s_now s\<rparr>)"

definition ticket_exists :: "db \<Rightarrow> ident \<Rightarrow> ident \<Rightarrow> bool" where
  "ticket_exists d tenant tid \<longleftrightarrow> (\<exists>t \<in> set (tickets d). t_tenant t = tenant \<and> t_id t = tid)"

definition message_insert :: "ident \<Rightarrow> ident \<Rightarrow> ident \<Rightarrow> string \<Rightarrow> (db, thread_row) transaction" where
  "message_insert i tenant tid body s d =
     (case thread_row_of i tenant tid body s of
        Inl e \<Rightarrow> Inl e
      | Inr m \<Rightarrow>
          if \<not> visible_message s d m then Inl policy_error
          else if i \<in> m_id ` set (messages d) then Inl unique_error
          else if \<not> ticket_exists d tenant tid then Inl foreign_key_error
          else case ticket_updateMany (\<lambda>t. t_tenant t = tenant \<and> t_id t = tid) (observe_message m) s
                      (d\<lparr>messages := messages d @ [m]\<rparr>) of
                 Inl e \<Rightarrow> Inl e
               | Inr (n, d') \<Rightarrow> Inr (m, d'))"

definition note_insert :: "ident \<Rightarrow> ident \<Rightarrow> ident \<Rightarrow> string \<Rightarrow> (db, thread_row) transaction" where
  "note_insert i tenant tid body s d =
     (case thread_row_of i tenant tid body s of
        Inl e \<Rightarrow> Inl e
      | Inr m \<Rightarrow>
          if \<not> visible_note s m then Inl policy_error
          else if i \<in> m_id ` set (note_rows d) then Inl unique_error
          else if \<not> ticket_exists d tenant tid then Inl foreign_key_error
          else case ticket_updateMany (\<lambda>t. t_tenant t = tenant \<and> t_id t = tid)
                      (\<lambda>t. t\<lparr>t_last_activity := m_created m\<rparr>) s
                      (d\<lparr>note_rows := note_rows d @ [m]\<rparr>) of
                 Inl e \<Rightarrow> Inl e
               | Inr (n, d') \<Rightarrow> Inr (m, d'))"

end
