(* ===== verification/Ticket_Invariants.thy ===== *)
theory Ticket_Invariants
  imports Database
begin

text \<open>
  What the schema guarantees whichever statement writes it: the facts of one trigger run,
  the invariants of the \<open>ticket\<close> table (identity, linkage, one live ticket per chain, the
  pause clock, references, the audit trail) and that every statement keeps them.
\<close>

section \<open>One trigger run\<close>

lemma audit_inserts_rows:
  assumes "audit_inserts s d tenant vs = Inr rows"
  shows "\<exists>kind i. rows = map (audit_row_of tenant kind i) vs \<and> (vs \<noteq> [] \<longrightarrow> current_actor s = Inr (kind, i))"
  using assms
proof (induction vs arbitrary: rows)
  case (Cons v vs)
  from Cons.prems obtain row rows' where r: "audit_insert s d tenant v = Inr row"
    and rs: "audit_inserts s d tenant vs = Inr rows'" and eq: "rows = row # rows'"
    by (auto split: sum.splits)
  from r obtain kind i where a: "current_actor s = Inr (kind, i)" and "row = audit_row_of tenant kind i v"
    by (auto simp: audit_insert_def Let_def split: sum.splits if_splits)
  with Cons.IH [OF rs] eq show ?case by (cases vs) auto
qed simp

lemma accrue_pause_simps [simp]:
  "t_id (accrue_pause now old new) = t_id new"
  "t_tenant (accrue_pause now old new) = t_tenant new"
  "t_subject (accrue_pause now old new) = t_subject new"
  "t_contact (accrue_pause now old new) = t_contact new"
  "t_assignee (accrue_pause now old new) = t_assignee new"
  "t_state (accrue_pause now old new) = t_state new"
  "t_priority (accrue_pause now old new) = t_priority new"
  "t_source (accrue_pause now old new) = t_source new"
  "t_spawned (accrue_pause now old new) = t_spawned new"
  "t_root (accrue_pause now old new) = t_root new"
  "t_slack_channel (accrue_pause now old new) = t_slack_channel new"
  "t_slack_thread (accrue_pause now old new) = t_slack_thread new"
  "t_first_response (accrue_pause now old new) = t_first_response new"
  "t_first_response_breached (accrue_pause now old new) = t_first_response_breached new"
  "t_resolution_breached (accrue_pause now old new) = t_resolution_breached new"
  "t_created (accrue_pause now old new) = t_created new"
  by (simp_all add: accrue_pause_def Let_def split: option.splits)

lemma keep_latches_simps [simp]:
  "t_id (keep_latches old new) = t_id new"
  "t_tenant (keep_latches old new) = t_tenant new"
  "t_subject (keep_latches old new) = t_subject new"
  "t_contact (keep_latches old new) = t_contact new"
  "t_assignee (keep_latches old new) = t_assignee new"
  "t_state (keep_latches old new) = t_state new"
  "t_priority (keep_latches old new) = t_priority new"
  "t_source (keep_latches old new) = t_source new"
  "t_spawned (keep_latches old new) = t_spawned new"
  "t_root (keep_latches old new) = t_root new"
  "t_slack_channel (keep_latches old new) = t_slack_channel new"
  "t_slack_thread (keep_latches old new) = t_slack_thread new"
  "t_paused_ms (keep_latches old new) = t_paused_ms new"
  "t_pause_started (keep_latches old new) = t_pause_started new"
  "t_created (keep_latches old new) = t_created new"
  by (simp_all add: keep_latches_def)

lemma transition_effect_simps [simp]:
  "t_id (transition_effect now old new) = t_id new"
  "t_tenant (transition_effect now old new) = t_tenant new"
  "t_subject (transition_effect now old new) = t_subject new"
  "t_contact (transition_effect now old new) = t_contact new"
  "t_assignee (transition_effect now old new) = t_assignee new"
  "t_state (transition_effect now old new) = t_state new"
  "t_priority (transition_effect now old new) = t_priority new"
  "t_source (transition_effect now old new) = t_source new"
  "t_spawned (transition_effect now old new) = t_spawned new"
  "t_root (transition_effect now old new) = t_root new"
  "t_slack_channel (transition_effect now old new) = t_slack_channel new"
  "t_slack_thread (transition_effect now old new) = t_slack_thread new"
  "t_first_response (transition_effect now old new) = t_first_response new"
  "t_first_response_breached (transition_effect now old new) = t_first_response_breached new"
  "t_resolution_breached (transition_effect now old new) = t_resolution_breached new"
  "t_created (transition_effect now old new) = t_created new"
  by (simp_all add: transition_effect_def Let_def)

text \<open>
  What the triggers leave of an update: the written values of the plain columns, the old
  ancestry and route, a legal move or none, and the audit rows of exactly that change.
\<close>

definition pause_step :: "millis \<Rightarrow> ticket \<Rightarrow> ticket \<Rightarrow> ticket \<Rightarrow> bool" where
  "pause_step now old new t' \<longleftrightarrow>
     (if t_state new = t_state old
      then t_pause_started t' = t_pause_started new \<and> t_paused_ms t' = t_paused_ms new
      else t_pause_started t' = (if pauses_sla (t_state new) then Some now
             else if t_pause_started old = None then t_pause_started new else None) \<and>
           t_paused_ms t' = (case t_pause_started old of None \<Rightarrow> t_paused_ms new
             | Some began \<Rightarrow> t_paused_ms old + max 0 (now - began)))"

definition row_step :: "session \<Rightarrow> ticket \<Rightarrow> ticket \<Rightarrow> ticket \<Rightarrow> audit_row list \<Rightarrow> bool" where
  "row_step s old new t' rows \<longleftrightarrow>
     t_id t' = t_id new \<and> t_tenant t' = t_tenant new \<and> t_subject t' = t_subject new \<and>
     t_contact t' = t_contact new \<and> t_assignee t' = t_assignee new \<and> t_state t' = t_state new \<and>
     t_priority t' = t_priority new \<and> t_source t' = t_source new \<and>
     t_spawned t' = t_spawned old \<and> t_root t' = t_root old \<and>
     t_slack_channel t' = t_slack_channel old \<and> t_slack_thread t' = t_slack_thread old \<and>
     t_created t' = t_created new \<and>
     (t_state t' = t_state old \<or> ticket_transition_is_legal (t_state old) (t_state t')) \<and>
     (t_state old = TClosed \<longrightarrow> t_priority t' = t_priority old \<and> t_assignee t' = t_assignee old) \<and>
     t_first_response t' = keep_latch (t_first_response old) (t_first_response new) \<and>
     t_first_response_breached t' =
       keep_latch (t_first_response_breached old) (t_first_response_breached new) \<and>
     t_resolution_breached t' = keep_latch (t_resolution_breached old) (t_resolution_breached new) \<and>
     pause_step (s_now s) old new t' \<and>
     visible_ticket s t' \<and>
     (\<exists>kind i. rows = map (audit_row_of (t_tenant new) kind i) (change_entries old t') \<and>
        (change_entries old t' \<noteq> [] \<longrightarrow> current_actor s = Inr (kind, i)))"

lemma change_entries_cong:
  "t_state a = t_state b \<Longrightarrow> t_assignee a = t_assignee b \<Longrightarrow> t_priority a = t_priority b \<Longrightarrow>
   t_id a = t_id b \<Longrightarrow> change_entries old a = change_entries old b"
  by (simp add: change_entries_def)

lemma before_update_row_step:
  assumes "ticket_before_update s d old new = Inr (t', rows)"
  shows "row_step s old new t' rows"
proof -
  from assms have link: "ticket_linkage_on_update old new = Inr new"
    and tr: "ticket_enforce_transition s d old new = Inr (t', rows)" and vis: "visible_ticket s t'"
    by (auto simp: ticket_before_update_def ticket_linkage_on_update_def split: sum.splits if_splits)
  from tr have t': "t' = transition_effect (s_now s) old (keep_latches old new)"
    and ins: "audit_inserts s d (t_tenant new) (change_entries old (keep_latches old new)) = Inr rows"
    and legal: "t_state new = t_state old \<or> ticket_transition_is_legal (t_state old) (t_state new)"
    and lock: "t_state old = TClosed \<longrightarrow> t_priority new = t_priority old \<and> t_assignee new = t_assignee old"
    by (simp_all add: ticket_enforce_transition_def Let_def split: sum.splits if_splits)
  have "change_entries old (keep_latches old new) = change_entries old t'"
    by (rule change_entries_cong) (simp_all add: t')
  with audit_inserts_rows [OF ins] have
    "\<exists>kind i. rows = map (audit_row_of (t_tenant new) kind i) (change_entries old t') \<and>
       (change_entries old t' \<noteq> [] \<longrightarrow> current_actor s = Inr (kind, i))"
    by simp
  note audited = this
  have plain: "t_id t' = t_id new" "t_tenant t' = t_tenant new" "t_subject t' = t_subject new"
    "t_contact t' = t_contact new" "t_assignee t' = t_assignee new" "t_state t' = t_state new"
    "t_priority t' = t_priority new" "t_source t' = t_source new" "t_spawned t' = t_spawned new"
    "t_root t' = t_root new" "t_slack_channel t' = t_slack_channel new"
    "t_slack_thread t' = t_slack_thread new" "t_created t' = t_created new"
    by (simp_all add: t')
  have latches: "t_first_response t' = keep_latch (t_first_response old) (t_first_response new)"
    "t_first_response_breached t' =
       keep_latch (t_first_response_breached old) (t_first_response_breached new)"
    "t_resolution_breached t' = keep_latch (t_resolution_breached old) (t_resolution_breached new)"
    by (simp_all add: t' keep_latches_def)
  have pause: "pause_step (s_now s) old new t'"
    by (simp add: pause_step_def t' transition_effect_def accrue_pause_def Let_def split: option.splits)
  from link have ancestry: "t_spawned new = t_spawned old" "t_root new = t_root old"
    "t_slack_channel new = t_slack_channel old" "t_slack_thread new = t_slack_thread old"
    by (auto simp: ticket_linkage_on_update_def split: if_splits)
  show ?thesis
    unfolding row_step_def
    by (intro conjI audited vis pause) (use plain latches ancestry legal lock in simp_all)
qed

section \<open>One statement\<close>

text \<open>
  No statement of the application writes the key columns, and the pause columns belong to
  the trigger alone.
\<close>

definition stable_write :: "(ticket \<Rightarrow> ticket) \<Rightarrow> bool" where
  "stable_write f \<longleftrightarrow>
     (\<forall>t. t_id (f t) = t_id t \<and> t_tenant (f t) = t_tenant t \<and> t_contact (f t) = t_contact t \<and>
          t_pause_started (f t) = t_pause_started t \<and> t_paused_ms (f t) = t_paused_ms t)"

definition same_key :: "ticket \<Rightarrow> ticket \<Rightarrow> bool" where
  "same_key t t' \<longleftrightarrow>
     t_id t' = t_id t \<and> t_tenant t' = t_tenant t \<and> t_contact t' = t_contact t \<and>
     t_spawned t' = t_spawned t \<and>
     t_root t' = t_root t \<and> t_slack_channel t' = t_slack_channel t \<and>
     t_slack_thread t' = t_slack_thread t"

definition pause_ok :: "ticket \<Rightarrow> bool" where
  "pause_ok t \<longleftrightarrow> (t_pause_started t \<noteq> None) = pauses_sla (t_state t) \<and> 0 \<le> t_paused_ms t"

text \<open>A row before and after a statement.\<close>

definition row_rel ::
  "session \<Rightarrow> (ticket \<Rightarrow> bool) \<Rightarrow> (ticket \<Rightarrow> ticket) \<Rightarrow> ticket \<Rightarrow> ticket \<Rightarrow> bool" where
  "row_rel s sel f t t' \<longleftrightarrow>
     (if visible_ticket s t \<and> sel t then (\<exists>rows. row_step s t (f t) t' rows) else t' = t)"

lemma row_rel_same_key: "row_rel s sel f t t' \<Longrightarrow> stable_write f \<Longrightarrow> same_key t t'"
  by (auto simp: row_rel_def row_step_def same_key_def stable_write_def split: if_splits)

lemma row_rel_pause: "row_rel s sel f t t' \<Longrightarrow> stable_write f \<Longrightarrow> pause_ok t \<Longrightarrow> pause_ok t'"
  by (auto simp: row_rel_def row_step_def pause_step_def pause_ok_def stable_write_def
      split: if_splits option.splits)

lemma update_rows_rel:
  assumes "update_rows s d sel f ts = Inr (n, ts', rows)"
  shows "list_all2 (row_rel s sel f) ts ts' \<and> n = length (filter (\<lambda>t. visible_ticket s t \<and> sel t) ts)"
  using assms
proof (induction ts arbitrary: n ts' rows)
  case (Cons t ts)
  show ?case
  proof (cases "visible_ticket s t \<and> sel t")
    case True
    with Cons.prems obtain t1 r1 m us rs where b: "ticket_before_update s d t (f t) = Inr (t1, r1)"
      and u: "update_rows s d sel f ts = Inr (m, us, rs)" and eq: "n = Suc m" "ts' = t1 # us"
      by (auto split: sum.splits)
    from before_update_row_step [OF b] True have "row_rel s sel f t t1"
      by (auto simp: row_rel_def)
    with Cons.IH [OF u] eq True show ?thesis by simp
  next
    case False
    with Cons.prems obtain us rs where u: "update_rows s d sel f ts = Inr (n, us, rs)"
      and eq: "ts' = t # us"
      by (auto split: sum.splits)
    from Cons.IH [OF u] eq False show ?thesis by (auto simp: row_rel_def)
  qed
qed simp

section \<open>The audit trail replays the state machine\<close>

text \<open>
  Reading one ticket's \<open>ticket.transitioned\<close> rows in order, each entry must start where the
  one before it ended.
\<close>

fun replay_states :: "ident \<Rightarrow> ident \<Rightarrow> string \<Rightarrow> audit_row list \<Rightarrow> string option" where
  "replay_states tenant i cur [] = Some cur"
| "replay_states tenant i cur (r # rs) =
     (if a_action r = ticket_transitioned \<and> a_tenant r = tenant \<and> a_ticket r = Some i then
        (if a_from r = Some cur
         then (case a_to r of None \<Rightarrow> None | Some nxt \<Rightarrow> replay_states tenant i nxt rs) else None)
      else replay_states tenant i cur rs)"

lemma replay_states_append:
  "replay_states tenant i cur (xs @ ys) =
     (case replay_states tenant i cur xs of None \<Rightarrow> None | Some c \<Rightarrow> replay_states tenant i c ys)"
  by (induction xs arbitrary: cur) (auto split: option.splits)

lemma replay_states_skip:
  "(\<And>r. r \<in> set rows \<Longrightarrow> a_action r = ticket_transitioned \<Longrightarrow> a_tenant r = tenant \<Longrightarrow> a_ticket r \<noteq> Some i) \<Longrightarrow>
   replay_states tenant i cur rows = Some cur"
  by (induction rows) auto

lemma audit_row_of_simps [simp]:
  "a_tenant (audit_row_of tenant kind i v) = tenant"
  "a_action (audit_row_of tenant kind i v) = v_action v"
  "a_actor_kind (audit_row_of tenant kind i v) = kind"
  "a_actor_id (audit_row_of tenant kind i v) = i"
  "a_ticket (audit_row_of tenant kind i v) = v_ticket v"
  "a_from (audit_row_of tenant kind i v) = v_from v"
  "a_to (audit_row_of tenant kind i v) = v_to v"
  by (simp_all add: audit_row_of_def)

lemma row_step_rows:
  assumes "row_step s old new t' rows"
  obtains kind i where "rows = map (audit_row_of (t_tenant new) kind i) (change_entries old t')"
    and "t_id t' = t_id new"
  using assms unfolding row_step_def by blast

lemma replay_change_entries:
  "replay_states tenant (t_id t') (state_text (t_state old))
     (map (audit_row_of tenant kind i) (change_entries old t')) = Some (state_text (t_state t'))"
  by (simp add: change_entries_def ticket_audit_values_def)

lemma change_entries_ticket: "v \<in> set (change_entries old t') \<Longrightarrow> v_ticket v = Some (t_id t')"
  by (auto simp: change_entries_def ticket_audit_values_def split: if_splits)

lemma row_step_replay:
  assumes "row_step s old new t' rows"
  shows "replay_states (t_tenant new) (t_id new) (state_text (t_state old)) rows =
           Some (state_text (t_state t'))"
  using assms by (elim row_step_rows) (metis replay_change_entries)

lemma row_step_about:
  assumes "row_step s old new t' rows" and "r \<in> set rows"
  shows "a_tenant r = t_tenant new" and "a_ticket r = Some (t_id new)"
  using assms by (auto elim!: row_step_rows simp: change_entries_ticket)

lemma update_rows_about:
  assumes "update_rows s d sel f ts = Inr (n, ts', rows)" and "r \<in> set rows"
  shows "\<exists>t \<in> set ts. visible_ticket s t \<and> a_tenant r = t_tenant (f t) \<and> a_ticket r = Some (t_id (f t))"
  using assms
proof (induction ts arbitrary: n ts' rows)
  case (Cons t ts)
  show ?case
  proof (cases "visible_ticket s t \<and> sel t")
    case True
    with Cons.prems obtain t1 r1 m us rs where b: "ticket_before_update s d t (f t) = Inr (t1, r1)"
      and u: "update_rows s d sel f ts = Inr (m, us, rs)" and "rows = r1 @ rs"
      by (auto split: sum.splits)
    with Cons.prems(2) Cons.IH [OF u] True row_step_about [OF before_update_row_step [OF b]]
    show ?thesis by auto
  next
    case False
    with Cons.prems obtain us where "update_rows s d sel f ts = Inr (n, us, rows)"
      by (auto split: sum.splits)
    with Cons show ?thesis by auto
  qed
qed simp

lemma update_rows_replay:
  assumes "update_rows s d sel f ts = Inr (n, ts', rows)" and "distinct (map t_id ts)"
    and "stable_write f"
  shows "list_all2 (\<lambda>t t'. replay_states (t_tenant t) (t_id t) (state_text (t_state t)) rows =
           Some (state_text (t_state t'))) ts ts'"
  using assms(1,2)
proof (induction ts arbitrary: n ts' rows)
  case (Cons t ts)
  have key: "t_id (f u) = t_id u" "t_tenant (f u) = t_tenant u" for u
    using assms(3) by (simp_all add: stable_write_def)
  have others: "a_ticket r \<noteq> Some (t_id t)"
    if "update_rows s d sel f ts = Inr (m, us, rs)" and "r \<in> set rs" for m us rs r
    using update_rows_about [OF that] Cons.prems(2) by (auto simp: key)
  show ?case
  proof (cases "visible_ticket s t \<and> sel t")
    case True
    with Cons.prems obtain t1 r1 m us rs where b: "ticket_before_update s d t (f t) = Inr (t1, r1)"
      and u: "update_rows s d sel f ts = Inr (m, us, rs)" and eq: "ts' = t1 # us" "rows = r1 @ rs"
      by (auto split: sum.splits)
    note step = before_update_row_step [OF b]
    have skip: "replay_states (t_tenant t) (t_id t) c rs = Some c" for c
      using others [OF u] by (intro replay_states_skip) auto
    have "replay_states (t_tenant v) (t_id v) c r1 = Some c" if "v \<in> set ts" for v c
      using that Cons.prems(2) row_step_about(2) [OF step]
      by (intro replay_states_skip) (auto simp: key)
    with Cons.IH [OF u] Cons.prems(2)
    have "list_all2 (\<lambda>t t'. replay_states (t_tenant t) (t_id t) (state_text (t_state t)) rows =
           Some (state_text (t_state t'))) ts us"
      by (auto simp: eq replay_states_append list_all2_conv_all_nth)
    then show ?thesis
      using row_step_replay [OF step] skip by (simp add: eq replay_states_append key)
  next
    case False
    with Cons.prems obtain us where u: "update_rows s d sel f ts = Inr (n, us, rows)"
      and eq: "ts' = t # us"
      by (auto split: sum.splits)
    have "replay_states (t_tenant t) (t_id t) c rows = Some c" for c
      using others [OF u] by (intro replay_states_skip) auto
    with Cons.IH [OF u] Cons.prems(2) eq show ?thesis by simp
  qed
qed simp

section \<open>The invariant of the ticket table\<close>

text \<open>
  A spawned ticket names a parent of its own tenant, carries that parent's root and its
  reply route; a root is always an origin.
\<close>

definition linked :: "ticket list \<Rightarrow> ticket \<Rightarrow> bool" where
  "linked ts t \<longleftrightarrow>
     (case t_spawned t of
        None \<Rightarrow> t_root t = None
      | Some p \<Rightarrow> (\<exists>q \<in> set ts. t_id q = p \<and> t_tenant q = t_tenant t \<and> t_root t = Some (chainRootOf q) \<and>
                     t_slack_channel t = t_slack_channel q \<and> t_slack_thread t = t_slack_thread q)) \<and>
     (case t_root t of
        None \<Rightarrow> True
      | Some r \<Rightarrow> (\<exists>q \<in> set ts. t_id q = r \<and> t_tenant q = t_tenant t \<and> t_root q = None))"

definition trail_ok :: "db \<Rightarrow> bool" where
  "trail_ok d \<longleftrightarrow>
     (\<forall>t \<in> set (tickets d).
        replay_states (t_tenant t) (t_id t) ''open'' (audit d) = Some (state_text (t_state t))) \<and>
     (\<forall>r \<in> set (audit d). a_action r = ticket_transitioned \<longrightarrow>
        (\<exists>t \<in> set (tickets d). a_tenant r = t_tenant t \<and> a_ticket r = Some (t_id t)))"

definition ticket_inv :: "db \<Rightarrow> bool" where
  "ticket_inv d \<longleftrightarrow>
     distinct (map t_id (tickets d)) \<and>
     (\<forall>t \<in> set (tickets d). linked (tickets d) t) \<and>
     (\<forall>t \<in> set (tickets d). pause_ok t) \<and>
     (\<forall>t \<in> set (tickets d). slack_route_is_whole t) \<and>
     one_live_per_chain (tickets d) \<and> one_live_per_slack_thread (tickets d) \<and>
     list_all (references_ok d) (tickets d) \<and>
     trail_ok d"

definition empty_db :: db where
  "empty_db = \<lparr>contacts = [], users = [], tickets = [], messages = [], note_rows = [], audit = [],
     deliveries = [], jobs = []\<rparr>"

lemma ticket_inv_empty: "ticket_inv empty_db"
  by (simp add: ticket_inv_def empty_db_def trail_ok_def one_live_per_chain_def
      one_live_per_slack_thread_def)

lemma list_all2_ex1: "list_all2 R xs ys \<Longrightarrow> y \<in> set ys \<Longrightarrow> \<exists>x \<in> set xs. R x y"
  by (metis in_set_conv_nth list_all2_conv_all_nth)

lemma list_all2_ex2: "list_all2 R xs ys \<Longrightarrow> x \<in> set xs \<Longrightarrow> \<exists>y \<in> set ys. R x y"
  by (metis in_set_conv_nth list_all2_conv_all_nth)

lemma same_key_chainRoot: "same_key t t' \<Longrightarrow> chainRootOf t' = chainRootOf t"
  by (simp add: same_key_def chainRootOf_def split: option.split)

lemma linked_same_key:
  assumes "list_all2 same_key ts ts'" and "linked ts t" and "same_key t t'"
  shows "linked ts' t'"
proof -
  have ex: "\<exists>q' \<in> set ts'. same_key q q'" if "q \<in> set ts" for q
    using list_all2_ex2 [OF assms(1) that] .
  have eq: "t_spawned t' = t_spawned t" "t_root t' = t_root t" "t_tenant t' = t_tenant t"
    "t_slack_channel t' = t_slack_channel t" "t_slack_thread t' = t_slack_thread t"
    using assms(3) by (simp_all add: same_key_def)
  have "\<exists>q' \<in> set ts'. t_id q' = p \<and> t_tenant q' = t_tenant t' \<and> t_root t' = Some (chainRootOf q') \<and>
      t_slack_channel t' = t_slack_channel q' \<and> t_slack_thread t' = t_slack_thread q'"
    if "t_spawned t' = Some p" for p
  proof -
    from that assms(2) eq obtain q where "q \<in> set ts" "t_id q = p" "t_tenant q = t_tenant t"
      "t_root t = Some (chainRootOf q)" "t_slack_channel t = t_slack_channel q"
      "t_slack_thread t = t_slack_thread q"
      by (auto simp: linked_def)
    with ex [of q] show ?thesis
      by (auto simp: eq same_key_def chainRootOf_def intro!: bexI split: option.splits)
  qed
  moreover have "\<exists>q' \<in> set ts'. t_id q' = r \<and> t_tenant q' = t_tenant t' \<and> t_root q' = None"
    if "t_root t' = Some r" for r
  proof -
    from that assms(2) eq obtain q where "q \<in> set ts" "t_id q = r" "t_tenant q = t_tenant t" "t_root q = None"
      by (auto simp: linked_def)
    with ex [of q] show ?thesis by (auto simp: eq same_key_def)
  qed
  moreover have "t_root t' = None" if "t_spawned t' = None"
    using that assms(2) by (simp add: eq linked_def)
  ultimately show ?thesis
    unfolding linked_def by (cases "t_spawned t'"; cases "t_root t'") simp_all
qed

lemma list_all2_both: "list_all2 P xs ys \<Longrightarrow> list_all2 Q xs ys \<Longrightarrow> list_all2 (\<lambda>x y. P x y \<and> Q x y) xs ys"
  by (simp add: list_all2_conv_all_nth)

lemma map_id_same_key: "list_all2 same_key ts ts' \<Longrightarrow> map t_id ts' = map t_id ts"
  by (induction rule: list_all2_induct) (auto simp: same_key_def)

lemma trail_update:
  assumes "trail_ok d" and "distinct (map t_id (tickets d))" and "stable_write f"
    and u: "update_rows s d sel f (tickets d) = Inr (n, ts, rows)"
    and keys: "list_all2 same_key (tickets d) ts"
  shows "trail_ok (d\<lparr>tickets := ts, audit := audit d @ rows\<rparr>)"
proof -
  note rp = update_rows_replay [OF u assms(2,3)]
  have "replay_states (t_tenant t') (t_id t') ''open'' (audit d @ rows) = Some (state_text (t_state t'))"
    if t': "t' \<in> set ts" for t'
  proof -
    from list_all2_ex1 [OF list_all2_both [OF keys rp] t'] obtain t where "t \<in> set (tickets d)" "same_key t t'"
      "replay_states (t_tenant t) (t_id t) (state_text (t_state t)) rows = Some (state_text (t_state t'))"
      by blast
    with assms(1) show ?thesis by (simp add: trail_ok_def replay_states_append same_key_def)
  qed
  moreover have "\<exists>t' \<in> set ts. a_tenant r = t_tenant t' \<and> a_ticket r = Some (t_id t')"
    if r: "r \<in> set (audit d @ rows)" and a: "a_action r = ticket_transitioned" for r
  proof -
    have "\<exists>t \<in> set (tickets d). a_tenant r = t_tenant t \<and> a_ticket r = Some (t_id t)"
    proof (cases "r \<in> set (audit d)")
      case True
      with a assms(1) show ?thesis by (auto simp: trail_ok_def)
    next
      case False
      with r update_rows_about [OF u] assms(3) show ?thesis by (auto simp: stable_write_def)
    qed
    then obtain t where "t \<in> set (tickets d)" "a_tenant r = t_tenant t" "a_ticket r = Some (t_id t)"
      by blast
    with list_all2_ex2 [OF keys, of t] show ?thesis unfolding same_key_def by metis
  qed
  ultimately show ?thesis by (simp add: trail_ok_def)
qed

lemma updateMany_parts:
  assumes "ticket_updateMany sel f s d = Inr (n, d')"
  obtains ts rows where "update_rows s d sel f (tickets d) = Inr (n, ts, rows)"
    and "d' = d\<lparr>tickets := ts, audit := audit d @ rows\<rparr>"
    and "one_live_per_chain ts" and "one_live_per_slack_thread ts" and "list_all (references_ok d) ts"
    and "list_all slack_route_is_whole ts"
  using assms by (auto simp: ticket_updateMany_def split: sum.splits if_splits)

lemma updateMany_rel:
  assumes "ticket_updateMany sel f s d = Inr (n, d')"
  shows "list_all2 (row_rel s sel f) (tickets d) (tickets d')"
    and "n = length (filter (\<lambda>t. visible_ticket s t \<and> sel t) (tickets d))"
  using assms by (auto elim!: updateMany_parts dest: update_rows_rel)

lemma references_ok_frame [simp]:
  "references_ok (d\<lparr>tickets := ts\<rparr>) t = references_ok d t"
  "references_ok (d\<lparr>tickets := ts, audit := rows\<rparr>) t = references_ok d t"
  "references_ok (d\<lparr>audit := rows\<rparr>) t = references_ok d t"
  "references_ok (d\<lparr>messages := ms\<rparr>) t = references_ok d t"
  "references_ok (d\<lparr>note_rows := ms\<rparr>) t = references_ok d t"
  by (simp_all add: references_ok_def split: option.split)

lemma updateMany_inv [inv_intros]:
  assumes inv: "ticket_inv d" and upd: "ticket_updateMany sel f s d = Inr (n, d')"
    and st: "stable_write f"
  shows "ticket_inv d'"
proof -
  from upd obtain ts rows where u: "update_rows s d sel f (tickets d) = Inr (n, ts, rows)"
    and d': "d' = d\<lparr>tickets := ts, audit := audit d @ rows\<rparr>"
    and ok: "one_live_per_chain ts" "one_live_per_slack_thread ts" "list_all (references_ok d) ts"
      "list_all slack_route_is_whole ts"
    by (rule updateMany_parts)
  have rel: "list_all2 (row_rel s sel f) (tickets d) ts" using update_rows_rel [OF u] by simp
  have keys: "list_all2 same_key (tickets d) ts"
    using rel by (rule list_all2_mono) (rule row_rel_same_key [OF _ st])
  have "linked ts t'" if "t' \<in> set ts" for t'
    using list_all2_ex1 [OF keys that] linked_same_key [OF keys] inv by (auto simp: ticket_inv_def)
  moreover have "pause_ok t'" if "t' \<in> set ts" for t'
    using list_all2_ex1 [OF rel that] row_rel_pause [OF _ st] inv by (auto simp: ticket_inv_def)
  moreover have "trail_ok d'"
    unfolding d' using inv u keys st by (intro trail_update) (simp_all add: ticket_inv_def)
  ultimately show ?thesis
    using ok inv map_id_same_key [OF keys] by (simp add: ticket_inv_def d' list_all_iff)
qed

section \<open>The other statements\<close>

lemma insert_parts:
  assumes "ticket_insert new s d = Inr (t, d')"
  obtains "ticket_linkage_on_insert s d new = Inr t" and "t_state new = TOpen"
    and "visible_ticket s t" and "t_id t \<notin> t_id ` set (tickets d)"
    and "one_live_per_chain (tickets d @ [t])" and "one_live_per_slack_thread (tickets d @ [t])"
    and "references_ok d t" and "slack_route_is_whole t" and "d' = d\<lparr>tickets := tickets d @ [t]\<rparr>"
  using assms by (auto simp: ticket_insert_def Let_def split: if_splits sum.splits)

lemma linkage_on_insert_simps:
  assumes "ticket_linkage_on_insert s d new = Inr t"
  shows "t_id t = t_id new" "t_tenant t = t_tenant new" "t_state t = t_state new"
    "t_contact t = t_contact new" "t_assignee t = t_assignee new" "t_priority t = t_priority new"
    "t_subject t = t_subject new" "t_source t = t_source new" "t_spawned t = t_spawned new"
    "t_pause_started t = t_pause_started new" "t_paused_ms t = t_paused_ms new"
  using assms by (auto simp: ticket_linkage_on_insert_def split: option.splits)

lemma linked_snoc: "linked ts t \<Longrightarrow> linked (ts @ us) t"
  unfolding linked_def by (cases "t_spawned t"; cases "t_root t") auto

lemma linkage_on_insert_linked:
  assumes "ticket_linkage_on_insert s d new = Inr t" and "\<forall>q \<in> set (tickets d). linked (tickets d) q"
  shows "linked (tickets d) t"
proof (cases "t_spawned new")
  case None
  with assms(1) show ?thesis by (auto simp: ticket_linkage_on_insert_def linked_def)
next
  case (Some p)
  with assms(1) obtain q where q: "q \<in> set (tickets d)" "t_tenant q = t_tenant new" "t_id q = p"
    and t: "t = new\<lparr>t_root := Some (case t_root q of None \<Rightarrow> p | Some r \<Rightarrow> r),
              t_slack_channel := t_slack_channel q, t_slack_thread := t_slack_thread q\<rparr>"
    by (auto simp: ticket_linkage_on_insert_def dest!: find_SomeD split: option.splits(1,2))
  have root: "t_root t = Some (chainRootOf q)"
    using q t by (simp add: chainRootOf_def split: option.split)
  have "\<exists>o' \<in> set (tickets d). t_id o' = chainRootOf q \<and> t_tenant o' = t_tenant new \<and> t_root o' = None"
    using q assms(2) by (cases "t_root q") (auto simp: chainRootOf_def linked_def)
  with Some q t root show ?thesis by (auto simp: linked_def)
qed

lemma insert_inv [inv_intros]:
  assumes inv: "ticket_inv d" and ins: "ticket_insert new s d = Inr (t, d')"
    and clock: "t_pause_started new = None" "0 \<le> t_paused_ms new"
  shows "ticket_inv d'"
proof -
  from ins have link: "ticket_linkage_on_insert s d new = Inr t" and opn: "t_state new = TOpen"
    and fresh: "t_id t \<notin> t_id ` set (tickets d)"
    and ok: "one_live_per_chain (tickets d @ [t])" "one_live_per_slack_thread (tickets d @ [t])"
      "references_ok d t" "slack_route_is_whole t"
    and d': "d' = d\<lparr>tickets := tickets d @ [t]\<rparr>"
    by (auto elim: insert_parts)
  note same = linkage_on_insert_simps [OF link]
  have "linked (tickets d @ [t]) q" if "q \<in> set (tickets d @ [t])" for q
    using that inv linkage_on_insert_linked [OF link] by (auto simp: ticket_inv_def intro: linked_snoc)
  moreover have "pause_ok t" using opn clock same by (simp add: pause_ok_def pauses_sla_def)
  moreover have "replay_states (t_tenant t) (t_id t) ''open'' (audit d) = Some ''open''"
  proof (rule replay_states_skip)
    fix r assume "r \<in> set (audit d)" "a_action r = ticket_transitioned"
    with inv obtain q where "q \<in> set (tickets d)" "a_ticket r = Some (t_id q)"
      unfolding ticket_inv_def trail_ok_def by blast
    with fresh show "a_ticket r \<noteq> Some (t_id t)" by (metis imageI option.inject)
  qed
  ultimately show ?thesis
    using inv ok fresh opn same by (auto simp: ticket_inv_def d' trail_ok_def list_all_iff)
qed

lemma audit_record_inv [inv_intros]:
  assumes "ticket_inv d" and "audit_record v s d = Inr (u, d')" and "v_action v \<noteq> ticket_transitioned"
  shows "ticket_inv d'"
proof -
  from assms(2) obtain kind i where d': "d' = d\<lparr>audit := audit d @ [audit_row_of (s_tenant s) kind i v]\<rparr>"
    by (auto simp: audit_record_def audit_insert_def Let_def split: sum.splits if_splits)
  have "replay_states tenant tid c [audit_row_of (s_tenant s) kind i v] = Some c" for tenant tid c
    using assms(3) by simp
  then show ?thesis
    using assms(1,3) by (auto simp: ticket_inv_def trail_ok_def d' replay_states_append list_all_iff)
qed

lemma inv_frame:
  assumes "ticket_inv d" and "tickets d' = tickets d" and "audit d' = audit d"
    and "set (contacts d) \<subseteq> set (contacts d')" and "set (users d) \<subseteq> set (users d')"
  shows "ticket_inv d'"
  using assms by (auto simp: ticket_inv_def trail_ok_def list_all_iff references_ok_def split: option.splits)

lemma stable_observe [simp]:
  "stable_write (observe_message m)" "stable_write (\<lambda>t. t\<lparr>t_last_activity := x\<rparr>)"
  by (simp_all add: stable_write_def observe_message_def)

lemma message_insert_inv [inv_intros]:
  assumes "ticket_inv d" and "message_insert i tenant tid body s d = Inr (m, d')"
  shows "ticket_inv d'"
proof -
  from assms(2) obtain n where "ticket_updateMany (\<lambda>t. t_tenant t = tenant \<and> t_id t = tid)
      (observe_message m) s (d\<lparr>messages := messages d @ [m]\<rparr>) = Inr (n, d')"
    by (auto simp: message_insert_def split: sum.splits if_splits)
  moreover have "ticket_inv (d\<lparr>messages := messages d @ [m]\<rparr>)"
    using assms(1) by (rule inv_frame) simp_all
  ultimately show ?thesis by (blast intro: updateMany_inv stable_observe)
qed

lemma note_insert_inv [inv_intros]:
  assumes "ticket_inv d" and "note_insert i tenant tid body s d = Inr (m, d')"
  shows "ticket_inv d'"
proof -
  from assms(2) obtain n where "ticket_updateMany (\<lambda>t. t_tenant t = tenant \<and> t_id t = tid)
      (\<lambda>t. t\<lparr>t_last_activity := m_created m\<rparr>) s (d\<lparr>note_rows := note_rows d @ [m]\<rparr>) = Inr (n, d')"
    by (auto simp: note_insert_def split: sum.splits if_splits)
  moreover have "ticket_inv (d\<lparr>note_rows := note_rows d @ [m]\<rparr>)"
    using assms(1) by (rule inv_frame) simp_all
  ultimately show ?thesis by (blast intro: updateMany_inv stable_observe)
qed

end
