(* ===== verification/Rooms.thy ===== *)
theory Rooms
  imports Authz
begin

text \<open>
  The vocabulary of the socket surface (\<open>src/src/realtime\<close>): who may hold a socket, the
  published events with their audiences, the room grammar, the join verdict and the shape
  check on a \<open>subscribe\<close> frame.
\<close>

section \<open>Principals on the socket\<close>

definition isStaff :: "request_principal \<Rightarrow> bool" where
  "isStaff p \<longleftrightarrow> kindOf p = user_kind"

definition realtimePrincipalOf :: "request_principal \<Rightarrow> request_principal option" where
  "realtimePrincipalOf p = (if kindOf p = service_kind then None else Some p)"

section \<open>Events and audiences\<close>

datatype realtime_event =
    EvTicketCreated | EvTicketUpdated | EvTicketAssigned | EvMessageCreated | EvNoteCreated
  | EvSlaBreached | EvIntegrationFailed

datatype audience = AudAll | AudStaff

fun audienceOf :: "realtime_event \<Rightarrow> audience" where
  "audienceOf EvTicketCreated = AudAll"
| "audienceOf EvTicketUpdated = AudAll"
| "audienceOf EvTicketAssigned = AudAll"
| "audienceOf EvMessageCreated = AudAll"
| "audienceOf EvNoteCreated = AudStaff"
| "audienceOf EvSlaBreached = AudStaff"
| "audienceOf EvIntegrationFailed = AudStaff"

definition canReceive :: "request_principal \<Rightarrow> realtime_event \<Rightarrow> bool" where
  "canReceive p e \<longleftrightarrow> audienceOf e = AudAll \<or> isStaff p"

section \<open>The room grammar\<close>

definition ROOM_PREFIX :: string where "ROOM_PREFIX = ''t:''"

datatype room =
    AgentsRoom (room_tenant: ident)
  | TicketRoom (room_tenant: ident) ident
  | InternalRoom (room_tenant: ident) ident

definition agentsRoom :: "ident \<Rightarrow> string" where
  "agentsRoom tenant = ROOM_PREFIX @ tenant @ '':agents''"

definition ticketRoom :: "ident \<Rightarrow> ident \<Rightarrow> string" where
  "ticketRoom tenant i = ROOM_PREFIX @ tenant @ '':ticket:'' @ i"

definition internalRoom :: "ident \<Rightarrow> ident \<Rightarrow> string" where
  "internalRoom tenant i = ROOM_PREFIX @ tenant @ '':ticket:'' @ i @ '':internal''"

fun room_name :: "room \<Rightarrow> string" where
  "room_name (AgentsRoom tenant) = agentsRoom tenant"
| "room_name (TicketRoom tenant i) = ticketRoom tenant i"
| "room_name (InternalRoom tenant i) = internalRoom tenant i"

definition room_of_segments :: "ident \<Rightarrow> string list \<Rightarrow> room option" where
  "room_of_segments tenant rest =
     (if \<not> is_uuid tenant then None
      else if rest = [''agents''] then Some (AgentsRoom tenant)
      else case rest of
        first # i # extra \<Rightarrow>
          if first \<noteq> ''ticket'' then None
          else if \<not> is_uuid i then None
          else if extra = [] then Some (TicketRoom tenant i)
          else if extra = [''internal''] then Some (InternalRoom tenant i)
          else None
      | _ \<Rightarrow> None)"

definition parseRoom :: "string \<Rightarrow> room option" where
  "parseRoom name =
     (if \<not> starts_with ROOM_PREFIX name then None
      else case split_on (CHR '':'') (drop (length ROOM_PREFIX) name) of
        tenant # rest \<Rightarrow> room_of_segments tenant rest
      | [] \<Rightarrow> None)"

section \<open>The join verdict\<close>

datatype join_verdict = JoinAllow | JoinDeny | RequiresRequesterMatch

definition canJoin :: "request_principal \<Rightarrow> string \<Rightarrow> join_verdict" where
  "canJoin p name =
     (case parseRoom name of
        None \<Rightarrow> JoinDeny
      | Some r \<Rightarrow>
          if room_tenant r \<noteq> tenantOf p then JoinDeny
          else if isStaff p then JoinAllow
          else case r of
            AgentsRoom _ \<Rightarrow> JoinDeny
          | InternalRoom _ _ \<Rightarrow> JoinDeny
          | TicketRoom _ _ \<Rightarrow> RequiresRequesterMatch)"

section \<open>Frames\<close>

definition parseRoomName :: "json \<Rightarrow> string option" where
  "parseRoomName body =
     (case body of
        JObj _ \<Rightarrow> (case json_field body ''room'' of
                      Some (JStr room) \<Rightarrow> if room \<noteq> [] then Some room else None
                    | _ \<Rightarrow> None)
      | _ \<Rightarrow> None)"

definition parseSubscribe :: "json \<Rightarrow> (string \<times> nat) option" where
  "parseSubscribe body =
     (case body of
        JObj _ \<Rightarrow>
          (case json_field body ''room'' of
             Some (JStr room) \<Rightarrow>
               if room = [] then None
               else (case json_field body ''afterSeq'' of
                       None \<Rightarrow> Some (room, 0)
                     | Some (JNum n) \<Rightarrow>
                         (case n of
                            JInt k \<Rightarrow> if is_safe_integer n \<and> 0 \<le> k then Some (room, nat k) else None
                          | JFrac \<Rightarrow> None)
                     | Some _ \<Rightarrow> None)
           | _ \<Rightarrow> None)
      | _ \<Rightarrow> None)"

section \<open>Lemmas\<close>

fun wf_room :: "room \<Rightarrow> bool" where
  "wf_room (AgentsRoom tenant) = is_uuid tenant"
| "wf_room (TicketRoom tenant i) = (is_uuid tenant \<and> is_uuid i)"
| "wf_room (InternalRoom tenant i) = (is_uuid tenant \<and> is_uuid i)"

definition room_segments :: "room \<Rightarrow> string list" where
  "room_segments r = (case r of
       AgentsRoom tenant \<Rightarrow> [tenant, ''agents'']
     | TicketRoom tenant i \<Rightarrow> [tenant, ''ticket'', i]
     | InternalRoom tenant i \<Rightarrow> [tenant, ''ticket'', i, ''internal''])"

lemma room_name_segments: "room_name r = ROOM_PREFIX @ join_with '':'' (room_segments r)"
  by (cases r) (simp_all add: agentsRoom_def ticketRoom_def internalRoom_def room_segments_def)

lemma split_on_join_parts:
  "ws \<noteq> [] \<Longrightarrow> \<forall>w \<in> set ws. c \<notin> set w \<Longrightarrow> split_on c (join_with [c] ws) = ws"
  by (induction ws rule: induct_list012) (auto simp: split_on_no_sep split_on_append_sep)

lemma room_of_segments_iff:
  "room_of_segments tenant rest = Some r \<longleftrightarrow> wf_room r \<and> tenant # rest = room_segments r"
proof
  assume "room_of_segments tenant rest = Some r"
  then show "wf_room r \<and> tenant # rest = room_segments r"
    by (auto simp: room_of_segments_def room_segments_def split: if_splits list.splits)
next
  assume "wf_room r \<and> tenant # rest = room_segments r"
  then show "room_of_segments tenant rest = Some r"
    by (cases r) (auto simp: room_of_segments_def room_segments_def)
qed

lemma parse_room_name_of: "wf_room r \<Longrightarrow> parseRoom (room_name r) = Some r"
proof -
  assume wf: "wf_room r"
  have "\<forall>w \<in> set (room_segments r). CHR '':'' \<notin> set w"
    using wf by (cases r) (auto simp: room_segments_def is_uuid_no_colon)
  moreover obtain tenant rest where seg: "room_segments r = tenant # rest"
    by (cases r) (simp_all add: room_segments_def)
  ultimately have "split_on (CHR '':'') (join_with '':'' (room_segments r)) = tenant # rest"
    by (simp add: split_on_join_parts)
  moreover have "room_of_segments tenant rest = Some r"
    using wf seg by (simp add: room_of_segments_iff)
  ultimately show ?thesis by (simp add: parseRoom_def room_name_segments)
qed

lemma parse_room_sound: "parseRoom name = Some r \<Longrightarrow> wf_room r \<and> name = room_name r"
proof -
  assume p: "parseRoom name = Some r"
  then obtain tenant rest where pre: "starts_with ROOM_PREFIX name"
    and sp: "split_on (CHR '':'') (drop (length ROOM_PREFIX) name) = tenant # rest"
    and r: "room_of_segments tenant rest = Some r"
    by (auto simp: parseRoom_def split: if_splits list.splits)
  from r have wf: "wf_room r" and seg: "tenant # rest = room_segments r"
    by (simp_all add: room_of_segments_iff)
  have "name = ROOM_PREFIX @ join_with '':'' (room_segments r)"
    using starts_with_drop [OF pre] split_on_join [of "CHR '':''" "drop (length ROOM_PREFIX) name"] sp seg
    by simp
  with wf show ?thesis by (simp add: room_name_segments)
qed

lemma parse_room_iff: "parseRoom name = Some r \<longleftrightarrow> wf_room r \<and> name = room_name r"
  using parse_room_name_of parse_room_sound by blast

lemma room_name_inj: "wf_room r \<Longrightarrow> wf_room r' \<Longrightarrow> room_name r = room_name r' \<Longrightarrow> r = r'"
  by (metis option.inject parse_room_name_of)

lemma canJoin_tenant:
  assumes "canJoin p name \<noteq> JoinDeny"
  shows "\<exists>r. parseRoom name = Some r \<and> room_tenant r = tenantOf p"
  using assms by (auto simp: canJoin_def split: option.splits if_splits)

lemma canJoin_customer:
  assumes "\<not> isStaff p" and "canJoin p name \<noteq> JoinDeny"
  shows "canJoin p name = RequiresRequesterMatch \<and> (\<exists>i. parseRoom name = Some (TicketRoom (tenantOf p) i))"
  using assms by (auto simp: canJoin_def split: option.splits if_splits room.splits)

text \<open>
  The room grammar is unambiguous: a name parses to a room exactly when it is the name the
  builders print for that room and every identifier in it is a uuid, so no identifier can
  smuggle a segment into a name.
\<close>

theorem room_grammar: "parseRoom name = Some r \<longleftrightarrow> wf_room r \<and> name = room_name r"
  by (rule parse_room_iff)

end
