(* ===== verification/Event_Log.thy ===== *)
theory Event_Log
  imports Rooms
begin

text \<open>
  \<open>src/src/realtime/event-log.ts\<close>: per-room sequence numbers, a bounded buffer per room, a
  bounded number of rooms evicted least recently written first, and the high-water mark
  that keeps a resurrected room's numbers above its own past. The \<open>Map\<close> of rooms is an
  association list in insertion order.

  The interface the gateway relies on is the locale \<open>sequenced_log\<close>: it relates a log to
  the whole history of each room, which the program itself never keeps.
\<close>

section \<open>State\<close>

record 'd envelope =
  ev_event :: realtime_event
  ev_room :: string
  ev_seq :: nat
  ev_ts :: millis
  ev_data :: 'd

record 'd room_log =
  rl_head :: nat
  rl_buffer :: "'d envelope list"

record 'd event_log =
  el_retain :: nat
  el_max_rooms :: nat
  el_rooms :: "(string \<times> 'd room_log) list"
  el_evicted :: nat

definition RETAIN_PER_ROOM :: nat where "RETAIN_PER_ROOM = 200"
definition MAX_ROOMS :: nat where "MAX_ROOMS = 2000"

definition new_event_log :: "nat option \<Rightarrow> nat option \<Rightarrow> 'd event_log" where
  "new_event_log retain rooms =
     \<lparr>el_retain = (case retain of None \<Rightarrow> RETAIN_PER_ROOM | Some n \<Rightarrow> n),
      el_max_rooms = (case rooms of None \<Rightarrow> MAX_ROOMS | Some n \<Rightarrow> n),
      el_rooms = [], el_evicted = 0\<rparr>"

section \<open>Operations\<close>

definition evict_oldest :: "'d event_log \<Rightarrow> 'd event_log" where
  "evict_oldest l =
     (if el_max_rooms l \<le> length (el_rooms l) then
        (case el_rooms l of
           [] \<Rightarrow> l
         | (oldest, log) # rest \<Rightarrow>
             l\<lparr>el_evicted := max (el_evicted l) (rl_head log),
               el_rooms := AList.delete oldest (el_rooms l)\<rparr>)
      else l)"

definition touch :: "string \<Rightarrow> 'd event_log \<Rightarrow> 'd room_log \<times> 'd event_log" where
  "touch r l =
     (case map_of (el_rooms l) r of
        Some existing \<Rightarrow>
          (existing, l\<lparr>el_rooms := AList.update r existing (AList.delete r (el_rooms l))\<rparr>)
      | None \<Rightarrow>
          (let l1 = evict_oldest l;
               fresh = \<lparr>rl_head = el_evicted l1, rl_buffer = []\<rparr>
           in (fresh, l1\<lparr>el_rooms := AList.update r fresh (el_rooms l1)\<rparr>)))"

text \<open>
  \<open>append\<close> mutates the log object that \<open>touch\<close> handed out, which is the one stored under
  the room's key.
\<close>

definition log_append ::
  "string \<Rightarrow> realtime_event \<Rightarrow> millis \<Rightarrow> 'd \<Rightarrow> 'd event_log \<Rightarrow> 'd envelope \<times> 'd event_log" where
  "log_append r event ts data l =
     (case touch r l of (log, l1) \<Rightarrow>
        (let seq = Suc (rl_head log);
             env = \<lparr>ev_event = event, ev_room = r, ev_seq = seq, ev_ts = ts, ev_data = data\<rparr>;
             pushed = rl_buffer log @ [env];
             kept = (if el_retain l1 < length pushed then tl pushed else pushed)
         in (env, l1\<lparr>el_rooms := AList.update r \<lparr>rl_head = seq, rl_buffer = kept\<rparr> (el_rooms l1)\<rparr>)))"

definition log_replay ::
  "request_principal \<Rightarrow> string \<Rightarrow> nat \<Rightarrow> 'd event_log \<Rightarrow> 'd envelope list \<times> bool" where
  "log_replay p r afterSeq l =
     (case map_of (el_rooms l) r of
        None \<Rightarrow> ([], 0 < afterSeq)
      | Some log \<Rightarrow>
          (filter (\<lambda>e. afterSeq < ev_seq e \<and> canReceive p (ev_event e)) (rl_buffer log),
           0 < afterSeq \<and>
           (case rl_buffer log of [] \<Rightarrow> True | e # _ \<Rightarrow> Suc afterSeq < ev_seq e)))"

section \<open>The interface\<close>

locale sequenced_log =
  fixes start :: 'l
    and push :: "string \<Rightarrow> realtime_event \<Rightarrow> millis \<Rightarrow> 'd \<Rightarrow> 'l \<Rightarrow> 'd envelope \<times> 'l"
    and missed :: "request_principal \<Rightarrow> string \<Rightarrow> nat \<Rightarrow> 'l \<Rightarrow> 'd envelope list \<times> bool"
    and invar :: "'l \<Rightarrow> (string \<Rightarrow> 'd envelope list) \<Rightarrow> bool"
  assumes invar_start: "invar start (\<lambda>_. [])"
    and push_fields: "push r k ts x l = (env, l') \<Longrightarrow> ev_room env = r \<and> ev_event env = k \<and> ev_data env = x"
    and invar_push: "invar l h \<Longrightarrow> push r k ts x l = (env, l') \<Longrightarrow> invar l' (h(r := h r @ [env]))"
    and increasing: "invar l h \<Longrightarrow> sorted_wrt (<) (map ev_seq (h r))"
    and missed_sound: "invar l h \<Longrightarrow> missed p r c l = (evs, g) \<Longrightarrow> e \<in> set evs \<Longrightarrow>
      e \<in> set (h r) \<and> c < ev_seq e \<and> canReceive p (ev_event e)"
    and missed_complete: "invar l h \<Longrightarrow> missed p r c l = (evs, False) \<Longrightarrow> 0 < c \<Longrightarrow>
      evs = filter (\<lambda>e. c < ev_seq e \<and> canReceive p (ev_event e)) (h r)"
begin

fun publish_all ::
  "(string \<times> realtime_event \<times> millis \<times> 'd) list \<Rightarrow> 'l \<times> (string \<Rightarrow> 'd envelope list) \<Rightarrow>
   'l \<times> (string \<Rightarrow> 'd envelope list)" where
  "publish_all [] st = st"
| "publish_all ((r, e, ts, x) # ps) (l, h) =
     (case push r e ts x l of (env, l') \<Rightarrow> publish_all ps (l', h(r := h r @ [env])))"

lemma publish_all_invar:
  "invar (fst st) (snd st) \<Longrightarrow> invar (fst (publish_all ps st)) (snd (publish_all ps st))"
  by (induction ps st rule: publish_all.induct) (auto split: prod.splits dest: invar_push)

lemma published_increasing:
  "sorted_wrt (<) (map ev_seq (snd (publish_all ps (start, \<lambda>_. [])) r))"
  using publish_all_invar [of "(start, \<lambda>_. [])" ps] invar_start increasing by auto

lemma publish_all_history:
  "\<exists>new. snd (publish_all ps st) r = snd st r @ new \<and>
     map (\<lambda>e. (ev_event e, ev_data e)) new =
     map (\<lambda>(r', e, ts, x). (e, x)) (filter (\<lambda>(r', e, ts, x). r' = r) ps)"
proof (induction ps st rule: publish_all.induct)
  case (2 r0 e ts x ps l h)
  obtain env l' where p: "push r0 e ts x l = (env, l')" by fastforce
  from "2.IH" [OF p [symmetric]] push_fields [OF p] p show ?case by auto
qed simp

text \<open>
  A client that resumes from the last number it saw and is told of no gap gets, in order
  and without repetition, everything published since that it may receive.
\<close>

lemma resume_exact:
  assumes "invar l h" and "missed p r c l = (evs, False)" and "h r = seen @ new"
    and "seen \<noteq> []" and "c = ev_seq (last seen)" and "0 < c"
  shows "evs = filter (\<lambda>e. canReceive p (ev_event e)) new"
proof -
  have srt: "sorted_wrt (<) (map ev_seq (seen @ new))"
    using increasing [OF assms(1)] assms(3) by metis
  have "\<not> c < ev_seq e" if "e \<in> set seen" for e
    using that srt assms(4,5)
    by (cases seen rule: rev_cases) (auto simp: sorted_wrt_append)
  then have "filter (\<lambda>e. c < ev_seq e \<and> canReceive p (ev_event e)) seen = []"
    by (auto simp: filter_empty_conv)
  moreover have "c < ev_seq e" if "e \<in> set new" for e
    using that srt assms(4,5) by (auto simp: sorted_wrt_append)
  then have "filter (\<lambda>e. c < ev_seq e \<and> canReceive p (ev_event e)) new =
      filter (\<lambda>e. canReceive p (ev_event e)) new"
    by (auto intro: filter_cong)
  ultimately show ?thesis using missed_complete [OF assms(1,2,6)] assms(3) by simp
qed

end

section \<open>The invariant\<close>

definition ceiling_of :: "'d event_log \<Rightarrow> string \<Rightarrow> nat" where
  "ceiling_of l r = (case map_of (el_rooms l) r of None \<Rightarrow> el_evicted l | Some log \<Rightarrow> rl_head log)"

definition log_inv :: "'d event_log \<Rightarrow> (string \<Rightarrow> 'd envelope list) \<Rightarrow> bool" where
  "log_inv l h \<longleftrightarrow>
     distinct (map fst (el_rooms l)) \<and>
     length (el_rooms l) \<le> max 1 (el_max_rooms l) \<and>
     (\<forall>r. sorted_wrt (<) (map ev_seq (h r)) \<and> (\<forall>e \<in> set (h r). ev_room e = r \<and> ev_seq e \<le> ceiling_of l r)) \<and>
     (\<forall>r log. map_of (el_rooms l) r = Some log \<longrightarrow>
        suffix (rl_buffer log) (h r) \<and> length (rl_buffer log) \<le> el_retain l)"

lemma log_inv_new: "log_inv (new_event_log retain rooms) (\<lambda>_. [])"
  by (simp add: log_inv_def new_event_log_def)

lemma evict_oldest_fields [simp]:
  "el_retain (evict_oldest l) = el_retain l" "el_max_rooms (evict_oldest l) = el_max_rooms l"
  by (auto simp: evict_oldest_def split: list.splits)

lemma evict_oldest_lookup:
  assumes "distinct (map fst (el_rooms l))"
  shows "map_of (el_rooms (evict_oldest l)) r = map_of (el_rooms l) r \<and> ceiling_of (evict_oldest l) r \<ge> ceiling_of l r \<or>
    map_of (el_rooms (evict_oldest l)) r = None \<and> ceiling_of l r \<le> el_evicted (evict_oldest l)"
  using assms by (auto simp: evict_oldest_def ceiling_of_def alist_lookup split: list.splits option.splits)

lemma evict_oldest_distinct:
  "distinct (map fst (el_rooms l)) \<Longrightarrow> distinct (map fst (el_rooms (evict_oldest l)))"
  by (auto simp: evict_oldest_def distinct_delete split: list.splits)

lemma evict_oldest_length:
  assumes "distinct (map fst (el_rooms l))" and "length (el_rooms l) \<le> max 1 (el_max_rooms l)"
  shows "length (el_rooms (evict_oldest l)) < max 1 (el_max_rooms l)"
proof (cases "el_max_rooms l \<le> length (el_rooms l)")
  case True
  show ?thesis
  proof (cases "el_rooms l")
    case Nil
    with True show ?thesis by (simp add: evict_oldest_def)
  next
    case (Cons kv rest)
    obtain k v where kv: "kv = (k, v)" by fastforce
    have "length (el_rooms l) = Suc (length (AList.delete k (el_rooms l)))"
      using assms(1) Cons kv by (intro length_delete_present) auto
    with True Cons kv assms(2) show ?thesis by (simp add: evict_oldest_def)
  qed
qed (simp add: evict_oldest_def)

text \<open>\<open>touch\<close> alone already keeps the invariant; the room it returns is the stored one.\<close>

lemma touch_facts:
  assumes inv: "log_inv l h" and t: "touch r l = (log, l1)"
  shows "log_inv l1 h" and "map_of (el_rooms l1) r = Some log"
    and "el_retain l1 = el_retain l" and "el_max_rooms l1 = el_max_rooms l"
proof -
  have dst: "distinct (map fst (el_rooms l))" and len: "length (el_rooms l) \<le> max 1 (el_max_rooms l)"
    and srt: "sorted_wrt (<) (map ev_seq (h q))"
    and below: "e \<in> set (h q) \<Longrightarrow> ev_room e = q \<and> ev_seq e \<le> ceiling_of l q"
    and buf: "map_of (el_rooms l) q = Some lg \<Longrightarrow> suffix (rl_buffer lg) (h q) \<and> length (rl_buffer lg) \<le> el_retain l"
    for q e lg
    using inv by (auto simp: log_inv_def)
  have "log_inv l1 h \<and> map_of (el_rooms l1) r = Some log \<and> el_retain l1 = el_retain l \<and> el_max_rooms l1 = el_max_rooms l"
  proof (cases "map_of (el_rooms l) r")
    case (Some existing)
    let ?rooms = "AList.update r existing (AList.delete r (el_rooms l))"
    from Some t have l1: "log = existing" "l1 = l\<lparr>el_rooms := ?rooms\<rparr>"
      by (auto simp: touch_def)
    have look: "map_of ?rooms q = map_of (el_rooms l) q" for q
      using Some by (simp add: alist_lookup)
    have "length ?rooms = length (el_rooms l)"
      using length_delete_present [OF dst, of r] Some
      by (simp add: update_absent map_of_delete_eq)
    moreover have "ceiling_of l1 q = ceiling_of l q" for q
      by (simp add: l1 ceiling_of_def look split: option.split)
    ultimately show ?thesis
      using dst len srt below buf look Some
      by (auto simp: log_inv_def l1 distinct_update distinct_delete)
  next
    case None
    let ?e = "evict_oldest l" and ?f = "\<lparr>rl_head = el_evicted (evict_oldest l), rl_buffer = []\<rparr>"
    from None t have l1: "log = ?f" "l1 = ?e\<lparr>el_rooms := AList.update r ?f (el_rooms ?e)\<rparr>"
      by (auto simp: touch_def Let_def)
    have gone: "map_of (el_rooms ?e) r = None"
      using evict_oldest_lookup [OF dst, of r] None by auto
    have "length (AList.update r ?f (el_rooms ?e)) \<le> max 1 (el_max_rooms l)"
      using evict_oldest_length [OF dst len] by (simp add: update_absent [OF gone])
    moreover have "ev_seq e \<le> ceiling_of l1 q" if "e \<in> set (h q)" for e q
      using below [OF that] evict_oldest_lookup [OF dst, of q] None
      by (auto simp: l1 ceiling_of_def map_of_update_eq split: option.splits if_splits)
    moreover have "suffix (rl_buffer lg) (h q) \<and> length (rl_buffer lg) \<le> el_retain l"
      if "map_of (el_rooms l1) q = Some lg" for q lg
      using that buf [of q lg] evict_oldest_lookup [OF dst, of q]
      by (auto simp: l1 map_of_update_eq split: if_splits)
    ultimately show ?thesis
      using evict_oldest_distinct [OF dst] srt below
      by (auto simp: log_inv_def l1 distinct_update map_of_update_eq)
  qed
  then show "log_inv l1 h" "map_of (el_rooms l1) r = Some log" "el_retain l1 = el_retain l"
    "el_max_rooms l1 = el_max_rooms l"
    by auto
qed

lemma log_append_shape:
  assumes "log_append r k ts x l = (env, l')" and "touch r l = (log, l1)"
  shows "env = \<lparr>ev_event = k, ev_room = r, ev_seq = Suc (rl_head log), ev_ts = ts, ev_data = x\<rparr>"
    and "\<exists>kept. suffix kept (rl_buffer log @ [env]) \<and>
           (length (rl_buffer log) \<le> el_retain l1 \<longrightarrow> length kept \<le> el_retain l1) \<and>
           l' = l1\<lparr>el_rooms := AList.update r \<lparr>rl_head = Suc (rl_head log), rl_buffer = kept\<rparr> (el_rooms l1)\<rparr>"
proof -
  let ?pushed = "rl_buffer log @ [env]"
  let ?kept = "if el_retain l1 < length ?pushed then tl ?pushed else ?pushed"
  show env: "env = \<lparr>ev_event = k, ev_room = r, ev_seq = Suc (rl_head log), ev_ts = ts, ev_data = x\<rparr>"
    using assms by (simp add: log_append_def Let_def)
  have "suffix ?kept ?pushed"
    using suffix_tl [of ?pushed] suffix_order.refl [of ?pushed] by (simp del: suffix_snoc)
  moreover have "length (rl_buffer log) \<le> el_retain l1 \<longrightarrow> length ?kept \<le> el_retain l1" by simp
  moreover have "l' = l1\<lparr>el_rooms := AList.update r \<lparr>rl_head = Suc (rl_head log), rl_buffer = ?kept\<rparr> (el_rooms l1)\<rparr>"
    using assms env by (auto simp: log_append_def Let_def)
  ultimately show "\<exists>kept. suffix kept ?pushed \<and>
      (length (rl_buffer log) \<le> el_retain l1 \<longrightarrow> length kept \<le> el_retain l1) \<and>
      l' = l1\<lparr>el_rooms := AList.update r \<lparr>rl_head = Suc (rl_head log), rl_buffer = kept\<rparr> (el_rooms l1)\<rparr>"
    by blast
qed

lemma length_update_present: "map_of m k = Some v \<Longrightarrow> length (AList.update k w m) = length m"
  by (induction m) (auto split: if_splits)

lemma log_append_inv [inv_intros]:
  assumes inv: "log_inv l h" and app: "log_append r k ts x l = (env, l')"
  shows "log_inv l' (h(r := h r @ [env]))"
proof -
  obtain log l1 where t: "touch r l = (log, l1)" by fastforce
  note tf = touch_facts [OF inv t]
  note env = log_append_shape(1) [OF app t]
  from log_append_shape(2) [OF app t] obtain kept where suf: "suffix kept (rl_buffer log @ [env])"
    and len: "length (rl_buffer log) \<le> el_retain l1 \<longrightarrow> length kept \<le> el_retain l1"
    and l': "l' = l1\<lparr>el_rooms := AList.update r \<lparr>rl_head = Suc (rl_head log), rl_buffer = kept\<rparr> (el_rooms l1)\<rparr>"
    by blast
  have old: "e \<in> set (h q) \<Longrightarrow> ev_room e = q \<and> ev_seq e \<le> ceiling_of l1 q"
    and srt: "sorted_wrt (<) (map ev_seq (h q))"
    and buf: "map_of (el_rooms l1) q = Some lg \<Longrightarrow> suffix (rl_buffer lg) (h q) \<and> length (rl_buffer lg) \<le> el_retain l1"
    for q e lg
    using tf(1) by (auto simp: log_inv_def)
  have head: "ceiling_of l1 r = rl_head log" using tf(2) by (simp add: ceiling_of_def)
  have ceil: "ceiling_of l' q = (if q = r then Suc (rl_head log) else ceiling_of l1 q)" for q
    by (simp add: l' ceiling_of_def map_of_update_eq split: option.split)
  have "sorted_wrt (<) (map ev_seq ((h(r := h r @ [env])) q))" for q
    using srt [of q] old [of _ r] head by (auto simp: sorted_wrt_append env less_Suc_eq_le)
  moreover have "ev_room e = q \<and> ev_seq e \<le> ceiling_of l' q" if "e \<in> set ((h(r := h r @ [env])) q)" for e q
    using that old [of e q] head by (auto simp: ceil env split: if_splits)
  moreover have "suffix kept (h r @ [env])"
  proof -
    from buf [OF tf(2)] obtain zs where "h r = zs @ rl_buffer log" by (auto simp: suffix_def)
    with suf show ?thesis by (metis append.assoc suffix_appendI)
  qed
  moreover have "length (el_rooms l') = length (el_rooms l1)"
    using length_update_present [OF tf(2)] by (simp add: l')
  ultimately show ?thesis
    using tf(1) len buf [OF tf(2)] buf
    by (auto simp: log_inv_def l' distinct_update map_of_update_eq split: if_splits)
qed

section \<open>Replay\<close>

lemma log_replay_sound:
  assumes "log_inv l h" and "log_replay p r c l = (evs, g)" and "e \<in> set evs"
  shows "e \<in> set (h r) \<and> c < ev_seq e \<and> canReceive p (ev_event e)"
proof -
  from assms(2,3) obtain log where log: "map_of (el_rooms l) r = Some log"
    and e: "e \<in> set (rl_buffer log)" "c < ev_seq e" "canReceive p (ev_event e)"
    by (auto simp: log_replay_def split: option.splits)
  from assms(1) log have "suffix (rl_buffer log) (h r)" by (simp add: log_inv_def)
  with e show ?thesis using set_mono_suffix by blast
qed

lemma log_replay_complete:
  assumes inv: "log_inv l h" and rep: "log_replay p r c l = (evs, False)" and pos: "0 < c"
  shows "evs = filter (\<lambda>e. c < ev_seq e \<and> canReceive p (ev_event e)) (h r)"
proof -
  from rep pos obtain log b bs where log: "map_of (el_rooms l) r = Some log"
    and buf: "rl_buffer log = b # bs" and near: "ev_seq b \<le> Suc c"
    and evs: "evs = filter (\<lambda>e. c < ev_seq e \<and> canReceive p (ev_event e)) (b # bs)"
    by (auto simp: log_replay_def split: option.splits list.splits)
  have "sorted_wrt (<) (map ev_seq (h r))" and "suffix (b # bs) (h r)"
    using inv log buf unfolding log_inv_def by metis+
  from filter_suffix_above [OF this near] show ?thesis by (simp only: evs)
qed

interpretation room_events:
  sequenced_log "new_event_log retain rooms" log_append log_replay log_inv
  for retain rooms
proof (unfold_locales, goal_cases)
  case 1
  show ?case by (rule log_inv_new)
next
  case (2 r k ts x l env l')
  then show ?case by (auto simp: log_append_def Let_def split: prod.splits)
next
  case (3 l h r k ts x env l')
  then show ?case by (rule log_append_inv)
next
  case (4 l h r)
  then show ?case by (simp add: log_inv_def)
next
  case (5 l h p r c evs g e)
  then show ?case by (rule log_replay_sound)
next
  case (6 l h p r c evs)
  then show ?case by (rule log_replay_complete)
qed

section \<open>Properties\<close>

text \<open>The log and the full history of every room after a list of publications.\<close>

fun publish_from ::
  "(string \<times> realtime_event \<times> millis \<times> 'd) list \<Rightarrow> 'd event_log \<times> (string \<Rightarrow> 'd envelope list) \<Rightarrow>
   'd event_log \<times> (string \<Rightarrow> 'd envelope list)" where
  "publish_from [] st = st"
| "publish_from ((r, e, ts, x) # ps) (l, h) =
     (case log_append r e ts x l of (env, l') \<Rightarrow> publish_from ps (l', h(r := h r @ [env])))"

definition published ::
  "nat option \<Rightarrow> nat option \<Rightarrow> (string \<times> realtime_event \<times> millis \<times> 'd) list \<Rightarrow>
   'd event_log \<times> (string \<Rightarrow> 'd envelope list)" where
  "published retain rooms ps = publish_from ps (new_event_log retain rooms, \<lambda>_. [])"

lemma publish_from_interface: "publish_from ps st = room_events.publish_all ps st"
  by (induction ps st rule: publish_from.induct)
    (simp_all add: room_events.publish_all.simps split: prod.split)

lemma published_inv: "published retain rooms ps = (l, h) \<Longrightarrow> log_inv l h"
  using room_events.publish_all_invar [of "(new_event_log retain rooms, \<lambda>_. [])" ps]
  by (simp add: published_def publish_from_interface log_inv_new [of retain rooms])

text \<open>
  C12. Resuming a room is exact: a client that names the last number it saw and is told of no
  gap receives, in order and once each, exactly the events published after it that its
  principal may receive, whatever was evicted from the buffers meanwhile.
\<close>

theorem resume_is_exact:
  assumes "published retain rooms ps = (l, h)" and "log_replay p r c l = (evs, False)"
    and "h r = seen @ new" and "seen \<noteq> []" and "c = ev_seq (last seen)" and "0 < c"
  shows "evs = filter (\<lambda>e. canReceive p (ev_event e)) new"
  using room_events.resume_exact [OF published_inv [OF assms(1)] assms(2-6)] .

definition sample_log :: "(string \<times> realtime_event \<times> millis \<times> nat) list" where
  "sample_log = [(''r'', EvTicketCreated, 1, 10), (''r'', EvNoteCreated, 2, 11), (''r'', EvMessageCreated, 3, 12)]"

theorem resume_is_exact_witness:
  "fst (log_replay (ContactPrincipal ''t'' ''c'') ''r'' 1 (fst (published None None sample_log))) =
     [\<lparr>ev_event = EvMessageCreated, ev_room = ''r'', ev_seq = 3, ev_ts = 3, ev_data = 12\<rparr>]"
proof -
  let ?pub = "published None None sample_log"
  let ?r = "log_replay (ContactPrincipal ''t'' ''c'') ''r'' 1 (fst ?pub)"
  have "snd ?r = False" by code_simp
  then have r: "?r = (fst ?r, False)" by (simp add: prod_eq_iff)
  have h: "snd ?pub ''r'' = [\<lparr>ev_event = EvTicketCreated, ev_room = ''r'', ev_seq = 1, ev_ts = 1, ev_data = 10\<rparr>] @
     [\<lparr>ev_event = EvNoteCreated, ev_room = ''r'', ev_seq = 2, ev_ts = 2, ev_data = 11\<rparr>,
      \<lparr>ev_event = EvMessageCreated, ev_room = ''r'', ev_seq = 3, ev_ts = 3, ev_data = 12\<rparr>]" by code_simp
  from resume_is_exact [OF prod.collapse [symmetric] r h]
  show ?thesis by (simp add: canReceive_def isStaff_def)
qed

text \<open>
  The log is bounded and its numbers only grow: after any sequence of publications there
  are at most \<open>maxRooms\<close> rooms (or one), each buffer holds at most \<open>retain\<close> envelopes, and
  the numbers of one room are strictly increasing over its whole history, also across
  the eviction and the return of the room.
\<close>

theorem log_is_bounded:
  assumes "published retain rooms ps = (l, h)"
  shows "length (el_rooms l) \<le> max 1 (el_max_rooms l) \<and>
    (\<forall>(r, log) \<in> set (el_rooms l). length (rl_buffer log) \<le> el_retain l) \<and>
    (\<forall>r. sorted_wrt (<) (map ev_seq (h r)))"
proof -
  have "log_inv l h" by (rule published_inv [OF assms])
  then show ?thesis
    by (auto simp: log_inv_def dest: map_of_is_SomeI)
qed

theorem log_is_bounded_witness:
  "length (el_rooms (fst (published (Some 1) (Some 1) sample_log))) \<le> 1"
proof -
  have "el_max_rooms (fst (published (Some 1) (Some 1) sample_log)) = 1" by code_simp
  with log_is_bounded [OF prod.collapse [symmetric], of "Some 1" "Some 1" sample_log] show ?thesis by simp
qed

end
