(* ===== verification/Js_Runtime.thy ===== *)
theory Js_Runtime
  imports Prelude
begin

text \<open>
  The serialisers of the JavaScript runtime that the source relies on: \<open>JSON.stringify\<close> and
  \<open>JSON.parse\<close>, \<open>base64url\<close> as \<open>Buffer\<close> reads and writes it, and the ISO form of a
  \<open>Date\<close>. A string is the sequence of the bytes of its UTF-8 form, so \<open>Buffer.from(s)\<close>
  and \<open>toString('utf8')\<close> are the identity.

  \<open>new Date(s)\<close> is specified for the ISO forms only and left to the implementation for the
  rest: the full form that \<open>toISOString\<close> writes is read here, every other text goes to a
  parameter.
\<close>

section \<open>Base64url\<close>

definition b64_alphabet :: string where
  "b64_alphabet = ''ABCDEFGHIJKLMNOPQRSTUVWXYZabcdefghijklmnopqrstuvwxyz0123456789-_''"

definition sextet_char :: "nat \<Rightarrow> char" where
  "sextet_char n = b64_alphabet ! n"

fun index_of :: "'a \<Rightarrow> 'a list \<Rightarrow> nat option" where
  "index_of x [] = None"
| "index_of x (y # ys) = (if x = y then Some 0 else map_option Suc (index_of x ys))"

text \<open>Reading accepts the characters of plain base64 too and skips everything else.\<close>

definition sextet_of :: "char \<Rightarrow> nat option" where
  "sextet_of c =
     (if c = CHR ''+'' then Some 62 else if c = CHR ''/'' then Some 63
      else index_of c b64_alphabet)"

fun sextets :: "nat list \<Rightarrow> nat list" where
  "sextets (a # b # c # bs) =
     [a div 4, (a mod 4) * 16 + b div 16, (b mod 16) * 4 + c div 64, c mod 64] @ sextets bs"
| "sextets [a, b] = [a div 4, (a mod 4) * 16 + b div 16, (b mod 16) * 4]"
| "sextets [a] = [a div 4, (a mod 4) * 16]"
| "sextets [] = []"

fun octets :: "nat list \<Rightarrow> nat list" where
  "octets (w # x # y # z # ss) =
     [w * 4 + x div 16, (x mod 16) * 16 + y div 4, (y mod 4) * 64 + z] @ octets ss"
| "octets [w, x, y] = [w * 4 + x div 16, (x mod 16) * 16 + y div 4]"
| "octets [w, x] = [w * 4 + x div 16]"
| "octets _ = []"

definition base64url :: "string \<Rightarrow> string" where
  "base64url s = map sextet_char (sextets (map of_char s))"

definition base64url_decode :: "string \<Rightarrow> string" where
  "base64url_decode s = map char_of (octets (List.map_filter sextet_of s))"

lemma hi_lo [simp]:
  fixes q r n :: nat
  assumes "r < n"
  shows "(q * n + r) div n = q" and "(q * n + r) mod n = r"
  using assms by (simp_all add: div_mult_self3)

lemma octets_sextets: "list_all (\<lambda>b. b < 256) bs \<Longrightarrow> octets (sextets bs) = bs"
proof (induction bs rule: sextets.induct)
  case (1 a b c bs)
  then have "b div 16 < 16" "c div 64 < 4" by auto
  with 1 show ?case by simp
next
  case (2 a b)
  then have "b div 16 < 16" by auto
  then show ?case by simp
qed auto

lemma sextets_small: "list_all (\<lambda>b. b < 256) bs \<Longrightarrow> list_all (\<lambda>n. n < 64) (sextets bs)"
proof (induction bs rule: sextets.induct)
  case (1 a b c bs)
  then have "a div 4 < 64" "b div 16 < 16" "c div 64 < 4" by auto
  moreover have "a mod 4 < 4" "b mod 16 < 16" by auto
  ultimately have "a div 4 < 64" "(a mod 4) * 16 + b div 16 < 64" "(b mod 16) * 4 + c div 64 < 64"
    by linarith+
  with 1 show ?case by simp
next
  case (2 a b)
  then have "a div 4 < 64" "b div 16 < 16" by auto
  moreover have "a mod 4 < 4" "b mod 16 < 16" by auto
  ultimately have "a div 4 < 64" "(a mod 4) * 16 + b div 16 < 64" "(b mod 16) * 4 < 64" by linarith+
  with 2 show ?case by simp
next
  case (3 a)
  moreover have "a mod 4 < 4" by simp
  ultimately have "a div 4 < 64" "(a mod 4) * 16 < 64" by auto
  then show ?case by simp
qed simp

lemma sextet_table: "\<forall>i \<in> set [0..<64]. sextet_of (sextet_char i) = Some i"
  by code_simp

lemma sextet_round: "n < 64 \<Longrightarrow> sextet_of (sextet_char n) = Some n"
  using sextet_table by simp

lemma map_filter_sextets:
  "list_all (\<lambda>n. n < 64) ns \<Longrightarrow> List.map_filter sextet_of (map sextet_char ns) = ns"
  by (induction ns) (simp_all add: sextet_round List.map_filter_simps)

lemma base64url_round [simp]: "base64url_decode (base64url s) = s"
proof -
  let ?b = "map of_char s :: nat list"
  have small: "list_all (\<lambda>b. b < 256) ?b" by (simp add: list_all_iff)
  have "base64url_decode (base64url s) = map char_of ?b"
    by (simp only: base64url_def base64url_decode_def map_filter_sextets [OF sextets_small [OF small]]
        octets_sextets [OF small])
  then show ?thesis by (simp add: comp_def)
qed

section \<open>Decimal numbers\<close>

definition digit_char :: "nat \<Rightarrow> char" where
  "digit_char n = ''0123456789'' ! n"

definition digit_of :: "char \<Rightarrow> nat option" where
  "digit_of c = index_of c ''0123456789''"

definition is_digit :: "char \<Rightarrow> bool" where
  "is_digit c \<longleftrightarrow> digit_of c \<noteq> None"

function decimal :: "nat \<Rightarrow> string" where
  "decimal n = (if n < 10 then [digit_char n] else decimal (n div 10) @ [digit_char (n mod 10)])"
  by auto
termination by (relation "measure id") auto

declare decimal.simps [simp del]

definition undecimal :: "string \<Rightarrow> nat" where
  "undecimal s = foldl (\<lambda>n c. 10 * n + (case digit_of c of Some k \<Rightarrow> k | None \<Rightarrow> 0)) 0 s"

definition int_text :: "int \<Rightarrow> string" where
  "int_text i = (if i < 0 then CHR ''-'' # decimal (nat (- i)) else decimal (nat i))"

lemma digit_table: "\<forall>i \<in> set [0..<10]. digit_of (digit_char i) = Some i"
  by code_simp

lemma digit_round [simp]: "n < 10 \<Longrightarrow> digit_of (digit_char n) = Some n"
  using digit_table by simp

lemma is_digit_char [simp]: "n < 10 \<Longrightarrow> is_digit (digit_char n)"
  by (simp add: is_digit_def)

lemma decimal_digits: "c \<in> set (decimal n) \<Longrightarrow> is_digit c"
proof (induction n rule: decimal.induct)
  case (1 n)
  then show ?case by (subst (asm) (2) decimal.simps) (auto split: if_splits)
qed

lemma decimal_not_Nil [simp]: "decimal n \<noteq> []"
  by (subst decimal.simps) simp

lemma undecimal_snoc:
  "undecimal (s @ [c]) = 10 * undecimal s + (case digit_of c of Some k \<Rightarrow> k | None \<Rightarrow> 0)"
  by (simp add: undecimal_def)

lemma undecimal_decimal [simp]: "undecimal (decimal n) = n"
proof (induction n rule: decimal.induct)
  case (1 n)
  show ?case
  proof (cases "n < 10")
    case True
    then show ?thesis by (subst decimal.simps) (simp add: undecimal_def)
  next
    case False
    then have "undecimal (decimal n) = 10 * undecimal (decimal (n div 10)) + n mod 10"
      by (subst decimal.simps) (simp add: undecimal_snoc)
    with False 1 show ?thesis by simp
  qed
qed

lemma decimal_leading: "hd (decimal n) = CHR ''0'' \<Longrightarrow> decimal n = ''0''"
proof (induction n rule: decimal.induct)
  case (1 n)
  show ?case
  proof (cases "n < 10")
    case True
    then have "decimal n = [digit_char n]" by (subst decimal.simps) simp
    with "1.prems" show ?thesis by simp
  next
    case False
    then have step: "decimal n = decimal (n div 10) @ [digit_char (n mod 10)]"
      by (subst decimal.simps) simp
    with "1.prems" have "hd (decimal (n div 10)) = CHR ''0''" by simp
    with "1.IH" [OF False] have "decimal (n div 10) = ''0''" by simp
    then have "n div 10 = 0" using undecimal_decimal [of "n div 10"] by (simp add: undecimal_def digit_of_def)
    with False show ?thesis by simp
  qed
qed

section \<open>JSON text\<close>

definition hex_char :: "nat \<Rightarrow> char" where
  "hex_char n = ''0123456789abcdef'' ! n"

definition hex_of :: "char \<Rightarrow> nat option" where
  "hex_of c = (case index_of c ''0123456789abcdef'' of
                 Some n \<Rightarrow> Some n
               | None \<Rightarrow> map_option (\<lambda>n. n + 10) (index_of c ''ABCDEF''))"

definition escape_char :: "char \<Rightarrow> string" where
  "escape_char c =
     (if c = CHR 0x22 then [CHR 0x5C, CHR 0x22]
      else if c = CHR 0x5C then [CHR 0x5C, CHR 0x5C]
      else if c = CHR 0x08 then [CHR 0x5C, CHR ''b'']
      else if c = CHR 0x0C then [CHR 0x5C, CHR ''f'']
      else if c = CHR 0x0A then [CHR 0x5C, CHR ''n'']
      else if c = CHR 0x0D then [CHR 0x5C, CHR ''r'']
      else if c = CHR 0x09 then [CHR 0x5C, CHR ''t'']
      else if of_char c < (32 :: nat) then
        [CHR 0x5C, CHR ''u'', CHR ''0'', CHR ''0'', hex_char (of_char c div 16), hex_char (of_char c mod 16)]
      else [c])"

definition string_text :: "string \<Rightarrow> string" where
  "string_text s = CHR 0x22 # concat (map escape_char s) @ [CHR 0x22]"

text \<open>
  \<open>JSON.stringify\<close>, without indentation. The source only serialises integral numbers; the
  text \<open>null\<close> is what the runtime writes for a number that is not finite.
\<close>

fun json_text :: "json \<Rightarrow> string" where
  "json_text JNull = ''null''"
| "json_text (JBool b) = (if b then ''true'' else ''false'')"
| "json_text (JNum n) = (case n of JInt i \<Rightarrow> int_text i | JFrac \<Rightarrow> ''null'')"
| "json_text (JStr s) = string_text s"
| "json_text (JArr vs) = ''['' @ join_with '','' (map json_text vs) @ '']''"
| "json_text (JObj kvs) =
     ''{'' @ join_with '','' (map (\<lambda>(k, v). string_text k @ '':'' @ json_text v) kvs) @ ''}''"

definition skip_ws :: "string \<Rightarrow> string" where
  "skip_ws s = dropWhile (\<lambda>c. c \<in> {CHR '' '', CHR 0x09, CHR 0x0A, CHR 0x0D}) s"

definition simple_escape :: "char \<Rightarrow> char option" where
  "simple_escape c =
     map_of [(CHR 0x22, CHR 0x22), (CHR 0x5C, CHR 0x5C), (CHR ''/'', CHR ''/''), (CHR ''b'', CHR 0x08),
             (CHR ''f'', CHR 0x0C), (CHR ''n'', CHR 0x0A), (CHR ''r'', CHR 0x0D), (CHR ''t'', CHR 0x09)] c"

text \<open>The bytes of one UTF-16 code unit; a surrogate half keeps three bytes of its own.\<close>

definition unit_bytes :: "nat \<Rightarrow> string" where
  "unit_bytes n =
     (if n < 128 then [char_of n]
      else if n < 2048 then [char_of (192 + n div 64), char_of (128 + n mod 64)]
      else [char_of (224 + n div 4096), char_of (128 + (n div 64) mod 64), char_of (128 + n mod 64)])"

definition hex4 :: "char \<Rightarrow> char \<Rightarrow> char \<Rightarrow> char \<Rightarrow> nat option" where
  "hex4 a b c d =
     (case (hex_of a, hex_of b, hex_of c, hex_of d) of
        (Some w, Some x, Some y, Some z) \<Rightarrow> Some (w * 4096 + x * 256 + y * 16 + z)
      | _ \<Rightarrow> None)"

fun json_string :: "string \<Rightarrow> (string \<times> string) option" where
  "json_string [] = None"
| "json_string (c # s) =
     (if c = CHR 0x22 then Some ([], s)
      else if c = CHR 0x5C then
        (case s of
           [] \<Rightarrow> None
         | e # s' \<Rightarrow>
             if e = CHR ''u'' then
               (case s' of
                  w # x # y # z # s'' \<Rightarrow>
                    (case hex4 w x y z of
                       None \<Rightarrow> None
                     | Some n \<Rightarrow> map_option (\<lambda>(t, r). (unit_bytes n @ t, r)) (json_string s''))
                | _ \<Rightarrow> None)
             else
               (case simple_escape e of
                  None \<Rightarrow> None
                | Some x \<Rightarrow> map_option (\<lambda>(t, r). (x # t, r)) (json_string s')))
      else if of_char c < (32 :: nat) then None
      else map_option (\<lambda>(t, r). (c # t, r)) (json_string s))"

definition scaled :: "bool \<Rightarrow> nat \<Rightarrow> int \<Rightarrow> jsnum" where
  "scaled neg m e =
     (if 0 \<le> e then JInt ((if neg then -1 else 1) * int m * 10 ^ nat e)
      else if (10 ^ nat (- e)) dvd m then JInt ((if neg then -1 else 1) * int (m div 10 ^ nat (- e)))
      else JFrac)"

definition digits :: "string \<Rightarrow> string \<times> string" where
  "digits s = (takeWhile is_digit s, dropWhile is_digit s)"

definition json_exponent :: "string \<Rightarrow> (int \<times> string) option" where
  "json_exponent s =
     (case s of
        c # r \<Rightarrow>
          if c = CHR ''e'' \<or> c = CHR ''E'' then
            (let (neg, r') = (case r of CHR ''-'' # q \<Rightarrow> (True, q) | CHR ''+'' # q \<Rightarrow> (False, q) | _ \<Rightarrow> (False, r));
                 (ds, rest) = digits r'
             in if ds = [] then None else Some ((if neg then -1 else 1) * int (undecimal ds), rest))
          else Some (0, s)
      | [] \<Rightarrow> Some (0, s))"

definition json_fraction :: "string \<Rightarrow> (string \<times> string) option" where
  "json_fraction s =
     (case s of
        c # r \<Rightarrow>
          if c = CHR ''.'' then
            (let (ds, rest) = digits r in if ds = [] then None else Some (ds, rest))
          else Some ([], s)
      | [] \<Rightarrow> Some ([], s))"

definition json_number :: "string \<Rightarrow> (jsnum \<times> string) option" where
  "json_number s =
     (let (neg, s1) = (case s of CHR ''-'' # q \<Rightarrow> (True, q) | _ \<Rightarrow> (False, s));
          (ds, s2) = digits s1
      in if ds = [] \<or> (hd ds = CHR ''0'' \<and> length ds \<noteq> 1) then None
         else case json_fraction s2 of
           None \<Rightarrow> None
         | Some (fs, s3) \<Rightarrow>
             (case json_exponent s3 of
                None \<Rightarrow> None
              | Some (e, s4) \<Rightarrow> Some (scaled neg (undecimal (ds @ fs)) (e - int (length fs)), s4)))"

text \<open>
  Every call either ends or recurses on a text that is shorter or of the same length one
  level down, so twice the length of the text is enough fuel.
\<close>

fun json_value :: "nat \<Rightarrow> string \<Rightarrow> (json \<times> string) option"
  and json_elements :: "nat \<Rightarrow> string \<Rightarrow> (json list \<times> string) option"
  and json_members :: "nat \<Rightarrow> string \<Rightarrow> ((string \<times> json) list \<times> string) option" where
  "json_value 0 s = None"
| "json_value (Suc n) s =
     (case skip_ws s of
        [] \<Rightarrow> None
      | c # r \<Rightarrow>
          if c = CHR 0x22 then map_option (\<lambda>(t, q). (JStr t, q)) (json_string r)
          else if c = CHR ''['' then
            (case skip_ws r of
               CHR '']'' # q \<Rightarrow> Some (JArr [], q)
             | _ \<Rightarrow> map_option (\<lambda>(vs, q). (JArr vs, q)) (json_elements n r))
          else if c = CHR ''{'' then
            (case skip_ws r of
               CHR ''}'' # q \<Rightarrow> Some (JObj [], q)
             | _ \<Rightarrow> map_option (\<lambda>(kvs, q). (JObj (foldl (\<lambda>m (k, v). AList.update k v m) [] kvs), q))
                      (json_members n r))
          else if starts_with ''null'' (c # r) then Some (JNull, drop 4 (c # r))
          else if starts_with ''true'' (c # r) then Some (JBool True, drop 4 (c # r))
          else if starts_with ''false'' (c # r) then Some (JBool False, drop 5 (c # r))
          else map_option (\<lambda>(v, q). (JNum v, q)) (json_number (c # r)))"
| "json_elements 0 s = None"
| "json_elements (Suc n) s =
     (case json_value n s of
        None \<Rightarrow> None
      | Some (v, r) \<Rightarrow>
          (case skip_ws r of
             [] \<Rightarrow> None
           | c # q \<Rightarrow>
               if c = CHR '','' then map_option (\<lambda>(vs, z). (v # vs, z)) (json_elements n q)
               else if c = CHR '']'' then Some ([v], q) else None))"
| "json_members 0 s = None"
| "json_members (Suc n) s =
     (case skip_ws s of
        CHR 0x22 # r \<Rightarrow>
          (case json_string r of
             None \<Rightarrow> None
           | Some (k, r1) \<Rightarrow>
               (case skip_ws r1 of
                  CHR '':'' # r2 \<Rightarrow>
                    (case json_value n r2 of
                       None \<Rightarrow> None
                     | Some (v, r3) \<Rightarrow>
                         (case skip_ws r3 of
                            [] \<Rightarrow> None
                          | c # q \<Rightarrow>
                              if c = CHR '','' then map_option (\<lambda>(kvs, z). ((k, v) # kvs, z)) (json_members n q)
                              else if c = CHR ''}'' then Some ([(k, v)], q) else None))
                | _ \<Rightarrow> None))
      | _ \<Rightarrow> None)"

definition json_parse :: "string \<Rightarrow> json option" where
  "json_parse s =
     (case json_value (2 * length s + 2) s of
        Some (v, r) \<Rightarrow> if skip_ws r = [] then Some v else None
      | None \<Rightarrow> None)"

subsection \<open>Reading back what was written\<close>

lemma hex_table: "\<forall>i \<in> set [0..<16]. hex_of (hex_char i) = Some i"
  by code_simp

lemma hex_round [simp]: "n < 16 \<Longrightarrow> hex_of (hex_char n) = Some n"
  using hex_table by simp

lemma hex_of_zero [simp]: "hex_of (CHR ''0'') = Some 0"
  by (simp add: hex_of_def)

lemma json_string_escape:
  "json_string (escape_char c @ s) = map_option (\<lambda>(t, r). (c # t, r)) (json_string s)"
proof -
  consider (named) "c \<in> {CHR 0x22, CHR 0x5C, CHR 0x08, CHR 0x0C, CHR 0x0A, CHR 0x0D, CHR 0x09}"
    | (control) "c \<notin> {CHR 0x22, CHR 0x5C, CHR 0x08, CHR 0x0C, CHR 0x0A, CHR 0x0D, CHR 0x09}"
        "of_char c < (32 :: nat)"
    | (plain) "c \<notin> {CHR 0x22, CHR 0x5C, CHR 0x08, CHR 0x0C, CHR 0x0A, CHR 0x0D, CHR 0x09}"
        "\<not> of_char c < (32 :: nat)"
    by blast
  then show ?thesis
  proof cases
    case named
    then show ?thesis by (elim insertE emptyE) (simp_all add: escape_char_def simple_escape_def)
  next
    case control
    let ?n = "of_char c :: nat"
    have "hex4 (CHR ''0'') (CHR ''0'') (hex_char (?n div 16)) (hex_char (?n mod 16)) = Some ?n"
      using control(2) by (simp add: hex4_def)
    moreover have "unit_bytes ?n = [c]" using control(2) by (simp add: unit_bytes_def)
    moreover have "escape_char c = [CHR 0x5C, CHR ''u'', CHR ''0'', CHR ''0'', hex_char (?n div 16), hex_char (?n mod 16)]"
      using control by (simp add: escape_char_def)
    ultimately show ?thesis by simp
  next
    case plain
    then have "escape_char c = [c]" by (simp add: escape_char_def)
    with plain show ?thesis by simp
  qed
qed

lemma json_string_text [simp]:
  "json_string (concat (map escape_char s) @ CHR 0x22 # rest) = Some (s, rest)"
  by (induction s) (simp_all add: json_string_escape)

definition ends_number :: "string \<Rightarrow> bool" where
  "ends_number s \<longleftrightarrow> s = [] \<or> hd s \<in> {CHR '','', CHR '']'', CHR ''}''}"

lemma digits_decimal:
  assumes "ends_number rest"
  shows "digits (decimal n @ rest) = (decimal n, rest)"
proof -
  have "takeWhile is_digit rest = [] \<and> dropWhile is_digit rest = rest"
    using assms by (cases rest) (auto simp: ends_number_def is_digit_def digit_of_def)
  then show ?thesis
    by (simp add: digits_def takeWhile_append2 dropWhile_append2 decimal_digits)
qed

lemma decimal_not_minus: "decimal n @ rest \<noteq> CHR ''-'' # q"
proof
  assume "decimal n @ rest = CHR ''-'' # q"
  then have "CHR ''-'' \<in> set (decimal n)"
    by (cases "decimal n") auto
  then show False using decimal_digits [of "CHR ''-''" n] by (simp add: is_digit_def digit_of_def)
qed

lemma json_number_tail:
  assumes "ends_number rest"
  shows "json_fraction rest = Some ([], rest)" and "json_exponent rest = Some (0, rest)"
  using assms
  by (auto simp: ends_number_def json_fraction_def json_exponent_def split: list.splits)

lemma decimal_well_formed: "\<not> (decimal n = [] \<or> (hd (decimal n) = CHR ''0'' \<and> length (decimal n) \<noteq> 1))"
  using decimal_leading [of n] by auto

lemma json_number_text:
  assumes "ends_number rest"
  shows "json_number (int_text i @ rest) = Some (JInt i, rest)"
proof (cases "i < 0")
  case True
  then show ?thesis
    using decimal_well_formed [of "nat (- i)"]
    by (simp add: json_number_def int_text_def digits_decimal [OF assms] json_number_tail [OF assms] scaled_def)
next
  case False
  have "(case decimal (nat i) @ rest of CHR ''-'' # q \<Rightarrow> (True, q) | _ \<Rightarrow> (False, decimal (nat i) @ rest))
      = (False, decimal (nat i) @ rest)"
    using decimal_not_minus [of "nat i" rest] by (auto split: list.splits char.splits bool.splits)
  with False show ?thesis
    using decimal_well_formed [of "nat i"]
    by (simp add: json_number_def int_text_def digits_decimal [OF assms] json_number_tail [OF assms] scaled_def)
qed

fun is_flat :: "json \<Rightarrow> bool" where
  "is_flat (JStr _) = True"
| "is_flat (JNum (JInt _)) = True"
| "is_flat _ = False"

lemma int_text_head: "\<exists>c r. int_text i = c # r \<and> (c = CHR ''-'' \<or> is_digit c)"
proof (cases "i < 0")
  case False
  obtain c r where "decimal (nat i) = c # r" by (cases "decimal (nat i)") auto
  with False decimal_digits [of c "nat i"] show ?thesis by (simp add: int_text_def)
qed (simp add: int_text_def)

lemma digit_set: "is_digit c \<Longrightarrow> c \<in> set ''0123456789''"
  by (auto simp: is_digit_def digit_of_def split: if_splits)

lemma json_value_flat:
  assumes "is_flat v" and "ends_number rest"
  shows "json_value (Suc n) (json_text v @ rest) = Some (v, rest)"
  using assms(1)
proof (cases v rule: is_flat.cases)
  case (1 s)
  then show ?thesis by (simp add: string_text_def skip_ws_def)
next
  case (2 i)
  obtain c r where cr: "int_text i = c # r" and c: "c = CHR ''-'' \<or> is_digit c"
    using int_text_head by blast
  from c have c': "c \<in> set ''-0123456789''" using digit_set [of c] by (elim disjE) simp_all
  have num: "json_number (c # r @ rest) = Some (JInt i, rest)"
    using json_number_text [OF assms(2), of i] cr by simp
  have "skip_ws (c # r @ rest) = c # r @ rest" using c' by (auto simp: skip_ws_def)
  moreover have "c \<noteq> CHR 0x22" "c \<noteq> CHR ''[''" "c \<noteq> CHR ''{''" using c' by auto
  moreover have "\<not> starts_with ''null'' (c # r @ rest)" "\<not> starts_with ''true'' (c # r @ rest)"
    "\<not> starts_with ''false'' (c # r @ rest)" using c' by (auto simp: starts_with_def)
  ultimately show ?thesis using num 2 cr by simp
qed simp_all

definition member_text :: "string \<times> json \<Rightarrow> string" where
  "member_text = (\<lambda>(k, v). string_text k @ '':'' @ json_text v)"

lemma skip_ws_special [simp]:
  "c \<notin> {CHR '' '', CHR 0x09, CHR 0x0A, CHR 0x0D} \<Longrightarrow> skip_ws (c # s) = c # s"
  by (simp add: skip_ws_def)

lemma json_members_step:
  assumes "is_flat v" and "c = CHR '','' \<or> c = CHR ''}''"
  shows "json_members (Suc (Suc n)) (member_text (k, v) @ c # rest) =
    (if c = CHR '','' then map_option (\<lambda>(kvs, z). ((k, v) # kvs, z)) (json_members (Suc n) rest)
     else Some ([(k, v)], rest))"
proof -
  have "json_value (Suc n) (json_text v @ c # rest) = Some (v, c # rest)"
    using assms by (intro json_value_flat) (auto simp: ends_number_def)
  with assms(2) show ?thesis
    by (auto simp: member_text_def string_text_def simp del: json_value.simps)
qed

lemma json_members_flat:
  assumes "kvs \<noteq> []" and "list_all (\<lambda>kv. is_flat (snd kv)) kvs" and "length kvs < n"
  shows "json_members n (join_with '','' (map member_text kvs) @ CHR ''}'' # rest) = Some (kvs, rest)"
  using assms
proof (induction kvs arbitrary: n)
  case (Cons kv kvs)
  obtain k v where kv: "kv = (k, v)" by fastforce
  obtain m where n: "n = Suc (Suc m)" using Cons.prems(3) by (cases n rule: nat.exhaust; cases "n - 1") auto
  show ?case
  proof (cases kvs)
    case Nil
    then show ?thesis
      using json_members_step [of v "CHR ''}''" m k rest] Cons.prems(2) kv n
      by (simp del: json_members.simps)
  next
    case (Cons w ws)
    then have "join_with '','' (map member_text (kv # kvs)) @ CHR ''}'' # rest =
        member_text (k, v) @ CHR '','' # (join_with '','' (map member_text kvs) @ CHR ''}'' # rest)"
      by (simp add: kv)
    moreover have "json_members (Suc m) (join_with '','' (map member_text kvs) @ CHR ''}'' # rest) = Some (kvs, rest)"
      using Cons.prems n Cons by (intro Cons.IH) auto
    ultimately show ?thesis
      using json_members_step [of v "CHR '',''" m k "join_with '','' (map member_text kvs) @ CHR ''}'' # rest"]
        Cons.prems(2) kv n
      by (simp del: json_members.simps)
  qed
qed simp

lemma foldl_update_distinct:
  "distinct (map fst (m @ kvs)) \<Longrightarrow> foldl (\<lambda>m (k, v). AList.update k v m) m kvs = m @ kvs"
proof (induction kvs arbitrary: m)
  case (Cons kv kvs)
  obtain k v where kv: "kv = (k, v)" by fastforce
  with Cons.prems have "map_of m k = None" by (auto simp: map_of_eq_None_iff)
  with Cons kv show ?case by (simp add: update_absent)
qed simp

lemma length_join_members: "length kvs \<le> length (join_with '','' (map member_text kvs))"
  by (induction kvs rule: induct_list012) (auto simp: member_text_def string_text_def)

lemma json_flat_roundtrip:
  assumes "kvs \<noteq> []" and "list_all (\<lambda>kv. is_flat (snd kv)) kvs" and "distinct (map fst kvs)"
  shows "json_parse (json_text (JObj kvs)) = Some (JObj kvs)"
proof -
  let ?body = "join_with '','' (map member_text kvs)"
  have txt_eq: "json_text (JObj kvs) = CHR ''{'' # ?body @ ''}''" by (simp add: member_text_def)
  define N where "N = 2 * length (json_text (JObj kvs)) + 1"
  have len: "length kvs < N" using length_join_members [of kvs] unfolding N_def txt_eq by simp
  obtain k v ws where kvs: "kvs = (k, v) # ws" using assms(1) by (cases kvs) auto
  have "\<exists>q. ?body @ ''}'' = CHR 0x22 # q"
    by (cases ws) (simp_all add: kvs member_text_def string_text_def)
  then have "skip_ws (?body @ ''}'') = ?body @ ''}''" and "\<And>q. ?body @ ''}'' \<noteq> CHR ''}'' # q" by auto
  then have "(case skip_ws (?body @ ''}'') of CHR ''}'' # q \<Rightarrow> Some (JObj [], q)
      | _ \<Rightarrow> map_option (\<lambda>(kvs, q). (JObj (foldl (\<lambda>m (k, v). AList.update k v m) [] kvs), q))
               (json_members N (?body @ ''}''))) =
      map_option (\<lambda>(kvs, q). (JObj (foldl (\<lambda>m (k, v). AList.update k v m) [] kvs), q))
               (json_members N (?body @ ''}''))"
    by (auto split: list.splits char.splits bool.splits)
  then have "json_value (Suc N) (json_text (JObj kvs)) = Some (JObj kvs, [])"
    using json_members_flat [OF assms(1,2) len, of "[]"] foldl_update_distinct [of "[]" kvs] assms(3)
    unfolding txt_eq by simp
  then show ?thesis
    unfolding json_parse_def N_def by (simp add: skip_ws_def del: json_text.simps json_value.simps)
qed

section \<open>Dates\<close>

text \<open>A \<open>Date\<close> is its time value, in milliseconds; the calendar is the proleptic Gregorian one.\<close>

text \<open>
  Day \<open>doe\<close> of a 400-year era that begins on 1 March: centuries, then four-year cycles,
  then years, where the last century and the last year of a cycle take the leap day.
\<close>

definition year_of_era :: "int \<Rightarrow> int \<times> int" where
  "year_of_era doe =
     (let century = min 3 (doe div 36524);
          doc = doe - century * 36524;
          cycle = doc div 1461;
          doq = doc mod 1461;
          yoc = min 3 (doq div 365)
      in (100 * century + 4 * cycle + yoc, doq - 365 * yoc))"

definition month_of_year :: "int \<Rightarrow> int \<times> int" where
  "month_of_year doy = (let mp = (5 * doy + 2) div 153 in (mp, doy - (153 * mp + 2) div 5 + 1))"

definition civil_of_days :: "int \<Rightarrow> int \<times> int \<times> int" where
  "civil_of_days days =
     (let z = days + 719468;
          (yoe, doy) = year_of_era (z mod 146097);
          (mp, d) = month_of_year doy;
          m = (if mp < 10 then mp + 3 else mp - 9)
      in (yoe + z div 146097 * 400 + (if m \<le> 2 then 1 else 0), m, d))"

definition days_of_civil :: "int \<Rightarrow> int \<Rightarrow> int \<Rightarrow> int" where
  "days_of_civil year m d =
     (let y = (if m \<le> 2 then year - 1 else year);
          era = y div 400;
          yoe = y mod 400;
          mp = (if 2 < m then m - 3 else m + 9);
          doy = (153 * mp + 2) div 5 + d - 1
      in era * 146097 + (yoe * 365 + yoe div 4 - yoe div 100 + doy) - 719468)"

definition pad2 :: "int \<Rightarrow> string" where
  "pad2 n = [digit_char (nat n div 10 mod 10), digit_char (nat n mod 10)]"

definition pad3 :: "int \<Rightarrow> string" where
  "pad3 n = digit_char (nat n div 100 mod 10) # pad2 (n mod 100)"

definition pad4 :: "int \<Rightarrow> string" where
  "pad4 n = pad2 (n div 100) @ pad2 (n mod 100)"

text \<open>\<open>toISOString\<close>; a year outside 0 to 9999 takes a sign and six digits.\<close>

definition year_text :: "int \<Rightarrow> string" where
  "year_text y =
     (if 0 \<le> y \<and> y < 10000 then pad4 y
      else (if y < 0 then CHR ''-'' else CHR ''+'') # pad2 (\<bar>y\<bar> div 10000) @ pad4 (\<bar>y\<bar> mod 10000))"

definition to_iso :: "millis \<Rightarrow> string" where
  "to_iso ms =
     (let t = ms mod 86400000; (y, m, d) = civil_of_days (ms div 86400000)
      in year_text y @ ''-'' @ pad2 m @ ''-'' @ pad2 d @ ''T'' @ pad2 (t div 3600000) @ '':'' @
         pad2 (t div 60000 mod 60) @ '':'' @ pad2 (t div 1000 mod 60) @ ''.'' @ pad3 (t mod 1000) @ ''Z'')"

definition number_at :: "nat \<Rightarrow> nat \<Rightarrow> string \<Rightarrow> int" where
  "number_at from_pos len s = int (undecimal (take len (drop from_pos s)))"

definition iso_candidate :: "string \<Rightarrow> millis" where
  "iso_candidate s =
     days_of_civil (number_at 0 4 s) (number_at 5 2 s) (number_at 8 2 s) * 86400000 +
     number_at 11 2 s * 3600000 + number_at 14 2 s * 60000 + number_at 17 2 s * 1000 +
     number_at 20 3 s"

text \<open>\<open>new Date(s).getTime()\<close>, with \<open>None\<close> for an invalid date.\<close>

definition date_of :: "(string \<Rightarrow> millis option) \<Rightarrow> string \<Rightarrow> millis option" where
  "date_of other s =
     (if length s = 24 \<and> to_iso (iso_candidate s) = s then Some (iso_candidate s) else other s)"

text \<open>The instants whose year has four digits.\<close>

definition four_digit_year :: "millis \<Rightarrow> bool" where
  "four_digit_year ms \<longleftrightarrow>
     0 \<le> fst (civil_of_days (ms div 86400000)) \<and> fst (civil_of_days (ms div 86400000)) < 10000"

subsection \<open>The calendar\<close>

lemma year_of_era_spec:
  assumes "0 \<le> doe" and "doe < 146097" and "year_of_era doe = (yoe, doy)"
  shows "0 \<le> yoe" "yoe < 400" "0 \<le> doy" "doy \<le> 365"
    and "yoe * 365 + yoe div 4 - yoe div 100 + doy = doe"
proof -
  define century where "century = min 3 (doe div 36524)"
  define doc where "doc = doe - century * 36524"
  define cyc where "cyc = doc div 1461"
  define doq where "doq = doc mod 1461"
  define yoc where "yoc = min 3 (doq div 365)"
  have yd: "yoe = 100 * century + 4 * cyc + yoc" "doy = doq - 365 * yoc"
    using assms(3)
    by (simp_all add: year_of_era_def Let_def century_def doc_def cyc_def doq_def yoc_def)
  have c: "0 \<le> century" "century \<le> 3" using assms(1) by (simp_all add: century_def)
  have doc: "0 \<le> doc" "doc \<le> 36524"
    using assms(1,2) unfolding doc_def century_def by linarith+
  then have q: "0 \<le> cyc" "cyc \<le> 24" "0 \<le> doq" "doq \<le> 1460" by (auto simp: cyc_def doq_def)
  have y: "0 \<le> yoc" "yoc \<le> 3" using q(3) by (simp_all add: yoc_def)
  have dd: "0 \<le> doq - 365 * yoc" "doq - 365 * yoc \<le> 365" using q(3,4) unfolding yoc_def by linarith+
  have split_doc: "doc = 1461 * cyc + doq" by (simp add: cyc_def doq_def)
  have "(100 * century + (4 * cyc + yoc)) div 100 = century" using q y by simp
  moreover have "(4 * (25 * century + cyc) + yoc) div 4 = 25 * century + cyc" using y by simp
  ultimately have "yoe div 100 = century" "yoe div 4 = 25 * century + cyc"
    unfolding yd by (simp_all add: algebra_simps)
  then show "yoe * 365 + yoe div 4 - yoe div 100 + doy = doe"
    using yd split_doc by (simp add: doc_def)
  show "0 \<le> yoe" "yoe < 400" "0 \<le> doy" "doy \<le> 365" using yd c q y dd by linarith+
qed

lemma month_of_year_spec:
  assumes "0 \<le> doy" and "doy \<le> 365" and "month_of_year doy = (mp, d)"
  shows "0 \<le> mp" "mp \<le> 11" "1 \<le> d" "d \<le> 31" and "(153 * mp + 2) div 5 + d - 1 = doy"
proof -
  from assms(3) have mp: "mp = (5 * doy + 2) div 153" and d: "d = doy - (153 * mp + 2) div 5 + 1"
    by (auto simp: month_of_year_def Let_def)
  show m: "0 \<le> mp" "mp \<le> 11" using assms(1,2) unfolding mp by linarith+
  have "153 * mp \<le> 5 * doy + 2" "5 * doy + 2 < 153 * mp + 153" unfolding mp by linarith+
  then show "1 \<le> d" "d \<le> 31" unfolding d by linarith+
  show "(153 * mp + 2) div 5 + d - 1 = doy" by (simp add: d)
qed

lemma civil_of_days_spec:
  assumes "civil_of_days days = (y, m, d)"
  shows "1 \<le> m" "m \<le> 12" "1 \<le> d" "d \<le> 31" and "days_of_civil y m d = days"
proof -
  define z where "z = days + 719468"
  obtain yoe doy where yd: "year_of_era (z mod 146097) = (yoe, doy)" by fastforce
  obtain mp d' where md: "month_of_year doy = (mp, d')" by fastforce
  have "0 \<le> z mod 146097" "z mod 146097 < 146097" by simp_all
  note ys = year_of_era_spec [OF this yd]
  note ms = month_of_year_spec [OF ys(3,4) md]
  have eqs: "d = d'" "m = (if mp < 10 then mp + 3 else mp - 9)"
    "y = yoe + z div 146097 * 400 + (if m \<le> 2 then 1 else 0)"
    using assms yd md by (auto simp: civil_of_days_def z_def Let_def)
  show "1 \<le> m" "m \<le> 12" "1 \<le> d" "d \<le> 31" using ms eqs(1,2) by auto
  have "(if m \<le> 2 then y - 1 else y) = yoe + z div 146097 * 400" using eqs(3) by simp
  moreover have "(if 2 < m then m - 3 else m + 9) = mp" using eqs(2) ms by auto
  moreover have "(yoe + z div 146097 * 400) div 400 = z div 146097"
    "(yoe + z div 146097 * 400) mod 400 = yoe" using ys(1,2) by simp_all
  ultimately have "days_of_civil y m d =
      z div 146097 * 146097 + (yoe * 365 + yoe div 4 - yoe div 100 + ((153 * mp + 2) div 5 + d - 1)) - 719468"
    by (simp add: days_of_civil_def Let_def)
  then have "days_of_civil y m d = z div 146097 * 146097 + z mod 146097 - 719468"
    using ys(5) ms(5) eqs(1) by simp
  then show "days_of_civil y m d = days" by (simp add: z_def)
qed

lemma pad2_read: "0 \<le> n \<Longrightarrow> n < 100 \<Longrightarrow> int (undecimal (pad2 n)) = n"
  by (simp add: pad2_def undecimal_def)

lemma pad3_read: "0 \<le> n \<Longrightarrow> n < 1000 \<Longrightarrow> int (undecimal (pad3 n)) = n"
  by (simp add: pad3_def pad2_def undecimal_def zdiv_int)

lemma pad4_read: "0 \<le> n \<Longrightarrow> n < 10000 \<Longrightarrow> int (undecimal (pad4 n)) = n"
  by (simp add: pad4_def pad2_def undecimal_def pos_imp_zdiv_nonneg_iff)

lemma pad_lengths [simp]: "length (pad2 n) = 2" "length (pad3 n) = 3" "length (pad4 n) = 4"
  by (simp_all add: pad2_def pad3_def pad4_def)

lemma clock_sum:
  fixes t s m h a b c :: int
  assumes "t = 1000 * s + a" and "s = 60 * m + b" and "m = 60 * h + c"
  shows "h * 3600000 + c * 60000 + b * 1000 + a = t"
  using assms by simp

lemma clock_parts:
  fixes t :: int
  shows "t div 3600000 * 3600000 + t div 60000 mod 60 * 60000 + t div 1000 mod 60 * 1000 + t mod 1000 = t"
proof -
  have "t div 60000 = t div 1000 div 60" and "t div 3600000 = t div 60000 div 60"
    using zdiv_zmult2_eq [of 60 t 1000] zdiv_zmult2_eq [of 60 t 60000] by simp_all
  then show ?thesis by (intro clock_sum [of t "t div 1000" _ "t div 60000"]) simp_all
qed

lemma date_round:
  assumes "four_digit_year ms"
  shows "date_of other (to_iso ms) = Some ms"
proof -
  obtain y m d where c: "civil_of_days (ms div 86400000) = (y, m, d)" by (cases "civil_of_days (ms div 86400000)") auto
  note cs = civil_of_days_spec [OF c]
  define t where "t = ms mod 86400000"
  have t: "0 \<le> t" "t < 86400000" by (simp_all add: t_def)
  from assms c have y: "0 \<le> y" "y < 10000" by (simp_all add: four_digit_year_def)
  have iso: "to_iso ms = pad4 y @ ''-'' @ pad2 m @ ''-'' @ pad2 d @ ''T'' @ pad2 (t div 3600000) @ '':'' @
      pad2 (t div 60000 mod 60) @ '':'' @ pad2 (t div 1000 mod 60) @ ''.'' @ pad3 (t mod 1000) @ ''Z''"
    using c y by (simp add: to_iso_def t_def year_text_def Let_def)
  have fields: "number_at 0 4 (to_iso ms) = y" "number_at 5 2 (to_iso ms) = m" "number_at 8 2 (to_iso ms) = d"
    "number_at 11 2 (to_iso ms) = t div 3600000" "number_at 14 2 (to_iso ms) = t div 60000 mod 60"
    "number_at 17 2 (to_iso ms) = t div 1000 mod 60" "number_at 20 3 (to_iso ms) = t mod 1000"
    using cs y t unfolding number_at_def iso
    by (simp_all add: pad2_read pad3_read pad4_read pos_imp_zdiv_nonneg_iff numeral_eq_Suc)
  have "iso_candidate (to_iso ms) = ms"
    using clock_parts [of t] div_mult_mod_eq [of ms 86400000] unfolding iso_candidate_def fields cs(5) t_def
    by (metis (no_types) add.assoc)
  moreover have "length (to_iso ms) = 24" unfolding iso by simp
  ultimately show ?thesis by (simp add: date_of_def)
qed

end
