(* ===== verification/Realtime.thy ===== *)
theory Realtime
  imports Event_Log Database Js_Runtime
begin

text \<open>
  The socket surface of \<open>src/src/realtime\<close>: the gateway (handshake, \<open>subscribe\<close>,
  \<open>unsubscribe\<close>, \<open>deliver\<close>) and the service every other component announces through.
  A socket is its principal, the rooms it is in and what has been emitted to it; whether
  the transport can enumerate sockets is part of the state, since \<open>deliver\<close> swallows that
  failure.
\<close>

section \<open>Payloads\<close>

record ticket_snapshot =
  ts_id :: ident
  ts_subject :: string
  ts_state :: ticket_state
  ts_priority :: ticket_priority
  ts_source :: ticket_source
  ts_contact :: ident
  ts_assignee :: "ident option"
  ts_spawned :: "ident option"
  ts_root :: "ident option"
  ts_created :: string
  ts_updated :: string

record thread_snapshot =
  te_id :: ident
  te_ticket :: ident
  te_body :: string
  te_author_kind :: string
  te_author_id :: "ident option"
  te_created :: string

datatype sla_timer = first_response | resolution

record breach_snapshot =
  br_ticket :: ident
  br_timer :: sla_timer
  br_at :: string

record failure_snapshot =
  fl_ticket :: ident
  fl_message :: ident
  fl_source :: string
  fl_target :: string
  fl_error :: string

datatype payload =
    TicketPayload ticket_snapshot
  | ThreadPayload thread_snapshot
  | BreachPayload breach_snapshot
  | FailurePayload failure_snapshot

definition ticketSnapshot :: "ticket \<Rightarrow> ticket_snapshot" where
  "ticketSnapshot t =
     \<lparr>ts_id = t_id t, ts_subject = t_subject t, ts_state = t_state t, ts_priority = t_priority t,
      ts_source = t_source t, ts_contact = t_contact t, ts_assignee = t_assignee t,
      ts_spawned = t_spawned t, ts_root = t_root t, ts_created = to_iso (t_created t),
      ts_updated = to_iso (t_updated t)\<rparr>"

definition threadEntry :: "thread_row \<Rightarrow> thread_snapshot" where
  "threadEntry e =
     \<lparr>te_id = m_id e, te_ticket = m_ticket e, te_body = m_body e, te_author_kind = m_author_kind e,
      te_author_id = m_author_id e, te_created = to_iso (m_created e)\<rparr>"

section \<open>State\<close>

record socket =
  so_principal :: "request_principal option"
  so_rooms :: "string list"
  so_received :: "payload envelope list"

record realtime =
  rt_log :: "payload event_log"
  rt_sockets :: "(ident \<times> socket) list"
  rt_transport :: bool

definition new_realtime :: realtime where
  "new_realtime = \<lparr>rt_log = new_event_log None None, rt_sockets = [], rt_transport = True\<rparr>"

section \<open>The handshake\<close>

definition SERVICE_TOKEN_PREFIX :: string where "SERVICE_TOKEN_PREFIX = ''nvk_live_''"
definition WIDGET_TOKEN_PREFIX :: string where "WIDGET_TOKEN_PREFIX = ''nvw_''"

definition isServiceToken :: "string \<Rightarrow> bool" where
  "isServiceToken v = starts_with SERVICE_TOKEN_PREFIX v"

definition isWidgetToken :: "string \<Rightarrow> bool" where
  "isWidgetToken v = starts_with WIDGET_TOKEN_PREFIX v"

definition handshakeToken :: "json option \<Rightarrow> string option" where
  "handshakeToken auth =
     (case auth of
        None \<Rightarrow> None
      | Some a \<Rightarrow>
          (case json_field a ''token'' of
             Some (JStr token) \<Rightarrow> if trim token = [] then None else Some (trim token)
           | _ \<Rightarrow> None))"

text \<open>The two verifiers answer a principal, nothing, or throw.\<close>

type_synonym verifier = "string \<Rightarrow> thrown + request_principal option"

definition gateway_authenticate ::
  "verifier \<Rightarrow> verifier \<Rightarrow> json option \<Rightarrow> thrown + request_principal option" where
  "gateway_authenticate widget_verify access_verify auth =
     (case handshakeToken auth of
        None \<Rightarrow> Inr None
      | Some token \<Rightarrow>
          if isServiceToken token then Inr None
          else (case (if isWidgetToken token then widget_verify token else access_verify token) of
                  Inl e \<Rightarrow> Inl e
                | Inr None \<Rightarrow> Inr None
                | Inr (Some p) \<Rightarrow> Inr (realtimePrincipalOf p)))"

text \<open>A refused handshake leaves no socket; the answer is whether the client is connected.\<close>

definition gateway_connect ::
  "verifier \<Rightarrow> verifier \<Rightarrow> ident \<Rightarrow> json option \<Rightarrow> realtime \<Rightarrow> bool \<times> realtime" where
  "gateway_connect widget_verify access_verify sid auth rt =
     (case gateway_authenticate widget_verify access_verify auth of
        Inr (Some p) \<Rightarrow>
          (True, rt\<lparr>rt_sockets := AList.update sid
                    \<lparr>so_principal = Some p, so_rooms = [], so_received = []\<rparr> (rt_sockets rt)\<rparr>)
      | _ \<Rightarrow> (False, rt))"

section \<open>Rooms\<close>

datatype subscribe_ack = SubError string | SubOk string nat bool

fun existingContactPrincipal :: "request_principal \<Rightarrow> request_principal option" where
  "existingContactPrincipal (WidgetPrincipal tenant sid c) =
     (case c of None \<Rightarrow> None | Some i \<Rightarrow> if i = [] then None else Some (ContactPrincipal tenant i))"
| "existingContactPrincipal p = Some p"

definition mayJoin :: "millis \<Rightarrow> request_principal \<Rightarrow> string \<Rightarrow> db \<Rightarrow> thrown + bool" where
  "mayJoin now p name d =
     (case canJoin p name of
        JoinAllow \<Rightarrow> Inr True
      | JoinDeny \<Rightarrow> Inr False
      | RequiresRequesterMatch \<Rightarrow>
          (case parseRoom name of
             Some (TicketRoom tenant tid) \<Rightarrow>
               (case (if kindOf p = widget_kind then existingContactPrincipal p else Some p) of
                  None \<Rightarrow> Inr False
                | Some contact \<Rightarrow>
                    (case asPrincipal now contact (\<lambda>s d. Inr (ticket_findUnique tid s d, d)) d of
                       Inl e \<Rightarrow> Inl e
                     | Inr (found, _) \<Rightarrow> Inr (found \<noteq> None)))
           | _ \<Rightarrow> Inr False))"

definition socket_join :: "ident \<Rightarrow> string \<Rightarrow> realtime \<Rightarrow> realtime" where
  "socket_join sid name rt =
     (case map_of (rt_sockets rt) sid of
        None \<Rightarrow> rt
      | Some so \<Rightarrow> rt\<lparr>rt_sockets := AList.update sid
                        (so\<lparr>so_rooms := if name \<in> set (so_rooms so) then so_rooms so else so_rooms so @ [name]\<rparr>)
                        (rt_sockets rt)\<rparr>)"

definition socket_leave :: "ident \<Rightarrow> string \<Rightarrow> realtime \<Rightarrow> realtime" where
  "socket_leave sid name rt =
     (case map_of (rt_sockets rt) sid of
        None \<Rightarrow> rt
      | Some so \<Rightarrow> rt\<lparr>rt_sockets := AList.update sid (so\<lparr>so_rooms := removeAll name (so_rooms so)\<rparr>) (rt_sockets rt)\<rparr>)"

definition socket_emit :: "ident \<Rightarrow> payload envelope list \<Rightarrow> realtime \<Rightarrow> realtime" where
  "socket_emit sid es rt =
     (case map_of (rt_sockets rt) sid of
        None \<Rightarrow> rt
      | Some so \<Rightarrow> rt\<lparr>rt_sockets := AList.update sid (so\<lparr>so_received := so_received so @ es\<rparr>) (rt_sockets rt)\<rparr>)"

text \<open>Join, then replay: in that order, so that nothing falls between the two.\<close>

definition gateway_subscribe ::
  "millis \<Rightarrow> ident \<Rightarrow> json \<Rightarrow> db \<Rightarrow> realtime \<Rightarrow> thrown + (subscribe_ack \<times> realtime)" where
  "gateway_subscribe now sid body d rt =
     (case map_of (rt_sockets rt) sid of
        None \<Rightarrow> Inr (SubError ''forbidden'', rt)
      | Some so \<Rightarrow>
          (case so_principal so of
             None \<Rightarrow> Inr (SubError ''forbidden'', rt)
           | Some p \<Rightarrow>
               (case parseSubscribe body of
                  None \<Rightarrow> Inr (SubError ''malformed_request'', rt)
                | Some (name, afterSeq) \<Rightarrow>
                    (case mayJoin now p name d of
                       Inl e \<Rightarrow> Inl e
                     | Inr False \<Rightarrow> Inr (SubError ''forbidden'', rt)
                     | Inr True \<Rightarrow>
                         (let (events, gap) = log_replay p name afterSeq (rt_log rt)
                          in Inr (SubOk name (length events) gap,
                                  socket_emit sid events (socket_join sid name rt)))))))"

definition gateway_unsubscribe :: "ident \<Rightarrow> json \<Rightarrow> realtime \<Rightarrow> string \<times> realtime" where
  "gateway_unsubscribe sid body rt =
     (let name = (case parseRoomName body of None \<Rightarrow> [] | Some r \<Rightarrow> r)
      in (name, if name \<noteq> [] then socket_leave sid name rt else rt))"

section \<open>Delivery\<close>

definition receives :: "payload envelope \<Rightarrow> socket \<Rightarrow> bool" where
  "receives env so \<longleftrightarrow>
     ev_room env \<in> set (so_rooms so) \<and>
     (case so_principal so of None \<Rightarrow> False | Some p \<Rightarrow> canReceive p (ev_event env))"

definition gateway_deliver :: "payload envelope \<Rightarrow> realtime \<Rightarrow> realtime" where
  "gateway_deliver env rt =
     (if \<not> rt_transport rt then rt
      else rt\<lparr>rt_sockets := map (\<lambda>(sid, so).
             (sid, if receives env so then so\<lparr>so_received := so_received so @ [env]\<rparr> else so)) (rt_sockets rt)\<rparr>)"

definition publish :: "millis \<Rightarrow> string \<Rightarrow> realtime_event \<Rightarrow> payload \<Rightarrow> realtime \<Rightarrow> realtime" where
  "publish now name event data rt =
     (case log_append name event now data (rt_log rt) of
        (env, l) \<Rightarrow> gateway_deliver env (rt\<lparr>rt_log := l\<rparr>))"

section \<open>The service\<close>

definition ticketCreated :: "millis \<Rightarrow> ticket \<Rightarrow> realtime \<Rightarrow> realtime" where
  "ticketCreated now t = publish now (agentsRoom (t_tenant t)) EvTicketCreated (TicketPayload (ticketSnapshot t))"

definition ticketUpdated :: "millis \<Rightarrow> ticket \<Rightarrow> realtime \<Rightarrow> realtime" where
  "ticketUpdated now t rt =
     publish now (ticketRoom (t_tenant t) (t_id t)) EvTicketUpdated (TicketPayload (ticketSnapshot t))
       (publish now (agentsRoom (t_tenant t)) EvTicketUpdated (TicketPayload (ticketSnapshot t)) rt)"

definition ticketAssigned :: "millis \<Rightarrow> ticket \<Rightarrow> realtime \<Rightarrow> realtime" where
  "ticketAssigned now t = publish now (agentsRoom (t_tenant t)) EvTicketAssigned (TicketPayload (ticketSnapshot t))"

definition messageCreated :: "millis \<Rightarrow> thread_row \<Rightarrow> realtime \<Rightarrow> realtime" where
  "messageCreated now m = publish now (ticketRoom (m_tenant m) (m_ticket m)) EvMessageCreated (ThreadPayload (threadEntry m))"

definition noteCreated :: "millis \<Rightarrow> thread_row \<Rightarrow> realtime \<Rightarrow> realtime" where
  "noteCreated now n = publish now (internalRoom (m_tenant n) (m_ticket n)) EvNoteCreated (ThreadPayload (threadEntry n))"

definition slaBreached :: "millis \<Rightarrow> ident \<Rightarrow> breach_snapshot \<Rightarrow> realtime \<Rightarrow> realtime" where
  "slaBreached now tenant b = publish now (agentsRoom tenant) EvSlaBreached (BreachPayload b)"

definition integrationFailed :: "millis \<Rightarrow> ident \<Rightarrow> failure_snapshot \<Rightarrow> realtime \<Rightarrow> realtime" where
  "integrationFailed now tenant f = publish now (agentsRoom tenant) EvIntegrationFailed (FailurePayload f)"

section \<open>Who hears what\<close>

fun contactOf :: "request_principal \<Rightarrow> ident option" where
  "contactOf (ContactPrincipal _ c) = Some c"
| "contactOf (WidgetPrincipal _ _ c) = c"
| "contactOf _ = None"

text \<open>
  A principal is entitled to a room of its own tenant when it is staff, or when the room is
  the customer-visible room of a ticket its own contact requested.
\<close>

definition entitled :: "db \<Rightarrow> request_principal \<Rightarrow> string \<Rightarrow> bool" where
  "entitled d p name \<longleftrightarrow>
     (\<exists>r. parseRoom name = Some r \<and> room_tenant r = tenantOf p \<and>
        (isStaff p \<or>
         (\<exists>t \<in> set (tickets d). r = TicketRoom (tenantOf p) (t_id t) \<and> t_tenant t = tenantOf p \<and>
            contactOf p = Some (t_contact t))))"

definition socket_ok :: "db \<Rightarrow> socket \<Rightarrow> bool" where
  "socket_ok d so \<longleftrightarrow>
     (\<exists>p. so_principal so = Some p \<and> kindOf p \<noteq> service_kind \<and>
        (\<forall>name \<in> set (so_rooms so). entitled d p name) \<and>
        (\<forall>e \<in> set (so_received so). entitled d p (ev_room e) \<and> canReceive p (ev_event e)))"

definition realtime_inv :: "db \<Rightarrow> realtime \<Rightarrow> bool" where
  "realtime_inv d rt \<longleftrightarrow>
     (\<exists>h. log_inv (rt_log rt) h) \<and> (\<forall>sid so. map_of (rt_sockets rt) sid = Some so \<longrightarrow> socket_ok d so)"

text \<open>
  How a row may change over time: its identity, requester, ancestry and route never do; a
  closed ticket stays closed with its priority and assignee; a latch that is set stays as
  it is and the accumulated pause only grows. Rows are never deleted.
\<close>

definition latched :: "'a option \<Rightarrow> 'a option \<Rightarrow> bool" where
  "latched x y \<longleftrightarrow> x = None \<or> y = x"

definition row_evolves :: "ticket \<Rightarrow> ticket \<Rightarrow> bool" where
  "row_evolves t t' \<longleftrightarrow>
     t_id t' = t_id t \<and> t_tenant t' = t_tenant t \<and> t_contact t' = t_contact t \<and>
     t_spawned t' = t_spawned t \<and> t_root t' = t_root t \<and>
     t_slack_channel t' = t_slack_channel t \<and> t_slack_thread t' = t_slack_thread t \<and>
     (t_state t = TClosed \<longrightarrow>
        t_state t' = TClosed \<and> t_priority t' = t_priority t \<and> t_assignee t' = t_assignee t) \<and>
     latched (t_first_response t) (t_first_response t') \<and>
     latched (t_first_response_breached t) (t_first_response_breached t') \<and>
     latched (t_resolution_breached t) (t_resolution_breached t') \<and>
     t_paused_ms t \<le> t_paused_ms t'"

definition keeps_tickets :: "db \<Rightarrow> db \<Rightarrow> bool" where
  "keeps_tickets d d' \<longleftrightarrow> (\<forall>t \<in> set (tickets d). \<exists>t' \<in> set (tickets d'). row_evolves t t')"

lemma row_evolves_refl [simp]: "row_evolves t t"
  by (simp add: row_evolves_def latched_def)

lemma row_evolves_trans: "row_evolves t u \<Longrightarrow> row_evolves u v \<Longrightarrow> row_evolves t v"
  by (auto simp: row_evolves_def latched_def)

lemma keeps_same: "set (tickets d) \<subseteq> set (tickets d') \<Longrightarrow> keeps_tickets d d'"
  unfolding keeps_tickets_def using row_evolves_refl by blast

lemma keeps_refl [simp]: "keeps_tickets d d"
  by (simp add: keeps_same)

lemma keeps_trans: "keeps_tickets d d' \<Longrightarrow> keeps_tickets d' d'' \<Longrightarrow> keeps_tickets d d''"
  unfolding keeps_tickets_def by (meson row_evolves_trans)

lemma entitled_mono: "keeps_tickets d d' \<Longrightarrow> entitled d p name \<Longrightarrow> entitled d' p name"
  unfolding entitled_def keeps_tickets_def row_evolves_def by metis

lemma realtime_inv_mono:
  assumes "keeps_tickets d d'" and "realtime_inv d rt"
  shows "realtime_inv d' rt"
proof -
  have "socket_ok d so \<Longrightarrow> socket_ok d' so" for so
    using entitled_mono [OF assms(1)] unfolding socket_ok_def by metis
  with assms(2) show ?thesis unfolding realtime_inv_def by blast
qed

lemma socket_of:
  assumes "realtime_inv d rt" and "map_of (rt_sockets rt) sid = Some so"
  obtains p where "so_principal so = Some p" and "kindOf p \<noteq> service_kind"
    and "\<forall>name \<in> set (so_rooms so). entitled d p name"
    and "\<forall>e \<in> set (so_received so). entitled d p (ev_room e) \<and> canReceive p (ev_event e)"
  using assms unfolding realtime_inv_def socket_ok_def by blast

lemma realtime_inv_new: "realtime_inv d new_realtime"
  using log_inv_new [of None None] by (auto simp: realtime_inv_def new_realtime_def)

lemma map_of_map_snd: "map_of (map (\<lambda>(k, v). (k, f v)) m) x = map_option f (map_of m x)"
  by (induction m) auto

lemma deliver_inv [inv_intros]:
  assumes "realtime_inv d rt"
  shows "realtime_inv d (gateway_deliver env rt)"
proof -
  have "socket_ok d (so\<lparr>so_received := so_received so @ [env]\<rparr>)" if "receives env so" "socket_ok d so" for so
    using that by (auto simp: socket_ok_def receives_def)
  with assms show ?thesis
    unfolding gateway_deliver_def realtime_inv_def
    by (auto simp: map_of_map_snd split: if_splits)
qed

lemma publish_inv [inv_intros]:
  assumes "realtime_inv d rt"
  shows "realtime_inv d (publish now name event data rt)"
proof -
  obtain env l where a: "log_append name event now data (rt_log rt) = (env, l)" by fastforce
  from assms obtain h where "log_inv (rt_log rt) h" by (auto simp: realtime_inv_def)
  from log_append_inv [OF this a] have "realtime_inv d (rt\<lparr>rt_log := l\<rparr>)"
    using assms by (auto simp: realtime_inv_def)
  with a show ?thesis by (simp add: publish_def deliver_inv)
qed

lemmas service_defs = ticketCreated_def ticketUpdated_def ticketAssigned_def messageCreated_def
  noteCreated_def slaBreached_def integrationFailed_def

lemma service_inv [inv_intros]:
  assumes "realtime_inv d rt"
  shows "realtime_inv d (ticketCreated now t rt)" "realtime_inv d (ticketUpdated now t rt)"
    "realtime_inv d (ticketAssigned now t rt)" "realtime_inv d (messageCreated now m rt)"
    "realtime_inv d (noteCreated now m rt)" "realtime_inv d (slaBreached now tenant b rt)"
    "realtime_inv d (integrationFailed now tenant f rt)"
  using assms by (simp_all add: service_defs publish_inv)

lemma connect_inv [inv_intros]:
  assumes "realtime_inv d rt" and "gateway_connect wv av sid auth rt = (ok, rt')"
  shows "realtime_inv d rt'"
proof -
  have "kindOf p \<noteq> service_kind" if "gateway_authenticate wv av auth = Inr (Some p)" for p
    using that
    by (auto simp: gateway_authenticate_def realtimePrincipalOf_def split: option.splits sum.splits if_splits)
  with assms show ?thesis
    by (auto simp: gateway_connect_def realtime_inv_def map_of_update_eq socket_ok_def
        split: sum.splits option.splits if_splits)
qed

lemma mayJoin_entitled:
  assumes "mayJoin now p name d = Inr True" and "kindOf p \<noteq> service_kind"
  shows "entitled d p name"
proof (cases "canJoin p name")
  case JoinAllow
  then show ?thesis by (auto simp: canJoin_def entitled_def split: option.splits if_splits room.splits)
next
  case JoinDeny
  with assms(1) show ?thesis by (simp add: mayJoin_def)
next
  case RequiresRequesterMatch
  then have tenant: "\<exists>tid. parseRoom name = Some (TicketRoom (tenantOf p) tid)" "\<not> isStaff p"
    by (auto simp: canJoin_def split: option.splits if_splits room.splits)
  then obtain tid where room: "parseRoom name = Some (TicketRoom (tenantOf p) tid)" by blast
  from RequiresRequesterMatch room assms(1) obtain contact found d' where
    contact: "(if kindOf p = widget_kind then existingContactPrincipal p else Some p) = Some contact"
    and read: "asPrincipal now contact (\<lambda>s d. Inr (ticket_findUnique tid s d, d)) d = Inr (found, d')"
    and found: "found \<noteq> None"
    by (auto simp: mayJoin_def split: option.splits sum.splits)
  obtain c where c: "contact = ContactPrincipal (tenantOf p) c" "contactOf p = Some c"
    using contact tenant(2) assms(2) by (cases p) (auto simp: isStaff_def split: option.splits if_splits)
  from read obtain i where "actorFor contact = Inr (''contact'', i)"
    and "found = ticket_findUnique tid (tenant_session now (tenantOf contact) ''contact'' i) d"
    by (rule asPrincipal_session) (auto simp: c)
  with found c obtain t where "t \<in> set (tickets d)" "t_id t = tid"
    "visible_ticket (tenant_session now (tenantOf p) ''contact'' c) t"
    by (auto simp: ticket_findUnique_def dest: find_SomeD)
  then show ?thesis
    using room c by (auto simp: entitled_def visible_ticket_def tenant_matches_def current_actor_is_contact_def)
qed

lemma join_inv:
  assumes "realtime_inv d rt" and "map_of (rt_sockets rt) sid = Some so" and "so_principal so = Some p"
    and "entitled d p name" and "\<forall>e \<in> set es. entitled d p (ev_room e) \<and> canReceive p (ev_event e)"
  shows "realtime_inv d (socket_emit sid es (socket_join sid name rt))"
proof -
  from assms(1,2) have "socket_ok d so" by (auto simp: realtime_inv_def)
  with assms(3-5) have "socket_ok d (so\<lparr>so_rooms := if name \<in> set (so_rooms so) then so_rooms so else so_rooms so @ [name],
      so_received := so_received so @ es\<rparr>)"
    by (auto simp: socket_ok_def)
  with assms(1,2) show ?thesis
    by (auto simp: socket_emit_def socket_join_def realtime_inv_def map_of_update_eq)
qed

lemma subscribe_inv [inv_intros]:
  assumes inv: "realtime_inv d rt" and sub: "gateway_subscribe now sid body d rt = Inr (ack, rt')"
  shows "realtime_inv d rt'"
proof (cases "\<exists>name n g. ack = SubOk name n g")
  case True
  then obtain name n g where ack: "ack = SubOk name n g" by blast
  from sub ack obtain so p afterSeq events where so: "map_of (rt_sockets rt) sid = Some so"
    "so_principal so = Some p" and may: "mayJoin now p name d = Inr True"
    and rep: "log_replay p name afterSeq (rt_log rt) = (events, g)"
    and rt': "rt' = socket_emit sid events (socket_join sid name rt)"
    by (auto simp: gateway_subscribe_def split: option.splits sum.splits bool.splits prod.splits)
  have "kindOf p \<noteq> service_kind" by (rule socket_of [OF inv so(1)]) (simp add: so(2))
  then have ent: "entitled d p name" using may by (rule mayJoin_entitled [rotated])
  from inv obtain h where h: "log_inv (rt_log rt) h" by (auto simp: realtime_inv_def)
  have "entitled d p (ev_room e) \<and> canReceive p (ev_event e)" if "e \<in> set events" for e
  proof -
    from log_replay_sound [OF h rep that] have "e \<in> set (h name)" "canReceive p (ev_event e)" by auto
    moreover from this(1) h have "ev_room e = name" unfolding log_inv_def by blast
    ultimately show ?thesis using ent by simp
  qed
  then show ?thesis unfolding rt' by (intro join_inv [OF inv so ent]) blast
next
  case False
  with sub have "rt' = rt"
    by (auto simp: gateway_subscribe_def split: option.splits sum.splits bool.splits prod.splits)
  with inv show ?thesis by simp
qed

lemma leave_inv:
  assumes "realtime_inv d rt"
  shows "realtime_inv d (socket_leave sid name rt)"
proof (cases "map_of (rt_sockets rt) sid")
  case (Some so)
  have "socket_ok d (so\<lparr>so_rooms := removeAll name (so_rooms so)\<rparr>)"
    by (rule socket_of [OF assms Some]) (simp add: socket_ok_def)
  with assms Some show ?thesis by (auto simp: socket_leave_def realtime_inv_def map_of_update_eq)
qed (simp add: socket_leave_def assms)

lemma unsubscribe_inv [inv_intros]:
  assumes "realtime_inv d rt" and "gateway_unsubscribe sid body rt = (name, rt')"
  shows "realtime_inv d rt'"
  using assms leave_inv [of d rt] by (auto simp: gateway_unsubscribe_def Let_def split: if_splits)

end
