(* ===== verification/Isolation.thy ===== *)
theory Isolation
  imports Ticket_Invariants Realtime
begin

text \<open>
  The contract of an armed transaction: it keeps the schema's invariant, touches no row of
  another tenant and deletes no ticket. The statements of the database meet it, sequencing
  preserves it, and the services of the other theories are composed of such pieces; the
  locale \<open>armed_work\<close> draws the consequences once for everything run by \<open>withTenant\<close>.
\<close>

section \<open>The contract\<close>

record other_rows =
  o_contacts :: "(ident \<times> ident) list"
  o_users :: "(ident \<times> ident) list"
  o_tickets :: "ticket list"
  o_messages :: "thread_row list"
  o_notes :: "thread_row list"
  o_audit :: "audit_row list"
  o_deliveries :: "delivery_row list"
  o_jobs :: "job_row list"

definition others :: "ident \<Rightarrow> db \<Rightarrow> other_rows" where
  "others tenant d =
     \<lparr>o_contacts = filter (\<lambda>c. fst c \<noteq> tenant) (contacts d),
      o_users = filter (\<lambda>u. fst u \<noteq> tenant) (users d),
      o_tickets = filter (\<lambda>t. t_tenant t \<noteq> tenant) (tickets d),
      o_messages = filter (\<lambda>m. m_tenant m \<noteq> tenant) (messages d),
      o_notes = filter (\<lambda>m. m_tenant m \<noteq> tenant) (note_rows d),
      o_audit = filter (\<lambda>a. a_tenant a \<noteq> tenant) (audit d),
      o_deliveries = filter (\<lambda>x. d_tenant x \<noteq> tenant) (deliveries d),
      o_jobs = filter (\<lambda>j. j_tenant j \<noteq> tenant) (jobs d)\<rparr>"

definition safe_step :: "ident \<Rightarrow> db \<Rightarrow> db \<Rightarrow> bool" where
  "safe_step tenant d d' \<longleftrightarrow>
     ticket_inv d' \<and> others tenant d' = others tenant d \<and> keeps_tickets d d'"

definition tx_safe :: "(db, 'a) transaction \<Rightarrow> bool" where
  "tx_safe work \<longleftrightarrow>
     (\<forall>s d x d'. ticket_inv d \<longrightarrow> work s d = Inr (x, d') \<longrightarrow> safe_step (s_tenant s) d d')"

lemma tx_safeI:
  assumes "\<And>s d x d'. ticket_inv d \<Longrightarrow> work s d = Inr (x, d') \<Longrightarrow> safe_step (s_tenant s) d d'"
  shows "tx_safe work"
  using assms by (simp add: tx_safe_def)

lemma tx_safeD: "tx_safe work \<Longrightarrow> ticket_inv d \<Longrightarrow> work s d = Inr (x, d') \<Longrightarrow> safe_step (s_tenant s) d d'"
  unfolding tx_safe_def by blast

lemma safe_step_refl: "ticket_inv d \<Longrightarrow> safe_step tenant d d"
  by (simp add: safe_step_def)

lemma safe_step_trans: "safe_step tenant d d' \<Longrightarrow> safe_step tenant d' d'' \<Longrightarrow> safe_step tenant d d''"
  unfolding safe_step_def by (metis keeps_trans)

lemma safe_step_inv: "safe_step tenant d d' \<Longrightarrow> ticket_inv d'"
  by (simp add: safe_step_def)

section \<open>The statements\<close>

lemma filter_same_key:
  assumes "list_all2 (row_rel s sel f) ts ts'" and "stable_write f"
  shows "filter (\<lambda>t. t_tenant t \<noteq> s_tenant s) ts' = filter (\<lambda>t. t_tenant t \<noteq> s_tenant s) ts"
  using assms(1)
proof (induction rule: list_all2_induct)
  case (Cons t ts t' ts')
  have "t' = t \<or> t_tenant t = s_tenant s \<and> t_tenant t' = s_tenant s"
    using Cons.hyps(1) row_rel_same_key [OF Cons.hyps(1) assms(2)]
    by (auto simp: row_rel_def visible_ticket_def tenant_matches_def same_key_def split: if_splits)
  with Cons.IH show ?case by auto
qed simp

lemma update_rows_audit_tenant:
  assumes "update_rows s d sel f ts = Inr (n, ts', rows)" and "stable_write f"
  shows "\<forall>r \<in> set rows. a_tenant r = s_tenant s"
  using assms(1)
proof (induction ts arbitrary: n ts' rows)
  case (Cons t ts)
  show ?case
  proof (cases "visible_ticket s t \<and> sel t")
    case True
    with Cons.prems obtain t1 r1 n1 ts1 r2 where b: "ticket_before_update s d t (f t) = Inr (t1, r1)"
      and u: "update_rows s d sel f ts = Inr (n1, ts1, r2)" and rows: "rows = r1 @ r2"
      by (auto split: sum.splits)
    have "t_tenant (f t) = s_tenant s"
      using True assms(2) by (simp add: stable_write_def visible_ticket_def tenant_matches_def)
    then have "\<forall>r \<in> set r1. a_tenant r = s_tenant s"
      using before_update_row_step [OF b] by (auto simp: row_step_def)
    with Cons.IH [OF u] rows show ?thesis by auto
  next
    case False
    with Cons.prems Cons.IH show ?thesis by (auto split: sum.splits)
  qed
qed simp

lemma row_rel_evolves:
  assumes rel: "row_rel s sel f t t'" and st: "stable_write f" and pause: "pause_ok t"
  shows "row_evolves t t'"
proof (cases "visible_ticket s t \<and> sel t")
  case True
  with rel obtain rows where step: "row_step s t (f t) t' rows" by (auto simp: row_rel_def)
  have "t_paused_ms t \<le> t_paused_ms t'"
    using step st by (auto simp: row_step_def pause_step_def stable_write_def split: if_splits option.splits)
  moreover have "t_state t = TClosed \<Longrightarrow> t_state t' = TClosed"
    using step by (auto simp: row_step_def ticket_transition_is_legal_def)
  moreover have "latched x (keep_latch x y)" for x :: "millis option" and y
    by (simp add: latched_def keep_latch_def split: option.split)
  ultimately show ?thesis
    using step st by (auto simp: row_evolves_def row_step_def stable_write_def)
next
  case False
  with rel show ?thesis by (auto simp: row_rel_def)
qed

lemma updateMany_safe:
  assumes inv: "ticket_inv d" and upd: "ticket_updateMany sel f s d = Inr (n, d')" and st: "stable_write f"
  shows "safe_step (s_tenant s) d d'"
proof -
  from upd obtain ts rows where u: "update_rows s d sel f (tickets d) = Inr (n, ts, rows)"
    and d': "d' = d\<lparr>tickets := ts, audit := audit d @ rows\<rparr>" by (rule updateMany_parts)
  have rel: "list_all2 (row_rel s sel f) (tickets d) ts" using update_rows_rel [OF u] by simp
  have "row_rel s sel f t t' \<Longrightarrow> pause_ok t \<Longrightarrow> row_evolves t t'" for t t'
    by (rule row_rel_evolves [OF _ st])
  then have "keeps_tickets d d'"
    using list_all2_ex2 [OF rel] inv unfolding keeps_tickets_def d' ticket_inv_def by fastforce
  moreover have "filter (\<lambda>a. a_tenant a \<noteq> s_tenant s) rows = []"
    using update_rows_audit_tenant [OF u st] by (simp add: filter_empty_conv)
  ultimately show ?thesis
    using updateMany_inv [OF inv upd st] filter_same_key [OF rel st]
    by (simp add: safe_step_def others_def d')
qed

lemma insert_safe:
  assumes inv: "ticket_inv d" and ins: "ticket_insert new s d = Inr (t, d')"
    and clock: "t_pause_started new = None" "0 \<le> t_paused_ms new"
  shows "safe_step (s_tenant s) d d'"
proof -
  from ins have "visible_ticket s t" and d': "d' = d\<lparr>tickets := tickets d @ [t]\<rparr>" by (auto elim: insert_parts)
  then show ?thesis
    using insert_inv [OF inv ins clock]
    by (auto simp: safe_step_def others_def keeps_tickets_def visible_ticket_def tenant_matches_def
        intro: row_evolves_refl)
qed

lemma audit_record_safe:
  assumes "ticket_inv d" and "audit_record v s d = Inr (u, d')" and "v_action v \<noteq> ticket_transitioned"
  shows "safe_step (s_tenant s) d d'"
proof -
  from assms(2) obtain kind i where d': "d' = d\<lparr>audit := audit d @ [audit_row_of (s_tenant s) kind i v]\<rparr>"
    by (auto simp: audit_record_def audit_insert_def Let_def split: sum.splits if_splits)
  then show ?thesis
    using audit_record_inv [OF assms] by (simp add: safe_step_def others_def keeps_same)
qed

text \<open>Appending rows of the session's own tenant to a table the invariant does not read.\<close>

lemma frame_safe:
  assumes "ticket_inv d" and "tickets d' = tickets d" and "audit d' = audit d"
    and "others tenant d' = others tenant d"
    and "set (contacts d) \<subseteq> set (contacts d')" and "set (users d) \<subseteq> set (users d')"
  shows "safe_step tenant d d'"
  using inv_frame [OF assms(1-3,5,6)] assms(2,4) by (simp add: safe_step_def keeps_same)

lemma message_insert_safe:
  assumes inv: "ticket_inv d" and ins: "message_insert i tenant tid body s d = Inr (m, d')"
  shows "safe_step (s_tenant s) d d'"
proof -
  from ins obtain n where u: "ticket_updateMany (\<lambda>t. t_tenant t = tenant \<and> t_id t = tid)
      (observe_message m) s (d\<lparr>messages := messages d @ [m]\<rparr>) = Inr (n, d')"
    and vis: "visible_message s d m"
    by (auto simp: message_insert_def split: sum.splits if_splits)
  have "safe_step (s_tenant s) d (d\<lparr>messages := messages d @ [m]\<rparr>)"
    using inv vis by (intro frame_safe) (auto simp: others_def visible_message_def tenant_matches_def)
  then show ?thesis
    using updateMany_safe [OF _ u] by (blast intro: safe_step_trans stable_observe safe_step_inv)
qed

lemma note_insert_safe:
  assumes inv: "ticket_inv d" and ins: "note_insert i tenant tid body s d = Inr (m, d')"
  shows "safe_step (s_tenant s) d d'"
proof -
  from ins obtain n where u: "ticket_updateMany (\<lambda>t. t_tenant t = tenant \<and> t_id t = tid)
      (\<lambda>t. t\<lparr>t_last_activity := m_created m\<rparr>) s (d\<lparr>note_rows := note_rows d @ [m]\<rparr>) = Inr (n, d')"
    and vis: "visible_note s m"
    by (auto simp: note_insert_def split: sum.splits if_splits)
  have "safe_step (s_tenant s) d (d\<lparr>note_rows := note_rows d @ [m]\<rparr>)"
    using inv vis by (intro frame_safe) (auto simp: others_def visible_note_def tenant_matches_def)
  then show ?thesis
    using updateMany_safe [OF _ u] by (blast intro: safe_step_trans stable_observe safe_step_inv)
qed

section \<open>What a caller may rely on\<close>

locale armed_work =
  fixes work :: "(db, 'a) transaction"
  assumes safe: "tx_safe work"
begin

lemma tenant_run:
  assumes "ticket_inv d" and "withTenant now ctx work d = Inr (x, d')"
  shows "safe_step (ctx_tenant ctx) d d'"
proof -
  from assms(2) obtain kind i where "work (tenant_session now (ctx_tenant ctx) kind i) d = Inr (x, d')"
    by (rule withTenant_session) blast
  from tx_safeD [OF safe assms(1) this] show ?thesis by simp
qed

lemma principal_run:
  assumes "ticket_inv d" and "asPrincipal now p work d = Inr (x, d')"
  shows "safe_step (tenantOf p) d d'"
proof -
  from assms(2) obtain kind i where "work (tenant_session now (tenantOf p) kind i) d = Inr (x, d')"
    by (rule asPrincipal_session) blast
  from tx_safeD [OF safe assms(1) this] show ?thesis by simp
qed

text \<open>Another tenant's view of the sockets' entitlements survives the run.\<close>

lemma principal_run_realtime:
  assumes "ticket_inv d" and "asPrincipal now p work d = Inr (x, d')" and "realtime_inv d rt"
  shows "realtime_inv d' rt"
  using principal_run [OF assms(1,2)] assms(3) by (auto simp: safe_step_def intro: realtime_inv_mono)

end

end
