(* ===== verification/Pagination.thy ===== *)
theory Pagination
  imports Js_Runtime App_Errors "HOL-Library.Char_ord" "HOL-Library.List_Lexorder"
    "HOL-Library.Product_Lexorder"
begin

text \<open>
  Keyset pagination (\<open>src/src/common/pagination\<close>): the sort parameter, the opaque cursor, the
  seek predicate and the page that is built from \<open>limit + 1\<close> fetched rows, with the guard
  that refuses undeclared query parameters. A table is seen through its id column and its
  sortable columns; the query the plan describes is evaluated the way the database does it.
\<close>

section \<open>Column values\<close>

datatype column_value = CDate millis | CNum int | CText string

instantiation column_value :: linorder
begin

fun less_column_value :: "column_value \<Rightarrow> column_value \<Rightarrow> bool" where
  "less_column_value (CDate a) (CDate b) = (a < b)"
| "less_column_value (CDate _) _ = True"
| "less_column_value (CNum a) (CNum b) = (a < b)"
| "less_column_value (CNum _) (CText _) = True"
| "less_column_value (CNum _) (CDate _) = False"
| "less_column_value (CText a) (CText b) = (a < b)"
| "less_column_value (CText _) _ = False"

definition less_eq_column_value :: "column_value \<Rightarrow> column_value \<Rightarrow> bool" where
  "less_eq_column_value a b \<longleftrightarrow> a < b \<or> a = b"

instance
proof
  fix x y z :: column_value
  show "(x < y) = (x \<le> y \<and> \<not> y \<le> x)"
    by (cases x; cases y) (auto simp: less_eq_column_value_def)
  show "x \<le> x" by (simp add: less_eq_column_value_def)
  show "x \<le> y \<Longrightarrow> y \<le> z \<Longrightarrow> x \<le> z"
    by (cases x; cases y; cases z) (auto simp: less_eq_column_value_def)
  show "x \<le> y \<Longrightarrow> y \<le> x \<Longrightarrow> x = y"
    by (cases x; cases y) (auto simp: less_eq_column_value_def)
  show "x \<le> y \<or> y \<le> x"
    by (cases x; cases y) (auto simp: less_eq_column_value_def)
qed

end

section \<open>Sorts\<close>

datatype direction = Asc | Desc

record sort_spec =
  sort_field :: string
  sort_dir :: direction

definition DEFAULT_SORT :: sort_spec where
  "DEFAULT_SORT = \<lparr>sort_field = ''createdAt'', sort_dir = Desc\<rparr>"

definition parseSort :: "string option \<Rightarrow> string list \<Rightarrow> sort_spec \<Rightarrow> thrown + sort_spec" where
  "parseSort raw allowed fallback =
     (case raw of
        None \<Rightarrow> Inr fallback
      | Some r \<Rightarrow>
          (let dir = (if starts_with ''-'' r then Desc else Asc);
               fld = (if starts_with ''-'' r then drop 1 r else r)
           in if fld \<notin> set allowed
              then Inl (App (app_error invalid_sort
                     (''Cannot sort by '' @ [CHR 0x27] @ fld @ [CHR 0x27] @ ''. Sortable flds: '' @
                      join_with '', '' allowed @ ''.'')))
              else Inr \<lparr>sort_field = fld, sort_dir = dir\<rparr>))"

section \<open>Cursors\<close>

datatype cursor_value = KStr string | KNum jsnum

record cursor_position =
  cp_sort :: sort_spec
  cp_value :: cursor_value
  cp_id :: ident

definition CURSOR_VERSION :: int where "CURSOR_VERSION = 1"

fun direction_text :: "direction \<Rightarrow> string" where
  "direction_text Asc = ''asc''"
| "direction_text Desc = ''desc''"

fun cursor_json :: "cursor_value \<Rightarrow> json" where
  "cursor_json (KStr s) = JStr s"
| "cursor_json (KNum n) = JNum n"

definition invalid_cursor_error :: thrown where
  "invalid_cursor_error = App (app_error invalid_cursor
     ''The pagination cursor is malformed. Restart the traversal without a cursor.'')"

definition cursor_payload :: "cursor_position \<Rightarrow> json" where
  "cursor_payload p = JObj
     [(''v'', JNum (JInt CURSOR_VERSION)), (''f'', JStr (sort_field (cp_sort p))),
      (''d'', JStr (direction_text (sort_dir (cp_sort p)))), (''k'', cursor_json (cp_value p)),
      (''i'', JStr (cp_id p))]"

definition encodeCursor :: "cursor_position \<Rightarrow> string" where
  "encodeCursor p = base64url (json_text (cursor_payload p))"

text \<open>\<open>isCursorPayload\<close>, together with the fields it vouches for and the version.\<close>

definition isCursorPayload :: "json \<Rightarrow> (jsnum \<times> cursor_position) option" where
  "isCursorPayload j =
     (case (json_field j ''v'', json_field j ''f'', json_field j ''d'', json_field j ''k'', json_field j ''i'') of
        (Some (JNum v), Some (JStr f), Some (JStr d), Some k, Some (JStr i)) \<Rightarrow>
          (case (if d = ''asc'' then Some Asc else if d = ''desc'' then Some Desc else None,
                 case k of JStr s \<Rightarrow> Some (KStr s) | JNum n \<Rightarrow> Some (KNum n) | _ \<Rightarrow> None) of
             (Some dir, Some value) \<Rightarrow>
               Some (v, \<lparr>cp_sort = \<lparr>sort_field = f, sort_dir = dir\<rparr>, cp_value = value, cp_id = i\<rparr>)
           | _ \<Rightarrow> None)
      | _ \<Rightarrow> None)"

definition decodeCursor :: "string \<Rightarrow> thrown + cursor_position" where
  "decodeCursor cursor =
     (case json_parse (base64url_decode cursor) of
        None \<Rightarrow> Inl invalid_cursor_error
      | Some payload \<Rightarrow>
          (case isCursorPayload payload of
             Some (v, p) \<Rightarrow> if v = JInt CURSOR_VERSION then Inr p else Inl invalid_cursor_error
           | None \<Rightarrow> Inl invalid_cursor_error))"

definition assertCursorMatchesSort :: "cursor_position \<Rightarrow> sort_spec \<Rightarrow> thrown + unit" where
  "assertCursorMatchesSort p s =
     (if sort_field (cp_sort p) \<noteq> sort_field s \<or> sort_dir (cp_sort p) \<noteq> sort_dir s
      then Inl (App (app_error invalid_cursor
             ''This cursor was issued for a different sort. Restart the traversal without a cursor.''))
      else Inr ())"

section \<open>The plan\<close>

datatype field_kind = DateField | ScalarField

type_synonym sortable_fields = "(string \<times> field_kind) list"

definition sortableFieldNames :: "sortable_fields \<Rightarrow> string list" where
  "sortableFieldNames flds = map fst flds"

text \<open>
  The value a plan compares with. \<open>BadDate\<close> is an invalid \<open>Date\<close> object: \<open>decodeValue\<close>
  builds it without a complaint and the query layer then refuses it.
\<close>

datatype plan_value = PlanValue column_value | BadDate

fun number_value :: "jsnum \<Rightarrow> int option" where
  "number_value (JInt n) = Some n"
| "number_value JFrac = None"

definition max_time_value :: int where "max_time_value = 8640000000000000"

fun decodeValue :: "(string \<Rightarrow> millis option) \<Rightarrow> cursor_value \<Rightarrow> field_kind \<Rightarrow> plan_value" where
  "decodeValue other (KStr s) DateField =
     (case date_of other s of Some ms \<Rightarrow> PlanValue (CDate ms) | None \<Rightarrow> BadDate)"
| "decodeValue other (KNum n) DateField =
     (case number_value n of
        Some ms \<Rightarrow> if \<bar>ms\<bar> \<le> max_time_value then PlanValue (CDate ms) else BadDate
      | None \<Rightarrow> BadDate)"
| "decodeValue other (KStr s) ScalarField = PlanValue (CText s)"
| "decodeValue other (KNum n) ScalarField =
     (case number_value n of Some k \<Rightarrow> PlanValue (CNum k) | None \<Rightarrow> BadDate)"

datatype seek =
    SeekId direction ident
  | SeekTuple direction string plan_value ident

definition seekPast :: "sort_spec \<Rightarrow> plan_value \<Rightarrow> ident \<Rightarrow> seek" where
  "seekPast s value anchor =
     (if sort_field s = ''id'' then SeekId (sort_dir s) anchor
      else SeekTuple (sort_dir s) (sort_field s) value anchor)"

definition orderByFor :: "sort_spec \<Rightarrow> (string \<times> direction) list" where
  "orderByFor s =
     (if sort_field s = ''id'' then [(''id'', sort_dir s)]
      else [(sort_field s, sort_dir s), (''id'', sort_dir s)])"

record keyset_plan =
  kp_order :: "(string \<times> direction) list"
  kp_where :: "seek option"

definition keysetPlan ::
  "(string \<Rightarrow> millis option) \<Rightarrow> sort_spec \<Rightarrow> string option \<Rightarrow> sortable_fields \<Rightarrow> thrown + keyset_plan" where
  "keysetPlan other s cursor flds =
     (case cursor of
        None \<Rightarrow> Inr \<lparr>kp_order = orderByFor s, kp_where = None\<rparr>
      | Some c \<Rightarrow>
          (case decodeCursor c of
             Inl e \<Rightarrow> Inl e
           | Inr position \<Rightarrow>
               (case assertCursorMatchesSort position s of
                  Inl e \<Rightarrow> Inl e
                | Inr _ \<Rightarrow>
                    (case map_of flds (sort_field (cp_sort position)) of
                       None \<Rightarrow> Inl (App (app_error invalid_cursor
                         ''This cursor was not issued for this resource. Restart the traversal without a cursor.''))
                     | Some kind \<Rightarrow>
                         Inr \<lparr>kp_order = orderByFor s,
                              kp_where = Some (seekPast s (decodeValue other (cp_value position) kind) (cp_id position))\<rparr>))))"

section \<open>Pages\<close>

record 'r page =
  pg_data :: "'r list"
  pg_next :: "string option"

definition emptyPage :: "'r page" where
  "emptyPage = \<lparr>pg_data = [], pg_next = None\<rparr>"

text \<open>A table as pagination sees it: its id column and its other columns by name.\<close>

record 'r table =
  tb_id :: "'r \<Rightarrow> ident"
  tb_col :: "'r \<Rightarrow> string \<Rightarrow> column_value option"

definition column_of :: "'r table \<Rightarrow> 'r \<Rightarrow> string \<Rightarrow> column_value option" where
  "column_of tb r fld = (if fld = ''id'' then Some (CText (tb_id tb r)) else tb_col tb r fld)"

definition sortValueOf :: "'r table \<Rightarrow> 'r \<Rightarrow> string \<Rightarrow> thrown + cursor_value" where
  "sortValueOf tb r fld =
     (case column_of tb r fld of
        Some (CDate ms) \<Rightarrow> Inr (KStr (to_iso ms))
      | Some (CText s) \<Rightarrow> Inr (KStr s)
      | Some (CNum n) \<Rightarrow> Inr (KNum (JInt n))
      | None \<Rightarrow> Inl (RawError None None))"

definition buildPage :: "'r table \<Rightarrow> 'r list \<Rightarrow> nat \<Rightarrow> sort_spec \<Rightarrow> thrown + 'r page" where
  "buildPage tb rows limit s =
     (let hasMore = limit < length rows;
          data = (if hasMore then take limit rows else rows)
      in if \<not> hasMore \<or> data = [] then Inr \<lparr>pg_data = data, pg_next = None\<rparr>
         else case sortValueOf tb (last data) (sort_field s) of
           Inl e \<Rightarrow> Inl e
         | Inr value \<Rightarrow>
             Inr \<lparr>pg_data = data,
                  pg_next = Some (encodeCursor \<lparr>cp_sort = s, cp_value = value, cp_id = tb_id tb (last data)\<rparr>)\<rparr>)"

section \<open>Evaluating the query\<close>

fun past :: "direction \<Rightarrow> 'a::linorder \<Rightarrow> 'a \<Rightarrow> bool" where
  "past Asc anchor x = (anchor < x)"
| "past Desc anchor x = (x < anchor)"

text \<open>\<open>OR: [{field: {op: value}}, {field: value, id: {op: anchor}}]\<close>\<close>

fun seek_matches :: "'r table \<Rightarrow> seek \<Rightarrow> 'r \<Rightarrow> bool" where
  "seek_matches tb (SeekId dir anchor) r = past dir anchor (tb_id tb r)"
| "seek_matches tb (SeekTuple dir fld BadDate anchor) r = False"
| "seek_matches tb (SeekTuple dir fld (PlanValue v) anchor) r =
     (case column_of tb r fld of
        None \<Rightarrow> False
      | Some x \<Rightarrow> past dir v x \<or> (x = v \<and> past dir anchor (tb_id tb r)))"

definition row_key :: "'r table \<Rightarrow> string \<Rightarrow> 'r \<Rightarrow> column_value \<times> ident" where
  "row_key tb fld r = (the (column_of tb r fld), tb_id tb r)"

fun order_rows :: "'r table \<Rightarrow> sort_spec \<Rightarrow> 'r list \<Rightarrow> 'r list" where
  "order_rows tb s rows =
     (case sort_dir s of
        Asc \<Rightarrow> sort_key (row_key tb (sort_field s)) rows
      | Desc \<Rightarrow> rev (sort_key (row_key tb (sort_field s)) rows))"

text \<open>
  The driver refuses an invalid date and a malformed uuid in the predicate; neither is an
  \<open>AppException\<close>.
\<close>

fun seek_accepted :: "seek option \<Rightarrow> bool" where
  "seek_accepted None = True"
| "seek_accepted (Some (SeekId _ anchor)) = is_uuid anchor"
| "seek_accepted (Some (SeekTuple _ _ v anchor)) = (v \<noteq> BadDate \<and> is_uuid anchor)"

fun where_matches :: "'r table \<Rightarrow> seek option \<Rightarrow> 'r \<Rightarrow> bool" where
  "where_matches tb None r = True"
| "where_matches tb (Some sk) r = seek_matches tb sk r"

definition find_many :: "'r table \<Rightarrow> sort_spec \<Rightarrow> keyset_plan \<Rightarrow> nat \<Rightarrow> 'r list \<Rightarrow> thrown + 'r list" where
  "find_many tb s plan n rows =
     (if \<not> seek_accepted (kp_where plan) then Inl (RawError None None)
      else Inr (take n (order_rows tb s
             (filter (where_matches tb (kp_where plan)) rows))))"

text \<open>
  The shape every list endpoint has: parse the sort, plan, fetch \<open>limit + 1\<close> of the
  matching rows, build the page.
\<close>

definition list_page ::
  "(string \<Rightarrow> millis option) \<Rightarrow> 'r table \<Rightarrow> sortable_fields \<Rightarrow> nat \<Rightarrow> string option \<Rightarrow> string option \<Rightarrow>
   'r list \<Rightarrow> thrown + 'r page" where
  "list_page other tb flds limit cursor rawSort rows =
     bindE (parseSort rawSort (sortableFieldNames flds) DEFAULT_SORT) (\<lambda>s.
     bindE (keysetPlan other s cursor flds) (\<lambda>plan.
     bindE (find_many tb s plan (Suc limit) rows) (\<lambda>found. buildPage tb found limit s)))"

section \<open>Cursor round trip\<close>

lemma decode_encode:
  assumes "cp_value p \<noteq> KNum JFrac"
  shows "decodeCursor (encodeCursor p) = Inr p"
proof -
  have flat: "is_flat (cursor_json (cp_value p))"
    using assms by (cases "cp_value p" rule: cursor_json.cases) (auto, metis is_flat.simps(2) jsnum.exhaust)
  have "json_parse (json_text (cursor_payload p)) = Some (cursor_payload p)"
    unfolding cursor_payload_def using flat by (intro json_flat_roundtrip) auto
  moreover have "isCursorPayload (cursor_payload p) = Some (JInt CURSOR_VERSION, p)"
    by (cases "cp_value p"; cases "sort_dir (cp_sort p)") (auto simp: isCursorPayload_def cursor_payload_def)
  ultimately show ?thesis by (simp add: decodeCursor_def encodeCursor_def del: json_text.simps)
qed

section \<open>The order\<close>

abbreviation key_past :: "'r table \<Rightarrow> sort_spec \<Rightarrow> 'r \<Rightarrow> 'r \<Rightarrow> bool" where
  "key_past tb s x y \<equiv> past (sort_dir s) (row_key tb (sort_field s) x) (row_key tb (sort_field s) y)"

definition readable :: "'r table \<Rightarrow> sortable_fields \<Rightarrow> sort_spec \<Rightarrow> 'r \<Rightarrow> bool" where
  "readable tb flds s r \<longleftrightarrow>
     is_uuid (tb_id tb r) \<and>
     (case column_of tb r (sort_field s) of
        Some (CDate ms) \<Rightarrow> map_of flds (sort_field s) = Some DateField \<and> four_digit_year ms
      | Some _ \<Rightarrow> map_of flds (sort_field s) = Some ScalarField
      | None \<Rightarrow> False)"

lemma past_trans: "past d a b \<Longrightarrow> past d b c \<Longrightarrow> past d a c"
  by (cases d) auto

lemma past_irrefl [simp]: "\<not> past d a a"
  by (cases d) auto

lemma past_asym: "past d a b \<Longrightarrow> \<not> past d b a"
  by (cases d) auto

lemma row_key_inj: "row_key tb fld x = row_key tb fld y \<Longrightarrow> tb_id tb x = tb_id tb y"
  by (simp add: row_key_def)

lemma set_order_rows [simp]: "set (order_rows tb s rows) = set rows"
  by (simp split: direction.split)

lemma length_order_rows [simp]: "length (order_rows tb s rows) = length rows"
  by (simp split: direction.split)

lemma order_rows_filter: "order_rows tb s (filter P rows) = filter P (order_rows tb s rows)"
  by (simp add: filter_sort rev_filter [symmetric] split: direction.split)

lemma sorted_strict:
  fixes f :: "'a \<Rightarrow> 'b::linorder"
  assumes "sorted (map f xs)" and "distinct (map f xs)"
  shows "sorted_wrt (\<lambda>x y. f x < f y) xs"
  using assms strict_sorted_iff [of "map f xs"] by (simp add: sorted_wrt_map)

lemma order_rows_sorted:
  assumes "distinct (map (tb_id tb) rows)"
  shows "sorted_wrt (key_past tb s) (order_rows tb s rows)"
proof -
  let ?k = "row_key tb (sort_field s)"
  have "inj_on ?k (set rows)" "distinct rows"
    using assms by (auto simp: distinct_map inj_on_def dest: row_key_inj)
  then have "distinct (map ?k (sort_key ?k rows))" by (simp add: distinct_map)
  then have "sorted_wrt (\<lambda>x y. ?k x < ?k y) (sort_key ?k rows)"
    by (intro sorted_strict sorted_sort_key)
  then show ?thesis by (cases "sort_dir s") (simp_all add: sorted_wrt_rev)
qed

lemma filter_past_drop:
  assumes srt: "sorted_wrt R xs" and irr: "\<And>x. \<not> R x x" and asym: "\<And>x y. R x y \<Longrightarrow> \<not> R y x"
    and n: "0 < n" "n \<le> length xs"
  shows "filter (R (last (take n xs))) xs = drop n xs"
proof -
  let ?a = "last (take n xs)"
  have ne: "take n xs \<noteq> []" using n by auto
  have split: "xs = take n xs @ drop n xs" by simp
  have "sorted_wrt R (take n xs @ drop n xs)" using srt by simp
  then have cross: "\<And>x y. x \<in> set (take n xs) \<Longrightarrow> y \<in> set (drop n xs) \<Longrightarrow> R x y"
    and pre: "sorted_wrt R (take n xs)"
    unfolding sorted_wrt_append by blast+
  have "\<not> R ?a x" if "x \<in> set (take n xs)" for x
  proof -
    obtain ys where ys: "take n xs = ys @ [?a]" using ne by (metis append_butlast_last_id)
    then have "\<forall>y \<in> set ys. R y ?a" using pre by (metis list.set_intros(1) sorted_wrt_append)
    moreover have "x \<in> set ys \<or> x = ?a"
      using that ys by (metis Un_iff empty_iff insert_iff list.set(1) list.set(2) set_append)
    ultimately show ?thesis using irr asym by blast
  qed
  then have "filter (R ?a) (take n xs) = []" by (simp add: filter_empty_conv)
  moreover have "filter (R ?a) (drop n xs) = drop n xs"
    using cross [OF last_in_set [OF ne]] by (simp add: filter_id_conv)
  ultimately show ?thesis by (metis split append_Nil filter_append)
qed

section \<open>One page\<close>

definition cursor_of :: "'r table \<Rightarrow> sort_spec \<Rightarrow> 'r \<Rightarrow> string" where
  "cursor_of tb s r = encodeCursor
     \<lparr>cp_sort = s,
      cp_value = (case sortValueOf tb r (sort_field s) of Inr v \<Rightarrow> v | Inl _ \<Rightarrow> KStr []),
      cp_id = tb_id tb r\<rparr>"

text \<open>The rows strictly beyond an anchor row, in order; all of them without an anchor.\<close>

definition beyond :: "'r table \<Rightarrow> sort_spec \<Rightarrow> 'r option \<Rightarrow> 'r list \<Rightarrow> 'r list" where
  "beyond tb s anchor rows =
     (case anchor of
        None \<Rightarrow> order_rows tb s rows
      | Some a \<Rightarrow> filter (key_past tb s a) (order_rows tb s rows))"

definition page_of :: "'r table \<Rightarrow> sort_spec \<Rightarrow> nat \<Rightarrow> 'r list \<Rightarrow> 'r page" where
  "page_of tb s limit xs =
     \<lparr>pg_data = take limit xs,
      pg_next = (if limit < length xs then Some (cursor_of tb s (last (take limit xs))) else None)\<rparr>"

lemma sortValueOf_readable:
  assumes "readable tb flds s r"
  obtains v kind where "sortValueOf tb r (sort_field s) = Inr v" and "v \<noteq> KNum JFrac"
    and "map_of flds (sort_field s) = Some kind"
    and "decodeValue other v kind = PlanValue (fst (row_key tb (sort_field s) r))"
    and "column_of tb r (sort_field s) = Some (fst (row_key tb (sort_field s) r))"
proof (cases "column_of tb r (sort_field s)")
  case None
  with assms show ?thesis by (simp add: readable_def)
next
  case (Some c)
  then show ?thesis
  proof (cases c)
    case (CDate ms)
    with Some assms show ?thesis
      by (intro that [of "KStr (to_iso ms)" DateField])
        (auto simp: readable_def sortValueOf_def row_key_def date_round)
  next
    case (CNum n)
    with Some assms show ?thesis
      by (intro that [of "KNum (JInt n)" ScalarField]) (auto simp: readable_def sortValueOf_def row_key_def)
  next
    case (CText t)
    with Some assms show ?thesis
      by (intro that [of "KStr t" ScalarField]) (auto simp: readable_def sortValueOf_def row_key_def)
  qed
qed

lemma seek_is_past:
  assumes "column_of tb r (sort_field s) = Some v" and "column_of tb a (sort_field s) = Some w"
  shows "seek_matches tb (seekPast s (PlanValue w) (tb_id tb a)) r = key_past tb s a r"
  using assms
  by (cases "sort_dir s"; cases "sort_field s = ''id''")
    (auto simp: seekPast_def row_key_def column_of_def)

lemma keysetPlan_cursor_of:
  assumes "readable tb flds s a"
  shows "keysetPlan other s (Some (cursor_of tb s a)) flds =
    Inr \<lparr>kp_order = orderByFor s,
         kp_where = Some (seekPast s (PlanValue (fst (row_key tb (sort_field s) a))) (tb_id tb a))\<rparr>"
proof -
  obtain v kind where v: "sortValueOf tb a (sort_field s) = Inr v" "v \<noteq> KNum JFrac"
    "map_of flds (sort_field s) = Some kind"
    "decodeValue other v kind = PlanValue (fst (row_key tb (sort_field s) a))"
    by (rule sortValueOf_readable [OF assms, where other = other])
  let ?p = "\<lparr>cp_sort = s, cp_value = v, cp_id = tb_id tb a\<rparr>"
  have "decodeCursor (cursor_of tb s a) = Inr ?p"
    using decode_encode [of ?p] v by (simp add: cursor_of_def)
  with v show ?thesis by (simp add: keysetPlan_def assertCursorMatchesSort_def)
qed

lemma find_many_beyond:
  assumes "\<forall>r \<in> set rows. readable tb flds s r" and "\<forall>a \<in> set_option anchor. readable tb flds s a"
    and "keysetPlan other s (map_option (cursor_of tb s) anchor) flds = Inr plan"
  shows "find_many tb s plan n rows = Inr (take n (beyond tb s anchor rows))"
proof (cases anchor)
  case None
  with assms(3) show ?thesis by (auto simp: keysetPlan_def find_many_def beyond_def simp del: order_rows.simps)
next
  case (Some a)
  with assms have a: "readable tb flds s a"
    and plan: "kp_where plan = Some (seekPast s (PlanValue (fst (row_key tb (sort_field s) a))) (tb_id tb a))"
    by (auto simp: keysetPlan_cursor_of)
  have "seek_accepted (kp_where plan)" using a plan by (simp add: seekPast_def readable_def)
  moreover have "filter (where_matches tb (kp_where plan)) (order_rows tb s rows)
      = filter (key_past tb s a) (order_rows tb s rows)"
  proof (rule filter_cong [OF refl])
    fix r assume "r \<in> set (order_rows tb s rows)"
    with assms(1) have r: "readable tb flds s r" unfolding set_order_rows by blast
    have "seek_matches tb (seekPast s (PlanValue (fst (row_key tb (sort_field s) a))) (tb_id tb a)) r = key_past tb s a r"
      by (rule sortValueOf_readable [OF r], rule sortValueOf_readable [OF a], rule seek_is_past)
    then show "where_matches tb (kp_where plan) r = key_past tb s a r" by (simp add: plan)
  qed
  ultimately show ?thesis
    using Some by (simp add: find_many_def beyond_def order_rows_filter del: order_rows.simps)
qed

lemma buildPage_page_of:
  assumes "\<forall>r \<in> set xs. readable tb flds s r" and "0 < limit"
  shows "buildPage tb (take (Suc limit) xs) limit s = Inr (page_of tb s limit xs)"
proof (cases "limit < length xs")
  case True
  then have ne: "take limit xs \<noteq> []" using assms(2) by auto
  then have "readable tb flds s (last (take limit xs))"
    using assms(1) by (meson in_set_takeD last_in_set)
  then obtain v where "sortValueOf tb (last (take limit xs)) (sort_field s) = Inr v"
    by (rule sortValueOf_readable) blast
  with True ne show ?thesis by (simp add: buildPage_def page_of_def cursor_of_def Let_def)
qed (simp add: buildPage_def page_of_def Let_def)

lemma list_page_beyond:
  assumes "parseSort raw (sortableFieldNames flds) DEFAULT_SORT = Inr s"
    and "\<forall>r \<in> set rows. readable tb flds s r" and "\<forall>a \<in> set_option anchor. readable tb flds s a"
    and "0 < limit"
  shows "list_page other tb flds limit (map_option (cursor_of tb s) anchor) raw rows =
    Inr (page_of tb s limit (beyond tb s anchor rows))"
proof -
  obtain plan where plan: "keysetPlan other s (map_option (cursor_of tb s) anchor) flds = Inr plan"
    using assms(3) by (cases anchor) (auto simp: keysetPlan_def [of _ _ None] keysetPlan_cursor_of)
  have "\<forall>r \<in> set (beyond tb s anchor rows). readable tb flds s r"
    using assms(2) by (auto simp: beyond_def simp del: order_rows.simps split: option.splits)
  from buildPage_page_of [OF this assms(4)] show ?thesis
    using assms plan by (simp add: list_page_def find_many_beyond)
qed

section \<open>A traversal\<close>

text \<open>
  A client follows \<open>nextCursor\<close> while the table changes under it: one snapshot of the table
  per request. The flag says that the last page had no cursor.
\<close>

fun traverse ::
  "(string \<Rightarrow> millis option) \<Rightarrow> 'r table \<Rightarrow> sortable_fields \<Rightarrow> nat \<Rightarrow> string option \<Rightarrow> string option \<Rightarrow>
   'r list list \<Rightarrow> thrown + ('r list \<times> bool)" where
  "traverse other tb flds limit raw cursor [] = Inr ([], False)"
| "traverse other tb flds limit raw cursor (rows # later) =
     bindE (list_page other tb flds limit cursor raw rows) (\<lambda>pg.
       case pg_next pg of
         None \<Rightarrow> Inr (pg_data pg, True)
       | Some c \<Rightarrow> bindE (traverse other tb flds limit raw (Some c) later)
                      (\<lambda>(rest, done). Inr (pg_data pg @ rest, done)))"

definition snapshot_ok :: "'r table \<Rightarrow> sortable_fields \<Rightarrow> sort_spec \<Rightarrow> 'r list \<Rightarrow> bool" where
  "snapshot_ok tb flds s rows \<longleftrightarrow>
     distinct (map (tb_id tb) rows) \<and> (\<forall>r \<in> set rows. readable tb flds s r)"

lemma beyond_sorted:
  assumes "snapshot_ok tb flds s rows"
  shows "sorted_wrt (key_past tb s) (beyond tb s anchor rows)"
  using order_rows_sorted [of tb rows s] assms
  by (auto simp: beyond_def snapshot_ok_def sorted_wrt_filter simp del: order_rows.simps split: option.split)

lemma beyond_mem:
  "r \<in> set (beyond tb s anchor rows) \<longleftrightarrow> r \<in> set rows \<and> (\<forall>a \<in> set_option anchor. key_past tb s a r)"
  by (auto simp: beyond_def simp del: order_rows.simps split: option.split)

lemma beyond_next:
  assumes "snapshot_ok tb flds s rows" and "0 < limit" and "limit < length (beyond tb s anchor rows)"
  shows "beyond tb s (Some (last (take limit (beyond tb s anchor rows)))) rows = drop limit (beyond tb s anchor rows)"
proof -
  let ?xs = "beyond tb s anchor rows"
  let ?a = "last (take limit ?xs)"
  have "?a \<in> set ?xs" using assms(2,3) by (metis in_set_takeD last_in_set length_0_conv length_greater_0_conv less_trans take_eq_Nil)
  then have "\<forall>b \<in> set_option anchor. key_past tb s b ?a" by (simp add: beyond_mem)
  then have "filter (key_past tb s ?a) (order_rows tb s rows) = filter (key_past tb s ?a) ?xs"
    by (cases anchor) (auto simp: beyond_def simp del: order_rows.simps intro!: filter_cong intro: past_trans)
  also have "\<dots> = drop limit ?xs"
    using assms(2,3) by (intro filter_past_drop beyond_sorted [OF assms(1)]) (auto dest: past_asym)
  finally show ?thesis by (simp add: beyond_def [of _ _ "Some ?a"])
qed

lemma last_taken:
  assumes "0 < limit" and "limit < length xs"
  shows "last (take limit xs) \<in> set xs"
  using assms by (metis in_set_takeD last_in_set length_0_conv length_greater_0_conv less_trans take_eq_Nil)

lemma sorted_before_last:
  assumes "sorted_wrt R xs" and "x \<in> set xs"
  shows "R x (last xs) \<or> x = last xs"
  using assms by (cases xs rule: rev_cases) (auto simp: sorted_wrt_append)

lemma traverse_step:
  assumes "parseSort raw (sortableFieldNames flds) DEFAULT_SORT = Inr s"
    and "snapshot_ok tb flds s rows" and "\<forall>a \<in> set_option anchor. readable tb flds s a" and "0 < limit"
  defines "xs \<equiv> beyond tb s anchor rows"
  shows "traverse other tb flds limit raw (map_option (cursor_of tb s) anchor) (rows # later) =
    (if limit < length xs
     then bindE (traverse other tb flds limit raw (map_option (cursor_of tb s) (Some (last (take limit xs)))) later)
            (\<lambda>(rest, done). Inr (take limit xs @ rest, done))
     else Inr (xs, True))"
  using list_page_beyond [OF assms(1) _ assms(3,4), of rows other] assms(2)
  by (simp add: snapshot_ok_def page_of_def xs_def)

lemma traverse_fixed:
  assumes sort: "parseSort raw (sortableFieldNames flds) DEFAULT_SORT = Inr s"
    and snap: "snapshot_ok tb flds s rows" and limit: "0 < limit"
    and "\<forall>a \<in> set_option anchor. readable tb flds s a" and "length (beyond tb s anchor rows) < n"
  shows "traverse other tb flds limit raw (map_option (cursor_of tb s) anchor) (replicate n rows) =
    Inr (beyond tb s anchor rows, True)"
  using assms(4,5)
proof (induction n arbitrary: anchor)
  case (Suc n)
  let ?xs = "beyond tb s anchor rows"
  show ?case
  proof (cases "limit < length ?xs")
    case True
    let ?a = "last (take limit ?xs)"
    have "?a \<in> set rows" using last_taken [OF limit True] by (simp add: beyond_mem)
    then have "readable tb flds s ?a" using snap by (simp add: snapshot_ok_def)
    moreover have next_page: "beyond tb s (Some ?a) rows = drop limit ?xs"
      by (rule beyond_next [OF snap limit True])
    moreover have "length (drop limit ?xs) < n" using Suc.prems(2) limit True by simp
    ultimately have "traverse other tb flds limit raw (map_option (cursor_of tb s) (Some ?a)) (replicate n rows) =
        Inr (drop limit ?xs, True)"
      using Suc.IH [of "Some ?a"] by simp
    with True show ?thesis
      using traverse_step [OF sort snap Suc.prems(1) limit, of other "replicate n rows"] by simp
  next
    case False
    then show ?thesis
      using traverse_step [OF sort snap Suc.prems(1) limit, of other "replicate n rows"] by simp
  qed
qed simp

lemma traverse_moving:
  assumes sort: "parseSort raw (sortableFieldNames flds) DEFAULT_SORT = Inr s" and limit: "0 < limit"
    and "\<forall>rows \<in> set snaps. snapshot_ok tb flds s rows" and "\<forall>a \<in> set_option anchor. readable tb flds s a"
  shows "\<exists>out fin. traverse other tb flds limit raw (map_option (cursor_of tb s) anchor) snaps = Inr (out, fin) \<and>
    sorted_wrt (key_past tb s) out \<and>
    (\<forall>r \<in> set out. (\<exists>rows \<in> set snaps. r \<in> set rows) \<and> (\<forall>a \<in> set_option anchor. key_past tb s a r)) \<and>
    (fin \<longrightarrow> (\<forall>r. (\<forall>rows \<in> set snaps. r \<in> set rows) \<and> (\<forall>a \<in> set_option anchor. key_past tb s a r) \<longrightarrow> r \<in> set out))"
  using assms(3,4)
proof (induction snaps arbitrary: anchor)
  case (Cons rows later)
  let ?xs = "beyond tb s anchor rows"
  have snap: "snapshot_ok tb flds s rows" and snaps: "\<forall>rows \<in> set later. snapshot_ok tb flds s rows"
    using Cons.prems(1) by auto
  note step = traverse_step [OF sort snap Cons.prems(2) limit, of other later]
  have srt: "sorted_wrt (key_past tb s) ?xs" by (rule beyond_sorted [OF snap])
  show ?case
  proof (cases "limit < length ?xs")
    case True
    let ?a = "last (take limit ?xs)"
    have a: "?a \<in> set rows" "\<forall>b \<in> set_option anchor. key_past tb s b ?a"
      using last_taken [OF limit True] by (simp_all add: beyond_mem)
    have "\<forall>b \<in> set_option (Some ?a). readable tb flds s b" using a snap by (simp add: snapshot_ok_def)
    from Cons.IH [OF snaps this] obtain out fin where
      rest: "traverse other tb flds limit raw (map_option (cursor_of tb s) (Some ?a)) later = Inr (out, fin)"
      and out: "sorted_wrt (key_past tb s) out"
      "\<And>r. r \<in> set out \<Longrightarrow> (\<exists>rows \<in> set later. r \<in> set rows) \<and> key_past tb s ?a r"
      and all_out: "\<And>r. fin \<Longrightarrow> (\<forall>rows \<in> set later. r \<in> set rows) \<Longrightarrow> key_past tb s ?a r \<Longrightarrow> r \<in> set out"
      by auto
    have drop_mem: "key_past tb s ?a r \<longleftrightarrow> r \<in> set (drop limit ?xs)" if "r \<in> set ?xs" for r
      using that beyond_next [OF snap limit True] beyond_mem [of r tb s "Some ?a" rows] beyond_mem [of r tb s anchor rows]
      by auto
    have cross: "key_past tb s x y" if "x \<in> set (take limit ?xs)" "y \<in> set out" for x y
      using sorted_before_last [OF sorted_wrt_take [OF srt] that(1)] out(2) [OF that(2)]
      by (auto intro: past_trans)
    have "sorted_wrt (key_past tb s) (take limit ?xs @ out)"
      using sorted_wrt_take [OF srt] out(1) cross by (simp add: sorted_wrt_append)
    moreover have "(\<exists>rs \<in> set (rows # later). r \<in> set rs) \<and> (\<forall>b \<in> set_option anchor. key_past tb s b r)"
      if "r \<in> set (take limit ?xs @ out)" for r
    proof (cases "r \<in> set (take limit ?xs)")
      case True
      then show ?thesis by (auto dest!: in_set_takeD simp: beyond_mem)
    next
      case False
      with that out(2) have "\<exists>rs \<in> set later. r \<in> set rs" "key_past tb s ?a r" by auto
      with a(2) show ?thesis by (auto intro: past_trans)
    qed
    moreover have "r \<in> set (take limit ?xs @ out)"
      if "fin" "\<forall>rs \<in> set (rows # later). r \<in> set rs" "\<forall>b \<in> set_option anchor. key_past tb s b r" for r
    proof -
      have "r \<in> set ?xs" using that(2,3) by (simp add: beyond_mem)
      then have "r \<in> set (take limit ?xs) \<or> r \<in> set (drop limit ?xs)"
        by (metis Un_iff append_take_drop_id set_append)
      with drop_mem [OF \<open>r \<in> set ?xs\<close>] all_out that(1,2) show ?thesis by auto
    qed
    ultimately show ?thesis using step True rest by auto
  next
    case False
    then show ?thesis using step srt by (auto simp: beyond_mem)
  qed
qed auto

section \<open>Undeclared query parameters\<close>

text \<open>
  What Nest records for a decorated handler parameter, and the reflected type of the
  parameter: absent, the plain \<open>Object\<close>, or a DTO whose declared properties come from the
  validation library (a parameter of the guard).
\<close>

record route_arg =
  ra_paramtype :: nat
  ra_index :: nat
  ra_data :: "string option"

datatype 'c param_type = PlainObject | Dto 'c

definition QUERY_PARAMTYPE :: nat where "QUERY_PARAMTYPE = 4"

fun computeAllowedKeys ::
  "('c \<Rightarrow> string list) \<Rightarrow> (nat \<Rightarrow> 'c param_type option) \<Rightarrow> route_arg list \<Rightarrow> string list \<Rightarrow> string list option" where
  "computeAllowedKeys declared paramTypes [] allowed = Some allowed"
| "computeAllowedKeys declared paramTypes (arg # rest) allowed =
     (if ra_paramtype arg \<noteq> QUERY_PARAMTYPE then computeAllowedKeys declared paramTypes rest allowed
      else case ra_data arg of
        Some name \<Rightarrow> computeAllowedKeys declared paramTypes rest (allowed @ [name])
      | None \<Rightarrow>
          (case paramTypes (ra_index arg) of
             Some (Dto c) \<Rightarrow> computeAllowedKeys declared paramTypes rest (allowed @ declared c)
           | _ \<Rightarrow> None))"

definition quoted :: "string \<Rightarrow> string" where
  "quoted s = [CHR 0x27] @ s @ [CHR 0x27]"

definition query_guard :: "string list option \<Rightarrow> string list \<Rightarrow> thrown + unit" where
  "query_guard allowed supplied =
     (if supplied = [] then Inr ()
      else case allowed of
        None \<Rightarrow> Inr ()
      | Some keys \<Rightarrow>
          (let unknown = filter (\<lambda>k. k \<notin> set keys) supplied
           in if unknown \<noteq> []
              then Inl (App (app_error invalid_filter
                     (''Unknown parameter'' @ (if 1 < length unknown then ''s'' else []) @ '': '' @
                      join_with '', '' (map quoted unknown) @
                      ''. Parameters are rejected rather than ignored - check for a typo.'')))
              else Inr ()))"

lemma computeAllowedKeys_grows:
  "computeAllowedKeys declared paramTypes args allowed = Some keys \<Longrightarrow> set allowed \<subseteq> set keys"
  by (induction args arbitrary: allowed) (fastforce split: if_splits option.splits param_type.splits)+

lemma computeAllowedKeys_set:
  assumes "computeAllowedKeys declared paramTypes args allowed = Some keys"
  shows "set keys = set allowed \<union>
    (\<Union>arg \<in> {arg \<in> set args. ra_paramtype arg = QUERY_PARAMTYPE}.
       case ra_data arg of Some name \<Rightarrow> {name}
       | None \<Rightarrow> (case paramTypes (ra_index arg) of Some (Dto c) \<Rightarrow> set (declared c) | _ \<Rightarrow> {}))"
  using assms
proof (induction args arbitrary: allowed)
  case (Cons arg args)
  then show ?case
    by (cases "ra_paramtype arg = QUERY_PARAMTYPE"; cases "ra_data arg"; cases "paramTypes (ra_index arg)")
      (auto split: param_type.splits)
qed simp

section \<open>Properties\<close>

lemma base64url_alphabet: "set (base64url s) \<subseteq> set b64_alphabet"
proof -
  have small: "list_all (\<lambda>b. b < 256) (map of_char s :: nat list)" by (simp add: list_all_iff)
  have "length b64_alphabet = 64" by (simp add: b64_alphabet_def)
  then have "list_all (\<lambda>n. n < length b64_alphabet) (sextets (map of_char s))"
    using sextets_small [OF small] by simp
  then show ?thesis by (auto simp: base64url_def sextet_char_def list_all_iff)
qed

text \<open>
  C21. A cursor survives its trip through a client: decoding an issued cursor gives back the
  sort, the value and the id it was built from, and its text consists of characters that
  need no escaping in a query string.
\<close>

theorem cursor_roundtrip:
  assumes "cp_value p \<noteq> KNum JFrac"
  shows "decodeCursor (encodeCursor p) = Inr p \<and> set (encodeCursor p) \<subseteq> set b64_alphabet"
  using decode_encode [OF assms] base64url_alphabet by (simp add: encodeCursor_def)

definition sample_cursor :: cursor_position where
  "sample_cursor = \<lparr>cp_sort = DEFAULT_SORT, cp_value = KStr ''2026-07-18T07:31:46.000Z'', cp_id = ''i''\<rparr>"

theorem cursor_roundtrip_witness: "decodeCursor (encodeCursor sample_cursor) = Inr sample_cursor"
  using cursor_roundtrip [of sample_cursor] by (simp add: sample_cursor_def)

end
