(* ===== verification/Ticket_Service.thy ===== *)
theory Ticket_Service
  imports Isolation Pagination
begin

text \<open>
  \<open>src/src/tickets\<close>: the authority half of the state machine, the chain predicate, the
  filters of the list endpoint and \<open>TicketService\<close>. An operation runs one armed
  transaction and announces after it has committed: a thrown value leaves both the
  database and the sockets as they were.
\<close>

type_synonym 'a service = "db \<Rightarrow> realtime \<Rightarrow> thrown + ('a \<times> db \<times> realtime)"

definition announcing ::
  "(db \<Rightarrow> thrown + ('a \<times> db)) \<Rightarrow> ('a \<Rightarrow> realtime \<Rightarrow> realtime) \<Rightarrow> 'a service" where
  "announcing tx news d rt =
     (case tx d of Inl e \<Rightarrow> Inl e | Inr (x, d') \<Rightarrow> Inr (x, d', news x rt))"

section \<open>The state machine and the chain\<close>

definition canTransition :: "ticket_state \<Rightarrow> ticket_state \<Rightarrow> permission set \<Rightarrow> bool" where
  "canTransition from_state to_state permissions =
     (if to_state = TClosed then ticket_close \<in> permissions else True)"

definition inChainWith :: "ticket \<Rightarrow> ticket \<Rightarrow> bool" where
  "inChainWith t u \<longleftrightarrow> t_id u = chainRootOf t \<or> t_root u = Some (chainRootOf t)"

section \<open>Refusals\<close>

definition TICKET_REFUSALS :: "(string \<times> error_code \<times> string) list" where
  "TICKET_REFUSALS =
     [(''TK001'', conflict,
       ''That is not a legal transition for this Ticket in its current state. Read it again to see where it is.''),
      (''TK002'', conflict,
       ''A closed Ticket is a finished record: neither its priority nor its assignee can be changed.''),
      (''TK003'', not_found, ''No such Ticket is visible to this principal.''),
      (''TK004'', conflict,
       ''A conversation's ancestry is set when a Ticket is created and cannot be rewritten.''),
      (''TK005'', conflict,
       ''A Ticket is reachable where its conversation started. Re-pointing a live conversation at another thread is not an edit; it is a new Ticket.'')]"

fun ticketSqlstate :: "thrown \<Rightarrow> string option" where
  "ticketSqlstate (RawError code (Some sqlstate)) =
     (if sqlstate \<in> fst ` set TICKET_REFUSALS then Some sqlstate else None)"
| "ticketSqlstate _ = None"

definition rethrowTicketRefusal :: "thrown \<Rightarrow> thrown" where
  "rethrowTicketRefusal e =
     (case ticketSqlstate e of
        Some sqlstate \<Rightarrow>
          (case map_of TICKET_REFUSALS sqlstate of
             Some (code, message) \<Rightarrow> App (app_error code message)
           | None \<Rightarrow> e)
      | None \<Rightarrow> e)"

definition rethrowChainConflict :: "thrown \<Rightarrow> thrown" where
  "rethrowChainConflict e =
     (if isUniqueViolation e
      then App (app_error conflict
        ''Another reply on this conversation was handled first. Read the conversation again and reply to its live Ticket.'')
      else e)"

fun catch :: "(thrown \<Rightarrow> thrown) \<Rightarrow> thrown + 'a \<Rightarrow> thrown + 'a" where
  "catch f (Inl e) = Inl (f e)"
| "catch f (Inr x) = Inr x"

section \<open>Filters\<close>

record ticket_filters =
  f_state :: "string option"
  f_priority :: "string option"
  f_source :: "string option"
  f_assignee :: "string option"
  f_contact :: "string option"
  f_created_after :: "string option"
  f_created_before :: "string option"

record ticket_where =
  w_state :: "ticket_state list option"
  w_priority :: "ticket_priority list option"
  w_source :: "ticket_source list option"
  w_assignee :: "ident option option"
  w_contact :: "ident option"
  w_gte :: "millis option"
  w_lte :: "millis option"

definition UNASSIGNED :: string where "UNASSIGNED = ''none''"

definition STATES :: "(string \<times> ticket_state) list" where
  "STATES = map (\<lambda>s. (state_text s, s)) [TOpen, TPending, TOnHold, TResolved, TClosed]"

definition PRIORITIES :: "(string \<times> ticket_priority) list" where
  "PRIORITIES = map (\<lambda>p. (priority_text p, p)) [PLow, PNormal, PHigh, PUrgent]"

definition SOURCES :: "(string \<times> ticket_source) list" where
  "SOURCES = map (\<lambda>s. (source_text s, s)) [SrcPortal, SrcWidget, SrcSlack]"

definition bad_filter :: "string \<Rightarrow> string \<Rightarrow> string \<Rightarrow> thrown" where
  "bad_filter value parameter hint =
     App (app_error invalid_filter (quoted value @ '' is not a valid '' @ parameter @ ''. '' @ hint))"

fun enum_values :: "(string \<times> 'e) list \<Rightarrow> string \<Rightarrow> string list \<Rightarrow> thrown + 'e list" where
  "enum_values allowed parameter [] = Inr []"
| "enum_values allowed parameter (v # vs) =
     (case map_of allowed v of
        None \<Rightarrow> Inl (bad_filter v parameter
                  (''Allowed values: '' @ join_with '', '' (map fst allowed) @ ''.''))
      | Some x \<Rightarrow> (case enum_values allowed parameter vs of Inl e \<Rightarrow> Inl e | Inr xs \<Rightarrow> Inr (x # xs)))"

definition enumSet :: "string \<Rightarrow> (string \<times> 'e) list \<Rightarrow> string \<Rightarrow> thrown + 'e list" where
  "enumSet raw allowed parameter = enum_values allowed parameter (map trim (split_on (CHR '','') raw))"

text \<open>The database compares uuids by value, so the text is folded to its canonical form.\<close>

definition uuid_filter :: "string \<Rightarrow> string \<Rightarrow> thrown + ident" where
  "uuid_filter raw parameter =
     (if \<not> is_uuid raw then Inl (bad_filter raw parameter ''Supply a uuid.'') else Inr (lower raw))"

definition timestamp_filter ::
  "(string \<Rightarrow> millis option) \<Rightarrow> string \<Rightarrow> string \<Rightarrow> thrown + millis" where
  "timestamp_filter other raw parameter =
     (case date_of other raw of
        None \<Rightarrow> Inl (bad_filter raw parameter ''Supply an ISO-8601 timestamp.'')
      | Some ms \<Rightarrow> Inr ms)"

fun optional :: "('a \<Rightarrow> thrown + 'b) \<Rightarrow> 'a option \<Rightarrow> thrown + 'b option" where
  "optional f None = Inr None"
| "optional f (Some x) = (case f x of Inl e \<Rightarrow> Inl e | Inr y \<Rightarrow> Inr (Some y))"

definition ticketWhere :: "(string \<Rightarrow> millis option) \<Rightarrow> ticket_filters \<Rightarrow> thrown + ticket_where" where
  "ticketWhere other f =
     bindE (optional (\<lambda>raw. enumSet raw STATES ''state'') (f_state f)) (\<lambda>states.
     bindE (optional (\<lambda>raw. enumSet raw PRIORITIES ''priority'') (f_priority f)) (\<lambda>priorities.
     bindE (optional (\<lambda>raw. enumSet raw SOURCES ''source'') (f_source f)) (\<lambda>sources.
     bindE (optional (\<lambda>raw. if raw = UNASSIGNED then Inr None
              else (case uuid_filter raw ''assigneeId'' of Inl e \<Rightarrow> Inl e | Inr u \<Rightarrow> Inr (Some u))) (f_assignee f)) (\<lambda>assignee.
     bindE (optional (\<lambda>raw. uuid_filter raw ''contactId'') (f_contact f)) (\<lambda>contact.
     bindE (optional (\<lambda>raw. timestamp_filter other raw ''createdAfter'') (f_created_after f)) (\<lambda>gte.
     bindE (optional (\<lambda>raw. timestamp_filter other raw ''createdBefore'') (f_created_before f)) (\<lambda>lte.
       Inr \<lparr>w_state = states, w_priority = priorities, w_source = sources, w_assignee = assignee,
            w_contact = contact, w_gte = gte, w_lte = lte\<rparr>)))))))"

definition within :: "'a list option \<Rightarrow> 'a \<Rightarrow> bool" where
  "within allowed x \<longleftrightarrow> (case allowed of None \<Rightarrow> True | Some xs \<Rightarrow> x \<in> set xs)"

definition where_selects :: "ticket_where \<Rightarrow> ticket \<Rightarrow> bool" where
  "where_selects w t \<longleftrightarrow>
     within (w_state w) (t_state t) \<and> within (w_priority w) (t_priority t) \<and>
     within (w_source w) (t_source t) \<and>
     (case w_assignee w of None \<Rightarrow> True | Some a \<Rightarrow> t_assignee t = a) \<and>
     (case w_contact w of None \<Rightarrow> True | Some c \<Rightarrow> t_contact t = c) \<and>
     (case w_gte w of None \<Rightarrow> True | Some ms \<Rightarrow> ms \<le> t_created t) \<and>
     (case w_lte w of None \<Rightarrow> True | Some ms \<Rightarrow> t_created t \<le> ms)"

section \<open>The service\<close>

record create_input =
  ci_subject :: string
  ci_contact :: ident
  ci_source :: ticket_source
  ci_spawned :: "ident option"
  ci_slack_route :: "(string \<times> string) option"

text \<open>The row an insert starts from: the given columns and the column defaults.\<close>

definition new_ticket :: "ident \<Rightarrow> millis \<Rightarrow> ident \<Rightarrow> create_input \<Rightarrow> ticket" where
  "new_ticket i now tenant input =
     \<lparr>t_id = i, t_tenant = tenant, t_subject = ci_subject input, t_contact = ci_contact input,
      t_assignee = None, t_state = TOpen, t_priority = PNormal, t_source = ci_source input,
      t_spawned = ci_spawned input, t_root = None,
      t_slack_channel = map_option fst (ci_slack_route input),
      t_slack_thread = map_option snd (ci_slack_route input),
      t_first_response = None, t_paused_ms = 0, t_pause_started = None,
      t_first_response_breached = None, t_resolution_breached = None,
      t_created = now, t_updated = now, t_last_activity = now\<rparr>"

definition createIn :: "ident \<Rightarrow> request_principal \<Rightarrow> create_input \<Rightarrow> (db, ticket) transaction" where
  "createIn i p input s d =
     (case catch (\<lambda>e. if isForeignKeyViolation e then App (notFound ''Contact'') else rethrowTicketRefusal e)
             (ticket_insert (new_ticket i (s_now s) (tenantOf p) input) s d) of
        Inl e \<Rightarrow> Inl e
      | Inr (t, d1) \<Rightarrow>
          (case audit_record (ticket_audit_values ticket_created (t_id t) None (Some (state_text (t_state t)))) s d1 of
             Inl e \<Rightarrow> Inl e
           | Inr (_, d2) \<Rightarrow> Inr (t, d2)))"

definition ticket_create :: "millis \<Rightarrow> ident \<Rightarrow> request_principal \<Rightarrow> create_input \<Rightarrow> ticket service" where
  "ticket_create now i p input = announcing (asPrincipal now p (createIn i p input)) (ticketCreated now)"

definition ticket_findOne :: "millis \<Rightarrow> request_principal \<Rightarrow> ident \<Rightarrow> db \<Rightarrow> thrown + ticket" where
  "ticket_findOne now p i d =
     (case asPrincipal now p (\<lambda>s d. Inr (ticket_findUnique i s d, d)) d of
        Inl e \<Rightarrow> Inl e
      | Inr (None, _) \<Rightarrow> Inl (App (notFound ''Ticket''))
      | Inr (Some t, _) \<Rightarrow> Inr t)"

definition TICKET_SORTABLE :: sortable_fields where
  "TICKET_SORTABLE = [(''createdAt'', DateField), (''updatedAt'', DateField)]"

definition ticket_table :: "ticket table" where
  "ticket_table =
     \<lparr>tb_id = t_id,
      tb_col = (\<lambda>t fld. if fld = ''createdAt'' then Some (CDate (t_created t))
                         else if fld = ''updatedAt'' then Some (CDate (t_updated t)) else None)\<rparr>"

text \<open>
  The sort and the cursor are checked before the transaction opens, the filters while its
  query is built.
\<close>

definition ticket_list ::
  "(string \<Rightarrow> millis option) \<Rightarrow> millis \<Rightarrow> request_principal \<Rightarrow> nat \<Rightarrow> string option \<Rightarrow> string option \<Rightarrow>
   ticket_filters \<Rightarrow> db \<Rightarrow> thrown + ticket page" where
  "ticket_list other now p limit cursor rawSort f d =
     bindE (parseSort rawSort (sortableFieldNames TICKET_SORTABLE) DEFAULT_SORT) (\<lambda>sort.
     bindE (keysetPlan other sort cursor TICKET_SORTABLE) (\<lambda>plan.
     bindE (asPrincipal now p (\<lambda>s d.
              bindE (ticketWhere other f) (\<lambda>w.
              bindE (find_many ticket_table sort plan (Suc limit) (ticket_select (where_selects w) s d))
                (\<lambda>rows. Inr (rows, d)))) d) (\<lambda>(rows, _).
       buildPage ticket_table rows limit sort)))"

definition readBack :: "ident \<Rightarrow> (db, ticket) transaction" where
  "readBack i s d =
     (case ticket_findUnique i s d of
        None \<Rightarrow> Inl (App (notFound ''Ticket''))
      | Some t \<Rightarrow> Inr (t, d))"

definition transition_conflict :: thrown where
  "transition_conflict = App (app_error conflict
     ''The Ticket changed state while this request was in flight. Read it again and retry.'')"

definition transitionIn :: "request_principal \<Rightarrow> ident \<Rightarrow> ticket_state \<Rightarrow> (db, ticket) transaction" where
  "transitionIn p i to_state s d =
     (case ticket_findUnique i s d of
        None \<Rightarrow> Inl (App (notFound ''Ticket''))
      | Some current \<Rightarrow>
          if \<not> canTransition (t_state current) to_state (permissionsFor p) then Inl (App forbidden_exception)
          else (case catch rethrowTicketRefusal
                       (ticket_updateMany (\<lambda>t. t_id t = i \<and> t_state t = t_state current)
                          (\<lambda>t. t\<lparr>t_state := to_state, t_updated := s_now s\<rparr>) s d) of
                  Inl e \<Rightarrow> Inl e
                | Inr (count, d') \<Rightarrow> if count = 0 then Inl transition_conflict else readBack i s d'))"

definition ticket_transition_op ::
  "millis \<Rightarrow> request_principal \<Rightarrow> ident \<Rightarrow> ticket_state \<Rightarrow> ticket service" where
  "ticket_transition_op now p i to_state =
     announcing (asPrincipal now p (transitionIn p i to_state)) (ticketUpdated now)"

text \<open>The edit behind \<open>setPriority\<close> and \<open>setAssignee\<close>: the private \<open>update\<close>.\<close>

definition edit_work :: "ident \<Rightarrow> (ticket \<Rightarrow> ticket) \<Rightarrow> (db, ticket) transaction" where
  "edit_work i data s d =
     (case catch rethrowTicketRefusal
             (ticket_updateMany (\<lambda>t. t_id t = i) (\<lambda>t. (data t)\<lparr>t_updated := s_now s\<rparr>) s d) of
        Inl e \<Rightarrow> Inl e
      | Inr (count, d') \<Rightarrow> if count = 0 then Inl (App (notFound ''Ticket'')) else readBack i s d')"

definition ticket_update ::
  "millis \<Rightarrow> request_principal \<Rightarrow> ident \<Rightarrow> (ticket \<Rightarrow> ticket) \<Rightarrow> db \<Rightarrow> thrown + (ticket \<times> db)" where
  "ticket_update now p i data = asPrincipal now p (edit_work i data)"

definition setPriority :: "millis \<Rightarrow> request_principal \<Rightarrow> ident \<Rightarrow> ticket_priority \<Rightarrow> ticket service" where
  "setPriority now p i priority =
     announcing (ticket_update now p i (\<lambda>t. t\<lparr>t_priority := priority\<rparr>)) (ticketUpdated now)"

definition setAssignee :: "millis \<Rightarrow> request_principal \<Rightarrow> ident \<Rightarrow> ident option \<Rightarrow> ticket service" where
  "setAssignee now p i assignee =
     announcing (\<lambda>d. catch (\<lambda>e. if isForeignKeyViolation e then App (notFound ''User'') else e)
                   (ticket_update now p i (\<lambda>t. t\<lparr>t_assignee := assignee\<rparr>) d)) (ticketAssigned now)"

definition conversation :: "millis \<Rightarrow> request_principal \<Rightarrow> ident \<Rightarrow> db \<Rightarrow> thrown + ticket list" where
  "conversation now p i d =
     (case asPrincipal now p (\<lambda>s d.
             (case ticket_findUnique i s d of
                None \<Rightarrow> Inl (App (notFound ''Ticket''))
              | Some anchor \<Rightarrow>
                  Inr (sort_key (\<lambda>t. (t_created t, t_id t)) (ticket_select (inChainWith anchor) s d), d))) d of
        Inl e \<Rightarrow> Inl e
      | Inr (ts, _) \<Rightarrow> Inr ts)"

section \<open>The operations keep the contract\<close>

lemma catch_Inr [simp]: "catch f r = Inr x \<longleftrightarrow> r = Inr x"
  by (cases r) auto

lemma readBack_Inr [simp]: "readBack i s d = Inr (t, d') \<longleftrightarrow> d' = d \<and> ticket_findUnique i s d = Some t"
  by (auto simp: readBack_def split: option.splits)

lemma new_ticket_simps [simp]:
  "t_id (new_ticket i now tenant input) = i" "t_tenant (new_ticket i now tenant input) = tenant"
  "t_pause_started (new_ticket i now tenant input) = None" "t_paused_ms (new_ticket i now tenant input) = 0"
  "t_state (new_ticket i now tenant input) = TOpen" "t_priority (new_ticket i now tenant input) = PNormal"
  "t_assignee (new_ticket i now tenant input) = None"
  "t_contact (new_ticket i now tenant input) = ci_contact input"
  "t_subject (new_ticket i now tenant input) = ci_subject input"
  "t_source (new_ticket i now tenant input) = ci_source input"
  "t_spawned (new_ticket i now tenant input) = ci_spawned input"
  by (simp_all add: new_ticket_def)

lemma createIn_parts:
  assumes "createIn i p input s d = Inr (t, d')"
  obtains d1 where "ticket_insert (new_ticket i (s_now s) (tenantOf p) input) s d = Inr (t, d1)"
    and "audit_record (ticket_audit_values ticket_created (t_id t) None (Some (state_text (t_state t)))) s d1 = Inr ((), d')"
  using assms by (auto simp: createIn_def split: sum.splits)

lemma createIn_safe: "tx_safe (createIn i p input)"
proof (rule tx_safeI)
  fix s d t d' assume inv: "ticket_inv d" and c: "createIn i p input s d = Inr (t, d')"
  from c obtain d1 where ins: "ticket_insert (new_ticket i (s_now s) (tenantOf p) input) s d = Inr (t, d1)"
    and aud: "audit_record (ticket_audit_values ticket_created (t_id t) None (Some (state_text (t_state t)))) s d1 = Inr ((), d')"
    by (rule createIn_parts)
  have one: "safe_step (s_tenant s) d d1" by (rule insert_safe [OF inv ins]) simp_all
  moreover have "safe_step (s_tenant s) d1 d'"
    by (rule audit_record_safe [OF safe_step_inv [OF one] aud]) (simp add: ticket_audit_values_def)
  ultimately show "safe_step (s_tenant s) d d'" by (rule safe_step_trans)
qed

lemma transitionIn_parts:
  assumes "transitionIn p i to_state s d = Inr (t, d')"
  obtains current n where "ticket_findUnique i s d = Some current"
    and "canTransition (t_state current) to_state (permissionsFor p)"
    and "ticket_updateMany (\<lambda>t. t_id t = i \<and> t_state t = t_state current)
           (\<lambda>t. t\<lparr>t_state := to_state, t_updated := s_now s\<rparr>) s d = Inr (n, d')"
    and "0 < n" and "ticket_findUnique i s d' = Some t"
  using assms by (auto simp: transitionIn_def split: option.splits if_splits sum.splits)

lemma transitionIn_safe: "tx_safe (transitionIn p i to_state)"
proof (rule tx_safeI)
  fix s d t d' assume inv: "ticket_inv d" and "transitionIn p i to_state s d = Inr (t, d')"
  then obtain current :: ticket and n where "ticket_updateMany (\<lambda>t. t_id t = i \<and> t_state t = t_state current)
      (\<lambda>t. t\<lparr>t_state := to_state, t_updated := s_now s\<rparr>) s d = Inr (n, d')"
    by (elim transitionIn_parts) blast
  then show "safe_step (s_tenant s) d d'"
    by (rule updateMany_safe [OF inv]) (simp add: stable_write_def)
qed

lemma edit_work_parts:
  assumes "edit_work i data s d = Inr (t, d')"
  obtains n where "ticket_updateMany (\<lambda>t. t_id t = i) (\<lambda>t. (data t)\<lparr>t_updated := s_now s\<rparr>) s d = Inr (n, d')"
    and "0 < n" and "ticket_findUnique i s d' = Some t"
  using assms by (auto simp: edit_work_def split: if_splits sum.splits)

lemma edit_work_safe: "stable_write data \<Longrightarrow> tx_safe (edit_work i data)"
proof (rule tx_safeI)
  fix s d t d'
  assume st: "stable_write data" and inv: "ticket_inv d" and "edit_work i data s d = Inr (t, d')"
  then obtain n where "ticket_updateMany (\<lambda>t. t_id t = i) (\<lambda>t. (data t)\<lparr>t_updated := s_now s\<rparr>) s d = Inr (n, d')"
    by (elim edit_work_parts) blast
  then show "safe_step (s_tenant s) d d'"
    by (rule updateMany_safe [OF inv]) (use st in \<open>simp add: stable_write_def\<close>)
qed

lemma stable_edits [simp]:
  "stable_write (\<lambda>t. t\<lparr>t_priority := pr\<rparr>)" "stable_write (\<lambda>t. t\<lparr>t_assignee := a\<rparr>)"
  by (simp_all add: stable_write_def)

interpretation creating: armed_work "createIn i p input" for i p input
  by unfold_locales (rule createIn_safe)

interpretation moving: armed_work "transitionIn p i to_state" for p i to_state
  by unfold_locales (rule transitionIn_safe)

interpretation prioritising: armed_work "edit_work i (\<lambda>t. t\<lparr>t_priority := pr\<rparr>)" for i pr
  by unfold_locales (rule edit_work_safe, simp)

interpretation assigning: armed_work "edit_work i (\<lambda>t. t\<lparr>t_assignee := a\<rparr>)" for i a
  by unfold_locales (rule edit_work_safe, simp)

section \<open>Both invariants at once\<close>

definition service_ok :: "ident \<Rightarrow> db \<Rightarrow> realtime \<Rightarrow> db \<Rightarrow> realtime \<Rightarrow> bool" where
  "service_ok tenant d rt d' rt' \<longleftrightarrow> safe_step tenant d d' \<and> realtime_inv d' rt'"

lemma announcing_ok:
  assumes "announcing tx news d rt = Inr (x, d', rt')" and "realtime_inv d rt"
    and "\<And>y d1. tx d = Inr (y, d1) \<Longrightarrow> safe_step tenant d d1"
    and "\<And>y d1 rt1. realtime_inv d1 rt1 \<Longrightarrow> realtime_inv d1 (news y rt1)"
  shows "service_ok tenant d rt d' rt'"
proof -
  from assms(1) have tx: "tx d = Inr (x, d')" and rt': "rt' = news x rt"
    by (auto simp: announcing_def split: sum.splits)
  note step = assms(3) [OF tx]
  then have "realtime_inv d' rt" using assms(2) by (auto simp: safe_step_def intro: realtime_inv_mono)
  with step assms(4) rt' show ?thesis by (simp add: service_ok_def)
qed

lemma ticket_create_ok:
  assumes "ticket_inv d" and "realtime_inv d rt" and "ticket_create now i p input d rt = Inr (t, d', rt')"
  shows "service_ok (tenantOf p) d rt d' rt'"
  using assms(3) unfolding ticket_create_def
  by (rule announcing_ok) (use assms in \<open>auto intro: creating.principal_run service_inv\<close>)

lemma ticket_transition_ok:
  assumes "ticket_inv d" and "realtime_inv d rt" and "ticket_transition_op now p i to_state d rt = Inr (t, d', rt')"
  shows "service_ok (tenantOf p) d rt d' rt'"
  using assms(3) unfolding ticket_transition_op_def
  by (rule announcing_ok) (use assms in \<open>auto intro: moving.principal_run service_inv\<close>)

lemma setPriority_ok:
  assumes "ticket_inv d" and "realtime_inv d rt" and "setPriority now p i pr d rt = Inr (t, d', rt')"
  shows "service_ok (tenantOf p) d rt d' rt'"
  using assms(3) unfolding setPriority_def ticket_update_def
  by (rule announcing_ok) (use assms in \<open>auto intro: prioritising.principal_run service_inv\<close>)

lemma setAssignee_ok:
  assumes "ticket_inv d" and "realtime_inv d rt" and "setAssignee now p i a d rt = Inr (t, d', rt')"
  shows "service_ok (tenantOf p) d rt d' rt'"
  using assms(3) unfolding setAssignee_def ticket_update_def
  by (rule announcing_ok) (use assms in \<open>auto intro: assigning.principal_run service_inv\<close>)

end
