(* ===== verification/Job_Queue.thy ===== *)
theory Job_Queue
  imports Isolation Complex_Main "HOL-Library.Log_Nat"
begin

text \<open>
  The durable queue of \<open>src/src/scheduler\<close>: the backoff schedule, \<open>enqueue\<close>, the leased
  \<open>claim\<close>, \<open>complete\<close> and \<open>fail\<close>, and the drainer's tick. Rows that another transaction
  has locked are an argument of \<open>claim\<close>, so that two drainers running the same statement
  can be compared.
\<close>

section \<open>Backoff\<close>

definition BASE_BACKOFF_MS :: nat where "BASE_BACKOFF_MS = 5000"
definition MAX_BACKOFF_MS :: nat where "MAX_BACKOFF_MS = 15 * 60000"
definition JITTER_RATIO :: rat where "JITTER_RATIO = 2 / 10"

definition SATURATION_ATTEMPT :: nat where
  "SATURATION_ATTEMPT = ceillog2 (MAX_BACKOFF_MS div BASE_BACKOFF_MS) + 1"

definition nominal_backoff :: "nat \<Rightarrow> nat" where
  "nominal_backoff attempts =
     (let exponent = min (max attempts 1 - 1) SATURATION_ATTEMPT
      in min (BASE_BACKOFF_MS * 2 ^ exponent) MAX_BACKOFF_MS)"

definition backoffMs :: "nat \<Rightarrow> rat \<Rightarrow> rat" where
  "backoffMs attempts random = of_nat (nominal_backoff attempts) * (1 + JITTER_RATIO * (2 * random - 1))"

definition nextRunAfter :: "nat \<Rightarrow> millis \<Rightarrow> rat \<Rightarrow> millis" where
  "nextRunAfter attempts now random = now + \<lfloor>backoffMs attempts random\<rfloor>"

section \<open>The queue\<close>

definition LEASE_MS :: int where "LEASE_MS = 5 * 60000"
definition CLAIM_BATCH :: nat where "CLAIM_BATCH = 20"
definition MAX_CLAIM_BATCH :: nat where "MAX_CLAIM_BATCH = 1000"
definition DEFAULT_MAX_ATTEMPTS :: nat where "DEFAULT_MAX_ATTEMPTS = 5"

record enqueue_input =
  eq_kind :: string
  eq_payload :: json
  eq_run_after :: "millis option"
  eq_max_attempts :: "nat option"

definition job_visible :: "session \<Rightarrow> job_row \<Rightarrow> bool" where
  "job_visible s j \<longleftrightarrow>
     (tenant_matches s (j_tenant j) \<and> \<not> current_actor_is_contact s) \<or> s_scheduler s"

definition enqueue :: "ident \<Rightarrow> enqueue_input \<Rightarrow> (db, unit) transaction" where
  "enqueue i input s d =
     (let j = \<lparr>j_id = i, j_tenant = s_tenant s, j_kind = eq_kind input, j_payload = eq_payload input,
               j_run_after = (case eq_run_after input of None \<Rightarrow> s_now s | Some t \<Rightarrow> t),
               j_attempts = 0,
               j_max_attempts = (case eq_max_attempts input of None \<Rightarrow> DEFAULT_MAX_ATTEMPTS
                                 | Some n \<Rightarrow> if n = 0 then DEFAULT_MAX_ATTEMPTS else n),
               j_status = JReady, j_locked = None, j_last_error = None, j_created = s_now s\<rparr>
      in if \<not> job_visible s j then Inl policy_error
         else if i \<in> j_id ` set (jobs d) then Inl unique_error
         else Inr ((), d\<lparr>jobs := jobs d @ [j]\<rparr>))"

definition claimable :: "millis \<Rightarrow> job_row \<Rightarrow> bool" where
  "claimable now j \<longleftrightarrow>
     (j_status j = JReady \<and> j_run_after j \<le> now) \<or>
     (j_status j = JActive \<and> (case j_locked j of None \<Rightarrow> False | Some since \<Rightarrow> since < now - LEASE_MS))"

definition claim_batch :: "int \<Rightarrow> nat" where
  "claim_batch limit =
     nat (min (max (if limit = 0 then int CLAIM_BATCH else limit) 1) (int MAX_CLAIM_BATCH))"

text \<open>The CTE: due rows that nobody else holds, oldest first, at most a batch of them.\<close>

definition due_jobs :: "ident set \<Rightarrow> millis \<Rightarrow> nat \<Rightarrow> job_row list \<Rightarrow> job_row list" where
  "due_jobs locked now n js =
     take n (sort_key j_run_after (filter (\<lambda>j. claimable now j \<and> j_id j \<notin> locked) js))"

definition claim_job :: "millis \<Rightarrow> job_row \<Rightarrow> job_row" where
  "claim_job now j = j\<lparr>j_status := JActive, j_locked := Some now, j_attempts := Suc (j_attempts j)\<rparr>"

definition claim :: "ident set \<Rightarrow> millis \<Rightarrow> int \<Rightarrow> db \<Rightarrow> job_row list \<times> db" where
  "claim locked now limit d =
     (let due = due_jobs locked now (claim_batch limit) (jobs d)
      in (map (claim_job now) due,
          d\<lparr>jobs := map (\<lambda>j. if j_id j \<in> j_id ` set due then claim_job now j else j) (jobs d)\<rparr>))"

definition update_job :: "ident \<Rightarrow> (job_row \<Rightarrow> job_row) \<Rightarrow> db \<Rightarrow> db" where
  "update_job i f d = d\<lparr>jobs := map (\<lambda>j. if j_id j = i then f j else j) (jobs d)\<rparr>"

definition complete :: "ident \<Rightarrow> db \<Rightarrow> db" where
  "complete i = update_job i (\<lambda>j. j\<lparr>j_status := JDone, j_locked := None, j_last_error := None\<rparr>)"

datatype failure_outcome = OutcomeDead | OutcomeRetry

definition fail :: "rat \<Rightarrow> job_row \<Rightarrow> string \<Rightarrow> millis \<Rightarrow> db \<Rightarrow> failure_outcome \<times> db" where
  "fail random job message now d =
     (if j_max_attempts job \<le> j_attempts job
      then (OutcomeDead,
            update_job (j_id job) (\<lambda>j. j\<lparr>j_status := JDead, j_locked := None, j_last_error := Some message\<rparr>) d)
      else (OutcomeRetry,
            update_job (j_id job) (\<lambda>j. j\<lparr>j_status := JReady, j_locked := None, j_last_error := Some message,
              j_run_after := nextRunAfter (j_attempts job) now random\<rparr>) d))"

section \<open>The drainer\<close>

record job_context =
  jc_tenant :: ident
  jc_attempt :: nat
  jc_max_attempts :: nat

text \<open>
  A handler is given the armed session of the drainer's transaction. It may also commit
  transactions of its own and act on the world outside the database, so what it did stays
  when it throws; only its writes to the drainer's transaction are undone.
\<close>

type_synonym 'w job_handler = "json \<Rightarrow> job_context \<Rightarrow> session \<Rightarrow> db \<times> 'w \<Rightarrow> (thrown + unit) \<times> db \<times> 'w"

datatype run_outcome = RunCompleted | RunRetried | RunDead

record drain_summary =
  ds_claimed :: nat
  ds_completed :: nat
  ds_retried :: nat
  ds_dead :: nat

definition settleFailure :: "rat \<Rightarrow> job_row \<Rightarrow> string \<Rightarrow> millis \<Rightarrow> db \<Rightarrow> run_outcome \<times> db" where
  "settleFailure random job message now d =
     (case fail random job message now d of
        (OutcomeDead, d') \<Rightarrow> (RunDead, d')
      | (OutcomeRetry, d') \<Rightarrow> (RunRetried, d'))"

text \<open>\<open>describe\<close> is the message of a thrown value, which the queue stores and never reads.\<close>

definition handler_transaction ::
  "millis \<Rightarrow> tenant_context \<Rightarrow> (session \<Rightarrow> db \<times> 'w \<Rightarrow> (thrown + unit) \<times> db \<times> 'w) \<Rightarrow> db \<times> 'w \<Rightarrow>
   (thrown + unit) \<times> db \<times> 'w" where
  "handler_transaction now ctx work st =
     (case contextSettings ctx of
        Inl e \<Rightarrow> (Inl e, st)
      | Inr (tenant, kind, i) \<Rightarrow> work (tenant_session now tenant kind i) st)"

definition drainer_run ::
  "(thrown \<Rightarrow> string) \<Rightarrow> (string \<Rightarrow> 'w job_handler option) \<Rightarrow> rat \<Rightarrow> millis \<Rightarrow> job_row \<Rightarrow> db \<times> 'w \<Rightarrow>
   run_outcome \<times> db \<times> 'w" where
  "drainer_run describe handlers random now job st =
     (case handlers (j_kind job) of
        None \<Rightarrow>
          (case settleFailure random job
                  (''No handler is registered for job kind '' @ [CHR 0x22] @ j_kind job @ [CHR 0x22]) now (fst st) of
             (outcome, d') \<Rightarrow> (outcome, d', snd st))
      | Some handler \<Rightarrow>
          (case handler_transaction now (systemContextFor (j_tenant job))
                  (handler (j_payload job) \<lparr>jc_tenant = j_tenant job, jc_attempt = j_attempts job,
                                            jc_max_attempts = j_max_attempts job\<rparr>) st of
             (Inl e, d', w') \<Rightarrow>
               (case settleFailure random job (describe e) now d' of (outcome, d'') \<Rightarrow> (outcome, d'', w'))
           | (Inr _, d', w') \<Rightarrow> (RunCompleted, complete (j_id job) d', w')))"

fun count_outcome :: "run_outcome \<Rightarrow> drain_summary \<Rightarrow> drain_summary" where
  "count_outcome RunCompleted sm = sm\<lparr>ds_completed := Suc (ds_completed sm)\<rparr>"
| "count_outcome RunRetried sm = sm\<lparr>ds_retried := Suc (ds_retried sm)\<rparr>"
| "count_outcome RunDead sm = sm\<lparr>ds_dead := Suc (ds_dead sm)\<rparr>"

text \<open>The random draws of the retries are a stream, one per job.\<close>

fun run_all ::
  "(thrown \<Rightarrow> string) \<Rightarrow> (string \<Rightarrow> 'w job_handler option) \<Rightarrow> (nat \<Rightarrow> rat) \<Rightarrow> millis \<Rightarrow> job_row list \<Rightarrow>
   drain_summary \<times> db \<times> 'w \<Rightarrow> drain_summary \<times> db \<times> 'w" where
  "run_all describe handlers random now [] st = st"
| "run_all describe handlers random now (job # rest) (sm, st) =
     (case drainer_run describe handlers (random (length rest)) now job st of
        (outcome, st') \<Rightarrow> run_all describe handlers random now rest (count_outcome outcome sm, st'))"

definition drainer_tick ::
  "(thrown \<Rightarrow> string) \<Rightarrow> (string \<Rightarrow> 'w job_handler option) \<Rightarrow> (nat \<Rightarrow> rat) \<Rightarrow> ident set \<Rightarrow> millis \<Rightarrow> int \<Rightarrow> db \<times> 'w \<Rightarrow>
   drain_summary \<times> db \<times> 'w" where
  "drainer_tick describe handlers random locked now limit st =
     (case claim locked now limit (fst st) of
        (claimed, d') \<Rightarrow>
          run_all describe handlers random now claimed
            (\<lparr>ds_claimed = length claimed, ds_completed = 0, ds_retried = 0, ds_dead = 0\<rparr>, d', snd st))"

section \<open>Lemmas on the schedule\<close>

lemma saturation_value: "SATURATION_ATTEMPT = 9"
  by (simp add: SATURATION_ATTEMPT_def MAX_BACKOFF_MS_def BASE_BACKOFF_MS_def) code_simp

lemma nominal_bounds: "BASE_BACKOFF_MS \<le> nominal_backoff attempts \<and> nominal_backoff attempts \<le> MAX_BACKOFF_MS"
  by (simp add: nominal_backoff_def Let_def MAX_BACKOFF_MS_def BASE_BACKOFF_MS_def)

lemma nominal_mono: "a \<le> b \<Longrightarrow> nominal_backoff a \<le> nominal_backoff b"
proof -
  assume "a \<le> b"
  then have "min (max a 1 - 1) SATURATION_ATTEMPT \<le> min (max b 1 - 1) SATURATION_ATTEMPT" by linarith
  then have "(2 :: nat) ^ min (max a 1 - 1) SATURATION_ATTEMPT \<le> 2 ^ min (max b 1 - 1) SATURATION_ATTEMPT"
    by (rule power_increasing) simp
  then show ?thesis
    unfolding nominal_backoff_def Let_def by (intro min.mono mult_le_mono) simp_all
qed

text \<open>The clamp on the exponent changes nothing but its size.\<close>

lemma nominal_unclamped: "0 < attempts \<Longrightarrow>
    nominal_backoff attempts = min (BASE_BACKOFF_MS * 2 ^ (attempts - 1)) MAX_BACKOFF_MS"
proof -
  assume pos: "0 < attempts"
  show ?thesis
  proof (cases "attempts - 1 \<le> SATURATION_ATTEMPT")
    case True
    with pos show ?thesis by (simp add: nominal_backoff_def Let_def max_def min_def)
  next
    case False
    then have "(2 :: nat) ^ SATURATION_ATTEMPT \<le> 2 ^ (attempts - 1)" by (intro power_increasing) auto
    then have "MAX_BACKOFF_MS \<le> BASE_BACKOFF_MS * 2 ^ (attempts - 1)"
      by (simp add: saturation_value MAX_BACKOFF_MS_def BASE_BACKOFF_MS_def)
    moreover have "MAX_BACKOFF_MS \<le> BASE_BACKOFF_MS * 2 ^ SATURATION_ATTEMPT"
      by (simp add: saturation_value MAX_BACKOFF_MS_def BASE_BACKOFF_MS_def)
    moreover have "min (max attempts 1 - 1) SATURATION_ATTEMPT = SATURATION_ATTEMPT"
      using False by linarith
    ultimately show ?thesis by (simp add: nominal_backoff_def)
  qed
qed

lemma backoff_bounds:
  assumes "0 \<le> random" and "random \<le> 1"
  shows "8 / 10 * of_nat (nominal_backoff attempts) \<le> backoffMs attempts random"
    and "backoffMs attempts random \<le> 12 / 10 * of_nat (nominal_backoff attempts)"
proof -
  have "8 / 10 \<le> 1 + JITTER_RATIO * (2 * random - 1)" "1 + JITTER_RATIO * (2 * random - 1) \<le> 12 / 10"
    using assms by (simp_all add: JITTER_RATIO_def field_simps)
  then show "8 / 10 * of_nat (nominal_backoff attempts) \<le> backoffMs attempts random"
    "backoffMs attempts random \<le> 12 / 10 * of_nat (nominal_backoff attempts)"
    unfolding backoffMs_def by (metis mult.commute mult_left_mono of_nat_0_le_iff)+
qed

lemma retry_is_later: "0 \<le> random \<Longrightarrow> random \<le> 1 \<Longrightarrow> now < nextRunAfter attempts now random"
proof -
  assume r: "0 \<le> random" "random \<le> 1"
  have "(4000 :: rat) \<le> 8 / 10 * of_nat (nominal_backoff attempts)"
    using nominal_bounds [of attempts] by (simp add: BASE_BACKOFF_MS_def)
  then have "4000 \<le> backoffMs attempts random" using backoff_bounds(1) [OF r, of attempts] by linarith
  then have "4000 \<le> \<lfloor>backoffMs attempts random\<rfloor>" by (simp add: le_floor_iff)
  then show ?thesis by (simp add: nextRunAfter_def)
qed

section \<open>Lemmas on the queue\<close>

definition lease_ok :: "job_row \<Rightarrow> bool" where
  "lease_ok j \<longleftrightarrow> (j_locked j \<noteq> None) = (j_status j = JActive)"

definition jobs_ok :: "db \<Rightarrow> bool" where
  "jobs_ok d \<longleftrightarrow> distinct (map j_id (jobs d)) \<and> (\<forall>j \<in> set (jobs d). lease_ok j)"

lemma lease_claim [simp]: "lease_ok (claim_job now j)"
  by (simp add: lease_ok_def claim_job_def)

lemma due_jobs_set:
  "j \<in> set (due_jobs locked now n js) \<Longrightarrow> j \<in> set js \<and> claimable now j \<and> j_id j \<notin> locked"
  by (auto simp: due_jobs_def dest!: in_set_takeD)

lemma claim_ids: "claim locked now limit d = (claimed, d') \<Longrightarrow> map j_id (jobs d') = map j_id (jobs d)"
  by (auto simp: claim_def Let_def claim_job_def)

lemma update_job_ids: "(\<And>j. j_id (f j) = j_id j) \<Longrightarrow> map j_id (jobs (update_job i f d)) = map j_id (jobs d)"
  by (auto simp: update_job_def)

lemma claim_jobs_ok: "jobs_ok d \<Longrightarrow> claim locked now limit d = (claimed, d') \<Longrightarrow> jobs_ok d'"
  using claim_ids [of locked now limit d claimed d']
  by (auto simp: jobs_ok_def claim_def Let_def)

lemma claimed_stored:
  assumes "jobs_ok d" and "claim locked now limit d = (claimed, d')" and "j \<in> set claimed"
  shows "j \<in> set (jobs d')" and "j_status j = JActive" and "j_locked j = Some now"
    and "\<exists>j0 \<in> set (jobs d). j = claim_job now j0 \<and> claimable now j0 \<and> j_id j0 \<notin> locked"
proof -
  have "claimed = map (claim_job now) (due_jobs locked now (claim_batch limit) (jobs d))"
    using assms(2) by (simp add: claim_def Let_def)
  with assms(3) obtain j0 where j0: "j0 \<in> set (due_jobs locked now (claim_batch limit) (jobs d))"
    and j: "j = claim_job now j0" by auto
  note j0' = due_jobs_set [OF j0]
  show "j_status j = JActive" "j_locked j = Some now" by (simp_all add: j claim_job_def)
  show "\<exists>j0 \<in> set (jobs d). j = claim_job now j0 \<and> claimable now j0 \<and> j_id j0 \<notin> locked"
    using j0' j by blast
  have "jobs d' = map (\<lambda>j. if j_id j \<in> j_id ` set (due_jobs locked now (claim_batch limit) (jobs d))
      then claim_job now j else j) (jobs d)"
    using assms(2) by (auto simp: claim_def Let_def)
  then show "j \<in> set (jobs d')" using j0 j0' j by (auto intro!: rev_image_eqI [of j0])
qed

lemma claimed_distinct:
  assumes "jobs_ok d" and "claim locked now limit d = (claimed, d')"
  shows "distinct (map j_id claimed)"
proof -
  have "claimed = map (claim_job now) (due_jobs locked now (claim_batch limit) (jobs d))"
    using assms(2) by (simp add: claim_def Let_def)
  moreover have "distinct (map j_id (due_jobs locked now n (jobs d)))" for n
  proof -
    let ?js = "filter (\<lambda>j. claimable now j \<and> j_id j \<notin> locked) (jobs d)"
    have "distinct (map j_id (sort_key j_run_after ?js))"
      using assms(1) by (auto simp: jobs_ok_def distinct_map inj_on_def)
    then show ?thesis by (simp add: due_jobs_def take_map [symmetric])
  qed
  ultimately show ?thesis by (simp add: comp_def claim_job_def)
qed

lemma concurrent_claims:
  assumes "claim locked now limit d = (a, d1)" and "j_id ` set a \<subseteq> locked'"
    and "claim locked' now' limit' d2 = (b, d3)"
  shows "j_id ` set a \<inter> j_id ` set b = {}"
proof -
  have "j_id j \<notin> locked'" if jb: "j \<in> set b" for j
  proof -
    have "b = map (claim_job now') (due_jobs locked' now' (claim_batch limit') (jobs d2))"
      using assms(3) by (simp add: claim_def Let_def)
    with jb obtain j0 where "j0 \<in> set (due_jobs locked' now' (claim_batch limit') (jobs d2))"
      and "j = claim_job now' j0" by auto
    with due_jobs_set [OF this(1)] show ?thesis by (simp add: claim_job_def)
  qed
  then have "j_id ` set b \<inter> locked' = {}" by auto
  with assms(2) show ?thesis by auto
qed

lemma claim_not_again:
  assumes ok: "jobs_ok d" and c1: "claim locked now limit d = (a, d1)"
    and c2: "claim locked' now' limit' d1 = (b, d2)" and lease: "now' - LEASE_MS \<le> now"
  shows "j_id ` set a \<inter> j_id ` set b = {}"
proof -
  have ok1: "jobs_ok d1" using claim_jobs_ok [OF ok c1] .
  have "False" if ja: "ja \<in> set a" and jb: "jb \<in> set b" and id: "j_id ja = j_id jb" for ja jb
  proof -
    from claimed_stored(4) [OF ok1 c2 jb] obtain j0 where j0: "j0 \<in> set (jobs d1)" "jb = claim_job now' j0"
      "claimable now' j0" by blast
    have "distinct (map j_id (jobs d1))" "j_id j0 = j_id ja"
      using ok1 j0(2) id by (simp_all add: jobs_ok_def claim_job_def)
    then have "j0 = ja" using j0(1) claimed_stored(1) [OF ok c1 ja] by (blast intro: distinct_key_eq)
    with j0(3) claimed_stored(2,3) [OF ok c1 ja] lease show False by (simp add: claimable_def)
  qed
  then show ?thesis by blast
qed

section \<open>A tick settles what it claimed\<close>

definition job_of :: "ident \<Rightarrow> db \<Rightarrow> job_row option" where
  "job_of i d = find (\<lambda>j. j_id j = i) (jobs d)"

definition settled :: "millis \<Rightarrow> job_row \<Rightarrow> bool" where
  "settled now j \<longleftrightarrow>
     j_status j = JDone \<or> j_status j = JDead \<or> (j_status j = JReady \<and> now < j_run_after j)"

lemma find_map_keep:
  assumes "\<And>j. j_id (f j) = j_id j"
  shows "find (\<lambda>j. j_id j = k) (map (\<lambda>j. if j_id j = i then f j else j) js) =
    map_option (\<lambda>j. if k = i then f j else j) (find (\<lambda>j. j_id j = k) js)"
  using assms by (induction js) auto

lemma job_of_update:
  assumes "\<And>j. j_id (f j) = j_id j"
  shows "job_of k (update_job i f d) = map_option (\<lambda>j. if k = i then f j else j) (job_of k d)"
  using find_map_keep [OF assms] by (simp add: job_of_def update_job_def)

lemma find_append_Some: "find P xs = Some x \<Longrightarrow> find P (xs @ ys) = Some x"
  by (induction xs) auto

lemma job_of_append: "jobs d' = jobs d @ more_jobs \<Longrightarrow> job_of k d = Some j \<Longrightarrow> job_of k d' = Some j"
  by (simp add: job_of_def find_append_Some)

lemma settleFailure_job:
  assumes "settleFailure random job message now d = (outcome, d')" and "job_of (j_id job) d = Some j"
    and "0 \<le> random" "random \<le> 1"
  shows "\<exists>j'. job_of (j_id job) d' = Some j' \<and> settled now j'"
    and "k \<noteq> j_id job \<Longrightarrow> job_of k d = Some x \<Longrightarrow> job_of k d' = Some x"
  using assms retry_is_later [OF assms(3,4)]
  by (auto simp: settleFailure_def fail_def job_of_update settled_def split: if_splits)

text \<open>
  What the drainer asks of a handler: it may queue more work and leaves the rows of the
  queue alone.
\<close>

locale queue_handlers =
  fixes handlers :: "string \<Rightarrow> 'w job_handler option"
  assumes handler_appends: "handlers k = Some h \<Longrightarrow> s_tenant s = jc_tenant jc \<Longrightarrow> h payload jc s (d, w) = (r, d', w') \<Longrightarrow>
    \<exists>new. jobs d' = jobs d @ new"
begin

lemma transaction_appends:
  assumes "handlers k = Some h" and "ctx_tenant ctx = jc_tenant jc"
    and "handler_transaction now ctx (h payload jc) (d, w) = (r, d', w')"
  shows "\<exists>new. jobs d' = jobs d @ new"
proof (cases "contextSettings ctx")
  case (Inr y)
  obtain tenant kind i where y: "y = (tenant, kind, i)" by (cases y)
  have "s_tenant (tenant_session now tenant kind i) = jc_tenant jc"
    using contextSettings_shape(1) [OF Inr [unfolded y]] assms(2) by simp
  from handler_appends [OF assms(1) this] show ?thesis using assms(3) Inr y by (auto simp: handler_transaction_def)
qed (use assms(3) in \<open>simp add: handler_transaction_def\<close>)

lemma run_settles:
  assumes run: "drainer_run describe handlers random now job (d, w) = (outcome, d', w')"
    and j: "job_of (j_id job) d = Some j" and r: "0 \<le> random" "random \<le> 1"
  shows "(\<exists>j'. job_of (j_id job) d' = Some j' \<and> settled now j') \<and>
    (\<forall>k x. k \<noteq> j_id job \<longrightarrow> job_of k d = Some x \<longrightarrow> job_of k d' = Some x)"
proof (cases "handlers (j_kind job)")
  case None
  then have "\<exists>message. settleFailure random job message now d = (outcome, d')"
    using run by (auto simp: drainer_run_def split: prod.splits)
  then show ?thesis using settleFailure_job [OF _ j r] by blast
next
  case (Some h)
  let ?h = "h (j_payload job) \<lparr>jc_tenant = j_tenant job, jc_attempt = j_attempts job, jc_max_attempts = j_max_attempts job\<rparr>"
  obtain res d1 w1 where tx: "handler_transaction now (systemContextFor (j_tenant job)) ?h (d, w) = (res, d1, w1)"
    by (cases "handler_transaction now (systemContextFor (j_tenant job)) ?h (d, w)") auto
  have keep: "job_of k d = Some x \<Longrightarrow> job_of k d1 = Some x" for k x
    using transaction_appends [OF Some _ tx] by (auto simp: systemContextFor_def intro: job_of_append)
  show ?thesis
  proof (cases res)
    case (Inl e)
    then have "settleFailure random job (describe e) now d1 = (outcome, d')"
      using run Some tx by (auto simp: drainer_run_def split: prod.splits)
    then show ?thesis using settleFailure_job [OF _ keep [OF j] r] keep by blast
  next
    case (Inr u)
    then have "d' = complete (j_id job) d1" using run Some tx by (simp add: drainer_run_def)
    then show ?thesis using keep j by (auto simp: complete_def job_of_update settled_def)
  qed
qed

lemma run_all_settles:
  assumes "run_all describe handlers random now js (sm, d, w) = (sm', d', w')"
    and "distinct (map j_id js)" and "\<forall>job \<in> set js. job_of (j_id job) d \<noteq> None"
    and "\<And>n. 0 \<le> random n \<and> random n \<le> 1"
  shows "(\<forall>job \<in> set js. \<exists>j. job_of (j_id job) d' = Some j \<and> settled now j) \<and>
    (\<forall>k x. k \<notin> j_id ` set js \<longrightarrow> job_of k d = Some x \<longrightarrow> job_of k d' = Some x) \<and>
    ds_completed sm' + ds_retried sm' + ds_dead sm' =
      ds_completed sm + ds_retried sm + ds_dead sm + length js \<and> ds_claimed sm' = ds_claimed sm"
  using assms(1-3)
proof (induction js arbitrary: sm d w)
  case (Cons job rest)
  obtain outcome d1 w1 where run: "drainer_run describe handlers (random (length rest)) now job (d, w) = (outcome, d1, w1)"
    by (cases "drainer_run describe handlers (random (length rest)) now job (d, w)") auto
  from Cons.prems(3) obtain j where j: "job_of (j_id job) d = Some j" by auto
  note rs = run_settles [OF run j conjunct1 [OF assms(4)] conjunct2 [OF assms(4)]]
  have later: "run_all describe handlers random now rest (count_outcome outcome sm, d1, w1) = (sm', d', w')"
    using Cons.prems(1) run by simp
  have "job_of (j_id x) d1 \<noteq> None" if x: "x \<in> set rest" for x
  proof -
    have "j_id x \<in> j_id ` set rest" using x by (rule imageI)
    then have "j_id x \<noteq> j_id job" using Cons.prems(2) by auto
    moreover obtain y where "job_of (j_id x) d = Some y" using x Cons.prems(3) by auto
    ultimately show ?thesis using rs by auto
  qed
  with Cons.IH [OF later] Cons.prems(2)
  have ih: "\<forall>job \<in> set rest. \<exists>j. job_of (j_id job) d' = Some j \<and> settled now j"
    "\<forall>k x. k \<notin> j_id ` set rest \<longrightarrow> job_of k d1 = Some x \<longrightarrow> job_of k d' = Some x"
    "ds_completed sm' + ds_retried sm' + ds_dead sm' =
      ds_completed (count_outcome outcome sm) + ds_retried (count_outcome outcome sm) +
      ds_dead (count_outcome outcome sm) + length rest"
    "ds_claimed sm' = ds_claimed (count_outcome outcome sm)" by auto
  have "\<exists>j. job_of (j_id job) d' = Some j \<and> settled now j"
    using rs ih(2) Cons.prems(2) by auto
  then show ?case using ih rs by (cases outcome) auto
qed simp

lemma tick_summary:
  assumes ok: "jobs_ok d" and c: "claim locked now limit d = (claimed, d1)"
    and t: "drainer_tick describe handlers random locked now limit (d, w) = (sm, d', w')"
    and r: "\<And>n. 0 \<le> random n \<and> random n \<le> 1"
  shows "ds_claimed sm = length claimed \<and> ds_completed sm + ds_retried sm + ds_dead sm = ds_claimed sm \<and>
    (\<forall>job \<in> set claimed. \<exists>j. job_of (j_id job) d' = Some j \<and> settled now j)"
proof -
  have run: "run_all describe handlers random now claimed
      (\<lparr>ds_claimed = length claimed, ds_completed = 0, ds_retried = 0, ds_dead = 0\<rparr>, d1, w) = (sm, d', w')"
    using t c by (simp add: drainer_tick_def)
  have "job_of (j_id job) d1 \<noteq> None" if "job \<in> set claimed" for job
    using claimed_stored(1) [OF ok c that] by (auto simp: job_of_def find_None_iff)
  moreover have "distinct (map j_id claimed)" by (rule claimed_distinct [OF ok c])
  ultimately show ?thesis using run_all_settles [OF run _ _ r] by auto
qed

end

section \<open>Poison jobs\<close>

text \<open>
  A worker that dies inside a handler settles nothing: its tick is the claim alone. The
  claim does not look at the attempt count, so such a job is handed out again after every
  lease, however many attempts it has used up.
\<close>

fun crash_cycles :: "nat \<Rightarrow> millis \<Rightarrow> db \<Rightarrow> db" where
  "crash_cycles 0 now d = d"
| "crash_cycles (Suc n) now d = crash_cycles n (now + LEASE_MS + 1) (snd (claim {} now 0 d))"

lemma single_claim:
  assumes "jobs d = [j]" and "claimable now j"
  shows "claim {} now 0 d = ([claim_job now j], d\<lparr>jobs := [claim_job now j]\<rparr>)"
  using assms by (simp add: claim_def due_jobs_def claim_batch_def CLAIM_BATCH_def MAX_CLAIM_BATCH_def Let_def)

text \<open>
  A job whose handler kills its worker is never dead-lettered: however many leases expire,
  the claim hands it out again, its attempt count grows past any maximum, and its status is
  still active.
\<close>

theorem crash_loop:
  assumes "jobs d = [j]" and "claimable now j"
  shows "\<exists>j'. jobs (crash_cycles (Suc n) now d) = [j'] \<and> j_status j' = JActive \<and>
    j_attempts j' = j_attempts j + Suc n \<and> j_max_attempts j' = j_max_attempts j"
  using assms
proof (induction n arbitrary: now d j)
  case 0
  then show ?case by (simp add: single_claim claim_job_def)
next
  case (Suc n)
  let ?d = "d\<lparr>jobs := [claim_job now j]\<rparr>"
  have "claimable (now + LEASE_MS + 1) (claim_job now j)" by (simp add: claimable_def claim_job_def)
  from Suc.IH [of ?d "claim_job now j", OF _ this]
  have "\<exists>j'. jobs (crash_cycles (Suc n) (now + LEASE_MS + 1) ?d) = [j'] \<and> j_status j' = JActive \<and>
      j_attempts j' = j_attempts (claim_job now j) + Suc n \<and> j_max_attempts j' = j_max_attempts (claim_job now j)"
    by simp
  moreover have "crash_cycles (Suc (Suc n)) now d = crash_cycles (Suc n) (now + LEASE_MS + 1) ?d"
    using single_claim [OF Suc.prems] by simp
  ultimately show ?case by (simp add: claim_job_def)
qed

definition sample_job :: job_row where
  "sample_job = \<lparr>j_id = ''j'', j_tenant = ''t'', j_kind = ''k'', j_payload = JNull, j_run_after = 0, j_attempts = 0,
     j_max_attempts = 5, j_status = JReady, j_locked = None, j_last_error = None, j_created = 0\<rparr>"

definition sample_queue :: db where
  "sample_queue = empty_db\<lparr>jobs := [sample_job]\<rparr>"

theorem crash_loop_witness:
  "\<exists>j. jobs (crash_cycles 10 0 sample_queue) = [j] \<and> j_status j = JActive \<and> j_attempts j = 10 \<and> j_max_attempts j = 5"
proof -
  have q: "jobs sample_queue = [sample_job]" by (simp add: sample_queue_def)
  have c: "claimable 0 sample_job" by (simp add: claimable_def sample_job_def)
  from crash_loop [OF q c, of 9] show ?thesis by (simp add: numeral_eq_Suc sample_job_def)
qed



text \<open>
  The retry schedule: from one attempt to the next the nominal delay doubles from five
  seconds until it reaches fifteen minutes and stays there, and the jittered instant is
  later than now, at least four fifths and at most six fifths of the nominal delay away.
\<close>

theorem backoff_schedule:
  assumes "0 \<le> random" and "random \<le> 1" and "0 < attempts"
  shows "nominal_backoff attempts = min (5000 * 2 ^ (attempts - 1)) 900000 \<and>
    now < nextRunAfter attempts now random \<and>
    8 / 10 * of_nat (nominal_backoff attempts) - 1 < rat_of_int (nextRunAfter attempts now random - now) \<and>
    rat_of_int (nextRunAfter attempts now random - now) \<le> 12 / 10 * of_nat (nominal_backoff attempts)"
proof -
  have "nominal_backoff attempts = min (5000 * 2 ^ (attempts - 1)) 900000"
    using nominal_unclamped [OF assms(3)] by (simp add: BASE_BACKOFF_MS_def MAX_BACKOFF_MS_def)
  moreover have "8 / 10 * of_nat (nominal_backoff attempts) - 1 < rat_of_int \<lfloor>backoffMs attempts random\<rfloor>"
    using backoff_bounds(1) [OF assms(1,2), of attempts] floor_correct [of "backoffMs attempts random"] by linarith
  moreover have "rat_of_int \<lfloor>backoffMs attempts random\<rfloor> \<le> 12 / 10 * of_nat (nominal_backoff attempts)"
    using backoff_bounds(2) [OF assms(1,2), of attempts] floor_correct [of "backoffMs attempts random"] by linarith
  ultimately show ?thesis using retry_is_later [OF assms(1,2)] by (simp add: nextRunAfter_def)
qed

theorem backoff_schedule_witness: "nominal_backoff 3 = 20000 \<and> 7 < nextRunAfter 3 7 (1 / 2)"
  using backoff_schedule [of "1 / 2" 3 7] by simp

end
