(* ===== verification/Conversation.thy ===== *)
theory Conversation
  imports Ticket_Service Job_Queue
begin

text \<open>
  \<open>src/src/conversation\<close> and \<open>src/src/outbound\<close>: the two threads of a ticket, the customer's
  reply with its three outcomes, and the dispatch that queues the delivery of an
  agent's message to the channel the ticket came from. Fresh identifiers (the message, a
  spawned ticket, a delivery and its job) are arguments.
\<close>

section \<open>Threads\<close>

definition THREAD_SORTABLE :: sortable_fields where
  "THREAD_SORTABLE = [(''createdAt'', DateField)]"

definition thread_table :: "thread_row table" where
  "thread_table =
     \<lparr>tb_id = m_id,
      tb_col = (\<lambda>m fld. if fld = ''createdAt'' then Some (CDate (m_created m)) else None)\<rparr>"

definition threadQuery ::
  "(string \<Rightarrow> millis option) \<Rightarrow> string option \<Rightarrow> string option \<Rightarrow> thrown + (sort_spec \<times> keyset_plan)" where
  "threadQuery other cursor rawSort =
     bindE (parseSort rawSort (sortableFieldNames THREAD_SORTABLE) DEFAULT_SORT) (\<lambda>sort.
     bindE (keysetPlan other sort cursor THREAD_SORTABLE) (\<lambda>plan. Inr (sort, plan)))"

definition assertTicketVisible :: "ident \<Rightarrow> (db, unit) transaction" where
  "assertTicketVisible i s d =
     (case ticket_findUnique i s d of
        None \<Rightarrow> Inl (App (notFound ''Ticket''))
      | Some _ \<Rightarrow> Inr ((), d))"

definition rethrowMissingTicket :: "thrown \<Rightarrow> thrown" where
  "rethrowMissingTicket e = (if isForeignKeyViolation e then App (notFound ''Ticket'') else e)"

section \<open>Outbound dispatch\<close>

definition slackTarget :: "string \<Rightarrow> string \<Rightarrow> string" where
  "slackTarget channel thread = channel @ ''/'' @ thread"

definition parseSlackTarget :: "string \<Rightarrow> (string \<times> string) option" where
  "parseSlackTarget target =
     (case split_on (CHR ''/'') target of
        channel # thread # extra \<Rightarrow>
          if channel = [] \<or> thread = [] \<or> extra \<noteq> [] then None else Some (channel, thread)
      | _ \<Rightarrow> None)"

definition routeFor :: "ticket option \<Rightarrow> (string \<times> string) option" where
  "routeFor t =
     (case t of
        None \<Rightarrow> None
      | Some t \<Rightarrow>
          (case (t_slack_channel t, t_slack_thread t) of
             (Some channel, Some thread) \<Rightarrow>
               if channel = [] \<or> thread = [] then None
               else Some (source_text SrcSlack, slackTarget channel thread)
           | _ \<Rightarrow> None))"

definition delivery_insert :: "ident \<Rightarrow> ident \<Rightarrow> string \<Rightarrow> ident \<Rightarrow> string \<Rightarrow> (db, unit) transaction" where
  "delivery_insert i tenant source message target s d =
     (let row = \<lparr>d_id = i, d_tenant = tenant, d_source = source, d_message = message, d_target = target,
                 d_status = DPending, d_attempts = 0, d_external = None, d_last_error = None,
                 d_delivered_at = None\<rparr>
      in if \<not> (tenant_matches s tenant \<and> \<not> current_actor_is_contact s) then Inl policy_error
         else if i \<in> d_id ` set (deliveries d) \<or>
                 (tenant, message, target) \<in> (\<lambda>x. (d_tenant x, d_message x, d_target x)) ` set (deliveries d)
         then Inl unique_error
         else if \<not> (\<exists>m \<in> set (messages d). m_tenant m = tenant \<and> m_id m = message) then Inl foreign_key_error
         else Inr ((), d\<lparr>deliveries := deliveries d @ [row]\<rparr>))"

definition OUTBOUND_DELIVERY_JOB :: string where "OUTBOUND_DELIVERY_JOB = ''outbound.delivery''"

record fresh_ids =
  fr_message :: ident
  fr_delivery :: ident
  fr_job :: ident
  fr_ticket :: ident

definition dispatchIn :: "fresh_ids \<Rightarrow> thread_row \<Rightarrow> (db, unit) transaction" where
  "dispatchIn fr m s d =
     (if m_author_kind m = ''contact'' then Inr ((), d)
      else case routeFor (ticket_findUnique (m_ticket m) s d) of
        None \<Rightarrow> Inr ((), d)
      | Some (source, target) \<Rightarrow>
          (case delivery_insert (fr_delivery fr) (m_tenant m) source (m_id m) target s d of
             Inl e \<Rightarrow> if isUniqueViolation e then Inr ((), d) else Inl e
           | Inr (_, d') \<Rightarrow>
               enqueue (fr_job fr)
                 \<lparr>eq_kind = OUTBOUND_DELIVERY_JOB,
                  eq_payload = JObj [(''messageId'', JStr (m_id m)), (''target'', JStr target)],
                  eq_run_after = None, eq_max_attempts = None\<rparr> s d'))"

section \<open>Messages and notes\<close>

definition postIn :: "fresh_ids \<Rightarrow> request_principal \<Rightarrow> ident \<Rightarrow> string \<Rightarrow> (db, thread_row) transaction" where
  "postIn fr p tid body s d =
     (case assertTicketVisible tid s d of
        Inl e \<Rightarrow> Inl e
      | Inr (_, d0) \<Rightarrow>
          (case catch rethrowMissingTicket (message_insert (fr_message fr) (tenantOf p) tid body s d0) of
             Inl e \<Rightarrow> Inl e
           | Inr (m, d1) \<Rightarrow>
               (case dispatchIn fr m s d1 of
                  Inl e \<Rightarrow> Inl e
                | Inr (_, d2) \<Rightarrow> Inr (m, d2))))"

definition message_post ::
  "millis \<Rightarrow> fresh_ids \<Rightarrow> request_principal \<Rightarrow> ident \<Rightarrow> string \<Rightarrow> thread_row service" where
  "message_post now fr p tid body = announcing (asPrincipal now p (postIn fr p tid body)) (messageCreated now)"

definition writeIn :: "ident \<Rightarrow> request_principal \<Rightarrow> ident \<Rightarrow> string \<Rightarrow> (db, thread_row) transaction" where
  "writeIn i p tid body s d = catch rethrowMissingTicket (note_insert i (tenantOf p) tid body s d)"

definition note_write :: "millis \<Rightarrow> ident \<Rightarrow> request_principal \<Rightarrow> ident \<Rightarrow> string \<Rightarrow> thread_row service" where
  "note_write now i p tid body = announcing (asPrincipal now p (writeIn i p tid body)) (noteCreated now)"

definition message_list ::
  "(string \<Rightarrow> millis option) \<Rightarrow> millis \<Rightarrow> request_principal \<Rightarrow> ident \<Rightarrow> nat \<Rightarrow> string option \<Rightarrow> string option \<Rightarrow>
   db \<Rightarrow> thrown + thread_row page" where
  "message_list other now p tid limit cursor rawSort d =
     bindE (threadQuery other cursor rawSort) (\<lambda>(sort, plan).
     bindE (asPrincipal now p (\<lambda>s d.
              bindE (assertTicketVisible tid s d) (\<lambda>_.
              bindE (find_many thread_table sort plan (Suc limit)
                       (filter (\<lambda>m. visible_message s d m \<and> m_ticket m = tid) (messages d)))
                (\<lambda>rows. Inr (rows, d)))) d) (\<lambda>(rows, _).
       buildPage thread_table rows limit sort))"

definition note_list ::
  "(string \<Rightarrow> millis option) \<Rightarrow> millis \<Rightarrow> request_principal \<Rightarrow> ident \<Rightarrow> nat \<Rightarrow> string option \<Rightarrow> string option \<Rightarrow>
   db \<Rightarrow> thrown + thread_row page" where
  "note_list other now p tid limit cursor rawSort d =
     bindE (threadQuery other cursor rawSort) (\<lambda>(sort, plan).
     bindE (asPrincipal now p (\<lambda>s d.
              bindE (assertTicketVisible tid s d) (\<lambda>_.
              bindE (find_many thread_table sort plan (Suc limit)
                       (filter (\<lambda>m. visible_note s m \<and> m_ticket m = tid) (note_rows d)))
                (\<lambda>rows. Inr (rows, d)))) d) (\<lambda>(rows, _).
       buildPage thread_table rows limit sort))"

section \<open>A customer's reply\<close>

datatype reply_outcome = ReplyAppend | ReplyReopen | ReplySpawn

fun replyOutcomeFor :: "ticket_state \<Rightarrow> reply_outcome" where
  "replyOutcomeFor TOpen = ReplyAppend"
| "replyOutcomeFor TOnHold = ReplyAppend"
| "replyOutcomeFor TPending = ReplyReopen"
| "replyOutcomeFor TResolved = ReplyReopen"
| "replyOutcomeFor TClosed = ReplySpawn"

record contact_reply =
  re_ticket :: ticket
  re_message :: thread_row
  re_landing :: reply_outcome

text \<open>
  \<open>targetFor\<close> and \<open>spawnOrJoinLive\<close> call each other: a spawn that finds the chain's live
  ticket asks again about that one. The live ticket is never closed, so the second
  question does not spawn, and the recursion is unfolded once.
\<close>

definition target_unless_spawn ::
  "request_principal \<Rightarrow> ticket \<Rightarrow> session \<Rightarrow> db \<Rightarrow> (thrown + ((ticket \<times> reply_outcome) \<times> db)) option" where
  "target_unless_spawn p addressed s d =
     (case replyOutcomeFor (t_state addressed) of
        ReplyAppend \<Rightarrow> Some (Inr ((addressed, ReplyAppend), d))
      | ReplyReopen \<Rightarrow>
          Some (case transitionIn p (t_id addressed) TOpen s d of
                  Inl e \<Rightarrow> Inl e
                | Inr (t, d') \<Rightarrow> Inr ((t, ReplyReopen), d'))
      | ReplySpawn \<Rightarrow> None)"

definition spawnOrJoinLive ::
  "ident \<Rightarrow> request_principal \<Rightarrow> ident \<Rightarrow> ticket \<Rightarrow> ticket_source \<Rightarrow> (db, ticket \<times> reply_outcome) transaction" where
  "spawnOrJoinLive i p contact parent source s d =
     (case ticket_select (\<lambda>t. inChainWith parent t \<and> t_state t \<noteq> TClosed) s d of
        live_ticket # _ \<Rightarrow>
          (case target_unless_spawn p live_ticket s d of
             Some r \<Rightarrow> r
           | None \<Rightarrow> Inl (RawError None None))
      | [] \<Rightarrow>
          (case catch rethrowChainConflict
                  (createIn i p \<lparr>ci_subject = t_subject parent, ci_contact = contact, ci_source = source,
                                 ci_spawned = Some (t_id parent), ci_slack_route = None\<rparr> s d) of
             Inl e \<Rightarrow> Inl e
           | Inr (t, d') \<Rightarrow> Inr ((t, ReplySpawn), d')))"

definition targetFor ::
  "ident \<Rightarrow> request_principal \<Rightarrow> ident \<Rightarrow> ticket \<Rightarrow> ticket_source \<Rightarrow> (db, ticket \<times> reply_outcome) transaction" where
  "targetFor i p contact addressed source s d =
     (case target_unless_spawn p addressed s d of
        Some r \<Rightarrow> r
      | None \<Rightarrow> spawnOrJoinLive i p contact addressed source s d)"

definition replyIn ::
  "fresh_ids \<Rightarrow> ident \<Rightarrow> ident \<Rightarrow> ident \<Rightarrow> string \<Rightarrow> ticket_source \<Rightarrow> (db, contact_reply) transaction" where
  "replyIn fr tenant contact tid body source s d =
     (let p = ContactPrincipal tenant contact in
      case ticket_findUnique tid s d of
        None \<Rightarrow> Inl (App (notFound ''Ticket''))
      | Some addressed \<Rightarrow>
          (case targetFor (fr_ticket fr) p contact addressed source s d of
             Inl e \<Rightarrow> Inl e
           | Inr ((t, landing), d1) \<Rightarrow>
               (case postIn fr p (t_id t) body s d1 of
                  Inl e \<Rightarrow> Inl e
                | Inr (m, d2) \<Rightarrow> Inr (\<lparr>re_ticket = t, re_message = m, re_landing = landing\<rparr>, d2))))"

definition reply_announce :: "millis \<Rightarrow> contact_reply \<Rightarrow> realtime \<Rightarrow> realtime" where
  "reply_announce now r rt =
     messageCreated now (re_message r)
       (if re_landing r = ReplySpawn then ticketCreated now (re_ticket r) rt
        else if re_landing r = ReplyReopen then ticketUpdated now (re_ticket r) rt
        else rt)"

definition reply ::
  "millis \<Rightarrow> fresh_ids \<Rightarrow> ident \<Rightarrow> ident \<Rightarrow> ident \<Rightarrow> string \<Rightarrow> ticket_source \<Rightarrow> contact_reply service" where
  "reply now fr tenant contact tid body source =
     announcing (asPrincipal now (ContactPrincipal tenant contact) (replyIn fr tenant contact tid body source))
       (reply_announce now)"

section \<open>The operations keep the contract\<close>

lemma enqueue_parts:
  assumes "enqueue i input s d = Inr (u, d')"
  obtains j where "d' = d\<lparr>jobs := jobs d @ [j]\<rparr>" and "j_tenant j = s_tenant s" and "j_id j = i"
    and "i \<notin> j_id ` set (jobs d)" and "j_status j = JReady" and "j_locked j = None"
    and "j_kind j = eq_kind input" and "j_payload j = eq_payload input"
  using assms by (auto simp: enqueue_def Let_def split: if_splits)

lemma enqueue_safe: "tx_safe (enqueue i input)"
proof (rule tx_safeI)
  fix s d u d' assume inv: "ticket_inv d" and "enqueue i input s d = Inr (u, d')"
  then obtain j where "d' = d\<lparr>jobs := jobs d @ [j]\<rparr>" "j_tenant j = s_tenant s" by (elim enqueue_parts) blast
  with inv show "safe_step (s_tenant s) d d'" by (intro frame_safe) (auto simp: others_def)
qed

lemma delivery_insert_parts:
  assumes "delivery_insert i tenant source message target s d = Inr (u, d')"
  obtains row where "d' = d\<lparr>deliveries := deliveries d @ [row]\<rparr>" and "d_tenant row = tenant"
    and "tenant = s_tenant s" and "d_message row = message" and "d_target row = target"
    and "d_status row = DPending"
  using assms by (auto simp: delivery_insert_def Let_def tenant_matches_def split: if_splits)

lemma delivery_insert_safe: "tx_safe (delivery_insert i tenant source message target)"
proof (rule tx_safeI)
  fix s d u d' assume inv: "ticket_inv d" and "delivery_insert i tenant source message target s d = Inr (u, d')"
  then obtain row where "d' = d\<lparr>deliveries := deliveries d @ [row]\<rparr>" "d_tenant row = s_tenant s"
    by (elim delivery_insert_parts) blast
  with inv show "safe_step (s_tenant s) d d'" by (intro frame_safe) (auto simp: others_def)
qed

lemma dispatchIn_cases:
  assumes "dispatchIn fr m s d = Inr (u, d')"
  obtains (nothing) "d' = d"
  | (queued) source target d1 v where "m_author_kind m \<noteq> ''contact''"
      and "routeFor (ticket_findUnique (m_ticket m) s d) = Some (source, target)"
      and "delivery_insert (fr_delivery fr) (m_tenant m) source (m_id m) target s d = Inr (v, d1)"
      and "enqueue (fr_job fr) \<lparr>eq_kind = OUTBOUND_DELIVERY_JOB,
             eq_payload = JObj [(''messageId'', JStr (m_id m)), (''target'', JStr target)],
             eq_run_after = None, eq_max_attempts = None\<rparr> s d1 = Inr (u, d')"
  using assms by (auto simp: dispatchIn_def split: if_splits option.splits sum.splits)

lemma dispatchIn_safe: "tx_safe (dispatchIn fr m)"
proof (rule tx_safeI)
  fix s d u d' assume inv: "ticket_inv d" and "dispatchIn fr m s d = Inr (u, d')"
  then show "safe_step (s_tenant s) d d'"
  proof (elim dispatchIn_cases, goal_cases)
    case 1
    with inv show ?case by (simp add: safe_step_refl)
  next
    case (2 source target d1 v)
    note one = tx_safeD [OF delivery_insert_safe inv 2(4)]
    show ?case by (rule safe_step_trans [OF one tx_safeD [OF enqueue_safe safe_step_inv [OF one] 2(5)]])
  qed
qed

lemma postIn_parts:
  assumes "postIn fr p tid body s d = Inr (m, d')"
  obtains t d1 where "ticket_findUnique tid s d = Some t"
    and "message_insert (fr_message fr) (tenantOf p) tid body s d = Inr (m, d1)"
    and "dispatchIn fr m s d1 = Inr ((), d')"
  using assms by (auto simp: postIn_def assertTicketVisible_def split: sum.splits option.splits)

lemma postIn_safe: "tx_safe (postIn fr p tid body)"
proof (rule tx_safeI)
  fix s d m d' assume inv: "ticket_inv d" and "postIn fr p tid body s d = Inr (m, d')"
  then obtain d1 where m: "message_insert (fr_message fr) (tenantOf p) tid body s d = Inr (m, d1)"
    and q: "dispatchIn fr m s d1 = Inr ((), d')" by (elim postIn_parts) blast
  note one = message_insert_safe [OF inv m]
  show "safe_step (s_tenant s) d d'"
    by (rule safe_step_trans [OF one tx_safeD [OF dispatchIn_safe safe_step_inv [OF one] q]])
qed

lemma writeIn_safe: "tx_safe (writeIn i p tid body)"
  by (rule tx_safeI) (auto simp: writeIn_def intro: note_insert_safe)

lemma target_unless_spawn_cases:
  assumes "target_unless_spawn p addressed s d = Some (Inr ((t, landing), d'))"
  obtains (append) "t_state addressed \<in> {TOpen, TOnHold}" "t = addressed" "landing = ReplyAppend" "d' = d"
  | (reopen) "t_state addressed \<in> {TPending, TResolved}" "landing = ReplyReopen"
      "transitionIn p (t_id addressed) TOpen s d = Inr (t, d')"
  using assms
  by (cases "t_state addressed") (auto simp: target_unless_spawn_def split: sum.splits)

lemma target_unless_spawn_None: "target_unless_spawn p t s d = None \<longleftrightarrow> t_state t = TClosed"
  by (cases "t_state t") (auto simp: target_unless_spawn_def)

lemma select_live:
  "ticket_select (\<lambda>t. inChainWith parent t \<and> t_state t \<noteq> TClosed) s d = t # rest \<Longrightarrow>
     t \<in> set (tickets d) \<and> visible_ticket s t \<and> inChainWith parent t \<and> t_state t \<noteq> TClosed"
proof -
  assume "ticket_select (\<lambda>t. inChainWith parent t \<and> t_state t \<noteq> TClosed) s d = t # rest"
  then have "t \<in> set (ticket_select (\<lambda>t. inChainWith parent t \<and> t_state t \<noteq> TClosed) s d)" by simp
  then show ?thesis by (simp add: ticket_select_def)
qed

lemma targetFor_cases:
  assumes "targetFor i p contact addressed source s d = Inr ((t, landing), d')"
  obtains (keep) "t_state addressed \<noteq> TClosed"
      "target_unless_spawn p addressed s d = Some (Inr ((t, landing), d'))"
  | (join) u rest where "t_state addressed = TClosed"
      "ticket_select (\<lambda>t. inChainWith addressed t \<and> t_state t \<noteq> TClosed) s d = u # rest"
      "target_unless_spawn p u s d = Some (Inr ((t, landing), d'))"
  | (spawn) "t_state addressed = TClosed"
      "ticket_select (\<lambda>t. inChainWith addressed t \<and> t_state t \<noteq> TClosed) s d = []" "landing = ReplySpawn"
      "createIn i p \<lparr>ci_subject = t_subject addressed, ci_contact = contact, ci_source = source,
         ci_spawned = Some (t_id addressed), ci_slack_route = None\<rparr> s d = Inr (t, d')"
proof (cases "target_unless_spawn p addressed s d")
  case None
  then have closed: "t_state addressed = TClosed" by (simp add: target_unless_spawn_None)
  show ?thesis
  proof (cases "ticket_select (\<lambda>t. inChainWith addressed t \<and> t_state t \<noteq> TClosed) s d")
    case Nil
    with None assms closed show ?thesis
      by (intro spawn) (auto simp: targetFor_def spawnOrJoinLive_def split: sum.splits)
  next
    case (Cons u rest)
    have "t_state u \<noteq> TClosed" using select_live [OF Cons] by blast
    then obtain r where "target_unless_spawn p u s d = Some r"
      by (metis not_None_eq target_unless_spawn_None)
    with Cons None assms closed show ?thesis
      by (intro join [OF closed Cons]) (simp add: targetFor_def spawnOrJoinLive_def)
  qed
next
  case (Some r)
  then have "t_state addressed \<noteq> TClosed" by (metis option.distinct(1) target_unless_spawn_None)
  with Some assms show ?thesis by (intro keep) (simp_all add: targetFor_def)
qed

lemma target_unless_spawn_safe:
  assumes "ticket_inv d" and "target_unless_spawn p u s d = Some (Inr ((t, landing), d'))"
  shows "safe_step (s_tenant s) d d'"
  using assms(2)
  by (cases rule: target_unless_spawn_cases)
    (use assms(1) in \<open>auto intro: safe_step_refl tx_safeD [OF transitionIn_safe]\<close>)

lemma targetFor_safe:
  assumes "ticket_inv d" and "targetFor i p contact addressed source s d = Inr ((t, landing), d')"
  shows "safe_step (s_tenant s) d d'"
  using assms(2)
  by (cases rule: targetFor_cases)
    (use assms(1) in \<open>auto intro: target_unless_spawn_safe tx_safeD [OF createIn_safe]\<close>)

lemma replyIn_parts:
  assumes "replyIn fr tenant contact tid body source s d = Inr (r, d')"
  obtains addressed t landing d1 m where "ticket_findUnique tid s d = Some addressed"
    and "targetFor (fr_ticket fr) (ContactPrincipal tenant contact) contact addressed source s d = Inr ((t, landing), d1)"
    and "postIn fr (ContactPrincipal tenant contact) (t_id t) body s d1 = Inr (m, d')"
    and "r = \<lparr>re_ticket = t, re_message = m, re_landing = landing\<rparr>"
  using assms by (auto simp: replyIn_def Let_def split: option.splits sum.splits)

lemma replyIn_safe: "tx_safe (replyIn fr tenant contact tid body source)"
proof (rule tx_safeI)
  fix s d r d' assume inv: "ticket_inv d" and "replyIn fr tenant contact tid body source s d = Inr (r, d')"
  then obtain addressed t landing d1 m where
    tf: "targetFor (fr_ticket fr) (ContactPrincipal tenant contact) contact addressed source s d = Inr ((t, landing), d1)"
    and po: "postIn fr (ContactPrincipal tenant contact) (t_id t) body s d1 = Inr (m, d')"
    by (elim replyIn_parts) blast
  note one = targetFor_safe [OF inv tf]
  show "safe_step (s_tenant s) d d'"
    by (rule safe_step_trans [OF one tx_safeD [OF postIn_safe safe_step_inv [OF one] po]])
qed

interpretation posting: armed_work "postIn fr p tid body" for fr p tid body
  by unfold_locales (rule postIn_safe)

interpretation noting: armed_work "writeIn i p tid body" for i p tid body
  by unfold_locales (rule writeIn_safe)

interpretation replying: armed_work "replyIn fr tenant contact tid body source" for fr tenant contact tid body source
  by unfold_locales (rule replyIn_safe)

lemma message_post_ok:
  assumes "ticket_inv d" and "realtime_inv d rt" and "message_post now fr p tid body d rt = Inr (m, d', rt')"
  shows "service_ok (tenantOf p) d rt d' rt'"
  using assms(3) unfolding message_post_def
  by (rule announcing_ok) (use assms in \<open>auto intro: posting.principal_run service_inv\<close>)

lemma note_write_ok:
  assumes "ticket_inv d" and "realtime_inv d rt" and "note_write now i p tid body d rt = Inr (m, d', rt')"
  shows "service_ok (tenantOf p) d rt d' rt'"
  using assms(3) unfolding note_write_def
  by (rule announcing_ok) (use assms in \<open>auto intro: noting.principal_run service_inv\<close>)

lemma reply_ok:
  assumes "ticket_inv d" and "realtime_inv d rt" and "reply now fr tenant contact tid body source d rt = Inr (r, d', rt')"
  shows "service_ok tenant d rt d' rt'"
  using assms(3) unfolding reply_def
  by (rule announcing_ok)
    (use assms in \<open>auto simp: reply_announce_def intro: service_inv dest: replying.principal_run\<close>)

end
