(* ===== verification/Ticket_Outcomes.thy ===== *)
theory Ticket_Outcomes
  imports Conversation
begin

text \<open>
  The exact result of each edit of a ticket, on every branch: what a transition, a
  priority edit and an assignment answer and leave behind, for any armed session and any
  database that satisfies the schema's invariant.
\<close>

section \<open>Sessions a principal can arm\<close>

definition armed :: "session \<Rightarrow> bool" where
  "armed s \<longleftrightarrow> s_tenant s \<noteq> [] \<and> s_actor_kind s \<noteq> [] \<and> (s_actor_id s \<noteq> [] \<or> s_actor_kind s = ''system'')"

lemma armed_actor: "armed s \<Longrightarrow> \<exists>i. current_actor s = Inr (s_actor_kind s, i)"
  by (auto simp: armed_def current_actor_def)

lemma armed_principal:
  assumes "asPrincipal now p work d = r" and "tenantContextFor p = Inr ctx" and "contextSettings ctx = Inr st"
  obtains kind i where "armed (tenant_session now (tenantOf p) kind i)"
    and "r = work (tenant_session now (tenantOf p) kind i) d"
    and "actorFor p = Inr (kind, i)"
proof -
  obtain tenant kind i where st: "st = (tenant, kind, i)" by (cases st) auto
  from assms(2) obtain k j where a: "actorFor p = Inr (k, j)"
    and ctx: "ctx = \<lparr>ctx_tenant = tenantOf p, ctx_actor_kind = Some k, ctx_actor_id = Some j\<rparr>"
    by (auto simp: tenantContextFor_def split: sum.splits)
  from a have "k \<noteq> ''system''" by (cases p) (auto split: option.splits if_splits)
  with assms(3) st ctx have "tenant = tenantOf p" "kind = k" "i = j" "tenantOf p \<noteq> []" "k \<noteq> []" "j \<noteq> []"
    by (auto simp: contextSettings_def split: if_splits)
  with assms st a show ?thesis
    by (intro that [of k j]) (auto simp: asPrincipal_def withTenant_def armed_def)
qed

section \<open>One matching row\<close>

lemma update_rows_none:
  assumes "\<forall>u \<in> set ts. \<not> (visible_ticket s u \<and> sel u)"
  shows "update_rows s d sel f ts = Inr (0, ts, [])"
  using assms by (induction ts) auto

lemma update_rows_single:
  assumes "distinct (map t_id ts)" and "cur \<in> set ts" and "visible_ticket s cur" and "sel cur"
    and "\<forall>u \<in> set ts. visible_ticket s u \<and> sel u \<longrightarrow> t_id u = t_id cur"
  shows "update_rows s d sel f ts =
    (case ticket_before_update s d cur (f cur) of
       Inl e \<Rightarrow> Inl e
     | Inr (t', rows) \<Rightarrow> Inr (1, map (\<lambda>u. if t_id u = t_id cur then t' else u) ts, rows))"
  using assms
proof (induction ts)
  case (Cons t ts)
  show ?case
  proof (cases "t = cur")
    case True
    have "t_id u \<noteq> t_id cur" if "u \<in> set ts" for u using distinct_tail_key [OF Cons.prems(1) that] True by simp
    then have rest: "update_rows s d sel f ts = Inr (0, ts, [])" "map (\<lambda>u. if t_id u = t_id cur then t' else u) ts = ts" for t'
      using Cons.prems(5) by (auto intro!: update_rows_none map_idI)
    show ?thesis
      using True Cons.prems(3,4) rest by (auto split: sum.splits)
  next
    case False
    then have cur: "cur \<in> set ts" using Cons.prems(2) by simp
    then have ne: "t_id t \<noteq> t_id cur" using distinct_tail_key [OF Cons.prems(1)] by metis
    then have skip: "\<not> (visible_ticket s t \<and> sel t)" using Cons.prems(5) by auto
    have "update_rows s d sel f ts =
        (case ticket_before_update s d cur (f cur) of
           Inl e \<Rightarrow> Inl e
         | Inr (t', rows) \<Rightarrow> Inr (1, map (\<lambda>u. if t_id u = t_id cur then t' else u) ts, rows))"
    proof (rule Cons.IH)
      show "distinct (map t_id ts)" using Cons.prems(1) by simp
      show "cur \<in> set ts" by (rule cur)
      show "visible_ticket s cur" "sel cur" by (rule Cons.prems(3), rule Cons.prems(4))
      show "\<forall>u \<in> set ts. visible_ticket s u \<and> sel u \<longrightarrow> t_id u = t_id cur"
        using Cons.prems(5) by (meson list.set_intros(2))
    qed
    moreover have "update_rows s d sel f (t # ts) =
        (case update_rows s d sel f ts of Inl e \<Rightarrow> Inl e | Inr (n, ts', r') \<Rightarrow> Inr (n, t # ts', r'))"
      using skip by auto
    ultimately show ?thesis using ne by (simp split: sum.split)
  qed
qed simp

section \<open>What the trigger answers\<close>

lemma owns_visible:
  assumes "cur \<in> set (tickets d)" and "visible_ticket s cur"
  shows "tenant_matches s (t_tenant cur)" and "\<not> current_actor_is_contact s \<or> owns_ticket s d (t_tenant cur) (t_id cur)"
  using assms by (auto simp: visible_ticket_def owns_ticket_def)

lemma change_entries_shape: "v \<in> set (change_entries old new) \<Longrightarrow> v_ticket v = Some (t_id new) \<and> v_action v \<noteq> ticket_created"
  by (auto simp: change_entries_def ticket_audit_values_def split: if_splits)

lemma audit_inserts_ok:
  assumes "current_actor s = Inr (kind, i)" and "cur \<in> set (tickets d)" and "visible_ticket s cur"
    and "\<forall>v \<in> set vs. v_ticket v = Some (t_id cur)"
  shows "audit_inserts s d (t_tenant cur) vs = Inr (map (audit_row_of (t_tenant cur) kind i) vs)"
  using assms(4)
proof (induction vs)
  case (Cons v vs)
  have "visible_audit s d (audit_row_of (t_tenant cur) kind i v)"
    using owns_visible [OF assms(2,3)] Cons.prems by (auto simp: visible_audit_def audit_row_of_def)
  then have "audit_insert s d (t_tenant cur) v = Inr (audit_row_of (t_tenant cur) kind i v)"
    using assms(1,2) Cons.prems by (auto simp: audit_insert_def Let_def)
  with Cons show ?case by simp
qed simp

text \<open>An edit that leaves identity, ancestry, route and latches alone.\<close>

definition plain_edit :: "(ticket \<Rightarrow> ticket) \<Rightarrow> bool" where
  "plain_edit f \<longleftrightarrow>
     (\<forall>t. t_id (f t) = t_id t \<and> t_tenant (f t) = t_tenant t \<and> t_contact (f t) = t_contact t \<and>
          t_spawned (f t) = t_spawned t \<and> t_root (f t) = t_root t \<and>
          t_slack_channel (f t) = t_slack_channel t \<and> t_slack_thread (f t) = t_slack_thread t \<and>
          keep_latches t (f t) = f t)"

definition audit_rows_of :: "session \<Rightarrow> ticket \<Rightarrow> ticket \<Rightarrow> audit_row list" where
  "audit_rows_of s old new =
     (case current_actor s of
        Inl _ \<Rightarrow> []
      | Inr (kind, i) \<Rightarrow> map (audit_row_of (t_tenant old) kind i) (change_entries old new))"

lemma before_update_plain:
  assumes "armed s" and "cur \<in> set (tickets d)" and "visible_ticket s cur" and "plain_edit f"
  shows "ticket_before_update s d cur (f cur) =
    (if t_state cur = TClosed \<and> (t_priority (f cur) \<noteq> t_priority cur \<or> t_assignee (f cur) \<noteq> t_assignee cur)
     then Inl (raised ''TK002'')
     else if t_state (f cur) \<noteq> t_state cur \<and> \<not> ticket_transition_is_legal (t_state cur) (t_state (f cur))
     then Inl (raised ''TK001'')
     else Inr (transition_effect (s_now s) cur (f cur), audit_rows_of s cur (f cur)))"
proof -
  obtain i where act: "current_actor s = Inr (s_actor_kind s, i)" using armed_actor [OF assms(1)] by blast
  have pe: "t_id (f cur) = t_id cur" "t_tenant (f cur) = t_tenant cur" "t_contact (f cur) = t_contact cur"
    "t_spawned (f cur) = t_spawned cur" "t_root (f cur) = t_root cur"
    "t_slack_channel (f cur) = t_slack_channel cur" "t_slack_thread (f cur) = t_slack_thread cur"
    "keep_latches cur (f cur) = f cur"
    using assms(4) by (auto simp: plain_edit_def)
  have "audit_inserts s d (t_tenant cur) (change_entries cur (f cur)) =
      Inr (map (audit_row_of (t_tenant cur) (s_actor_kind s) i) (change_entries cur (f cur)))"
    using change_entries_shape [of _ cur "f cur"] pe(1)
    by (intro audit_inserts_ok [OF act assms(2,3)]) metis
  moreover have "visible_ticket s (transition_effect (s_now s) cur (f cur))"
    using assms(3) pe by (simp add: visible_ticket_def)
  ultimately show ?thesis
    using pe act
    by (simp add: ticket_before_update_def ticket_linkage_on_update_def ticket_enforce_transition_def
        audit_rows_of_def Let_def) blast
qed

section \<open>Constraints after an edit\<close>

lemma distinct_filter_map:
  assumes "distinct (map k (filter P xs))" and "\<And>x. x \<in> set xs \<Longrightarrow> P (g x) \<Longrightarrow> P x"
    and "\<And>x. x \<in> set xs \<Longrightarrow> k (g x) = k x"
  shows "distinct (map k (filter P (map g xs)))"
  using assms
proof (induction xs)
  case (Cons x xs)
  have "k x \<notin> k ` {y \<in> set (map g xs). P y}" if "P (g x)"
  proof
    assume "k x \<in> k ` {y \<in> set (map g xs). P y}"
    then obtain y where "y \<in> set xs" "P (g y)" "k x = k (g y)" by auto
    with Cons.prems(2,3) have "y \<in> set (filter P xs)" "k x = k y" by auto
    moreover have "P x" using that Cons.prems(2) by simp
    ultimately show False using Cons.prems(1) by (auto simp: image_iff)
  qed
  moreover have "distinct (map k (filter P (map g xs)))"
    using Cons.prems by (intro Cons.IH) (auto split: if_splits)
  ultimately show ?case using Cons.prems(3) by auto
qed simp

definition replace_row :: "ticket \<Rightarrow> ticket list \<Rightarrow> ticket list" where
  "replace_row t' ts = map (\<lambda>u. if t_id u = t_id t' then t' else u) ts"

text \<open>
  A new version of a row that keeps its key and is live only if the old one was satisfies
  every constraint of the table, up to its own references.
\<close>

lemma replace_row_constraints:
  assumes inv: "ticket_inv d" and cur: "cur \<in> set (tickets d)" and key: "same_key cur t'"
    and live: "live t' \<Longrightarrow> live cur"
  shows "list_all linkage_is_whole (replace_row t' (tickets d))"
    and "list_all slack_route_is_whole (replace_row t' (tickets d))"
    and "one_live_per_chain (replace_row t' (tickets d))"
    and "one_live_per_slack_thread (replace_row t' (tickets d))"
    and "list_all (references_ok d) (replace_row t' (tickets d)) \<longleftrightarrow> references_ok d t'"
proof -
  let ?g = "\<lambda>u. if t_id u = t_id t' then t' else u"
  have same: "u = cur" if "u \<in> set (tickets d)" "t_id u = t_id t'" for u
    using inv cur that key by (intro distinct_key_eq [of t_id "tickets d"]) (auto simp: ticket_inv_def same_key_def)
  have whole: "linkage_is_whole u" "slack_route_is_whole u" "references_ok d u" if "u \<in> set (tickets d)" for u
  proof -
    have "linked (tickets d) u" using inv that by (simp add: ticket_inv_def)
    then show "linkage_is_whole u" by (auto simp: linked_def linkage_is_whole_def split: option.splits)
  qed (use inv that in \<open>auto simp: ticket_inv_def list_all_iff\<close>)
  have t': "linkage_is_whole t'" "slack_route_is_whole t'"
    using whole(1,2) [OF cur] key by (simp_all add: linkage_is_whole_def slack_route_is_whole_def same_key_def)
  show "list_all linkage_is_whole (replace_row t' (tickets d))"
    "list_all slack_route_is_whole (replace_row t' (tickets d))"
    "list_all (references_ok d) (replace_row t' (tickets d)) \<longleftrightarrow> references_ok d t'"
    using whole t' cur key by (auto simp: replace_row_def list_all_iff same_key_def)
  have "distinct (map (\<lambda>t. (t_tenant t, chainRootOf t)) (filter live (map ?g (tickets d))))"
  proof (rule distinct_filter_map)
    show "distinct (map (\<lambda>t. (t_tenant t, chainRootOf t)) (filter live (tickets d)))"
      using inv by (simp add: ticket_inv_def one_live_per_chain_def)
  qed (use same live key same_key_chainRoot [OF key] in \<open>auto simp: same_key_def split: if_splits\<close>)
  then show "one_live_per_chain (replace_row t' (tickets d))" by (simp add: one_live_per_chain_def replace_row_def)
  have "distinct (map (\<lambda>t. (t_tenant t, t_slack_channel t, t_slack_thread t))
      (filter (\<lambda>t. live t \<and> t_slack_thread t \<noteq> None) (map ?g (tickets d))))"
  proof (rule distinct_filter_map)
    show "distinct (map (\<lambda>t. (t_tenant t, t_slack_channel t, t_slack_thread t))
        (filter (\<lambda>t. live t \<and> t_slack_thread t \<noteq> None) (tickets d)))"
      using inv by (simp add: ticket_inv_def one_live_per_slack_thread_def)
  qed (use same live key in \<open>auto simp: same_key_def split: if_splits\<close>)
  then show "one_live_per_slack_thread (replace_row t' (tickets d))"
    by (simp add: one_live_per_slack_thread_def replace_row_def)
qed

section \<open>An edit of one row\<close>

lemma find_unique_row:
  assumes "ticket_findUnique i s d = Some cur"
  shows "cur \<in> set (tickets d)" and "t_id cur = i" and "visible_ticket s cur"
  using find_SomeD [OF assms [unfolded ticket_findUnique_def]] by auto

lemma plain_key: "plain_edit f \<Longrightarrow> same_key cur (transition_effect now cur (f cur))"
  by (simp add: plain_edit_def same_key_def)

lemma closed_no_move: "ticket_transition_is_legal TClosed to_state \<longleftrightarrow> False"
  by (simp add: ticket_transition_is_legal_def)

definition assignee_ok :: "db \<Rightarrow> ticket \<Rightarrow> bool" where
  "assignee_ok d t \<longleftrightarrow> (case t_assignee t of None \<Rightarrow> True | Some u \<Rightarrow> (t_tenant t, u) \<in> set (users d))"

lemma references_plain:
  assumes "ticket_inv d" and "cur \<in> set (tickets d)" and "plain_edit f"
  shows "references_ok d (transition_effect now cur (f cur)) \<longleftrightarrow> assignee_ok d (f cur)"
proof -
  have "references_ok d cur" using assms(1,2) by (simp add: ticket_inv_def list_all_iff)
  with assms(3) show ?thesis
    by (cases "t_assignee (f cur)") (simp_all add: references_ok_def assignee_ok_def plain_edit_def)
qed

lemma updateMany_exact:
  assumes inv: "ticket_inv d" and arm: "armed s" and cur: "ticket_findUnique i s d = Some cur"
    and sel: "sel cur" "\<And>u. sel u \<Longrightarrow> t_id u = i" and pe: "plain_edit f"
  shows "ticket_updateMany sel f s d =
    (if t_state cur = TClosed \<and> (t_priority (f cur) \<noteq> t_priority cur \<or> t_assignee (f cur) \<noteq> t_assignee cur)
     then Inl (raised ''TK002'')
     else if t_state (f cur) \<noteq> t_state cur \<and> \<not> ticket_transition_is_legal (t_state cur) (t_state (f cur))
     then Inl (raised ''TK001'')
     else if \<not> assignee_ok d (f cur) then Inl foreign_key_error
     else Inr (1, d\<lparr>tickets := replace_row (transition_effect (s_now s) cur (f cur)) (tickets d),
                    audit := audit d @ audit_rows_of s cur (f cur)\<rparr>))"
proof -
  note row = find_unique_row [OF cur]
  let ?t = "transition_effect (s_now s) cur (f cur)"
  note before = before_update_plain [OF arm row(1,3) pe]
  have upd: "update_rows s d sel f (tickets d) =
      (case ticket_before_update s d cur (f cur) of
         Inl e \<Rightarrow> Inl e
       | Inr (t', rows) \<Rightarrow> Inr (1, map (\<lambda>u. if t_id u = t_id cur then t' else u) (tickets d), rows))"
    by (rule update_rows_single) (use inv row sel in \<open>auto simp: ticket_inv_def\<close>)
  have key: "same_key cur ?t" by (rule plain_key [OF pe])
  show ?thesis
  proof (cases "t_state cur = TClosed \<and> (t_priority (f cur) \<noteq> t_priority cur \<or> t_assignee (f cur) \<noteq> t_assignee cur) \<or>
      t_state (f cur) \<noteq> t_state cur \<and> \<not> ticket_transition_is_legal (t_state cur) (t_state (f cur))")
    case True
    then show ?thesis using upd before by (auto simp: ticket_updateMany_def)
  next
    case False
    then have b: "ticket_before_update s d cur (f cur) = Inr (?t, audit_rows_of s cur (f cur))"
      using before by auto
    have "live cur" if "live ?t"
      using that False closed_no_move by (auto simp: live_def)
    note c = replace_row_constraints [OF inv row(1) key this]
    have "update_rows s d sel f (tickets d) = Inr (1, replace_row ?t (tickets d), audit_rows_of s cur (f cur))"
      using upd b key by (simp add: replace_row_def same_key_def)
    then show ?thesis
      using False c references_plain [OF inv row(1) pe] by (auto simp: ticket_updateMany_def)
  qed
qed

lemma find_replaced:
  assumes inv: "ticket_inv d" and cur: "ticket_findUnique i s d = Some cur"
    and key: "t_id t' = i" and vis: "visible_ticket s t'"
  shows "ticket_findUnique i s (d\<lparr>tickets := replace_row t' (tickets d), audit := rows\<rparr>) = Some t'"
proof -
  note row = find_unique_row [OF cur]
  have "find (\<lambda>t. t_id t = i \<and> visible_ticket s t) (replace_row t' ts) = Some t'" if "cur \<in> set ts" for ts
    using that row(2) key vis by (induction ts) (auto simp: replace_row_def)
  with row(1) show ?thesis by (simp add: ticket_findUnique_def)
qed

section \<open>The operations\<close>

definition moved :: "millis \<Rightarrow> ticket_state \<Rightarrow> ticket \<Rightarrow> ticket" where
  "moved now to_state t = transition_effect now t (t\<lparr>t_state := to_state, t_updated := now\<rparr>)"

definition store :: "session \<Rightarrow> ticket \<Rightarrow> ticket \<Rightarrow> db \<Rightarrow> db" where
  "store s old t d =
     d\<lparr>tickets := replace_row t (tickets d), audit := audit d @ audit_rows_of s old t\<rparr>"

lemma plain_edits:
  "plain_edit (\<lambda>t. t\<lparr>t_state := st, t_updated := x\<rparr>)" "plain_edit (\<lambda>t. t\<lparr>t_priority := pr, t_updated := x\<rparr>)"
  "plain_edit (\<lambda>t. t\<lparr>t_assignee := a, t_updated := x\<rparr>)"
  by (simp_all add: plain_edit_def keep_latches_def keep_latch_def split: option.split)

lemma audit_rows_of_effect: "audit_rows_of s cur (transition_effect now cur new) = audit_rows_of s cur new"
proof -
  have "change_entries cur (transition_effect now cur new) = change_entries cur new"
    by (simp add: change_entries_def)
  then show ?thesis by (simp only: audit_rows_of_def)
qed

lemma assignee_ok_stored:
  assumes "ticket_inv d" and "cur \<in> set (tickets d)" and "t_assignee t = t_assignee cur" "t_tenant t = t_tenant cur"
  shows "assignee_ok d t"
proof -
  have "references_ok d cur" using assms(1,2) by (simp add: ticket_inv_def list_all_iff)
  with assms(3,4) show ?thesis
    by (cases "t_assignee cur") (simp_all add: references_ok_def assignee_ok_def)
qed

lemma visible_effect: "visible_ticket s cur \<Longrightarrow> plain_edit f \<Longrightarrow> visible_ticket s (transition_effect now cur (f cur))"
  by (simp add: visible_ticket_def plain_edit_def)

lemma refusal_of_trigger [simp]:
  "rethrowTicketRefusal (raised ''TK001'') = App (app_error conflict
     ''That is not a legal transition for this Ticket in its current state. Read it again to see where it is.'')"
  "rethrowTicketRefusal (raised ''TK002'') = App (app_error conflict
     ''A closed Ticket is a finished record: neither its priority nor its assignee can be changed.'')"
  "rethrowTicketRefusal foreign_key_error = foreign_key_error"
  "rethrowTicketRefusal unique_error = unique_error"
  by (simp_all add: rethrowTicketRefusal_def raised_def TICKET_REFUSALS_def foreign_key_error_def unique_error_def)

lemma transitionIn_exact:
  assumes inv: "ticket_inv d" and arm: "armed s"
  shows "transitionIn p i to_state s d =
    (case ticket_findUnique i s d of
       None \<Rightarrow> Inl (App (notFound ''Ticket''))
     | Some cur \<Rightarrow>
         if to_state = TClosed \<and> ticket_close \<notin> permissionsFor p then Inl (App forbidden_exception)
         else if to_state \<noteq> t_state cur \<and> \<not> ticket_transition_is_legal (t_state cur) to_state
         then Inl (rethrowTicketRefusal (raised ''TK001''))
         else Inr (moved (s_now s) to_state cur, store s cur (moved (s_now s) to_state cur) d))"
proof (cases "ticket_findUnique i s d")
  case None
  then show ?thesis by (simp add: transitionIn_def)
next
  case (Some cur)
  note row = find_unique_row [OF Some]
  let ?f = "\<lambda>t. t\<lparr>t_state := to_state, t_updated := s_now s\<rparr>"
  have upd: "ticket_updateMany (\<lambda>t. t_id t = i \<and> t_state t = t_state cur) ?f s d =
      (if to_state \<noteq> t_state cur \<and> \<not> ticket_transition_is_legal (t_state cur) to_state
       then Inl (raised ''TK001'')
       else Inr (1, store s cur (moved (s_now s) to_state cur) d))"
  proof -
    have aok: "assignee_ok d (?f cur)" by (rule assignee_ok_stored [OF inv row(1)]) simp_all
    show ?thesis
      by (subst updateMany_exact [OF inv arm Some, of _ ?f])
        (simp_all only: aok row(2) plain_edits(1) moved_def store_def audit_rows_of_effect, simp_all)
  qed
  have "ticket_findUnique i s (store s cur (moved (s_now s) to_state cur) d) = Some (moved (s_now s) to_state cur)"
    unfolding store_def
    using row visible_effect [OF row(3) plain_edits(1)]
    by (intro find_replaced [OF inv Some]) (simp_all add: moved_def)
  then show ?thesis using Some upd by (auto simp: transitionIn_def canTransition_def)
qed

lemma updateMany_none:
  assumes inv: "ticket_inv d" and none: "ticket_findUnique i s d = None"
  shows "ticket_updateMany (\<lambda>t. t_id t = i) f s d = Inr (0, d)"
proof -
  have "\<forall>u \<in> set (tickets d). \<not> (visible_ticket s u \<and> t_id u = i)"
    using none by (auto simp: ticket_findUnique_def find_None_iff)
  then have "update_rows s d (\<lambda>t. t_id t = i) f (tickets d) = Inr (0, tickets d, [])" by (rule update_rows_none)
  moreover have "linkage_is_whole u" if "u \<in> set (tickets d)" for u
    using inv that by (auto simp: ticket_inv_def linked_def linkage_is_whole_def split: option.splits)
  ultimately show ?thesis
    using inv by (simp add: ticket_updateMany_def ticket_inv_def list_all_iff)
qed

lemma edit_work_exact:
  assumes inv: "ticket_inv d" and arm: "armed s" and pe: "plain_edit (\<lambda>t. (data t)\<lparr>t_updated := s_now s\<rparr>)"
    and st: "\<And>t. t_state (data t) = t_state t"
  shows "edit_work i data s d =
    (case ticket_findUnique i s d of
       None \<Rightarrow> Inl (App (notFound ''Ticket''))
     | Some cur \<Rightarrow>
         (let t = transition_effect (s_now s) cur ((data cur)\<lparr>t_updated := s_now s\<rparr>) in
          if t_state cur = TClosed \<and> (t_priority t \<noteq> t_priority cur \<or> t_assignee t \<noteq> t_assignee cur)
          then Inl (rethrowTicketRefusal (raised ''TK002''))
          else if \<not> assignee_ok d t then Inl foreign_key_error
          else Inr (t, store s cur t d)))"
proof (cases "ticket_findUnique i s d")
  case None
  then show ?thesis using updateMany_none [OF inv None] by (simp add: edit_work_def)
next
  case (Some cur)
  let ?f = "\<lambda>t. (data t)\<lparr>t_updated := s_now s\<rparr>"
  let ?t = "transition_effect (s_now s) cur (?f cur)"
  note row = find_unique_row [OF Some]
  have same: "assignee_ok d ?t \<longleftrightarrow> assignee_ok d (?f cur)"
    by (cases "t_assignee (?f cur)") (simp_all add: assignee_ok_def)
  have upd: "ticket_updateMany (\<lambda>t. t_id t = i) ?f s d =
      (if t_state cur = TClosed \<and> (t_priority ?t \<noteq> t_priority cur \<or> t_assignee ?t \<noteq> t_assignee cur)
       then Inl (raised ''TK002'')
       else if \<not> assignee_ok d ?t then Inl foreign_key_error
       else Inr (1, store s cur ?t d))"
    by (subst updateMany_exact [OF inv arm Some, of _ ?f])
      (simp_all only: row(2) pe store_def audit_rows_of_effect same, simp_all add: st, blast)
  have "ticket_findUnique i s (store s cur ?t d) = Some ?t"
    unfolding store_def
    using row visible_effect [OF row(3) pe] pe
    by (intro find_replaced [OF inv Some]) (simp_all add: plain_edit_def)
  then show ?thesis using Some upd by (simp add: edit_work_def Let_def) blast
qed

text \<open>The service operations, for a principal whose context is well formed.\<close>

definition can_arm :: "request_principal \<Rightarrow> bool" where
  "can_arm p \<longleftrightarrow> is_uuid (tenantOf p) \<and> (\<exists>kind i. actorFor p = Inr (kind, i) \<and> i \<noteq> [])"

lemma can_arm_session:
  assumes "can_arm p"
  obtains kind i where "actorFor p = Inr (kind, i)" and "armed (tenant_session now (tenantOf p) kind i)"
    and "\<And>work d. asPrincipal now p work d = work (tenant_session now (tenantOf p) kind i) d"
proof -
  from assms obtain kind i where a: "actorFor p = Inr (kind, i)" and i: "i \<noteq> []" and u: "is_uuid (tenantOf p)"
    by (auto simp: can_arm_def)
  have k: "kind \<in> {''user'', ''contact'', ''service''}" using a by (cases p) (auto split: option.splits if_splits)
  have "tenantOf p \<noteq> []" using u by (rule is_uuid_not_Nil)
  then show ?thesis
    using a i u k
    by (intro that [of kind i])
      (auto simp: armed_def asPrincipal_def tenantContextFor_def withTenant_def contextSettings_def
        isTenantIdShaped_def ACTOR_KINDS_def)
qed

text \<open>The session a principal's request runs in.\<close>

definition session_of :: "millis \<Rightarrow> request_principal \<Rightarrow> session" where
  "session_of now p =
     (case actorFor p of
        Inr (kind, i) \<Rightarrow> tenant_session now (tenantOf p) kind i
      | Inl _ \<Rightarrow> tenant_session now [] [] [])"

lemma session_of_armed:
  assumes "can_arm p"
  shows "armed (session_of now p)"
    and "asPrincipal now p work (d :: 'd) = (work (session_of now p) d :: thrown + ('c \<times> 'd))"
    and "s_now (session_of now p) = now" and "s_tenant (session_of now p) = tenantOf p"
proof -
  obtain kind i where "actorFor p = Inr (kind, i)" and "armed (tenant_session now (tenantOf p) kind i)"
    and "\<And>work d. asPrincipal now p work (d :: 'd) = (work (tenant_session now (tenantOf p) kind i) d :: thrown + ('c \<times> 'd))"
    by (rule can_arm_session [OF assms, where now = now]) blast
  then show "armed (session_of now p)" "asPrincipal now p work d = work (session_of now p) d"
    "s_now (session_of now p) = now" "s_tenant (session_of now p) = tenantOf p"
    by (simp_all add: session_of_def)
qed

definition reprioritised :: "millis \<Rightarrow> ticket_priority \<Rightarrow> ticket \<Rightarrow> ticket" where
  "reprioritised now pr t = transition_effect now t (t\<lparr>t_priority := pr, t_updated := now\<rparr>)"

definition reassigned :: "millis \<Rightarrow> ident option \<Rightarrow> ticket \<Rightarrow> ticket" where
  "reassigned now a t = transition_effect now t (t\<lparr>t_assignee := a, t_updated := now\<rparr>)"

lemma edit_priority:
  assumes "ticket_inv d" and "armed s"
  shows "edit_work i (\<lambda>t. t\<lparr>t_priority := pr\<rparr>) s d =
    (case ticket_findUnique i s d of
       None \<Rightarrow> Inl (App (notFound ''Ticket''))
     | Some cur \<Rightarrow>
         if t_state cur = TClosed \<and> pr \<noteq> t_priority cur then Inl (rethrowTicketRefusal (raised ''TK002''))
         else Inr (reprioritised (s_now s) pr cur, store s cur (reprioritised (s_now s) pr cur) d))"
proof (cases "ticket_findUnique i s d")
  case (Some cur)
  have "assignee_ok d (reprioritised (s_now s) pr cur)"
    by (rule assignee_ok_stored [OF assms(1) find_unique_row(1) [OF Some]]) (simp_all add: reprioritised_def)
  then show ?thesis
    using edit_work_exact [OF assms, of "\<lambda>t. t\<lparr>t_priority := pr\<rparr>" i] Some
    by (simp add: plain_edits reprioritised_def Let_def)
qed (use edit_work_exact [OF assms, of "\<lambda>t. t\<lparr>t_priority := pr\<rparr>" i] in \<open>simp add: plain_edits\<close>)

lemma edit_assignee:
  assumes "ticket_inv d" and "armed s"
  shows "edit_work i (\<lambda>t. t\<lparr>t_assignee := a\<rparr>) s d =
    (case ticket_findUnique i s d of
       None \<Rightarrow> Inl (App (notFound ''Ticket''))
     | Some cur \<Rightarrow>
         if t_state cur = TClosed \<and> a \<noteq> t_assignee cur then Inl (rethrowTicketRefusal (raised ''TK002''))
         else if \<not> assignee_ok d (reassigned (s_now s) a cur) then Inl foreign_key_error
         else Inr (reassigned (s_now s) a cur, store s cur (reassigned (s_now s) a cur) d))"
  using edit_work_exact [OF assms, of "\<lambda>t. t\<lparr>t_assignee := a\<rparr>" i]
  by (cases "ticket_findUnique i s d") (simp_all add: plain_edits reassigned_def Let_def)

lemma reassigned_ok:
  "assignee_ok d (reassigned now a t) \<longleftrightarrow> (case a of None \<Rightarrow> True | Some u \<Rightarrow> (t_tenant t, u) \<in> set (users d))"
  by (cases a) (simp_all add: assignee_ok_def reassigned_def)

end
