(* ===== verification/Sweeps.thy ===== *)
theory Sweeps
  imports Ticket_Outcomes
begin

text \<open>
  The sweeps of \<open>src/src/sla\<close>: the breach sweep that latches a ticket's missed service levels,
  records each in the audit log and announces it, and the dwell sweep that resolves a silent
  pending ticket and closes a silent resolved one. Both visit every tenant in a transaction of
  its own and announce afterwards. The table of targets is an argument; the elapsed times are
  those of the migration's functions, in milliseconds. A run has two clocks: the moment it
  was started for, which the statements are given, and the clock of the database, which the
  triggers read.
\<close>

section \<open>Elapsed times\<close>

definition ticket_sla_wall_elapsed_ms :: "millis \<Rightarrow> millis \<Rightarrow> int" where
  "ticket_sla_wall_elapsed_ms created at_time = max 0 (at_time - created)"

definition ticket_sla_active_elapsed_ms :: "millis \<Rightarrow> int \<Rightarrow> millis option \<Rightarrow> millis \<Rightarrow> int" where
  "ticket_sla_active_elapsed_ms created paused pause_started at_time =
     max 0 (at_time - created - paused - (case pause_started of None \<Rightarrow> 0 | Some p \<Rightarrow> at_time - p))"

definition ticket_dwell_window :: int where "ticket_dwell_window = 7 * 24 * 60 * 60 * 1000"

text \<open>The targets a new tenant is given: first response and resolution, in milliseconds.\<close>

fun sla_seed_targets :: "ticket_priority \<Rightarrow> int \<times> int" where
  "sla_seed_targets PUrgent = (3600000, 28800000)"
| "sla_seed_targets PHigh = (7200000, 86400000)"
| "sla_seed_targets PNormal = (28800000, 259200000)"
| "sla_seed_targets PLow = (86400000, 432000000)"

type_synonym sla_targets = "ident \<Rightarrow> ticket_priority \<Rightarrow> (int \<times> int) option"

section \<open>The breach sweep\<close>

definition first_due :: "sla_targets \<Rightarrow> millis \<Rightarrow> ticket \<Rightarrow> bool" where
  "first_due targets now t \<longleftrightarrow>
     (case targets (t_tenant t) (t_priority t) of
        None \<Rightarrow> False
      | Some (first_ms, _) \<Rightarrow>
          t_first_response t = None \<and> t_first_response_breached t = None \<and>
          first_ms < ticket_sla_wall_elapsed_ms (t_created t) now)"

definition resolution_due :: "sla_targets \<Rightarrow> millis \<Rightarrow> ticket \<Rightarrow> bool" where
  "resolution_due targets now t \<longleftrightarrow>
     (case targets (t_tenant t) (t_priority t) of
        None \<Rightarrow> False
      | Some (_, resolution_ms) \<Rightarrow>
          t_resolution_breached t = None \<and> t_state t \<notin> {TResolved, TClosed} \<and>
          resolution_ms <
            ticket_sla_active_elapsed_ms (t_created t) (t_paused_ms t) (t_pause_started t) now)"

definition breach_selects :: "sla_targets \<Rightarrow> millis \<Rightarrow> ticket \<Rightarrow> bool" where
  "breach_selects targets now t \<longleftrightarrow>
     (t_first_response_breached t = None \<or> t_resolution_breached t = None) \<and>
     (first_due targets now t \<or> resolution_due targets now t)"

text \<open>The statement is raw, so the client library does not touch \<open>updated_at\<close>.\<close>

definition latch :: "sla_targets \<Rightarrow> millis \<Rightarrow> ticket \<Rightarrow> ticket" where
  "latch targets now t = t
     \<lparr>t_first_response_breached := (if first_due targets now t then Some now else t_first_response_breached t),
      t_resolution_breached := (if resolution_due targets now t then Some now else t_resolution_breached t)\<rparr>"

text \<open>The rows an update returns, as the triggers left them.\<close>

definition updated_rows :: "(ticket \<Rightarrow> bool) \<Rightarrow> session \<Rightarrow> db \<Rightarrow> db \<Rightarrow> ticket list" where
  "updated_rows sel s d d' =
     map snd (filter (\<lambda>(t, t'). visible_ticket s t \<and> sel t) (zip (tickets d) (tickets d')))"

definition latchedTimers :: "ticket \<Rightarrow> millis \<Rightarrow> sla_timer list" where
  "latchedTimers row at_time =
     (if t_first_response_breached row = Some at_time then [first_response] else []) @
     (if t_resolution_breached row = Some at_time then [resolution] else [])"

fun timer_text :: "sla_timer \<Rightarrow> string" where
  "timer_text first_response = ''first_response''"
| "timer_text resolution = ''resolution''"

definition breach_audit :: "ident \<Rightarrow> sla_timer \<Rightarrow> audit_values" where
  "breach_audit i timer =
     \<lparr>v_action = sla_breached, v_target_kind = ''ticket'', v_target_id = i, v_ticket = Some i,
      v_from = None, v_to = None, v_metadata = Some (JObj [(''kind'', JStr (timer_text timer))])\<rparr>"

definition breach_of :: "millis \<Rightarrow> ident \<Rightarrow> sla_timer \<Rightarrow> breach_snapshot" where
  "breach_of now i timer = \<lparr>br_ticket = i, br_timer = timer, br_at = to_iso now\<rparr>"

fun record_breaches ::
  "ident \<Rightarrow> millis \<Rightarrow> (ident \<times> sla_timer) list \<Rightarrow> (db, (ident \<times> breach_snapshot) list) transaction" where
  "record_breaches tenant now [] s d = Inr ([], d)"
| "record_breaches tenant now ((i, timer) # rest) s d =
     (case audit_record (breach_audit i timer) s d of
        Inl e \<Rightarrow> Inl e
      | Inr (_, d1) \<Rightarrow>
          (case record_breaches tenant now rest s d1 of
             Inl e \<Rightarrow> Inl e
           | Inr (bs, d2) \<Rightarrow> Inr ((tenant, breach_of now i timer) # bs, d2)))"

definition latchTenant ::
  "sla_targets \<Rightarrow> millis \<Rightarrow> ident \<Rightarrow> (db, (ident \<times> breach_snapshot) list) transaction" where
  "latchTenant targets now tenant s d =
     (case ticket_updateMany (breach_selects targets now) (latch targets now) s d of
        Inl e \<Rightarrow> Inl e
      | Inr (_, d1) \<Rightarrow>
          record_breaches tenant now
            (concat (map (\<lambda>row. map (Pair (t_id row)) (latchedTimers row now))
               (updated_rows (breach_selects targets now) s d d1))) s d1)"

definition announce_breaches :: "millis \<Rightarrow> (ident \<times> breach_snapshot) list \<Rightarrow> realtime \<Rightarrow> realtime" where
  "announce_breaches now bs rt = foldl (\<lambda>rt (tenant, b). slaBreached now tenant b rt) rt bs"

text \<open>A visit that throws ends the run before anything is announced.\<close>

definition breach_sweep ::
  "sla_targets \<Rightarrow> millis \<Rightarrow> millis \<Rightarrow> ident list \<Rightarrow> db \<Rightarrow> realtime \<Rightarrow> (thrown + unit) \<times> db \<times> realtime" where
  "breach_sweep targets clock now tenants d rt =
     (case forEachTenant clock (latchTenant targets now) tenants [] d of
        (Inl e, d') \<Rightarrow> (Inl e, d', rt)
      | (Inr bs, d') \<Rightarrow> (Inr (), d', announce_breaches now bs rt))"

section \<open>The dwell sweep\<close>

definition SCHEDULER_PERMISSIONS :: "permission set" where
  "SCHEDULER_PERMISSIONS = {ticket_transition, ticket_close}"

definition TIMERS :: "(ticket_state \<times> ticket_state) list" where
  "TIMERS = [(TPending, TResolved), (TResolved, TClosed)]"

definition dwell_selects :: "millis \<Rightarrow> ticket_state \<Rightarrow> ticket \<Rightarrow> bool" where
  "dwell_selects now from_state t \<longleftrightarrow> t_state t = from_state \<and> t_last_activity t < now - ticket_dwell_window"

definition settle :: "millis \<Rightarrow> ticket_state \<times> ticket_state \<Rightarrow> (db, ticket list) transaction" where
  "settle now timer s d =
     (case timer of (from_state, to_state) \<Rightarrow>
        if \<not> canTransition from_state to_state SCHEDULER_PERMISSIONS then Inl (RawError None None)
        else (case ticket_updateMany (dwell_selects now from_state) (\<lambda>t. t\<lparr>t_state := to_state\<rparr>) s d of
                Inl e \<Rightarrow> Inl e
              | Inr (n, d') \<Rightarrow>
                  (let ids = map t_id (updated_rows (dwell_selects now from_state) s d d')
                   in Inr (if ids = [] then [] else ticket_select (\<lambda>t. t_id t \<in> set ids) s d', d'))))"

fun settle_all :: "millis \<Rightarrow> (ticket_state \<times> ticket_state) list \<Rightarrow> ticket list \<Rightarrow> (db, ticket list) transaction" where
  "settle_all now [] acc s d = Inr (acc, d)"
| "settle_all now (timer # rest) acc s d =
     (case settle now timer s d of
        Inl e \<Rightarrow> Inl e
      | Inr (gone, d') \<Rightarrow> settle_all now rest (acc @ gone) s d')"

definition dwell_visit :: "millis \<Rightarrow> ident \<Rightarrow> (db, ticket list) transaction" where
  "dwell_visit now tenant s d = settle_all now TIMERS [] s d"

definition announce_updates :: "millis \<Rightarrow> ticket list \<Rightarrow> realtime \<Rightarrow> realtime" where
  "announce_updates now ts rt = foldl (\<lambda>rt t. ticketUpdated now t rt) rt ts"

definition dwell_sweep ::
  "millis \<Rightarrow> millis \<Rightarrow> ident list \<Rightarrow> db \<Rightarrow> realtime \<Rightarrow> (thrown + unit) \<times> db \<times> realtime" where
  "dwell_sweep clock now tenants d rt =
     (case forEachTenant clock (dwell_visit now) tenants [] d of
        (Inl e, d') \<Rightarrow> (Inl e, d', rt)
      | (Inr ts, d') \<Rightarrow> (Inr (), d', announce_updates now ts rt))"

section \<open>The sweeps keep the contract\<close>

lemma stable_sweeps [simp]: "stable_write (latch targets now)" "stable_write (\<lambda>t. t\<lparr>t_state := st\<rparr>)"
  by (simp_all add: stable_write_def latch_def)

lemma record_breaches_safe:
  assumes "ticket_inv d" and "record_breaches tenant now xs s d = Inr (bs, d')"
  shows "safe_step (s_tenant s) d d'"
  using assms
proof (induction xs arbitrary: d bs)
  case (Cons x xs)
  obtain i timer where x: "x = (i, timer)" by (cases x)
  obtain d1 bs1 where one: "audit_record (breach_audit i timer) s d = Inr ((), d1)"
    and rest: "record_breaches tenant now xs s d1 = Inr (bs1, d')"
    using Cons.prems(2) x by (auto split: sum.splits)
  have "safe_step (s_tenant s) d d1"
    by (rule audit_record_safe [OF Cons.prems(1) one]) (simp add: breach_audit_def)
  then show ?case using Cons.IH [OF safe_step_inv rest] by (blast intro: safe_step_trans)
qed (simp add: safe_step_refl)

lemma latchTenant_safe: "tx_safe (latchTenant targets now tenant)"
proof (rule tx_safeI)
  fix s d bs d' assume inv: "ticket_inv d" and run: "latchTenant targets now tenant s d = Inr (bs, d')"
  then obtain n d1 xs where upd: "ticket_updateMany (breach_selects targets now) (latch targets now) s d = Inr (n, d1)"
    and rec: "record_breaches tenant now xs s d1 = Inr (bs, d')"
    by (auto simp: latchTenant_def split: sum.splits)
  have "safe_step (s_tenant s) d d1" by (rule updateMany_safe [OF inv upd]) simp
  then show "safe_step (s_tenant s) d d'" using record_breaches_safe [OF safe_step_inv rec] by (blast intro: safe_step_trans)
qed

lemma settle_safe:
  assumes "ticket_inv d" and "settle now timer s d = Inr (ts, d')"
  shows "safe_step (s_tenant s) d d'"
proof -
  obtain f t n where upd: "ticket_updateMany (dwell_selects now f) (\<lambda>x. x\<lparr>t_state := t\<rparr>) s d = Inr (n, d')"
    using assms(2) by (auto simp: settle_def Let_def split: prod.splits if_splits sum.splits)
  show ?thesis by (rule updateMany_safe [OF assms(1) upd]) simp
qed

lemma settle_all_safe:
  assumes "ticket_inv d" and "settle_all now timers acc s d = Inr (ts, d')"
  shows "safe_step (s_tenant s) d d'"
  using assms
proof (induction timers arbitrary: acc d)
  case (Cons timer timers)
  obtain gone d1 where one: "settle now timer s d = Inr (gone, d1)"
    and rest: "settle_all now timers (acc @ gone) s d1 = Inr (ts, d')"
    using Cons.prems(2) by (auto split: sum.splits)
  have "safe_step (s_tenant s) d d1" by (rule settle_safe [OF Cons.prems(1) one])
  then show ?case using Cons.IH [OF safe_step_inv rest] by (blast intro: safe_step_trans)
qed (simp add: safe_step_refl)

lemma dwell_visit_safe: "tx_safe (dwell_visit now tenant)"
  by (rule tx_safeI) (auto simp: dwell_visit_def intro: settle_all_safe)

interpretation latching: armed_work "latchTenant targets now tenant" for targets now tenant
  by unfold_locales (rule latchTenant_safe)

interpretation settling: armed_work "dwell_visit now tenant" for now tenant
  by unfold_locales (rule dwell_visit_safe)

lemma forEachTenant_safe:
  assumes "\<And>tenant. tx_safe (work tenant)" and "ticket_inv d"
  shows "ticket_inv (snd (forEachTenant now work tenants acc d)) \<and>
    keeps_tickets d (snd (forEachTenant now work tenants acc d))"
  using assms(2)
proof (induction tenants arbitrary: acc d)
  case (Cons tenant tenants)
  show ?case
  proof (cases "withTenant now (systemContextFor tenant) (work tenant) d")
    case (Inr y)
    obtain xs d1 where y: "y = (xs, d1)" by (cases y)
    obtain kind i where "work tenant (tenant_session now (ctx_tenant (systemContextFor tenant)) kind i) d = Inr (xs, d1)"
      using Inr y by (auto elim: withTenant_session)
    then have "safe_step tenant d d1" using tx_safeD [OF assms(1) Cons.prems] by (fastforce simp: systemContextFor_def)
    then have one: "ticket_inv d1" "keeps_tickets d d1" by (simp_all add: safe_step_def)
    then show ?thesis using Cons.IH [OF one(1), of "acc @ xs"] Inr y by (auto intro: keeps_trans)
  qed (use Cons.prems in simp)
qed simp

lemma announce_inv:
  "realtime_inv d rt \<Longrightarrow> realtime_inv d (announce_breaches now bs rt)"
  "realtime_inv d rt \<Longrightarrow> realtime_inv d (announce_updates now ts rt)"
proof -
  show "realtime_inv d rt \<Longrightarrow> realtime_inv d (announce_breaches now bs rt)"
    unfolding announce_breaches_def by (induction bs arbitrary: rt) (auto intro: service_inv)
  show "realtime_inv d rt \<Longrightarrow> realtime_inv d (announce_updates now ts rt)"
    unfolding announce_updates_def by (induction ts arbitrary: rt) (auto intro: service_inv)
qed

lemma sweeps_ok:
  assumes "ticket_inv d" and "realtime_inv d rt"
  shows "breach_sweep targets clock now tenants d rt = (r, d', rt') \<Longrightarrow>
      ticket_inv d' \<and> keeps_tickets d d' \<and> realtime_inv d' rt'"
    and "dwell_sweep clock now tenants d rt = (r, d', rt') \<Longrightarrow> ticket_inv d' \<and> keeps_tickets d d' \<and> realtime_inv d' rt'"
proof -
  assume "breach_sweep targets clock now tenants d rt = (r, d', rt')"
  then have d': "d' = snd (forEachTenant clock (latchTenant targets now) tenants [] d)"
    and rt': "rt' = rt \<or> (\<exists>bs. rt' = announce_breaches now bs rt)"
    by (auto simp: breach_sweep_def split: prod.splits sum.splits)
  then show "ticket_inv d' \<and> keeps_tickets d d' \<and> realtime_inv d' rt'"
    using forEachTenant_safe [where work = "latchTenant targets now" and now = clock and tenants = tenants and acc = "[]", OF latchTenant_safe assms(1)] assms(2)
    by (auto intro: announce_inv realtime_inv_mono)
next
  assume "dwell_sweep clock now tenants d rt = (r, d', rt')"
  then have d': "d' = snd (forEachTenant clock (dwell_visit now) tenants [] d)"
    and rt': "rt' = rt \<or> (\<exists>ts. rt' = announce_updates now ts rt)"
    by (auto simp: dwell_sweep_def split: prod.splits sum.splits)
  then show "ticket_inv d' \<and> keeps_tickets d d' \<and> realtime_inv d' rt'"
    using forEachTenant_safe [where work = "dwell_visit now" and now = clock and tenants = tenants and acc = "[]", OF dwell_visit_safe assms(1)] assms(2)
    by (auto intro: announce_inv realtime_inv_mono)
qed


section \<open>An update of many rows\<close>

definition edited :: "session \<Rightarrow> (ticket \<Rightarrow> bool) \<Rightarrow> (ticket \<Rightarrow> ticket) \<Rightarrow> ticket \<Rightarrow> ticket" where
  "edited s sel f t = (if visible_ticket s t \<and> sel t then transition_effect (s_now s) t (f t) else t)"

definition edit_rows :: "session \<Rightarrow> (ticket \<Rightarrow> bool) \<Rightarrow> (ticket \<Rightarrow> ticket) \<Rightarrow> ticket \<Rightarrow> audit_row list" where
  "edit_rows s sel f t = (if visible_ticket s t \<and> sel t then audit_rows_of s t (f t) else [])"

text \<open>An edit that the triggers let through on every row it selects.\<close>

definition smooth :: "(ticket \<Rightarrow> bool) \<Rightarrow> (ticket \<Rightarrow> ticket) \<Rightarrow> bool" where
  "smooth sel f \<longleftrightarrow> plain_edit f \<and>
     (\<forall>t. sel t \<longrightarrow> t_priority (f t) = t_priority t \<and> t_assignee (f t) = t_assignee t \<and>
        (t_state (f t) = t_state t \<or> ticket_transition_is_legal (t_state t) (t_state (f t))))"

lemma update_rows_smooth:
  assumes "armed s" and "smooth sel f" and "set ts \<subseteq> set (tickets d)"
  shows "update_rows s d sel f ts =
    Inr (length (filter (\<lambda>t. visible_ticket s t \<and> sel t) ts), map (edited s sel f) ts, concat (map (edit_rows s sel f) ts))"
  using assms(3)
proof (induction ts)
  case (Cons t ts)
  have "ticket_before_update s d t (f t) = Inr (transition_effect (s_now s) t (f t), audit_rows_of s t (f t))"
    if "visible_ticket s t" "sel t"
    using before_update_plain [OF assms(1) _ that(1), of d f] Cons.prems assms(2) that(2) by (auto simp: smooth_def)
  then show ?case using Cons by (auto simp: edited_def edit_rows_def)
qed simp

lemma bulk_constraints:
  assumes inv: "ticket_inv d" and key: "\<And>t. t \<in> set (tickets d) \<Longrightarrow> same_key t (g t)"
    and live: "\<And>t. t \<in> set (tickets d) \<Longrightarrow> live (g t) \<Longrightarrow> live t"
  shows "list_all linkage_is_whole (map g (tickets d))" and "list_all slack_route_is_whole (map g (tickets d))"
    and "one_live_per_chain (map g (tickets d))" and "one_live_per_slack_thread (map g (tickets d))"
proof -
  have whole: "linkage_is_whole u" "slack_route_is_whole u" if "u \<in> set (tickets d)" for u
  proof -
    have "linked (tickets d) u" using inv that by (simp add: ticket_inv_def)
    then show "linkage_is_whole u" by (auto simp: linked_def linkage_is_whole_def split: option.splits)
  qed (use inv that in \<open>auto simp: ticket_inv_def\<close>)
  show "list_all linkage_is_whole (map g (tickets d))" "list_all slack_route_is_whole (map g (tickets d))"
    using whole key by (auto simp: list_all_iff linkage_is_whole_def slack_route_is_whole_def same_key_def)
  have k: "(t_tenant (g t), chainRootOf (g t)) = (t_tenant t, chainRootOf t)"
      "(t_tenant (g t), t_slack_channel (g t), t_slack_thread (g t)) = (t_tenant t, t_slack_channel t, t_slack_thread t)"
    if "t \<in> set (tickets d)" for t
    using key [OF that] same_key_chainRoot [OF key [OF that]] by (simp_all add: same_key_def)
  have chain: "distinct (map (\<lambda>t. (t_tenant t, chainRootOf t)) (filter live (tickets d)))"
    and thread: "distinct (map (\<lambda>t. (t_tenant t, t_slack_channel t, t_slack_thread t))
      (filter (\<lambda>t. live t \<and> t_slack_thread t \<noteq> None) (tickets d)))"
    using inv by (simp_all add: ticket_inv_def one_live_per_chain_def one_live_per_slack_thread_def)
  show "one_live_per_chain (map g (tickets d))"
    unfolding one_live_per_chain_def by (rule distinct_filter_map [OF chain live k(1)])
  have "live t \<and> t_slack_thread t \<noteq> None" if "t \<in> set (tickets d)" "live (g t) \<and> t_slack_thread (g t) \<noteq> None" for t
    using live [OF that(1)] k(2) [OF that(1)] that(2) by simp
  then show "one_live_per_slack_thread (map g (tickets d))"
    unfolding one_live_per_slack_thread_def by (rule distinct_filter_map [OF thread _ k(2)])
qed

lemma edited_key: "smooth sel f \<Longrightarrow> same_key t (edited s sel f t)"
  by (simp add: edited_def smooth_def plain_key) (simp add: same_key_def)

lemma edited_live: "smooth sel f \<Longrightarrow> live (edited s sel f t) \<Longrightarrow> live t"
  using closed_no_move by (auto simp: edited_def smooth_def live_def split: if_splits)

lemma updateMany_smooth:
  assumes inv: "ticket_inv d" and arm: "armed s" and sm: "smooth sel f"
  shows "ticket_updateMany sel f s d =
    Inr (length (filter (\<lambda>t. visible_ticket s t \<and> sel t) (tickets d)),
      d\<lparr>tickets := map (edited s sel f) (tickets d), audit := audit d @ concat (map (edit_rows s sel f) (tickets d))\<rparr>)"
proof -
  have refs: "list_all (references_ok d) (map (edited s sel f) (tickets d))"
  proof (clarsimp simp: list_all_iff)
    fix t assume t: "t \<in> set (tickets d)"
    then have "references_ok d t" using inv by (simp add: ticket_inv_def list_all_iff)
    then show "references_ok d (edited s sel f t)"
      using sm by (auto simp: edited_def smooth_def plain_edit_def references_ok_def split: option.splits)
  qed
  show ?thesis
    using bulk_constraints [OF inv, of "edited s sel f"] edited_key [OF sm] edited_live [OF sm] refs
    unfolding ticket_updateMany_def update_rows_smooth [OF arm sm order_refl] by simp
qed

lemma updated_rows_map:
  assumes "tickets d' = map g (tickets d)"
  shows "updated_rows sel s d d' = map g (filter (\<lambda>t. visible_ticket s t \<and> sel t) (tickets d))"
proof -
  have "map snd (filter (\<lambda>(t, t'). P t) (zip ts (map g ts))) = map g (filter P ts)" for P ts
    by (induction ts) auto
  then show ?thesis by (simp add: updated_rows_def assms)
qed

section \<open>The breach sweep, exactly\<close>

lemma latch_smooth: "smooth (breach_selects targets now) (latch targets now)"
  by (auto simp: smooth_def plain_edit_def latch_def keep_latches_def keep_latch_def first_due_def resolution_due_def
    split: option.splits)

lemma latch_effect: "transition_effect now' t (latch targets now t) = latch targets now t"
  by (simp add: transition_effect_def latch_def Let_def)

lemma latch_no_audit: "audit_rows_of s t (latch targets now t) = []"
  by (simp add: audit_rows_of_def change_entries_def latch_def split: sum.split)

text \<open>The timers a ticket newly misses at a moment.\<close>

definition missed :: "sla_targets \<Rightarrow> millis \<Rightarrow> ticket \<Rightarrow> sla_timer list" where
  "missed targets now t =
     (if first_due targets now t then [first_response] else []) @
     (if resolution_due targets now t then [resolution] else [])"

definition not_latched_at :: "millis \<Rightarrow> ticket \<Rightarrow> bool" where
  "not_latched_at now t \<longleftrightarrow> t_first_response_breached t \<noteq> Some now \<and> t_resolution_breached t \<noteq> Some now"

lemma latched_missed: "not_latched_at now t \<Longrightarrow> latchedTimers (latch targets now t) now = missed targets now t"
  by (simp add: latchedTimers_def latch_def missed_def not_latched_at_def)

lemma unselected_not_missed: "\<not> breach_selects targets now t \<Longrightarrow> missed targets now t = [] \<and> latch targets now t = t"
  by (auto simp: breach_selects_def missed_def latch_def first_due_def resolution_due_def split: option.splits)

definition tenant_misses :: "sla_targets \<Rightarrow> millis \<Rightarrow> ident \<Rightarrow> ticket list \<Rightarrow> (ident \<times> sla_timer) list" where
  "tenant_misses targets now tenant ts =
     concat (map (\<lambda>t. if t_tenant t = tenant then map (Pair (t_id t)) (missed targets now t) else []) ts)"

lemma record_breaches_exact:
  assumes "\<forall>x \<in> set xs. \<exists>t \<in> set (tickets d). t_tenant t = tenant \<and> t_id t = fst x" and "tenant \<noteq> []"
    and "s = tenant_session clock tenant ''system'' []"
  shows "record_breaches tenant now xs s d =
    Inr (map (\<lambda>(i, timer). (tenant, breach_of now i timer)) xs,
      d\<lparr>audit := audit d @ map (\<lambda>(i, timer). audit_row_of tenant ''system'' None (breach_audit i timer)) xs\<rparr>)"
  using assms(1)
proof (induction xs arbitrary: d)
  case (Cons x xs)
  obtain i timer where x: "x = (i, timer)" by (cases x)
  obtain t where t: "t \<in> set (tickets d)" "t_tenant t = tenant" "t_id t = i" using Cons.prems x by auto
  let ?row = "audit_row_of tenant ''system'' None (breach_audit i timer)"
  have "audit_record (breach_audit i timer) s d = Inr ((), d\<lparr>audit := audit d @ [?row]\<rparr>)"
    using t assms(2,3)
    by (auto simp: audit_record_def audit_insert_def current_actor_def visible_audit_def tenant_matches_def
      current_actor_is_contact_def breach_audit_def Let_def)
  moreover have "record_breaches tenant now xs s (d\<lparr>audit := audit d @ [?row]\<rparr>) =
      Inr (map (\<lambda>(i, timer). (tenant, breach_of now i timer)) xs, (d\<lparr>audit := audit d @ [?row]\<rparr>)\<lparr>audit :=
        audit (d\<lparr>audit := audit d @ [?row]\<rparr>) @ map (\<lambda>(i, timer). audit_row_of tenant ''system'' None (breach_audit i timer)) xs\<rparr>)"
    using Cons.prems by (intro Cons.IH) simp
  ultimately show ?case by (simp add: x)
qed simp

definition latched_db :: "sla_targets \<Rightarrow> millis \<Rightarrow> ident \<Rightarrow> db \<Rightarrow> db" where
  "latched_db targets now tenant d = d
     \<lparr>tickets := map (\<lambda>t. if t_tenant t = tenant then latch targets now t else t) (tickets d),
      audit := audit d @ map (\<lambda>(i, timer). audit_row_of tenant ''system'' None (breach_audit i timer))
        (tenant_misses targets now tenant (tickets d))\<rparr>"

lemma latchTenant_exact:
  assumes inv: "ticket_inv d" and tenant: "is_uuid tenant" and fresh: "\<forall>t \<in> set (tickets d). t_tenant t = tenant \<longrightarrow> not_latched_at now t"
  shows "withTenant clock (systemContextFor tenant) (latchTenant targets now tenant) d =
    Inr (map (\<lambda>(i, timer). (tenant, breach_of now i timer)) (tenant_misses targets now tenant (tickets d)),
      latched_db targets now tenant d)"
proof -
  let ?s = "tenant_session clock tenant ''system'' []"
  have ne: "tenant \<noteq> []" by (rule is_uuid_not_Nil [OF tenant])
  have arm: "armed ?s" using ne by (simp add: armed_def)
  have vis: "visible_ticket ?s t \<longleftrightarrow> t_tenant t = tenant" for t
    using ne by (simp add: visible_ticket_def tenant_matches_def current_actor_is_contact_def)
  let ?sel = "breach_selects targets now" and ?f = "latch targets now"
  let ?ts = "map (\<lambda>t. if t_tenant t = tenant then ?f t else t) (tickets d)"
  have rows: "edited ?s ?sel ?f = (\<lambda>t. if t_tenant t = tenant then ?f t else t)" "edit_rows ?s ?sel ?f = (\<lambda>t. [])"
    using unselected_not_missed by (auto simp: fun_eq_iff edited_def edit_rows_def vis latch_effect latch_no_audit)
  have "concat (map (\<lambda>t. []) xs) = []" for xs :: "ticket list" by simp
  then have upd: "\<exists>n. ticket_updateMany ?sel ?f ?s d = Inr (n, d\<lparr>tickets := ?ts\<rparr>)"
    using updateMany_smooth [OF inv arm latch_smooth, of targets now] by (simp add: rows)
  have misses: "concat (map (\<lambda>row. map (Pair (t_id row)) (latchedTimers row now)) (updated_rows ?sel ?s d (d\<lparr>tickets := ?ts\<rparr>))) =
      tenant_misses targets now tenant (tickets d)"
  proof -
    have "concat (map (\<lambda>row. map (Pair (t_id row)) (latchedTimers row now))
          (map (\<lambda>t. if t_tenant t = tenant then ?f t else t) (filter (\<lambda>t. visible_ticket ?s t \<and> ?sel t) ts))) =
        tenant_misses targets now tenant ts" if "set ts \<subseteq> set (tickets d)" for ts
      using that
    proof (induction ts)
      case (Cons t ts)
      have "latchedTimers (?f t) now = missed targets now t" if "t_tenant t = tenant"
        using fresh Cons.prems that by (intro latched_missed) simp
      moreover have "t_id (?f t) = t_id t" by (simp add: latch_def)
      ultimately show ?case using Cons unselected_not_missed by (auto simp: tenant_misses_def vis)
    qed (simp add: tenant_misses_def)
    then show ?thesis by (simp add: updated_rows_map [where g = "\<lambda>t. if t_tenant t = tenant then ?f t else t"])
  qed
  have "record_breaches tenant now (tenant_misses targets now tenant (tickets d)) ?s (d\<lparr>tickets := ?ts\<rparr>) =
      Inr (map (\<lambda>(i, timer). (tenant, breach_of now i timer)) (tenant_misses targets now tenant (tickets d)),
        (d\<lparr>tickets := ?ts\<rparr>)\<lparr>audit := audit (d\<lparr>tickets := ?ts\<rparr>) @
          map (\<lambda>(i, timer). audit_row_of tenant ''system'' None (breach_audit i timer)) (tenant_misses targets now tenant (tickets d))\<rparr>)"
  proof (rule record_breaches_exact [OF _ ne refl], rule ballI)
    fix x assume "x \<in> set (tenant_misses targets now tenant (tickets d))"
    then obtain t where t: "t \<in> set (tickets d)" "t_tenant t = tenant" "fst x = t_id t"
      by (auto simp: tenant_misses_def split: if_splits)
    then have "?f t \<in> set (tickets (d\<lparr>tickets := ?ts\<rparr>))" by force
    then show "\<exists>t \<in> set (tickets (d\<lparr>tickets := ?ts\<rparr>)). t_tenant t = tenant \<and> t_id t = fst x"
      using t by (intro bexI [of _ "?f t"]) (simp_all add: latch_def)
  qed
  moreover have "withTenant clock (systemContextFor tenant) (latchTenant targets now tenant) d = latchTenant targets now tenant ?s d"
    using tenant ne by (simp add: withTenant_def contextSettings_def systemContextFor_def isTenantIdShaped_def ACTOR_KINDS_def)
  ultimately show ?thesis using upd misses by (auto simp: latchTenant_def latched_db_def)
qed


text \<open>The whole run, tenant by tenant: a visit changes nothing a later visit reads.\<close>

definition sweep_misses :: "sla_targets \<Rightarrow> millis \<Rightarrow> ident list \<Rightarrow> ticket list \<Rightarrow> (ident \<times> ident \<times> sla_timer) list" where
  "sweep_misses targets now tenants ts =
     concat (map (\<lambda>tenant. map (Pair tenant) (tenant_misses targets now tenant ts)) tenants)"

definition sweep_db :: "sla_targets \<Rightarrow> millis \<Rightarrow> ident list \<Rightarrow> db \<Rightarrow> db" where
  "sweep_db targets now tenants d = d
     \<lparr>tickets := map (\<lambda>t. if t_tenant t \<in> set tenants then latch targets now t else t) (tickets d),
      audit := audit d @ map (\<lambda>(tenant, i, timer). audit_row_of tenant ''system'' None (breach_audit i timer))
        (sweep_misses targets now tenants (tickets d))\<rparr>"

lemma latch_keys [simp]: "t_tenant (latch targets now t) = t_tenant t" "t_id (latch targets now t) = t_id t"
  by (simp_all add: latch_def)

lemma tenant_misses_other:
  assumes "tenant \<noteq> tenant'"
  shows "tenant_misses targets now tenant (map (\<lambda>t. if t_tenant t = tenant' then latch targets now t else t) ts) =
    tenant_misses targets now tenant ts"
  using assms by (induction ts) (auto simp: tenant_misses_def)

lemma sweep_misses_other:
  assumes "tenant' \<notin> set tenants"
  shows "sweep_misses targets now tenants (map (\<lambda>t. if t_tenant t = tenant' then latch targets now t else t) ts) =
    sweep_misses targets now tenants ts"
  using assms by (induction tenants) (auto simp: sweep_misses_def tenant_misses_other)

lemma sweep_db_Cons:
  assumes "tenant \<notin> set tenants"
  shows "sweep_db targets now tenants (latched_db targets now tenant d) = sweep_db targets now (tenant # tenants) d"
proof -
  have "map (\<lambda>t. if t_tenant t \<in> set tenants then latch targets now t else t)
      (map (\<lambda>t. if t_tenant t = tenant then latch targets now t else t) ts) =
    map (\<lambda>t. if t_tenant t \<in> set (tenant # tenants) then latch targets now t else t) ts" for ts
    using assms by auto
  moreover have "map (\<lambda>(tenant, i, timer). audit_row_of tenant ''system'' None (breach_audit i timer)) (map (Pair tenant) xs) =
      map (\<lambda>(i, timer). audit_row_of tenant ''system'' None (breach_audit i timer)) xs" for xs
    by (simp add: comp_def)
  moreover have "sweep_misses targets now (tenant # tenants) ts =
      map (Pair tenant) (tenant_misses targets now tenant ts) @ sweep_misses targets now tenants ts" for ts
    by (simp add: sweep_misses_def)
  ultimately show ?thesis
    by (simp only: sweep_db_def latched_db_def db.select_convs db.update_convs db.surjective sweep_misses_other [OF assms]
      map_append append_assoc) (simp add: sweep_misses_other [OF assms])
qed

lemma forEachTenant_exact:
  assumes "ticket_inv d" and "distinct tenants" and "\<forall>tenant \<in> set tenants. is_uuid tenant"
    and "\<forall>t \<in> set (tickets d). t_tenant t \<in> set tenants \<longrightarrow> not_latched_at now t"
  shows "forEachTenant clock (latchTenant targets now) tenants acc d =
    (Inr (acc @ map (\<lambda>(tenant, i, timer). (tenant, breach_of now i timer)) (sweep_misses targets now tenants (tickets d))),
     sweep_db targets now tenants d)"
  using assms
proof (induction tenants arbitrary: acc d)
  case Nil
  then show ?case by (simp add: sweep_misses_def sweep_db_def)
next
  case (Cons tenant tenants)
  let ?d = "latched_db targets now tenant d"
  have visit: "withTenant clock (systemContextFor tenant) (latchTenant targets now tenant) d =
      Inr (map (\<lambda>(i, timer). (tenant, breach_of now i timer)) (tenant_misses targets now tenant (tickets d)), ?d)"
    using Cons.prems by (intro latchTenant_exact) auto
  have "ticket_inv ?d"
    using latching.tenant_run [OF Cons.prems(1) visit] by (simp add: safe_step_def)
  moreover have "\<forall>t \<in> set (tickets ?d). t_tenant t \<in> set tenants \<longrightarrow> not_latched_at now t"
    using Cons.prems(2,4) by (auto simp: latched_db_def)
  ultimately show ?case
    using Cons.IH [of ?d] Cons.prems(2,3) visit sweep_db_Cons [of tenant tenants targets now d]
      sweep_misses_other [of tenant tenants targets now "tickets d"]
    by (simp add: latched_db_def) (simp add: sweep_misses_def comp_def)
qed

lemma latched_once:
  "timer \<in> set (missed targets now t) \<Longrightarrow> timer \<notin> set (missed targets' now' (latch targets now t))"
  by (auto simp: missed_def latch_def first_due_def resolution_due_def split: option.splits if_splits)

section \<open>The dwell sweep, exactly\<close>

lemma settle_smooth:
  "(from_state, to_state) \<in> set TIMERS \<Longrightarrow> smooth (dwell_selects now from_state) (\<lambda>t. t\<lparr>t_state := to_state\<rparr>)"
  by (auto simp: smooth_def plain_edit_def TIMERS_def keep_latches_def keep_latch_def ticket_transition_is_legal_def
    dwell_selects_def split: option.splits)

text \<open>One timer moves the rows it selects, one step and with one audit entry each.\<close>

definition moves :: "millis \<Rightarrow> ident \<Rightarrow> ticket_state \<Rightarrow> ticket \<Rightarrow> bool" where
  "moves now tenant from_state t \<longleftrightarrow> t_tenant t = tenant \<and> dwell_selects now from_state t"

definition settled_row :: "millis \<Rightarrow> ticket_state \<Rightarrow> ticket \<Rightarrow> ticket" where
  "settled_row clock to_state t = transition_effect clock t (t\<lparr>t_state := to_state\<rparr>)"

definition settled_audit :: "ticket_state \<Rightarrow> ticket \<Rightarrow> audit_row" where
  "settled_audit to_state t = audit_row_of (t_tenant t) ''system'' None
     (ticket_audit_values ticket_transitioned (t_id t) (Some (state_text (t_state t))) (Some (state_text to_state)))"

definition settled_db :: "millis \<Rightarrow> millis \<Rightarrow> ident \<Rightarrow> ticket_state \<times> ticket_state \<Rightarrow> db \<Rightarrow> db" where
  "settled_db clock now tenant timer d = d
     \<lparr>tickets := map (\<lambda>t. if moves now tenant (fst timer) t then settled_row clock (snd timer) t else t) (tickets d),
      audit := audit d @ map (settled_audit (snd timer)) (filter (moves now tenant (fst timer)) (tickets d))\<rparr>"

lemma settled_row_simps [simp]:
  "t_tenant (settled_row clock st t) = t_tenant t" "t_id (settled_row clock st t) = t_id t"
  "t_state (settled_row clock st t) = st"
  by (auto simp: settled_row_def transition_effect_def accrue_pause_def Let_def split: option.split)

lemma settled_activity: "t_state t \<noteq> st \<Longrightarrow> t_last_activity (settled_row clock st t) = clock"
  by (auto simp: settled_row_def transition_effect_def Let_def)

lemma filter_by_ids:
  assumes "distinct (map t_id ts)" and "\<And>t. t_id (g t) = t_id t"
  shows "filter (\<lambda>t. t_id t \<in> t_id ` set (filter P ts)) (map g ts) = map g (filter P ts)"
proof -
  have "(t_id (g t) \<in> t_id ` set (filter P ts)) = P t" if "t \<in> set ts" for t
    using that assms by (auto simp: distinct_map inj_on_def)
  then have "filter (\<lambda>t. t_id (g t) \<in> t_id ` set (filter P ts)) ts = filter P ts" by (intro filter_cong) auto
  then show ?thesis by (simp add: filter_map comp_def)
qed

lemma settle_exact:
  assumes inv: "ticket_inv d" and ne: "tenant \<noteq> []" and timer: "timer \<in> set TIMERS"
  shows "settle now timer (tenant_session clock tenant ''system'' []) d =
    Inr (map (settled_row clock (snd timer)) (filter (moves now tenant (fst timer)) (tickets d)),
      settled_db clock now tenant timer d)"
proof -
  let ?s = "tenant_session clock tenant ''system'' []"
  obtain f t where ft: "timer = (f, t)" by (cases timer)
  have arm: "armed ?s" using ne by (simp add: armed_def)
  have vis: "visible_ticket ?s t \<longleftrightarrow> t_tenant t = tenant" for t
    using ne by (simp add: visible_ticket_def tenant_matches_def current_actor_is_contact_def)
  have neq: "f \<noteq> t" using timer ft by (auto simp: TIMERS_def)
  let ?sel = "dwell_selects now f" and ?f = "\<lambda>x::ticket. x\<lparr>t_state := t\<rparr>"
  let ?g = "\<lambda>x. if moves now tenant f x then settled_row clock t x else x"
  have rows: "edited ?s ?sel ?f = ?g"
    by (auto simp: fun_eq_iff edited_def vis moves_def settled_row_def)
  have "edit_rows ?s ?sel ?f x = (if moves now tenant f x then [settled_audit t x] else [])" for x
    using neq by (auto simp: edit_rows_def vis moves_def settled_audit_def audit_rows_of_def current_actor_def change_entries_def
      dwell_selects_def)
  then have "concat (map (edit_rows ?s ?sel ?f) xs) = map (settled_audit t) (filter (moves now tenant f) xs)" for xs
    by (induction xs) auto
  then have upd: "\<exists>n. ticket_updateMany ?sel ?f ?s d = Inr (n, settled_db clock now tenant timer d)"
    using updateMany_smooth [OF inv arm settle_smooth, of f t now] timer by (simp add: ft settled_db_def rows)
  have sel: "(\<lambda>x. visible_ticket ?s x \<and> ?sel x) = moves now tenant f" by (auto simp: fun_eq_iff vis moves_def)
  let ?moved = "filter (moves now tenant f) (tickets d)"
  have ids: "map t_id (updated_rows ?sel ?s d (settled_db clock now tenant timer d)) = map t_id ?moved"
    by (simp add: updated_rows_map [of _ ?g] settled_db_def ft sel)
  have "filter (\<lambda>x. t_tenant x = tenant \<and> t_id x \<in> t_id ` set ?moved) (map ?g (tickets d)) = map ?g ?moved"
  proof -
    have "filter (\<lambda>x. t_id x \<in> t_id ` set ?moved) (map ?g (tickets d)) = map ?g ?moved"
      using inv by (intro filter_by_ids) (auto simp: ticket_inv_def)
    moreover have "filter (\<lambda>x. t_tenant x = tenant \<and> t_id x \<in> t_id ` set ?moved) (map ?g (tickets d)) =
        filter (\<lambda>x. t_tenant x = tenant) (filter (\<lambda>x. t_id x \<in> t_id ` set ?moved) (map ?g (tickets d)))" by (simp add: conj_commute)
    ultimately show ?thesis by (auto simp: filter_map moves_def intro!: map_cong filter_cong)
  qed
  moreover have "map ?g ?moved = map (settled_row clock t) ?moved" by simp
  ultimately have read: "ticket_select (\<lambda>x. t_id x \<in> set (map t_id ?moved)) ?s (settled_db clock now tenant timer d) =
      map (settled_row clock t) ?moved"
    by (simp add: ticket_select_def settled_db_def ft vis cong: if_cong)
  have "canTransition f t SCHEDULER_PERMISSIONS" by (simp add: canTransition_def SCHEDULER_PERMISSIONS_def)
  then show ?thesis using upd ids read by (auto simp: settle_def ft Let_def)
qed


text \<open>What one run does to a ticket of a visited tenant, and what it records and announces.\<close>

definition dwelt :: "millis \<Rightarrow> millis \<Rightarrow> ident list \<Rightarrow> ticket \<Rightarrow> ticket" where
  "dwelt clock now tenants t =
     (if t_tenant t \<in> set tenants \<and> t_last_activity t < now - ticket_dwell_window
      then (case t_state t of
              TPending \<Rightarrow> settled_row clock TResolved t
            | TResolved \<Rightarrow> settled_row clock TClosed t
            | _ \<Rightarrow> t)
      else t)"

definition dwell_moves :: "millis \<Rightarrow> ident list \<Rightarrow> ticket list \<Rightarrow> ticket list" where
  "dwell_moves now tenants ts =
     concat (map (\<lambda>tenant. filter (moves now tenant TPending) ts @ filter (moves now tenant TResolved) ts) tenants)"

definition dwell_next :: "ticket \<Rightarrow> ticket_state" where
  "dwell_next t = (if t_state t = TPending then TResolved else TClosed)"

definition dwelt_db :: "millis \<Rightarrow> millis \<Rightarrow> ident list \<Rightarrow> db \<Rightarrow> db" where
  "dwelt_db clock now tenants d = d
     \<lparr>tickets := map (dwelt clock now tenants) (tickets d),
      audit := audit d @ map (\<lambda>t. settled_audit (dwell_next t) t) (dwell_moves now tenants (tickets d))\<rparr>"

lemma dwelt_keys [simp]: "t_tenant (dwelt clock now tenants t) = t_tenant t" "t_id (dwelt clock now tenants t) = t_id t"
  by (simp_all add: dwelt_def split: ticket_state.split)

lemma dwelt_step:
  assumes "now - ticket_dwell_window \<le> clock"
    and u: "u = (if moves now tenant TPending t then settled_row clock TResolved t else t)"
  shows "(if moves now tenant TResolved u then settled_row clock TClosed u else u) = dwelt clock now [tenant] t"
    and "moves now tenant TResolved u = moves now tenant TResolved t"
proof -
  have "t_last_activity (settled_row clock TResolved t) = clock" if "t_state t = TPending"
    by (rule settled_activity) (simp add: that)
  with assms show "(if moves now tenant TResolved u then settled_row clock TClosed u else u) = dwelt clock now [tenant] t"
    "moves now tenant TResolved u = moves now tenant TResolved t"
    by (auto simp: moves_def dwell_selects_def dwelt_def split: ticket_state.split)
qed

lemma dwell_next_moves:
  "map (\<lambda>t. f (dwell_next t) t) (filter (moves now tenant TPending) ts) = map (f TResolved) (filter (moves now tenant TPending) ts)"
  "map (\<lambda>t. f (dwell_next t) t) (filter (moves now tenant TResolved) ts) = map (f TClosed) (filter (moves now tenant TResolved) ts)"
  by (auto simp: dwell_next_def moves_def dwell_selects_def)

lemma dwell_visit_exact:
  assumes inv: "ticket_inv d" and tenant: "is_uuid tenant" and clock: "now - ticket_dwell_window \<le> clock"
  shows "withTenant clock (systemContextFor tenant) (dwell_visit now tenant) d =
    Inr (map (\<lambda>t. settled_row clock (dwell_next t) t) (dwell_moves now [tenant] (tickets d)), dwelt_db clock now [tenant] d)"
proof -
  let ?s = "tenant_session clock tenant ''system'' []" and ?p = "moves now tenant TPending" and ?r = "moves now tenant TResolved"
  have ne: "tenant \<noteq> []" by (rule is_uuid_not_Nil [OF tenant])
  let ?d = "settled_db clock now tenant (TPending, TResolved) d"
  have one: "settle now (TPending, TResolved) ?s d = Inr (map (settled_row clock TResolved) (filter ?p (tickets d)), ?d)"
    using settle_exact [OF inv ne, of "(TPending, TResolved)"] by (simp add: TIMERS_def)
  have "ticket_inv ?d" using settle_safe [OF inv one] by (simp add: safe_step_def)
  then have two: "settle now (TResolved, TClosed) ?s ?d =
      Inr (map (settled_row clock TClosed) (filter ?r (tickets ?d)), settled_db clock now tenant (TResolved, TClosed) ?d)"
    using settle_exact [OF _ ne, of _ "(TResolved, TClosed)"] by (simp add: TIMERS_def)
  have unmoved: "filter ?r (map (\<lambda>t. if ?p t then settled_row clock TResolved t else t) ts) = filter ?r ts" for ts
  proof (induction ts)
    case (Cons t ts)
    have "\<not> ?r (settled_row clock TResolved t)" if "?p t"
      using dwelt_step(2) [OF clock refl, of tenant t] that by (auto simp: moves_def dwell_selects_def)
    moreover have "?p t \<Longrightarrow> \<not> ?r t" by (simp add: moves_def dwell_selects_def)
    ultimately show ?case using Cons by simp
  qed simp
  have final: "settled_db clock now tenant (TResolved, TClosed) ?d = dwelt_db clock now [tenant] d"
    using dwelt_step(1) [OF clock refl, of tenant]
    by (simp add: settled_db_def dwelt_db_def unmoved dwell_moves_def dwell_next_moves comp_def cong: if_cong)
  have "withTenant clock (systemContextFor tenant) (dwell_visit now tenant) d = dwell_visit now tenant ?s d"
    using tenant ne by (simp add: withTenant_def contextSettings_def systemContextFor_def isTenantIdShaped_def ACTOR_KINDS_def)
  moreover have "tickets ?d = map (\<lambda>t. if ?p t then settled_row clock TResolved t else t) (tickets d)"
    by (simp add: settled_db_def cong: if_cong)
  ultimately show ?thesis
    by (simp add: dwell_visit_def TIMERS_def one two final unmoved dwell_moves_def dwell_next_moves)
qed

lemma moves_other:
  assumes "tenant \<noteq> tenant'"
  shows "filter (moves now tenant st) (map (dwelt clock now [tenant']) ts) = filter (moves now tenant st) ts"
proof -
  have "moves now tenant st (dwelt clock now [tenant'] t) = moves now tenant st t" and
    "t_tenant t = tenant \<Longrightarrow> dwelt clock now [tenant'] t = t" for t
    using assms dwelt_keys(1) [of clock now "[tenant']" t]
    by (cases "t_tenant t = tenant"; simp add: moves_def; simp add: dwelt_def)+
  then show ?thesis by (induction ts) (auto simp: moves_def [of now tenant st])
qed

lemma dwell_moves_other:
  "tenant' \<notin> set tenants \<Longrightarrow> dwell_moves now tenants (map (dwelt clock now [tenant']) ts) = dwell_moves now tenants ts"
  by (induction tenants) (auto simp: dwell_moves_def moves_other)

lemma dwelt_db_Cons:
  assumes "tenant \<notin> set tenants"
  shows "dwelt_db clock now tenants (dwelt_db clock now [tenant] d) = dwelt_db clock now (tenant # tenants) d"
proof -
  have "dwelt clock now tenants (dwelt clock now [tenant] t) = dwelt clock now (tenant # tenants) t" for t
    using assms dwelt_keys(1) [of clock now "[tenant]" t] by (cases "t_tenant t = tenant") (auto simp: dwelt_def [of _ _ tenants] dwelt_def [of _ _ "[tenant]"] dwelt_def [of _ _ "tenant # tenants"])
  then show ?thesis
    using dwell_moves_other [OF assms] by (simp add: dwelt_db_def comp_def) (simp add: dwell_moves_def)
qed

lemma dwell_run_exact:
  assumes "ticket_inv d" and "distinct tenants" and "\<forall>tenant \<in> set tenants. is_uuid tenant"
    and "now - ticket_dwell_window \<le> clock"
  shows "forEachTenant clock (dwell_visit now) tenants acc d =
    (Inr (acc @ map (\<lambda>t. settled_row clock (dwell_next t) t) (dwell_moves now tenants (tickets d))), dwelt_db clock now tenants d)"
  using assms
proof (induction tenants arbitrary: acc d)
  case Nil
  have "dwelt clock now [] = (\<lambda>t. t)" by (simp add: fun_eq_iff dwelt_def)
  then show ?case by (simp add: dwell_moves_def dwelt_db_def)
next
  case (Cons tenant tenants)
  let ?d = "dwelt_db clock now [tenant] d"
  have visit: "withTenant clock (systemContextFor tenant) (dwell_visit now tenant) d =
      Inr (map (\<lambda>t. settled_row clock (dwell_next t) t) (dwell_moves now [tenant] (tickets d)), ?d)"
    using Cons.prems by (intro dwell_visit_exact) auto
  have inv: "ticket_inv ?d" using settling.tenant_run [OF Cons.prems(1) visit] by (simp add: safe_step_def)
  have tickets: "tickets ?d = map (dwelt clock now [tenant]) (tickets d)" by (simp add: dwelt_db_def)
  show ?case
    using Cons.IH [OF inv] Cons.prems(2,3,4) visit dwelt_db_Cons [of tenant tenants clock now d]
      dwell_moves_other [of tenant tenants now clock "tickets d"]
    by (simp add: tickets) (simp add: dwell_moves_def)
qed

end
