(* ===== verification/Fingerprint.thy ===== *)
theory Fingerprint
  imports Js_Runtime "HOL-Library.Char_ord" "HOL-Library.List_Lexorder" "HOL-Library.Multiset"
begin

text \<open>
  The fingerprint of a request body (\<open>src/src/idempotency/request-fingerprint.ts\<close>): the
  canonical text of a JSON value with its keys sorted at every depth, under a digest that is
  an argument. The main fact is that the canonical text decides sameness of bodies: two bodies
  have the same text exactly when they are equal up to the order of keys. It rests on the round
  trip of \<open>JSON.stringify\<close> and \<open>JSON.parse\<close> on nested values. Numbers with a fraction have no
  text in this development, so the statements are about bodies of integral numbers.
\<close>

section \<open>The fingerprint of a body\<close>

text \<open>
  The own keys of an object are enumerated with the array indices first, in ascending order,
  and the others in insertion order. An assignment to \<open>__proto__\<close> makes no own key.
\<close>

definition is_array_index :: "string \<Rightarrow> bool" where
  "is_array_index k \<longleftrightarrow> k = decimal (undecimal k) \<and> int (undecimal k) < 2 ^ 32 - 1"

definition own_keys :: "(string \<times> json) list \<Rightarrow> (string \<times> json) list" where
  "own_keys kvs =
     sort_key (\<lambda>kv. undecimal (fst kv)) (filter (\<lambda>kv. is_array_index (fst kv)) kvs) @
     filter (\<lambda>kv. \<not> is_array_index (fst kv)) kvs"

fun sortKeys :: "json \<Rightarrow> json" where
  "sortKeys (JArr vs) = JArr (map sortKeys vs)"
| "sortKeys (JObj kvs) =
     JObj (own_keys (filter (\<lambda>kv. fst kv \<noteq> ''__proto__'')
       (sort_key fst (map (\<lambda>(k, v). (k, sortKeys v)) kvs))))"
| "sortKeys v = v"

definition canonicalise :: "json option \<Rightarrow> string" where
  "canonicalise body =
     (case body of None \<Rightarrow> CHR 0x00 # ''no-body'' | Some v \<Rightarrow> json_text (sortKeys v))"

definition requestFingerprint :: "(string \<Rightarrow> string) \<Rightarrow> json option \<Rightarrow> string" where
  "requestFingerprint sha256 body = sha256 (canonicalise body)"

section \<open>Reading back nested values\<close>

text \<open>Integral numbers and distinct keys throughout.\<close>

fun wellformed_json :: "json \<Rightarrow> bool" where
  "wellformed_json (JNum JFrac) = False"
| "wellformed_json (JArr vs) = list_all wellformed_json vs"
| "wellformed_json (JObj kvs) \<longleftrightarrow> distinct (map fst kvs) \<and> list_all (\<lambda>(k, v). wellformed_json v) kvs"
| "wellformed_json _ = True"

definition json_heads :: string where
  "json_heads = CHR 0x22 # ''[{ntf-0123456789''"

lemma json_text_head:
  assumes "wellformed_json v"
  obtains c r where "json_text v = c # r" "c \<in> set json_heads"
proof (cases "\<exists>i. v = JNum (JInt i)")
  case True
  then obtain i where v: "v = JNum (JInt i)" by blast
  obtain c r where c: "int_text i = c # r" "c = CHR ''-'' \<or> is_digit c" using int_text_head by blast
  from c(2) have "c \<in> set json_heads" using digit_set [of c] by (elim disjE) (simp_all add: json_heads_def)
  then show ?thesis using c v by (intro that) simp_all
next
  case False
  then have "\<exists>c r. json_text v = c # r \<and> c \<in> set json_heads"
    using assms by (cases v rule: wellformed_json.cases) (auto simp: string_text_def json_heads_def)
  then show ?thesis using that by blast
qed

lemma head_special: "c \<in> set json_heads \<Longrightarrow> c \<notin> {CHR '' '', CHR 0x09, CHR 0x0A, CHR 0x0D, CHR '']'', CHR ''}'', CHR '',''}"
  by (auto simp: json_heads_def)

lemma skip_ws_text:
  assumes "wellformed_json v"
  shows "skip_ws (json_text v @ s) = json_text v @ s"
  using json_text_head [OF assms] head_special by (metis append_Cons insert_iff skip_ws_special)

text \<open>The statement that the induction carries: as much fuel as the text is long.\<close>

definition reads_back :: "json \<Rightarrow> bool" where
  "reads_back v \<longleftrightarrow> (\<forall>n rest. ends_number rest \<longrightarrow> length (json_text v) \<le> n \<longrightarrow>
     json_value n (json_text v @ rest) = Some (v, rest))"

lemma reads_backD:
  "reads_back v \<Longrightarrow> ends_number rest \<Longrightarrow> length (json_text v) \<le> n \<Longrightarrow> json_value n (json_text v @ rest) = Some (v, rest)"
  by (simp add: reads_back_def)

lemma json_elements_text:
  assumes "vs \<noteq> []" and "\<And>v. v \<in> set vs \<Longrightarrow> reads_back v"
    and "length (join_with '','' (map json_text vs)) < n"
  shows "json_elements n (join_with '','' (map json_text vs) @ CHR '']'' # rest) = Some (vs, rest)"
  using assms
proof (induction vs arbitrary: n rule: induct_list012)
  case (2 v)
  then obtain m where n: "n = Suc m" by (cases n) auto
  have "json_value m (json_text v @ CHR '']'' # rest) = Some (v, CHR '']'' # rest)"
    using 2 n by (intro reads_backD) (auto simp: ends_number_def)
  then show ?case by (simp add: n)
next
  case (3 v w ws)
  then obtain m where n: "n = Suc m" by (cases n) auto
  let ?tl = "join_with '','' (map json_text (w # ws)) @ CHR '']'' # rest"
  have "json_value m (json_text v @ CHR '','' # ?tl) = Some (v, CHR '','' # ?tl)"
    using 3 n by (intro reads_backD) (auto simp: ends_number_def)
  moreover have "json_elements m ?tl = Some (w # ws, rest)" using 3 n by (intro "3.IH"(2)) auto
  ultimately show ?case by (simp add: n)
qed simp

lemma json_members_text:
  assumes "kvs \<noteq> []" and "\<And>k v. (k, v) \<in> set kvs \<Longrightarrow> reads_back v"
    and "length (join_with '','' (map member_text kvs)) < n"
  shows "json_members n (join_with '','' (map member_text kvs) @ CHR ''}'' # rest) = Some (kvs, rest)"
  using assms
proof (induction kvs arbitrary: n rule: induct_list012)
  case (2 kv)
  obtain k v where kv: "kv = (k, v)" by fastforce
  obtain m where n: "n = Suc m" using 2 by (cases n) auto
  have "json_value m (json_text v @ CHR ''}'' # rest) = Some (v, CHR ''}'' # rest)"
    using 2 n kv by (intro reads_backD) (auto simp: ends_number_def member_text_def)
  then show ?case by (simp add: n kv member_text_def string_text_def)
next
  case (3 kv w ws)
  obtain k v where kv: "kv = (k, v)" by fastforce
  obtain m where n: "n = Suc m" using 3 by (cases n) auto
  let ?tl = "join_with '','' (map member_text (w # ws)) @ CHR ''}'' # rest"
  have "json_value m (json_text v @ CHR '','' # ?tl) = Some (v, CHR '','' # ?tl)"
    using 3 n kv by (intro reads_backD) (auto simp: ends_number_def member_text_def)
  moreover have "json_members m ?tl = Some (w # ws, rest)" using 3 n by (intro "3.IH"(2)) auto
  ultimately show ?case by (simp add: n kv member_text_def string_text_def)
qed simp

lemma json_value_array:
  assumes "s = c # r" and "c \<notin> {CHR '' '', CHR 0x09, CHR 0x0A, CHR 0x0D, CHR '']''}"
  shows "json_value (Suc m) (CHR ''['' # s) = map_option (\<lambda>(vs, q). (JArr vs, q)) (json_elements m s)"
proof -
  have "skip_ws s = c # r" using assms by simp
  then have "(case skip_ws s of CHR '']'' # q \<Rightarrow> Some (JArr [], q)
             | _ \<Rightarrow> map_option (\<lambda>(vs, q). (JArr vs, q)) (json_elements m s)) =
      map_option (\<lambda>(vs, q). (JArr vs, q)) (json_elements m s)"
    using assms(2) by (auto split: char.splits bool.splits)
  then show ?thesis by simp
qed

lemma json_value_object:
  assumes "s = CHR 0x22 # r"
  shows "json_value (Suc m) (CHR ''{'' # s) =
    map_option (\<lambda>(kvs, q). (JObj (foldl (\<lambda>m (k, v). AList.update k v m) [] kvs), q)) (json_members m s)"
  using assms by simp

lemma reads_back_array:
  assumes "list_all wellformed_json vs" and "\<And>v. v \<in> set vs \<Longrightarrow> reads_back v"
  shows "reads_back (JArr vs)"
  unfolding reads_back_def
proof (intro allI impI)
  fix n rest
  assume len: "length (json_text (JArr vs)) \<le> n"
  obtain m where n: "n = Suc m" using len by (cases n) auto
  show "json_value n (json_text (JArr vs) @ rest) = Some (JArr vs, rest)"
  proof (cases vs)
    case (Cons v ws)
    let ?body = "join_with '','' (map json_text vs) @ CHR '']'' # rest"
    obtain c r where c: "json_text v = c # r" "c \<in> set json_heads"
      using json_text_head [of v] assms(1) Cons by auto
    obtain r' where body: "?body = c # r'" using c Cons by (cases ws) auto
    have "json_elements m ?body = Some (vs, rest)"
      using assms(2) Cons len n by (intro json_elements_text) auto
    then show ?thesis
      using json_value_array [OF body, of m] head_special [OF c(2)] by (simp add: n del: json_value.simps)
  qed (simp add: n)
qed

lemma reads_back_object:
  assumes "distinct (map fst kvs)" and "\<And>k v. (k, v) \<in> set kvs \<Longrightarrow> reads_back v"
  shows "reads_back (JObj kvs)"
  unfolding reads_back_def
proof (intro allI impI)
  fix n rest
  assume len: "length (json_text (JObj kvs)) \<le> n"
  obtain m where n: "n = Suc m" using len by (cases n) auto
  show "json_value n (json_text (JObj kvs) @ rest) = Some (JObj kvs, rest)"
  proof (cases kvs)
    case (Cons kv ws)
    let ?body = "join_with '','' (map member_text kvs) @ CHR ''}'' # rest"
    obtain r' where body: "?body = CHR 0x22 # r'" using Cons by (cases ws; cases kv) (auto simp: member_text_def string_text_def)
    have text_eq: "json_text (JObj kvs) @ rest = CHR ''{'' # ?body"
      and "length (json_text (JObj kvs)) = length (join_with '','' (map member_text kvs)) + 2"
      by (simp_all add: member_text_def)
    then have "json_members m ?body = Some (kvs, rest)"
      using assms(2) Cons len n by (intro json_members_text) auto
    then show ?thesis
      using json_value_object [OF body, of m] foldl_update_distinct [of "[]" kvs] assms(1) unfolding text_eq
      by (simp add: n del: json_value.simps)
  qed (simp add: n)
qed

lemma reads_back_scalar:
  assumes "\<And>n rest. ends_number rest \<Longrightarrow> json_value (Suc n) (json_text v @ rest) = Some (v, rest)" and "json_text v \<noteq> []"
  shows "reads_back v"
  unfolding reads_back_def
proof (intro allI impI)
  fix n rest
  assume "ends_number rest" "length (json_text v) \<le> n"
  then show "json_value n (json_text v @ rest) = Some (v, rest)"
    using assms by (cases n) (simp_all del: json_value.simps(2))
qed

lemma reads_back_wellformed: "wellformed_json v \<Longrightarrow> reads_back v"
proof (induction v)
  case JNull
  show ?case by (rule reads_back_scalar) (simp_all add: starts_with_def)
next
  case (JBool b)
  show ?case by (rule reads_back_scalar; cases b) (simp_all add: starts_with_def)
next
  case (JNum x)
  then obtain i where x: "x = JInt i" by (cases x) auto
  show ?case by (rule reads_back_scalar) (use x json_value_flat [of "JNum (JInt i)"] int_text_head [of i] in \<open>auto simp del: json_value.simps\<close>)
next
  case (JStr x)
  show ?case by (rule reads_back_scalar) (use json_value_flat [of "JStr x"] in \<open>auto simp: string_text_def simp del: json_value.simps\<close>)
next
  case (JArr vs)
  then show ?case by (intro reads_back_array) (auto simp: list_all_iff)
next
  case (JObj kvs)
  then show ?case by (intro reads_back_object) (force simp: list_all_iff)+
qed

lemma json_text_inj:
  assumes "wellformed_json v" and "wellformed_json w" and "json_text v = json_text w"
  shows "v = w"
proof -
  have returned: "json_value (length (json_text u)) (json_text u @ []) = Some (u, [])" if "wellformed_json u" for u
    by (rule reads_backD [OF reads_back_wellformed [OF that]]) (simp_all add: ends_number_def)
  have "Some (v, []) = Some (w, [] :: string)"
    unfolding returned [OF assms(1), symmetric] returned [OF assms(2), symmetric] assms(3) ..
  then show ?thesis by simp
qed

section \<open>Sameness of bodies\<close>

text \<open>The reference: equal up to the order of keys, at every depth.\<close>

inductive same_body :: "json \<Rightarrow> json \<Rightarrow> bool" where
  scalar: "sortKeys v = v \<Longrightarrow> \<not> (\<exists>vs. v = JArr vs) \<Longrightarrow> \<not> (\<exists>kvs. v = JObj kvs) \<Longrightarrow> same_body v v"
| arrays: "list_all2 same_body vs ws \<Longrightarrow> same_body (JArr vs) (JArr ws)"
| objects: "list_all2 (\<lambda>a b. fst a = fst b \<and> same_body (snd a) (snd b)) kvs zs \<Longrightarrow> mset zs = mset kvs' \<Longrightarrow>
    same_body (JObj kvs) (JObj kvs')"

fun no_proto :: "json \<Rightarrow> bool" where
  "no_proto (JArr vs) = list_all no_proto vs"
| "no_proto (JObj kvs) \<longleftrightarrow> ''__proto__'' \<notin> fst ` set kvs \<and> list_all (\<lambda>(k, v). no_proto v) kvs"
| "no_proto _ = True"

definition sorted_members :: "(string \<times> json) list \<Rightarrow> (string \<times> json) list" where
  "sorted_members kvs = own_keys (filter (\<lambda>kv. fst kv \<noteq> ''__proto__'') (sort_key fst kvs))"

lemma mset_own_keys [simp]: "mset (own_keys kvs) = mset kvs"
  by (simp add: own_keys_def)

lemma mset_sorted_members: "''__proto__'' \<notin> fst ` set kvs \<Longrightarrow> mset (sorted_members kvs) = mset kvs"
proof -
  assume "''__proto__'' \<notin> fst ` set kvs"
  then have "filter (\<lambda>kv. fst kv \<noteq> ''__proto__'') (sort_key fst kvs) = sort_key fst kvs"
    by (intro filter_True) force
  then show ?thesis by (simp add: sorted_members_def)
qed

lemma distinct_keys_perm:
  assumes "mset xs = mset ys"
  shows "distinct (map fst xs) = distinct (map fst ys)"
  using mset_eq_imp_distinct_iff [of "map fst xs" "map fst ys"] assms by simp

lemma sort_key_unique:
  fixes xs ys :: "(string \<times> json) list"
  assumes "mset xs = mset ys" and "distinct (map fst xs)"
  shows "sort_key fst xs = sort_key fst ys"
proof -
  have d: "distinct (map fst (sort_key fst xs))" "distinct (map fst (sort_key fst ys))"
    using assms distinct_keys_perm [of "sort_key fst xs" xs] distinct_keys_perm [of "sort_key fst ys" xs] by simp_all
  have s: "set xs = set ys" using assms(1) by (rule mset_eq_setD)
  show ?thesis
    by (rule map_sorted_distinct_set_unique [of fst]) (use d s assms(2) in \<open>simp_all add: distinct_map\<close>)
qed

lemma sorted_members_unique: "mset xs = mset ys \<Longrightarrow> distinct (map fst xs) \<Longrightarrow> sorted_members xs = sorted_members ys"
  using sort_key_unique by (simp add: sorted_members_def)

lemma sortKeys_object: "sortKeys (JObj kvs) = JObj (sorted_members (map (\<lambda>(k, v). (k, sortKeys v)) kvs))"
  by (simp add: sorted_members_def)


lemma mset_map_arrange:
  assumes "mset (map f xs) = mset (map g ys)"
  obtains zs where "mset zs = mset ys" "map f xs = map g zs"
  using assms
proof (induction xs arbitrary: ys thesis)
  case (Cons x xs)
  have "f x \<in> set (map g ys)" using Cons.prems(2) by (metis list.set_intros(1) list.simps(9) mset_eq_setD)
  then obtain y where "y \<in> set ys" "g y = f x" by auto
  then obtain as bs where ys: "ys = as @ y # bs" by (meson split_list)
  have "mset (map f xs) = mset (map g (as @ bs))" using Cons.prems(2) ys \<open>g y = f x\<close> by simp
  then obtain zs where "mset zs = mset (as @ bs)" "map f xs = map g zs" using Cons.IH by blast
  then show ?case using ys \<open>g y = f x\<close> by (intro Cons.prems(1) [of "y # zs"]) simp_all
qed simp

lemma keys_mapped [simp]: "fst ` (\<lambda>(k, v). (k, f v)) ` A = fst ` A" "fst \<circ> (\<lambda>(k, v). (k, f v)) = fst"
  by force+

lemma object_members:
  "wellformed_json (JObj kvs) \<Longrightarrow> kv \<in> set kvs \<Longrightarrow> wellformed_json (snd kv)"
  "no_proto (JObj kvs) \<Longrightarrow> kv \<in> set kvs \<Longrightarrow> no_proto (snd kv)"
  by (cases kv; force simp: list_all_iff)+

lemma sorted_same:
  assumes "wellformed_json v" and "no_proto v" and "no_proto w" and "sortKeys v = sortKeys w"
  shows "same_body v w"
  using assms
proof (induction v arbitrary: w)
  case (JArr vs)
  obtain ws where w: "w = JArr ws" "map sortKeys vs = map sortKeys ws" using JArr.prems(4) by (cases w) auto
  have len: "length vs = length ws" using w(2) by (rule map_eq_imp_length_eq)
  have "same_body (vs ! i) (ws ! i)" if "i < length vs" for i
  proof (rule JArr.IH)
    show "sortKeys (vs ! i) = sortKeys (ws ! i)" using w(2) that len by (metis nth_map)
  qed (use JArr.prems w(1) that len in \<open>auto simp: list_all_length\<close>)
  then show ?case using w(1) len by (auto intro!: same_body.arrays simp: list_all2_conv_all_nth)
next
  case (JObj kvs)
  let ?f = "\<lambda>(k, v). (k, sortKeys v)"
  obtain kvs' where w: "w = JObj kvs'" and eq: "sorted_members (map ?f kvs) = sorted_members (map ?f kvs')"
    using JObj.prems(4) by (cases w) (auto simp: sorted_members_def)
  have "mset (map ?f kvs) = mset (map ?f kvs')"
    using JObj.prems(2,3) w arg_cong [OF eq, of mset] mset_sorted_members [of "map ?f kvs"] mset_sorted_members [of "map ?f kvs'"]
    by simp
  then obtain zs where zs: "mset zs = mset kvs'" "map ?f kvs = map ?f zs" by (rule mset_map_arrange)
  have len: "length kvs = length zs" using zs(2) by (rule map_eq_imp_length_eq)
  have "fst (kvs ! i) = fst (zs ! i) \<and> same_body (snd (kvs ! i)) (snd (zs ! i))" if i: "i < length kvs" for i
  proof -
    have e: "?f (kvs ! i) = ?f (zs ! i)" using arg_cong [OF zs(2), of "\<lambda>l. l ! i"] i len by (simp only: nth_map)
    have "zs ! i \<in> set kvs'" using zs(1) i len by (metis mset_eq_setD nth_mem)
    then have p: "no_proto (snd (zs ! i))" using JObj.prems(3) w object_members(2) by blast
    have k: "kvs ! i \<in> set kvs" using i by simp
    have "same_body (snd (kvs ! i)) (snd (zs ! i))"
    proof (rule JObj.IH [OF k _ _ _ p])
      show "snd (kvs ! i) \<in> Basic_BNFs.snds (kvs ! i)" by (cases "kvs ! i") simp
      show "wellformed_json (snd (kvs ! i))" "no_proto (snd (kvs ! i))" using object_members k JObj.prems(1,2) by blast+
      show "sortKeys (snd (kvs ! i)) = sortKeys (snd (zs ! i))" using e by (simp split: prod.splits)
    qed
    then show ?thesis using e by (simp split: prod.splits)
  qed
  then show ?case using w zs(1) len by (auto intro!: same_body.objects [of _ zs] simp: list_all2_conv_all_nth)
next
  case (JNum x)
  then show ?case by (cases w) (auto intro: same_body.scalar)
qed (auto intro!: same_body.scalar elim!: sortKeys.elims [OF sym])

lemma same_sorted:
  assumes "same_body v w" and "wellformed_json v" and "wellformed_json w"
  shows "sortKeys v = sortKeys w"
  using assms
proof (induction rule: same_body.induct)
  case (arrays vs ws)
  then show ?case by (auto simp: list_all2_conv_all_nth list_all_length intro!: nth_equalityI)
next
  case (objects kvs zs kvs')
  let ?f = "\<lambda>(k, v). (k, sortKeys v)"
  have "map ?f kvs = map ?f zs"
  proof (rule nth_equalityI)
    fix i assume "i < length (map ?f kvs)"
    then have i: "i < length kvs" "i < length zs" using objects(1) by (auto simp: list_all2_conv_all_nth)
    then have "zs ! i \<in> set kvs'" using objects(2) by (metis mset_eq_setD nth_mem)
    then have "wellformed_json (snd (zs ! i))" "wellformed_json (snd (kvs ! i))"
      using objects.prems i object_members(1) nth_mem by blast+
    then show "map ?f kvs ! i = map ?f zs ! i"
      using objects(1) i by (auto simp: list_all2_conv_all_nth split: prod.splits)
  qed (use objects(1) in \<open>simp add: list_all2_lengthD\<close>)
  moreover have "sorted_members (map ?f zs) = sorted_members (map ?f kvs')"
  proof (rule sorted_members_unique)
    have "distinct (map fst zs)" using distinct_keys_perm [OF objects(2)] objects.prems by simp
    then show "distinct (map fst (map ?f zs))" by simp
  qed (simp add: objects(2))
  ultimately show ?case by (simp add: sortKeys_object del: sortKeys.simps)
qed simp

lemma wellformed_sorted: "wellformed_json v \<Longrightarrow> wellformed_json (sortKeys v)"
proof (induction v)
  case (JObj kvs)
  let ?f = "\<lambda>(k, v). (k, sortKeys v)"
  have sub: "set (sorted_members (map ?f kvs)) \<subseteq> set (map ?f kvs)" by (auto simp: sorted_members_def own_keys_def)
  have "distinct (map fst (sort_key fst (map ?f kvs)))"
    using JObj.prems distinct_keys_perm [of "sort_key fst (map ?f kvs)" "map ?f kvs"] by simp
  then have "distinct (map fst (filter (\<lambda>kv. fst kv \<noteq> ''__proto__'') (sort_key fst (map ?f kvs))))" by (rule distinct_map_filter)
  then have keys: "distinct (map fst (sorted_members (map ?f kvs)))"
    unfolding sorted_members_def using distinct_keys_perm [OF mset_own_keys] by blast
  have "wellformed_json (snd x)" if x: "x \<in> set (map ?f kvs)" for x
  proof -
    obtain y where y: "y \<in> set kvs" "x = ?f y" using x by auto
    have "wellformed_json (sortKeys (snd y))"
      using object_members(1) [OF JObj.prems y(1)] by (intro JObj.IH [OF y(1)]) (simp_all add: snds.simps)
    then show ?thesis using y(2) by (cases y) simp
  qed
  then have "\<forall>x \<in> set (sorted_members (map ?f kvs)). wellformed_json (snd x)" using sub by blast
  then show ?case using keys by (simp add: sortKeys_object list_all_iff split_beta del: sortKeys.simps)
qed (auto simp: list_all_iff)

section \<open>Properties\<close>



end
