(* ===== verification/Idempotency.thy ===== *)
theory Idempotency
  imports Tenancy Fingerprint
begin

text \<open>
  Safe retries (\<open>src/src/idempotency\<close>): the scope of a key,
  the store with \<open>claim\<close>, \<open>complete\<close>, \<open>release\<close> and the retention sweep, and the interceptor
  that runs a handler at most once per key. Every method of the store is a transaction of its
  own, so concurrent requests interleave at that grain: \<open>idem_op\<close> names the transactions, and
  the safety theorems speak of arbitrary sequences of them.

  The digest of the fingerprint is an argument.
\<close>

section \<open>Scopes\<close>

fun principalRef :: "request_principal \<Rightarrow> string" where
  "principalRef (StaffPrincipal _ u _) = ''u:'' @ u"
| "principalRef (ContactPrincipal _ c) = ''c:'' @ c"
| "principalRef (WidgetPrincipal _ w _) = ''w:'' @ w"
| "principalRef (ServicePrincipal _ k _) = ''s:'' @ k"

definition httpScope :: "request_principal \<Rightarrow> string \<Rightarrow> string \<Rightarrow> string" where
  "httpScope p meth path = principalRef p @ ''|'' @ meth @ '' '' @ path"

definition idempotencyContextFor :: "request_principal \<Rightarrow> thrown + tenant_context" where
  "idempotencyContextFor p =
     (case p of
        WidgetPrincipal tenant _ None \<Rightarrow> Inr (systemContextFor tenant)
      | _ \<Rightarrow> tenantContextFor p)"

section \<open>The store\<close>

datatype idem_status = InProgress | Completed

record idem_row =
  i_tenant :: ident
  i_scope :: string
  i_key :: string
  i_hash :: string
  i_status :: idem_status
  i_code :: "nat option"
  i_body :: "json option"
  i_actor_kind :: string
  i_actor_id :: "ident option"
  i_created :: millis
  i_expires :: millis

type_synonym idem_table = "idem_row list"

record idem_ref =
  ref_scope :: string
  ref_key :: string

definition idempotency_retention :: millis where "idempotency_retention = 24 * 60 * 60 * 1000"

definition idem_visible :: "session \<Rightarrow> idem_row \<Rightarrow> bool" where
  "idem_visible s r \<longleftrightarrow> tenant_matches s (i_tenant r)"

definition addresses :: "session \<Rightarrow> idem_ref \<Rightarrow> idem_row \<Rightarrow> bool" where
  "addresses s ref r \<longleftrightarrow> idem_visible s r \<and> i_scope r = ref_scope ref \<and> i_key r = ref_key ref"

datatype idem_claim = Fresh | Replay "(nat \<times> json option) option" | InFlight | Mismatch

definition RECLAIM_ATTEMPTS :: nat where "RECLAIM_ATTEMPTS = 2"

definition hash_column :: "string option \<Rightarrow> string" where
  "hash_column h = (case h of None \<Rightarrow> [] | Some x \<Rightarrow> x)"

text \<open>The first transaction of a claim: the insert that the unique index arbitrates.\<close>

definition claim_insert :: "idem_ref \<Rightarrow> string option \<Rightarrow> (idem_table, unit) transaction" where
  "claim_insert ref h s d =
     (case current_actor s of
        Inl e \<Rightarrow> Inl e
      | Inr (kind, actor) \<Rightarrow>
          if (s_tenant s, ref_scope ref, ref_key ref) \<in> (\<lambda>r. (i_tenant r, i_scope r, i_key r)) ` set d
          then Inl (RawError (Some ''P2002'') None)
          else Inr ((), d @ [\<lparr>i_tenant = s_tenant s, i_scope = ref_scope ref, i_key = ref_key ref,
                   i_hash = hash_column h, i_status = InProgress, i_code = None, i_body = None,
                   i_actor_kind = kind, i_actor_id = actor, i_created = s_now s,
                   i_expires = s_now s + idempotency_retention\<rparr>]))"

definition reclaim_row :: "string option \<Rightarrow> session \<Rightarrow> string \<times> ident option \<Rightarrow> idem_row \<Rightarrow> idem_row" where
  "reclaim_row h s actor r =
     r\<lparr>i_hash := hash_column h, i_status := InProgress, i_code := None, i_body := None,
       i_actor_kind := fst actor, i_actor_id := snd actor, i_created := s_now s,
       i_expires := s_now s + idempotency_retention\<rparr>"

definition lapsed :: "session \<Rightarrow> idem_ref \<Rightarrow> idem_row \<Rightarrow> bool" where
  "lapsed s ref r \<longleftrightarrow> addresses s ref r \<and> i_expires r \<le> s_now s"

text \<open>
  The second transaction, for the loser of the insert: reclaim a lapsed record, or read the
  one that is held. The answer \<open>None\<close> is a record that is gone.
\<close>

definition claim_held :: "idem_ref \<Rightarrow> string option \<Rightarrow> (idem_table, idem_claim option) transaction" where
  "claim_held ref h s d =
     (case current_actor s of
        Inl e \<Rightarrow> Inl e
      | Inr actor \<Rightarrow>
          if filter (lapsed s ref) d \<noteq> []
          then Inr (Some Fresh, map (\<lambda>r. if lapsed s ref r then reclaim_row h s actor r else r) d)
          else case find (addresses s ref) d of
            None \<Rightarrow> Inr (None, d)
          | Some held \<Rightarrow>
              if h \<noteq> None \<and> Some (i_hash held) \<noteq> h then Inr (Some Mismatch, d)
              else if i_status held = InProgress then Inr (Some InFlight, d)
              else Inr (Some (Replay (map_option (\<lambda>c. (c, i_body held)) (i_code held))), d))"

text \<open>
  \<open>between\<close> is what other transactions do to the table between the two of one attempt. Each
  attempt that finds the record gone starts over, at most \<open>RECLAIM_ATTEMPTS\<close> times.
\<close>

fun attemptClaim ::
  "(nat \<Rightarrow> idem_table \<Rightarrow> idem_table) \<Rightarrow> millis \<Rightarrow> tenant_context \<Rightarrow> idem_ref \<Rightarrow> string option \<Rightarrow> nat \<Rightarrow>
   idem_table \<Rightarrow> (thrown + idem_claim) \<times> idem_table" where
  "attemptClaim between now ctx ref h remaining d =
     (case withTenant now ctx (claim_insert ref h) d of
        Inr (_, d') \<Rightarrow> (Inr Fresh, d')
      | Inl e \<Rightarrow>
          if \<not> isUniqueViolation e then (Inl e, d)
          else (case withTenant now ctx (claim_held ref h) (between remaining d) of
                  Inl e' \<Rightarrow> (Inl e', between remaining d)
                | Inr (Some c, d') \<Rightarrow> (Inr c, d')
                | Inr (None, d') \<Rightarrow>
                    (case remaining of
                       0 \<Rightarrow> (Inr InFlight, d')
                     | Suc n \<Rightarrow> attemptClaim between now ctx ref h n d')))"

declare attemptClaim.simps [simp del]

definition idem_claim_op ::
  "(nat \<Rightarrow> idem_table \<Rightarrow> idem_table) \<Rightarrow> millis \<Rightarrow> tenant_context \<Rightarrow> idem_ref \<Rightarrow> string option \<Rightarrow> idem_table \<Rightarrow>
   (thrown + idem_claim) \<times> idem_table" where
  "idem_claim_op between now ctx ref h d = attemptClaim between now ctx ref h RECLAIM_ATTEMPTS d"

definition unfinished :: "session \<Rightarrow> idem_ref \<Rightarrow> idem_row \<Rightarrow> bool" where
  "unfinished s ref r \<longleftrightarrow> addresses s ref r \<and> i_status r = InProgress"

text \<open>
  Settling with an answer. A body that is undefined is a field the update does not set; no
  answer at all sets both columns to NULL.
\<close>

definition complete_row :: "(nat \<times> json option) option \<Rightarrow> idem_row \<Rightarrow> idem_row" where
  "complete_row response r =
     (case response of
        None \<Rightarrow> r\<lparr>i_status := Completed, i_code := None, i_body := None\<rparr>
      | Some (code, body) \<Rightarrow>
          r\<lparr>i_status := Completed, i_code := Some code,
            i_body := (case body of None \<Rightarrow> i_body r | Some b \<Rightarrow> Some b)\<rparr>)"

definition idem_complete_work :: "idem_ref \<Rightarrow> (nat \<times> json option) option \<Rightarrow> (idem_table, unit) transaction" where
  "idem_complete_work ref response s d =
     Inr ((), map (\<lambda>r. if unfinished s ref r then complete_row response r else r) d)"

definition idem_complete ::
  "millis \<Rightarrow> tenant_context \<Rightarrow> idem_ref \<Rightarrow> (nat \<times> json option) option \<Rightarrow> idem_table \<Rightarrow> thrown + (unit \<times> idem_table)" where
  "idem_complete now ctx ref response d = withTenant now ctx (idem_complete_work ref response) d"

definition idem_release_work :: "idem_ref \<Rightarrow> (idem_table, unit) transaction" where
  "idem_release_work ref s d = Inr ((), filter (\<lambda>r. \<not> unfinished s ref r) d)"

definition idem_release :: "millis \<Rightarrow> tenant_context \<Rightarrow> idem_ref \<Rightarrow> idem_table \<Rightarrow> thrown + (unit \<times> idem_table)" where
  "idem_release now ctx ref d = withTenant now ctx (idem_release_work ref) d"

definition retention_visit :: "ident \<Rightarrow> (idem_table, unit list) transaction" where
  "retention_visit tenant s d = Inr ([], filter (\<lambda>r. \<not> (idem_visible s r \<and> i_expires r \<le> s_now s)) d)"

definition retention_sweep :: "millis \<Rightarrow> ident list \<Rightarrow> idem_table \<Rightarrow> (thrown + unit list) \<times> idem_table" where
  "retention_sweep now tenants d = forEachTenant now retention_visit tenants [] d"

section \<open>The interceptor\<close>

text \<open>A header is absent, sent once, or sent more than once.\<close>

datatype header_value = HAbsent | HOnce string | HMany "string list"

definition MAX_KEY_LENGTH :: nat where "MAX_KEY_LENGTH = 255"

fun headerValue :: "header_value \<Rightarrow> thrown + string option" where
  "headerValue (HMany _) = Inl (App (app_error malformed_request ''Idempotency-Key was supplied more than once.''))"
| "headerValue HAbsent = Inr None"
| "headerValue (HOnce raw) = Inr (if trim raw = [] then None else Some (trim raw))"

record post_request =
  rq_method :: string
  rq_key :: header_value
  rq_principal :: "request_principal option"
  rq_url :: string
  rq_body :: "json option"

record http_reply =
  rp_code :: nat
  rp_body :: "json option"
  rp_replayed :: bool

type_synonym 'w handler = "'w \<Rightarrow> (thrown + (nat \<times> json option)) \<times> 'w"

definition key_reused :: thrown where
  "key_reused = App (app_error idempotency_key_reused
     ''This Idempotency-Key was already used for a request with a different body. Use a fresh key for a different request.'')"

definition key_in_flight :: thrown where
  "key_in_flight = App (app_error idempotency_in_flight
     ''An earlier request with this Idempotency-Key is still running. Retry shortly; its effect will happen only once.'')"

definition key_too_long :: thrown where
  "key_too_long = App (app_error malformed_request ''Idempotency-Key must be at most 255 characters.'')"

text \<open>The answer of a replay: a record without a response is answered 200 with no body.\<close>

definition replay_reply :: "(nat \<times> json option) option \<Rightarrow> http_reply" where
  "replay_reply stored =
     (case stored of
        None \<Rightarrow> \<lparr>rp_code = 200, rp_body = Some JNull, rp_replayed = True\<rparr>
      | Some (code, body) \<Rightarrow>
          \<lparr>rp_code = code, rp_body = Some (case body of None \<Rightarrow> JNull | Some b \<Rightarrow> b), rp_replayed = True\<rparr>)"

text \<open>
  What the database connection does to the two statements that settle a claim: an error of
  its own, or nothing.
\<close>

record settle_faults =
  complete_fault :: "thrown option"
  release_fault :: "thrown option"

definition release_quietly :: "settle_faults \<Rightarrow> millis \<Rightarrow> tenant_context \<Rightarrow> idem_ref \<Rightarrow> idem_table \<Rightarrow> idem_table" where
  "release_quietly fl now ctx ref d =
     (case release_fault fl of
        Some _ \<Rightarrow> d
      | None \<Rightarrow> (case idem_release now ctx ref d of Inl _ \<Rightarrow> d | Inr (_, d') \<Rightarrow> d'))"

definition complete_or_fail ::
  "settle_faults \<Rightarrow> millis \<Rightarrow> tenant_context \<Rightarrow> idem_ref \<Rightarrow> nat \<times> json option \<Rightarrow> idem_table \<Rightarrow> thrown + (unit \<times> idem_table)" where
  "complete_or_fail fl now ctx ref answer d =
     (case complete_fault fl of Some e \<Rightarrow> Inl e | None \<Rightarrow> idem_complete now ctx ref (Some answer) d)"

definition runAndSettle ::
  "settle_faults \<Rightarrow> millis \<Rightarrow> tenant_context \<Rightarrow> idem_ref \<Rightarrow> 'w handler \<Rightarrow> idem_table \<Rightarrow> 'w \<Rightarrow>
   (thrown + http_reply) \<times> idem_table \<times> 'w" where
  "runAndSettle fl now ctx ref handle d w =
     (case handle w of
        (Inl e, w') \<Rightarrow> (Inl e, release_quietly fl now ctx ref d, w')
      | (Inr (code, body), w') \<Rightarrow>
          (case complete_or_fail fl now ctx ref (code, body) d of
             Inl e \<Rightarrow> (Inl e, release_quietly fl now ctx ref d, w')
           | Inr (_, d') \<Rightarrow> (Inr \<lparr>rp_code = code, rp_body = body, rp_replayed = False\<rparr>, d', w')))"

definition pass_through :: "'w handler \<Rightarrow> idem_table \<Rightarrow> 'w \<Rightarrow> (thrown + http_reply) \<times> idem_table \<times> 'w" where
  "pass_through handle d w =
     (case handle w of
        (Inl e, w') \<Rightarrow> (Inl e, d, w')
      | (Inr (code, body), w') \<Rightarrow> (Inr \<lparr>rp_code = code, rp_body = body, rp_replayed = False\<rparr>, d, w'))"

definition intercept ::
  "(string \<Rightarrow> string) \<Rightarrow> (nat \<Rightarrow> idem_table \<Rightarrow> idem_table) \<Rightarrow> settle_faults \<Rightarrow> millis \<Rightarrow> post_request \<Rightarrow> 'w handler \<Rightarrow>
   idem_table \<Rightarrow> 'w \<Rightarrow> (thrown + http_reply) \<times> idem_table \<times> 'w" where
  "intercept sha256 between fl now rq handle d w =
     (if rq_method rq \<noteq> ''POST'' then pass_through handle d w
      else case headerValue (rq_key rq) of
        Inl e \<Rightarrow> (Inl e, d, w)
      | Inr None \<Rightarrow> pass_through handle d w
      | Inr (Some key) \<Rightarrow>
          if MAX_KEY_LENGTH < length key then (Inl key_too_long, d, w)
          else (case rq_principal rq of
                  None \<Rightarrow> pass_through handle d w
                | Some p \<Rightarrow>
                    (case idempotencyContextFor p of
                       Inl e \<Rightarrow> (Inl e, d, w)
                     | Inr ctx \<Rightarrow>
                         (let ref = \<lparr>ref_scope = httpScope p (rq_method rq) (rq_url rq), ref_key = key\<rparr>
                          in case idem_claim_op between now ctx ref
                                    (Some (requestFingerprint sha256 (rq_body rq))) d of
                               (Inl e, d') \<Rightarrow> (Inl e, d', w)
                             | (Inr Mismatch, d') \<Rightarrow> (Inl key_reused, d', w)
                             | (Inr InFlight, d') \<Rightarrow> (Inl key_in_flight, d', w)
                             | (Inr (Replay stored), d') \<Rightarrow> (Inr (replay_reply stored), d', w)
                             | (Inr Fresh, d') \<Rightarrow> runAndSettle fl now ctx ref handle d' w))))"


section \<open>Interleaved transactions\<close>

text \<open>
  The transactions of the store, each with the context it is armed with. Requests run
  concurrently, and every interleaving of them is a list of timed transactions.
\<close>

datatype idem_op =
    OpInsert tenant_context idem_ref "string option"
  | OpHeld tenant_context idem_ref "string option"
  | OpComplete tenant_context idem_ref "(nat \<times> json option) option"
  | OpRelease tenant_context idem_ref
  | OpSweep "ident list"

definition committed :: "idem_table \<Rightarrow> thrown + ('a \<times> idem_table) \<Rightarrow> idem_table" where
  "committed d r = (case r of Inl _ \<Rightarrow> d | Inr (_, d') \<Rightarrow> d')"

fun idem_run :: "millis \<Rightarrow> idem_op \<Rightarrow> idem_table \<Rightarrow> idem_table" where
  "idem_run now (OpInsert ctx ref h) d = committed d (withTenant now ctx (claim_insert ref h) d)"
| "idem_run now (OpHeld ctx ref h) d = committed d (withTenant now ctx (claim_held ref h) d)"
| "idem_run now (OpComplete ctx ref resp) d = committed d (idem_complete now ctx ref resp d)"
| "idem_run now (OpRelease ctx ref) d = committed d (idem_release now ctx ref d)"
| "idem_run now (OpSweep tenants) d = snd (retention_sweep now tenants d)"

fun idem_trace :: "(millis \<times> idem_op) list \<Rightarrow> idem_table \<Rightarrow> idem_table" where
  "idem_trace [] d = d"
| "idem_trace ((now, op) # es) d = idem_trace es (idem_run now op d)"

text \<open>The transaction hands the key to its caller: the claim answers \<open>fresh\<close>.\<close>

fun grants :: "millis \<Rightarrow> idem_op \<Rightarrow> ident \<Rightarrow> idem_ref \<Rightarrow> idem_table \<Rightarrow> bool" where
  "grants now (OpInsert ctx ref h) tenant key d \<longleftrightarrow>
     ref = key \<and> ctx_tenant ctx = tenant \<and> is_ok (withTenant now ctx (claim_insert ref h) d)"
| "grants now (OpHeld ctx ref h) tenant key d \<longleftrightarrow>
     ref = key \<and> ctx_tenant ctx = tenant \<and>
     (case withTenant now ctx (claim_held ref h) d of Inr (Some Fresh, _) \<Rightarrow> True | _ \<Rightarrow> False)"
| "grants _ _ _ _ _ \<longleftrightarrow> False"

fun releases :: "idem_op \<Rightarrow> ident \<Rightarrow> idem_ref \<Rightarrow> bool" where
  "releases (OpRelease ctx ref) tenant key \<longleftrightarrow> ref = key \<and> ctx_tenant ctx = tenant"
| "releases _ _ _ \<longleftrightarrow> False"

definition idem_key :: "idem_row \<Rightarrow> ident \<times> string \<times> string" where
  "idem_key r = (i_tenant r, i_scope r, i_key r)"

definition named :: "ident \<Rightarrow> idem_ref \<Rightarrow> ident \<times> string \<times> string" where
  "named tenant ref = (tenant, ref_scope ref, ref_key ref)"

definition unique_keys :: "idem_table \<Rightarrow> bool" where
  "unique_keys d \<longleftrightarrow> distinct (map idem_key d)"

subsection \<open>An armed session\<close>

lemma armed_actor_exists:
  assumes "contextSettings ctx = Inr (tenant, kind, i)"
  shows "\<exists>a. current_actor (tenant_session now tenant kind i) = Inr a"
  using contextSettings_shape [OF assms] by (auto simp: current_actor_def ACTOR_KINDS_def)

lemma withTenant_cases [consumes 1, case_names refused armed]:
  assumes "withTenant now ctx work d = r"
    and "\<And>e. r = Inl e \<Longrightarrow> contextSettings ctx = Inl e \<Longrightarrow> P"
    and "\<And>kind i a. r = work (tenant_session now (ctx_tenant ctx) kind i) d \<Longrightarrow>
      contextSettings ctx = Inr (ctx_tenant ctx, kind, i) \<Longrightarrow> ctx_tenant ctx \<noteq> [] \<Longrightarrow>
      current_actor (tenant_session now (ctx_tenant ctx) kind i) = Inr a \<Longrightarrow> P"
  shows P
proof (cases "contextSettings ctx")
  case (Inl e)
  then show ?thesis using assms(1) by (intro assms(2)) (simp_all add: withTenant_def)
next
  case (Inr st)
  obtain tenant kind i where st: "st = (tenant, kind, i)" by (cases st)
  note c = Inr [unfolded st]
  have t: "tenant = ctx_tenant ctx" "tenant \<noteq> []" using contextSettings_shape(1,2) [OF c] is_uuid_not_Nil by auto
  obtain a where "current_actor (tenant_session now tenant kind i) = Inr a" using armed_actor_exists [OF c] by blast
  then show ?thesis using assms(1) c t by (intro assms(3) [of kind i a]) (simp_all add: withTenant_def)
qed

lemma addresses_key:
  "s_tenant s \<noteq> [] \<Longrightarrow> addresses s ref r \<longleftrightarrow> idem_key r = named (s_tenant s) ref"
  by (auto simp: addresses_def idem_visible_def tenant_matches_def idem_key_def named_def)

lemma reclaim_key [simp]: "idem_key (reclaim_row h s a r) = idem_key r"
  by (simp add: reclaim_row_def idem_key_def)

lemma complete_key [simp]:
  "idem_key (complete_row resp r) = idem_key r" "i_expires (complete_row resp r) = i_expires r"
  by (simp_all add: complete_row_def idem_key_def split: option.split prod.split)

subsection \<open>The unique index\<close>

lemma unique_map: "(\<And>r. idem_key (f r) = idem_key r) \<Longrightarrow> unique_keys (map f d) = unique_keys d"
  by (simp add: unique_keys_def comp_def)

lemma unique_filter: "unique_keys d \<Longrightarrow> unique_keys (filter P d)"
  by (simp add: unique_keys_def distinct_map_filter)

lemma claim_insert_Inr:
  assumes "claim_insert ref h s d = Inr (u, d')"
  obtains r where "d' = d @ [r]" "idem_key r = named (s_tenant s) ref" "named (s_tenant s) ref \<notin> idem_key ` set d"
    "i_expires r = s_now s + idempotency_retention" "i_status r = InProgress" "i_hash r = hash_column h" "i_body r = None"
proof -
  have "(\<lambda>r. (i_tenant r, i_scope r, i_key r)) = idem_key" by (simp add: fun_eq_iff idem_key_def)
  then show ?thesis using assms
    by (auto simp: claim_insert_def idem_key_def named_def split: sum.splits if_splits intro!: that)
qed

lemma claim_held_table:
  assumes "claim_held ref h s d = Inr (c, d')"
  obtains a where "c = Some Fresh" "filter (lapsed s ref) d \<noteq> []"
      "d' = map (\<lambda>r. if lapsed s ref r then reclaim_row h s a r else r) d"
  | "c \<noteq> Some Fresh" "filter (lapsed s ref) d = []" "d' = d"
  using assms by (auto simp: claim_held_def split: sum.splits if_splits option.splits)

text \<open>What one transaction does to the rows: one kind of effect per transaction.\<close>

lemma retention_sweep_table:
  "\<exists>P. snd (forEachTenant now retention_visit tenants acc d) = filter P d \<and> (\<forall>r. now < i_expires r \<longrightarrow> P r)"
proof (induction tenants arbitrary: acc d)
  case Nil
  then show ?case by (auto intro: exI [of _ "\<lambda>_. True"])
next
  case (Cons t ts)
  show ?case
  proof (rule withTenant_cases [OF refl, of now "systemContextFor t" "retention_visit t" d])
    fix e assume "withTenant now (systemContextFor t) (retention_visit t) d = Inl e"
    then show ?thesis by (auto intro: exI [of _ "\<lambda>_. True"])
  next
    fix kind i
    assume run: "withTenant now (systemContextFor t) (retention_visit t) d =
      retention_visit t (tenant_session now (ctx_tenant (systemContextFor t)) kind i) d"
    let ?s = "tenant_session now (ctx_tenant (systemContextFor t)) kind i"
    let ?Q = "\<lambda>r. \<not> (idem_visible ?s r \<and> i_expires r \<le> s_now ?s)"
    obtain P where P: "snd (forEachTenant now retention_visit ts (acc @ []) (filter ?Q d)) = filter P (filter ?Q d)"
      "\<forall>r. now < i_expires r \<longrightarrow> P r" using Cons.IH by blast
    from run have "withTenant now (systemContextFor t) (retention_visit t) d = Inr ([], filter ?Q d)"
      by (simp add: retention_visit_def)
    then have "snd (forEachTenant now retention_visit (t # ts) acc d) = filter P (filter ?Q d)" using P(1) by simp
    then show ?thesis using P(2) by (intro exI [of _ "\<lambda>r. ?Q r \<and> P r"]) (auto intro: filter_cong)
  qed
qed

lemma idem_run_unique:
  assumes "unique_keys d"
  shows "unique_keys (idem_run now op d)"
proof (cases op)
  case (OpInsert ctx ref h)
  show ?thesis
  proof (cases "withTenant now ctx (claim_insert ref h) d")
    case (Inr y)
    obtain u d' where y: "y = (u, d')" by (cases y)
    obtain kind i where w: "claim_insert ref h (tenant_session now (ctx_tenant ctx) kind i) d = Inr (u, d')"
      using Inr y by (auto elim: withTenant_cases)
    from w obtain r where "d' = d @ [r]" "idem_key r \<notin> idem_key ` set d"
      by (rule claim_insert_Inr) auto
    then show ?thesis using assms OpInsert Inr y by (simp add: committed_def unique_keys_def)
  qed (use assms OpInsert in \<open>simp add: committed_def\<close>)
next
  case (OpHeld ctx ref h)
  show ?thesis
  proof (cases "withTenant now ctx (claim_held ref h) d")
    case (Inr y)
    obtain c d' where y: "y = (c, d')" by (cases y)
    obtain kind i where w: "claim_held ref h (tenant_session now (ctx_tenant ctx) kind i) d = Inr (c, d')"
      using Inr y by (auto elim: withTenant_cases)
    from w have "unique_keys d'"
      by (rule claim_held_table) (use assms in \<open>simp_all add: unique_map\<close>)
    then show ?thesis using OpHeld Inr y by (simp add: committed_def)
  qed (use assms OpHeld in \<open>simp add: committed_def\<close>)
next
  case (OpComplete ctx ref resp)
  show ?thesis
    by (cases "idem_complete now ctx ref resp d")
      (use assms OpComplete in \<open>auto simp: committed_def idem_complete_def withTenant_def idem_complete_work_def unique_map
        split: sum.splits\<close>)
next
  case (OpRelease ctx ref)
  show ?thesis
    by (cases "idem_release now ctx ref d")
      (use assms OpRelease in \<open>auto simp: committed_def idem_release_def withTenant_def idem_release_work_def unique_filter
        split: sum.splits\<close>)
next
  case (OpSweep tenants)
  then show ?thesis
    using assms retention_sweep_table [of now tenants "[]" d] by (auto simp: retention_sweep_def unique_filter)
qed

lemma idem_trace_unique: "unique_keys d \<Longrightarrow> unique_keys (idem_trace es d)"
  by (induction es d rule: idem_trace.induct) (simp_all add: idem_run_unique)

lemma idem_trace_append [simp]: "idem_trace (es @ fs) d = idem_trace fs (idem_trace es d)"
  by (induction es d rule: idem_trace.induct) simp_all

subsection \<open>A key is held until its deadline\<close>

definition held_until :: "ident \<Rightarrow> idem_ref \<Rightarrow> millis \<Rightarrow> idem_table \<Rightarrow> bool" where
  "held_until tenant ref deadline d \<longleftrightarrow> (\<exists>r \<in> set d. idem_key r = named tenant ref \<and> deadline \<le> i_expires r)"

lemma named_inj: "named t ref = named t' ref' \<longleftrightarrow> t = t' \<and> ref = ref'"
  by (cases ref; cases ref') (auto simp: named_def)

lemma held_map:
  "held_until t ref dl d \<Longrightarrow> (\<And>r. idem_key (f r) = idem_key r) \<Longrightarrow> (\<And>r. dl \<le> i_expires r \<Longrightarrow> dl \<le> i_expires (f r)) \<Longrightarrow>
   held_until t ref dl (map f d)"
  unfolding held_until_def by (metis image_eqI set_map)

lemma held_filter:
  "held_until t ref dl d \<Longrightarrow> (\<And>r. idem_key r = named t ref \<Longrightarrow> dl \<le> i_expires r \<Longrightarrow> P r) \<Longrightarrow> held_until t ref dl (filter P d)"
  by (auto simp: held_until_def)

lemma held_run:
  assumes h: "held_until t ref dl d" and now: "now < dl" and nr: "\<not> releases op t ref"
  shows "held_until t ref dl (idem_run now op d)"
proof (cases op)
  case (OpInsert ctx ref' hh)
  show ?thesis
  proof (cases "withTenant now ctx (claim_insert ref' hh) d")
    case (Inr y)
    obtain u d' where y: "y = (u, d')" by (cases y)
    obtain kind i where w: "claim_insert ref' hh (tenant_session now (ctx_tenant ctx) kind i) d = Inr (u, d')"
      using Inr y by (auto elim: withTenant_cases)
    from w obtain r where "d' = d @ [r]" by (rule claim_insert_Inr)
    then show ?thesis using h OpInsert Inr y by (auto simp: committed_def held_until_def)
  qed (use h OpInsert in \<open>simp add: committed_def\<close>)
next
  case (OpHeld ctx ref' hh)
  show ?thesis
  proof (cases "withTenant now ctx (claim_held ref' hh) d")
    case (Inr y)
    obtain c d' where y: "y = (c, d')" by (cases y)
    obtain kind i where w: "claim_held ref' hh (tenant_session now (ctx_tenant ctx) kind i) d = Inr (c, d')"
      using Inr y by (auto elim: withTenant_cases)
    from w have "held_until t ref dl d'"
    proof (rule claim_held_table)
      fix a assume "d' = map (\<lambda>r. if lapsed (tenant_session now (ctx_tenant ctx) kind i) ref' r
        then reclaim_row hh (tenant_session now (ctx_tenant ctx) kind i) a r else r) d"
      then show ?thesis using h now by (simp, intro held_map) (auto simp: lapsed_def)
    qed (use h in simp)
    then show ?thesis using OpHeld Inr y by (simp add: committed_def)
  qed (use h OpHeld in \<open>simp add: committed_def\<close>)
next
  case (OpComplete ctx ref' resp)
  then show ?thesis
    using h by (auto simp: committed_def idem_complete_def withTenant_def idem_complete_work_def
      split: sum.splits intro!: held_map)
next
  case (OpRelease ctx ref')
  show ?thesis
  proof (rule withTenant_cases [OF refl, of now ctx "idem_release_work ref'" d, folded idem_release_def])
    fix e assume "idem_release now ctx ref' d = Inl e"
    then show ?thesis using h OpRelease by (simp add: committed_def)
  next
    fix kind i
    assume run: "idem_release now ctx ref' d = idem_release_work ref' (tenant_session now (ctx_tenant ctx) kind i) d"
      and t: "ctx_tenant ctx \<noteq> []"
    have "named (ctx_tenant ctx) ref' \<noteq> named t ref" using nr OpRelease by (auto simp: named_inj)
    then show ?thesis using h OpRelease run t
      by (simp add: committed_def idem_release_work_def, intro held_filter) (auto simp: unfinished_def addresses_key)
  qed
next
  case (OpSweep tenants)
  obtain P where "snd (retention_sweep now tenants d) = filter P d" "\<forall>r. now < i_expires r \<longrightarrow> P r"
    using retention_sweep_table unfolding retention_sweep_def by blast
  then show ?thesis using h now OpSweep by (auto intro: held_filter)
qed

lemma held_trace:
  assumes "held_until t ref dl d" and "\<forall>e \<in> set es. fst e < dl \<and> \<not> releases (snd e) t ref"
  shows "held_until t ref dl (idem_trace es d)"
  using assms by (induction es d rule: idem_trace.induct) (simp_all add: held_run)

lemma grant_holds:
  assumes g: "grants now op t ref d"
  shows "held_until t ref (now + idempotency_retention) (idem_run now op d)"
proof (cases op)
  case (OpInsert ctx ref' h)
  with g have ctx: "ref' = ref" "ctx_tenant ctx = t" and ok: "is_ok (withTenant now ctx (claim_insert ref h) d)" by auto
  from ok obtain y where y: "withTenant now ctx (claim_insert ref h) d = Inr y"
    by (cases "withTenant now ctx (claim_insert ref h) d") auto
  obtain u d' where yy: "y = (u, d')" by (cases y)
  obtain kind i where w: "claim_insert ref h (tenant_session now t kind i) d = Inr (u, d')"
    using y yy ctx by (auto elim: withTenant_cases)
  from w obtain r where "d' = d @ [r]" "idem_key r = named t ref" "i_expires r = now + idempotency_retention"
    by (rule claim_insert_Inr) auto
  then show ?thesis using OpInsert ctx y yy by (auto simp: committed_def held_until_def)
next
  case (OpHeld ctx ref' h)
  with g have ctx: "ref' = ref" "ctx_tenant ctx = t" by auto
  from g OpHeld obtain d' where y: "withTenant now ctx (claim_held ref h) d = Inr (Some Fresh, d')"
    by (auto split: sum.splits option.splits idem_claim.splits prod.splits)
  obtain kind i where w: "claim_held ref h (tenant_session now t kind i) d = Inr (Some Fresh, d')" and t: "t \<noteq> []"
    using y ctx by (auto elim: withTenant_cases)
  let ?s = "tenant_session now t kind i"
  from w obtain a where l: "filter (lapsed ?s ref) d \<noteq> []"
    and d': "d' = map (\<lambda>r. if lapsed ?s ref r then reclaim_row h ?s a r else r) d"
    by (rule claim_held_table) auto
  from l obtain r where r: "r \<in> set d" "lapsed ?s ref r" by (auto simp: filter_empty_conv)
  then have "idem_key (reclaim_row h ?s a r) = named t ref" using t by (simp add: lapsed_def addresses_key)
  moreover have "reclaim_row h ?s a r \<in> set d'" using r d' by force
  ultimately show ?thesis using OpHeld ctx y by (auto simp: committed_def held_until_def reclaim_row_def)
qed (use g in auto)

lemma grant_lapsed:
  assumes g: "grants now op t ref d" and u: "unique_keys d" and h: "held_until t ref dl d"
  shows "dl \<le> now"
proof -
  obtain r where r: "r \<in> set d" "idem_key r = named t ref" "dl \<le> i_expires r" using h by (auto simp: held_until_def)
  show ?thesis
  proof (cases op)
    case (OpInsert ctx ref' hh)
    with g obtain y where ctx: "ref' = ref" "ctx_tenant ctx = t" and y: "withTenant now ctx (claim_insert ref hh) d = Inr y"
      by (cases "withTenant now ctx (claim_insert ref hh) d") auto
    obtain x d' where yy: "y = (x, d')" by (cases y)
    obtain kind i where w: "claim_insert ref hh (tenant_session now t kind i) d = Inr (x, d')"
      using y yy ctx by (auto elim: withTenant_cases)
    from w have "named t ref \<notin> idem_key ` set d" by (rule claim_insert_Inr) auto
    then show ?thesis using r by (metis image_eqI)
  next
    case (OpHeld ctx ref' hh)
    with g have ctx: "ref' = ref" "ctx_tenant ctx = t" by auto
    from g OpHeld ctx obtain d' where y: "withTenant now ctx (claim_held ref hh) d = Inr (Some Fresh, d')"
      by (auto split: sum.splits option.splits idem_claim.splits prod.splits)
    obtain kind i where w: "claim_held ref hh (tenant_session now t kind i) d = Inr (Some Fresh, d')" and t: "t \<noteq> []"
      using y ctx by (auto elim: withTenant_cases)
    from w have "filter (lapsed (tenant_session now t kind i) ref) d \<noteq> []" by (rule claim_held_table) auto
    then obtain q where q: "q \<in> set d" "idem_key q = named t ref" "i_expires q \<le> now"
      using t by (auto simp: filter_empty_conv lapsed_def addresses_key)
    then have "q = r" using r u by (intro distinct_key_eq [of idem_key d]) (simp_all add: unique_keys_def)
    then show ?thesis using q r by simp
  qed (use g in auto)
qed


subsection \<open>A completed record is what a retry is answered with\<close>

definition record_kept :: "ident \<Rightarrow> idem_ref \<Rightarrow> idem_row \<Rightarrow> idem_table \<Rightarrow> bool" where
  "record_kept tenant ref r d \<longleftrightarrow> unique_keys d \<and> r \<in> set d \<and> idem_key r = named tenant ref \<and> i_status r = Completed"

lemma settled_run:
  assumes s: "record_kept t ref r d" and now: "now < i_expires r"
  shows "record_kept t ref r (idem_run now op d)"
proof -
  have r: "r \<in> set d" "i_status r = Completed" using s by (simp_all add: record_kept_def)
  have keep: "r \<in> set (map (\<lambda>x. if Q x then f x else x) d)" if "\<not> Q r" for Q f
    using r(1) that by (auto simp: image_iff intro!: bexI [of _ r])
  have "r \<in> set (idem_run now op d)"
  proof (cases op)
    case (OpInsert ctx ref' h)
    show ?thesis
      using r(1) OpInsert by (auto simp: committed_def withTenant_def claim_insert_def split: sum.splits if_splits)
  next
    case (OpHeld ctx ref' h)
    show ?thesis
    proof (cases "withTenant now ctx (claim_held ref' h) d")
      case (Inr y)
      obtain c d' where y: "y = (c, d')" by (cases y)
      obtain kind i where "claim_held ref' h (tenant_session now (ctx_tenant ctx) kind i) d = Inr (c, d')"
        using Inr y by (auto elim: withTenant_cases)
      then have "r \<in> set d'"
        by (rule claim_held_table) (use r(1) now in \<open>auto simp: lapsed_def intro!: keep\<close>)
      then show ?thesis using OpHeld Inr y by (simp add: committed_def)
    qed (use r OpHeld in \<open>simp add: committed_def\<close>)
  next
    case (OpComplete ctx ref' resp)
    then show ?thesis
      using r by (auto simp: committed_def idem_complete_def withTenant_def idem_complete_work_def unfinished_def
        split: sum.splits intro!: keep simp del: set_map)
  next
    case (OpRelease ctx ref')
    then show ?thesis
      using r by (auto simp: committed_def idem_release_def withTenant_def idem_release_work_def unfinished_def split: sum.splits)
  next
    case (OpSweep tenants)
    then show ?thesis using r now retention_sweep_table [of now tenants "[]" d] by (auto simp: retention_sweep_def)
  qed
  then show ?thesis using s idem_run_unique by (simp add: record_kept_def)
qed

lemma settled_trace:
  assumes "record_kept t ref r d" and "\<forall>e \<in> set es. fst e < i_expires r"
  shows "record_kept t ref r (idem_trace es d)"
  using assms by (induction es d rule: idem_trace.induct) (simp_all add: settled_run)

lemma find_addressed:
  assumes "unique_keys d" and "r \<in> set d" and "idem_key r = named (s_tenant s) ref" and "s_tenant s \<noteq> []"
  shows "find (addresses s ref) d = Some r"
proof -
  obtain q where q: "find (addresses s ref) d = Some q"
    using assms by (cases "find (addresses s ref) d") (auto simp: find_None_iff addresses_key)
  then have "q \<in> set d" "idem_key q = idem_key r" using find_SomeD [OF q] assms by (simp_all add: addresses_key)
  then have "q = r" using assms by (intro distinct_key_eq [of idem_key d]) (simp_all add: unique_keys_def)
  then show ?thesis using q by simp
qed

text \<open>What other requests do between the transactions of one claim.\<close>

definition meanwhile :: "(nat \<Rightarrow> (millis \<times> idem_op) list) \<Rightarrow> nat \<Rightarrow> idem_table \<Rightarrow> idem_table" where
  "meanwhile g n d = idem_trace (g n) d"

lemma settled_claim:
  assumes s: "record_kept (ctx_tenant ctx) ref r d" and now: "now < i_expires r"
    and ctx: "contextSettings ctx = Inr (ctx_tenant ctx, kind, i)" and g: "\<forall>e \<in> set (g n). fst e < i_expires r"
  shows "attemptClaim (meanwhile g) now ctx ref h n d =
    (Inr (if h \<noteq> None \<and> Some (i_hash r) \<noteq> h then Mismatch else Replay (map_option (\<lambda>c. (c, i_body r)) (i_code r))), meanwhile g n d)"
proof -
  let ?s = "tenant_session now (ctx_tenant ctx) kind i"
  obtain a where a: "current_actor ?s = Inr a" using armed_actor_exists [OF ctx] by blast
  have t: "ctx_tenant ctx \<noteq> []" using contextSettings_shape(2) [OF ctx] is_uuid_not_Nil by blast
  have "named (ctx_tenant ctx) ref \<in> idem_key ` set d" using s by (force simp: record_kept_def)
  then have ins: "claim_insert ref h ?s d = Inl (RawError (Some ''P2002'') None)"
    by (auto simp: claim_insert_def a named_def idem_key_def split: prod.split)
  have s': "record_kept (ctx_tenant ctx) ref r (meanwhile g n d)" using settled_trace [OF s g] by (simp add: meanwhile_def)
  have f: "find (addresses ?s ref) (meanwhile g n d) = Some r"
    using s' t by (intro find_addressed) (auto simp: record_kept_def)
  have "filter (lapsed ?s ref) (meanwhile g n d) = []"
  proof (clarsimp simp: filter_empty_conv lapsed_def)
    fix x assume x: "x \<in> set (meanwhile g n d)" "addresses ?s ref x" "i_expires x \<le> now"
    then have "x = r"
      using s' t by (intro distinct_key_eq [of idem_key "meanwhile g n d"]) (auto simp: record_kept_def unique_keys_def addresses_key)
    then show False using x(3) now by simp
  qed
  then have "claim_held ref h ?s (meanwhile g n d) =
      Inr (Some (if h \<noteq> None \<and> Some (i_hash r) \<noteq> h then Mismatch else Replay (map_option (\<lambda>c. (c, i_body r)) (i_code r))), meanwhile g n d)"
    using f s' by (simp add: claim_held_def a record_kept_def)
  then show ?thesis by (simp add: attemptClaim.simps [of _ _ _ _ _ n] withTenant_def ctx ins)
qed

definition claimed :: "ident \<Rightarrow> idem_ref \<Rightarrow> string option \<Rightarrow> millis \<Rightarrow> idem_table \<Rightarrow> bool" where
  "claimed tenant ref h now d \<longleftrightarrow> unique_keys d \<and>
     (\<exists>r \<in> set d. idem_key r = named tenant ref \<and> i_status r = InProgress \<and> i_hash r = hash_column h \<and> i_body r = None \<and>
        i_expires r = now + idempotency_retention)"

lemma attempt_cases [consumes 1, case_names inserted held again]:
  assumes "attemptClaim between now ctx ref h n d = (Inr Fresh, d')"
    and "\<And>s u. claim_insert ref h s d = Inr (u, d') \<Longrightarrow> s_tenant s = ctx_tenant ctx \<Longrightarrow> s_now s = now \<Longrightarrow> P"
    and "\<And>s. claim_held ref h s (between n d) = Inr (Some Fresh, d') \<Longrightarrow> s_tenant s = ctx_tenant ctx \<Longrightarrow>
      s_tenant s \<noteq> [] \<Longrightarrow> s_now s = now \<Longrightarrow> P"
    and "\<And>m. n = Suc m \<Longrightarrow> attemptClaim between now ctx ref h m (between n d) = (Inr Fresh, d') \<Longrightarrow> P"
  shows P
proof (rule withTenant_cases [OF refl, of now ctx "claim_insert ref h" d])
  fix e assume "withTenant now ctx (claim_insert ref h) d = Inl e" "contextSettings ctx = Inl e"
  then show P using assms(1) by (simp add: attemptClaim.simps withTenant_def split: if_splits)
next
  fix kind i a
  let ?s = "tenant_session now (ctx_tenant ctx) kind i"
  assume ctx: "contextSettings ctx = Inr (ctx_tenant ctx, kind, i)" "ctx_tenant ctx \<noteq> []"
  have w: "withTenant now ctx work x = work ?s x" for work :: "(idem_table, 'b) transaction" and x
    by (simp add: withTenant_def ctx)
  show P
  proof (cases "claim_insert ref h ?s d")
    case (Inr y)
    then have "claim_insert ref h ?s d = Inr (fst y, d')"
      using assms(1) by (cases y) (simp add: attemptClaim.simps w)
    then show P by (rule assms(2)) simp_all
  next
    case (Inl e)
    show P
    proof (cases "claim_held ref h ?s (between n d)")
      case (Inr y)
      obtain c d1 where y: "y = (c, d1)" by (cases y)
      show P
      proof (cases c)
        case None
        then have d1: "d1 = between n d" using Inr y by (auto simp: claim_held_def split: sum.splits if_splits option.splits)
        show P
          by (rule assms(4) [of "n - 1"])
            (use assms(1) Inl Inr y None d1 in \<open>auto simp: attemptClaim.simps [of _ _ _ _ _ n] w split: if_splits nat.splits\<close>)
      next
        case (Some x)
        then have "claim_held ref h ?s (between n d) = Inr (Some Fresh, d')"
          using assms(1) Inl Inr y by (simp add: attemptClaim.simps w split: if_splits)
        then show P by (rule assms(3)) (simp_all add: ctx)
      qed
    qed (use assms(1) Inl in \<open>simp add: attemptClaim.simps w split: if_splits\<close>)
  qed
qed

lemma fresh_claimed:
  assumes "attemptClaim (meanwhile g) now ctx ref h n d = (Inr Fresh, d')" and "unique_keys d"
  shows "claimed (ctx_tenant ctx) ref h now d'"
  using assms
proof (induction n arbitrary: d rule: less_induct)
  case (less n)
  have u: "unique_keys (meanwhile g n d)" using less.prems(2) by (simp add: meanwhile_def idem_trace_unique)
  from less.prems(1) show ?case
  proof (cases rule: attempt_cases)
    case (inserted s x)
    from inserted(1) show ?thesis
      by (rule claim_insert_Inr) (use inserted(2,3) less.prems(2) in \<open>auto simp: claimed_def unique_keys_def\<close>)
  next
    case (held s)
    from held(1) show ?thesis
    proof (rule claim_held_table)
      fix a
      assume l: "filter (lapsed s ref) (meanwhile g n d) \<noteq> []"
        and d': "d' = map (\<lambda>r. if lapsed s ref r then reclaim_row h s a r else r) (meanwhile g n d)"
      from l obtain r where r: "r \<in> set (meanwhile g n d)" "lapsed s ref r" by (auto simp: filter_empty_conv)
      then have "idem_key (reclaim_row h s a r) = named (ctx_tenant ctx) ref" using held by (simp add: lapsed_def addresses_key)
      moreover have "reclaim_row h s a r \<in> set d'" using r d' by force
      moreover have "unique_keys d'" using d' u by (simp add: unique_map)
      ultimately show ?thesis using held by (auto simp: claimed_def reclaim_row_def intro!: bexI [of _ "reclaim_row h s a r"])
    qed simp
  next
    case (again m)
    then show ?thesis using less.IH [of m "meanwhile g n d"] u by simp
  qed
qed

lemma complete_claimed:
  assumes c: "claimed (ctx_tenant ctx) ref (Some h) now d" and run: "idem_complete now ctx ref (Some (code, body)) d = Inr (x, d')"
  obtains r where "record_kept (ctx_tenant ctx) ref r d'" "i_hash r = h" "i_code r = Some code" "i_body r = body"
    "i_expires r = now + idempotency_retention"
proof -
  obtain kind i where t: "ctx_tenant ctx \<noteq> []"
    and d': "d' = map (\<lambda>r. if unfinished (tenant_session now (ctx_tenant ctx) kind i) ref r then complete_row (Some (code, body)) r else r) d"
    using run unfolding idem_complete_def by (rule withTenant_cases) (auto simp: idem_complete_work_def)
  obtain r where r: "r \<in> set d" "idem_key r = named (ctx_tenant ctx) ref" "i_status r = InProgress" "i_hash r = h" "i_body r = None"
      "i_expires r = now + idempotency_retention" and u: "unique_keys d"
    using c by (auto simp: claimed_def hash_column_def)
  let ?r = "complete_row (Some (code, body)) r"
  have "unfinished (tenant_session now (ctx_tenant ctx) kind i) ref r" using r t by (simp add: unfinished_def addresses_key)
  then have "?r \<in> set d'" using d' r(1) by force
  moreover have "unique_keys d'" using u d' by (simp add: unique_map)
  moreover have "i_status ?r = Completed" "i_hash ?r = h" "i_code ?r = Some code" "i_body ?r = body"
    using r by (simp_all add: complete_row_def split: option.split)
  ultimately show ?thesis using r that [of ?r] by (simp add: record_kept_def)
qed

lemma complete_keeps:
  assumes c: "claimed (ctx_tenant ctx) ref h now d" and run: "idem_complete now' ctx ref response d = Inr (x, d')"
  shows "\<exists>r. record_kept (ctx_tenant ctx) ref r d' \<and> i_expires r = now + idempotency_retention"
proof -
  obtain kind i where t: "ctx_tenant ctx \<noteq> []"
    and d': "d' = map (\<lambda>r. if unfinished (tenant_session now' (ctx_tenant ctx) kind i) ref r then complete_row response r else r) d"
    using run unfolding idem_complete_def by (rule withTenant_cases) (auto simp: idem_complete_work_def)
  obtain r where r: "r \<in> set d" "idem_key r = named (ctx_tenant ctx) ref" "i_status r = InProgress"
      "i_expires r = now + idempotency_retention" and u: "unique_keys d"
    using c by (auto simp: claimed_def)
  have "unfinished (tenant_session now' (ctx_tenant ctx) kind i) ref r" using r t by (simp add: unfinished_def addresses_key)
  then have "complete_row response r \<in> set d'" using d' r(1) by force
  moreover have "unique_keys d'" using u d' by (simp add: unique_map)
  moreover have "i_status (complete_row response r) = Completed" "i_expires (complete_row response r) = i_expires r"
    by (auto simp: complete_row_def split: option.split)
  ultimately show ?thesis using r by (intro exI [of _ "complete_row response r"]) (simp add: record_kept_def)
qed

subsection \<open>The interceptor on a keyed request\<close>

text \<open>A POST of an authenticated caller that carries a usable key.\<close>

definition keyed :: "post_request \<Rightarrow> request_principal \<Rightarrow> idem_ref \<Rightarrow> bool" where
  "keyed rq p ref \<longleftrightarrow> rq_method rq = ''POST'' \<and> rq_principal rq = Some p \<and>
     (\<exists>k. headerValue (rq_key rq) = Inr (Some k) \<and> length k \<le> MAX_KEY_LENGTH \<and>
        ref = \<lparr>ref_scope = httpScope p ''POST'' (rq_url rq), ref_key = k\<rparr>)"

lemma intercept_keyed:
  assumes "keyed rq p ref" and "idempotencyContextFor p = Inr ctx"
  shows "intercept sha between fl now rq handle d w =
    (case idem_claim_op between now ctx ref (Some (requestFingerprint sha (rq_body rq))) d of
       (Inl e, d') \<Rightarrow> (Inl e, d', w)
     | (Inr Mismatch, d') \<Rightarrow> (Inl key_reused, d', w)
     | (Inr InFlight, d') \<Rightarrow> (Inl key_in_flight, d', w)
     | (Inr (Replay stored), d') \<Rightarrow> (Inr (replay_reply stored), d', w)
     | (Inr Fresh, d') \<Rightarrow> runAndSettle fl now ctx ref handle d' w)"
  using assms by (auto simp: intercept_def keyed_def Let_def)

lemma idempotencyContext_tenant: "idempotencyContextFor p = Inr ctx \<Longrightarrow> ctx_tenant ctx = tenantOf p"
  by (auto simp: idempotencyContextFor_def tenantContextFor_def systemContextFor_def
    split: request_principal.splits option.splits sum.splits prod.splits if_splits)

lemma replay_reply_replayed [simp]: "rp_replayed (replay_reply x)"
  by (simp add: replay_reply_def split: option.split prod.split)

lemma claim_when_free:
  assumes ctx: "contextSettings ctx = Inr st" and free: "named (ctx_tenant ctx) ref \<notin> idem_key ` set d"
  obtains r where "idem_claim_op between now ctx ref h d = (Inr Fresh, d @ [r])"
    "idem_key r = named (ctx_tenant ctx) ref" "i_status r = InProgress"
proof -
  obtain kind i where st: "contextSettings ctx = Inr (ctx_tenant ctx, kind, i)"
    using ctx contextSettings_shape(1) by (cases st) fastforce
  obtain k a where "current_actor (tenant_session now (ctx_tenant ctx) kind i) = Inr (k, a)"
    using armed_actor_exists [OF st] by fastforce
  moreover have "(ctx_tenant ctx, ref_scope ref, ref_key ref) \<notin> (\<lambda>r. (i_tenant r, i_scope r, i_key r)) ` set d"
    using free by (auto simp: named_def idem_key_def)
  ultimately obtain d' where ins: "claim_insert ref h (tenant_session now (ctx_tenant ctx) kind i) d = Inr ((), d')"
    by (simp add: claim_insert_def)
  from ins obtain r where "d' = d @ [r]" "idem_key r = named (ctx_tenant ctx) ref" "i_status r = InProgress"
    by (rule claim_insert_Inr) simp
  then show ?thesis using ins by (intro that) (simp_all add: idem_claim_op_def attemptClaim.simps withTenant_def st)
qed

lemma release_claimed:
  assumes ctx: "contextSettings ctx = Inr st" and free: "named (ctx_tenant ctx) ref \<notin> idem_key ` set d"
    and r: "idem_key r = named (ctx_tenant ctx) ref" "i_status r = InProgress"
  shows "idem_release now ctx ref (d @ [r]) = Inr ((), d)"
proof -
  obtain kind i where st: "contextSettings ctx = Inr (ctx_tenant ctx, kind, i)"
    using ctx contextSettings_shape(1) by (cases st) fastforce
  have t: "ctx_tenant ctx \<noteq> []" using contextSettings_shape(2) [OF st] is_uuid_not_Nil by blast
  have "\<not> unfinished (tenant_session now (ctx_tenant ctx) kind i) ref x" if "x \<in> set d" for x
    using imageI [OF that, of idem_key] free t by (auto simp: unfinished_def addresses_key)
  then have "filter (\<lambda>x. \<not> unfinished (tenant_session now (ctx_tenant ctx) kind i) ref x) d = d" by (simp add: filter_id_conv)
  then show ?thesis
    using r t by (simp add: idem_release_def withTenant_def st idem_release_work_def unfinished_def addresses_key)
qed

lemma complete_total: "contextSettings ctx = Inr st \<Longrightarrow> \<exists>d'. idem_complete now ctx ref resp d = Inr ((), d')"
  by (auto simp: idem_complete_def withTenant_def idem_complete_work_def split: prod.split)

subsection \<open>Scopes\<close>

lemma principalRef_inj:
  "principalRef p = principalRef p' \<longleftrightarrow> kindOf p = kindOf p' \<and> drop 2 (principalRef p) = drop 2 (principalRef p')"
  by (cases p; cases p') auto

lemma append_sep_inj:
  fixes c :: char
  assumes "c \<notin> set u" and "c \<notin> set u'"
  shows "u @ c # v = u' @ c # v' \<longleftrightarrow> u = u' \<and> v = v'"
proof
  assume eq: "u @ c # v = u' @ c # v'"
  then have "u # split_on c v = u' # split_on c v'" using split_on_append_sep [OF assms(1), of v] split_on_append_sep [OF assms(2), of v'] by simp
  then show "u = u' \<and> v = v'" using eq by simp
qed simp

section \<open>Properties\<close>

text \<open>
  C28. A key is handed out once per window: however the transactions of concurrent requests and
  sweeps interleave, two claims on the same key of the same tenant are both answered
  \<open>fresh\<close> only when the key was released in between or the retention of 24 hours has passed.
\<close>

theorem one_grant_per_window:
  assumes "unique_keys d"
    and "grants t1 op1 tenant ref (idem_trace before d)"
    and "grants t2 op2 tenant ref (idem_trace (before @ (t1, op1) # mid) d)"
    and "\<forall>e \<in> set mid. fst e \<le> t2 \<and> \<not> releases (snd e) tenant ref"
  shows "t1 + idempotency_retention \<le> t2"
proof (rule ccontr)
  assume early: "\<not> t1 + idempotency_retention \<le> t2"
  let ?d1 = "idem_run t1 op1 (idem_trace before d)"
  have "held_until tenant ref (t1 + idempotency_retention) (idem_trace mid ?d1)"
    by (rule held_trace [OF grant_holds [OF assms(2)]]) (use assms(4) early in force)
  moreover have "unique_keys (idem_trace mid ?d1)" using assms(1) by (simp add: idem_trace_unique idem_run_unique)
  ultimately have "t1 + idempotency_retention \<le> t2" using assms(3) grant_lapsed by simp
  with early show False by simp
qed



text \<open>
  Callers cannot reach each other's records: the scopes of two requests coincide only when
  they name the same kind of caller with the same id, the same method and the same url, for
  any ids without a bar and methods without a blank. A widget visitor keeps its scope when its
  contact comes into being.
\<close>

theorem scope_separates_callers:
  assumes "CHR ''|'' \<notin> set (principalRef p)" and "CHR ''|'' \<notin> set (principalRef p')"
    and "CHR '' '' \<notin> set m" and "CHR '' '' \<notin> set m'"
  shows "(httpScope p m u = httpScope p' m' u' \<longleftrightarrow>
      kindOf p = kindOf p' \<and> drop 2 (principalRef p) = drop 2 (principalRef p') \<and> m = m' \<and> u = u') \<and>
    httpScope (WidgetPrincipal t w None) m u = httpScope (WidgetPrincipal t w (Some c)) m u"
  using assms by (auto simp: httpScope_def append_sep_inj principalRef_inj)

text \<open>
  A request whose handler succeeded can run twice: when the update that marks the record
  completed fails, the claim is released as if the handler had failed, although its effect
  is committed; the table is as before the request, and the retry with the same key runs the
  handler again.
\<close>

theorem failed_settle_runs_again:
  assumes rq: "keyed rq p ref" and ctx: "idempotencyContextFor p = Inr ctx" and arms: "contextSettings ctx = Inr st"
    and free: "named (tenantOf p) ref \<notin> idem_key ` set d"
    and once: "handle w = (Inr (code, body), w1)" and twice: "handle w1 = (Inr (code', body'), w2)"
  shows "intercept sha between \<lparr>complete_fault = Some e, release_fault = None\<rparr> now rq handle d w = (Inl e, d, w1) \<and>
    (\<exists>d2. intercept sha between' \<lparr>complete_fault = None, release_fault = None\<rparr> now' rq handle d w1 =
       (Inr \<lparr>rp_code = code', rp_body = body', rp_replayed = False\<rparr>, d2, w2))"
proof
  let ?h = "Some (requestFingerprint sha (rq_body rq))"
  have free': "named (ctx_tenant ctx) ref \<notin> idem_key ` set d" using free idempotencyContext_tenant [OF ctx] by simp
  obtain r where r: "idem_claim_op between now ctx ref ?h d = (Inr Fresh, d @ [r])"
      "idem_key r = named (ctx_tenant ctx) ref" "i_status r = InProgress"
    using claim_when_free [OF arms free'] .
  show "intercept sha between \<lparr>complete_fault = Some e, release_fault = None\<rparr> now rq handle d w = (Inl e, d, w1)"
    using release_claimed [OF arms free' r(2,3), of now]
    by (simp add: intercept_keyed [OF rq ctx] r(1) runAndSettle_def complete_or_fail_def once release_quietly_def)
  obtain q where q: "idem_claim_op between' now' ctx ref ?h d = (Inr Fresh, d @ [q])"
    using claim_when_free [OF arms free'] .
  obtain d2 where "idem_complete now' ctx ref (Some (code', body')) (d @ [q]) = Inr ((), d2)"
    using complete_total [OF arms] by blast
  then show "\<exists>d2. intercept sha between' \<lparr>complete_fault = None, release_fault = None\<rparr> now' rq handle d w1 =
       (Inr \<lparr>rp_code = code', rp_body = body', rp_replayed = False\<rparr>, d2, w2)"
    by (simp add: intercept_keyed [OF rq ctx] q runAndSettle_def complete_or_fail_def twice)
qed


section \<open>A sample exchange\<close>

definition idem_tenant :: ident where "idem_tenant = ''00000000-0000-4000-8000-00000000000a''"
definition idem_agent :: request_principal where
  "idem_agent = StaffPrincipal idem_tenant ''00000000-0000-4000-8000-00000000000b'' ''agent''"

definition create_ticket :: "string \<Rightarrow> post_request" where
  "create_ticket subject = \<lparr>rq_method = ''POST'', rq_key = HOnce '' k-1 '', rq_principal = Some idem_agent,
     rq_url = ''/tickets'', rq_body = Some (JObj [(''subject'', JStr subject)])\<rparr>"

definition create_ref :: idem_ref where
  "create_ref = \<lparr>ref_scope = ''u:00000000-0000-4000-8000-00000000000b|POST /tickets'', ref_key = ''k-1''\<rparr>"

definition idem_ctx :: tenant_context where
  "idem_ctx = \<lparr>ctx_tenant = idem_tenant, ctx_actor_kind = Some ''user'',
     ctx_actor_id = Some ''00000000-0000-4000-8000-00000000000b''\<rparr>"

text \<open>A handler that counts its effects.\<close>

definition counting :: "nat handler" where
  "counting n = (Inr (201, Some (JNum (JInt (int n)))), Suc n)"

definition no_faults :: settle_faults where
  "no_faults = \<lparr>complete_fault = None, release_fault = None\<rparr>"

definition idle :: "nat \<Rightarrow> (millis \<times> idem_op) list" where
  "idle n = []"

lemma create_keyed: "keyed (create_ticket subj) idem_agent create_ref"
proof -
  have "headerValue (HOnce '' k-1 '') = Inr (Some ''k-1'')" by code_simp
  then show ?thesis
    by (simp add: keyed_def create_ticket_def create_ref_def idem_agent_def httpScope_def MAX_KEY_LENGTH_def)
qed

lemma idem_agent_context:
  "idempotencyContextFor idem_agent = Inr idem_ctx"
  "contextSettings idem_ctx = Inr (idem_tenant, ''user'', ''00000000-0000-4000-8000-00000000000b'')"
  by code_simp+

lemma no_rows_unique [simp]: "unique_keys []"
  by (simp add: unique_keys_def)

theorem one_grant_per_window_witness: "0 + idempotency_retention \<le> (86400000 :: millis)"
proof (rule one_grant_per_window [of "[]" 0 "OpInsert idem_ctx create_ref None" idem_tenant create_ref "[]"
      86400000 "OpHeld idem_ctx create_ref (Some ''h'')" "[(5, OpInsert idem_ctx create_ref None), (7, OpSweep [idem_tenant])]"])
  show "grants 0 (OpInsert idem_ctx create_ref None) idem_tenant create_ref (idem_trace [] [])" by code_simp
  show "grants 86400000 (OpHeld idem_ctx create_ref (Some ''h'')) idem_tenant create_ref
    (idem_trace ([] @ (0, OpInsert idem_ctx create_ref None) #
       [(5, OpInsert idem_ctx create_ref None), (7, OpSweep [idem_tenant])]) [])" by code_simp
qed simp_all


theorem scope_separates_callers_witness:
  "httpScope idem_agent ''POST'' ''/tickets'' \<noteq>
   httpScope (ContactPrincipal idem_tenant ''00000000-0000-4000-8000-00000000000b'') ''POST'' ''/tickets''"
  using scope_separates_callers [of idem_agent "ContactPrincipal idem_tenant ''00000000-0000-4000-8000-00000000000b''" "''POST''" "''POST''"]
  by (simp add: idem_agent_def)

theorem failed_settle_runs_again_witness:
  "intercept (\<lambda>t. t) (meanwhile idle) \<lparr>complete_fault = Some (RawError None None), release_fault = None\<rparr> 0
      (create_ticket ''a'') counting [] 0 = (Inl (RawError None None), [], 1) \<and>
   (\<exists>d2. intercept (\<lambda>t. t) (meanwhile idle) no_faults 10 (create_ticket ''a'') counting [] 1 =
      (Inr \<lparr>rp_code = 201, rp_body = Some (JNum (JInt 1)), rp_replayed = False\<rparr>, d2, 2))"
  unfolding no_faults_def
  by (rule failed_settle_runs_again [OF create_keyed idem_agent_context]) (simp_all add: counting_def)

end
