(* ===== verification/Slack_Events.thy ===== *)
theory Slack_Events
  imports Idempotency Complex_Main
begin

text \<open>
  What arrives from Slack, before anything is written: the signature over the raw bytes
  (\<open>src/src/integrations/signature-scheme.ts\<close>, \<open>src/src/slack/slack-signature.ts\<close>), the
  envelope and the message inside it (\<open>slack-event.ts\<close>) and the subject derived from its
  text (\<open>slack-subject.ts\<close>). The keyed hash is an argument.
\<close>

section \<open>Numbers in headers\<close>

text \<open>
  \<open>Number(s)\<close> where it is finite: the numeric literals of the language with white space
  around them. The value is exact; the rounding to a double is left out, except that what
  rounds to an infinity is not finite.
\<close>

definition digit_value :: "nat \<Rightarrow> string \<Rightarrow> nat" where
  "digit_value base ds = foldl (\<lambda>n c. base * n + (case hex_of (lower_char c) of None \<Rightarrow> 0 | Some k \<Rightarrow> k)) 0 ds"

definition radix_literal :: "nat \<Rightarrow> string \<Rightarrow> rat option" where
  "radix_literal base ds =
     (if ds \<noteq> [] \<and> list_all (\<lambda>c. case hex_of (lower_char c) of None \<Rightarrow> False | Some k \<Rightarrow> k < base) ds
      then Some (of_nat (digit_value base ds)) else None)"

definition exponent_part :: "string \<Rightarrow> int option" where
  "exponent_part s =
     (case s of
        [] \<Rightarrow> Some 0
      | c # r \<Rightarrow>
          if c \<notin> {CHR ''e'', CHR ''E''} then None
          else (let (sign, ds) = (case r of
                    CHR ''-'' # q \<Rightarrow> (-1, q)
                  | CHR ''+'' # q \<Rightarrow> (1, q)
                  | _ \<Rightarrow> (1 :: int, r))
                in if ds \<noteq> [] \<and> list_all is_digit ds then Some (sign * int (undecimal ds)) else None))"

definition decimal_literal :: "string \<Rightarrow> rat option" where
  "decimal_literal s =
     (let whole = takeWhile is_digit s;
          r1 = dropWhile is_digit s;
          (frac, r2) = (case r1 of
              CHR ''.'' # q \<Rightarrow> (takeWhile is_digit q, dropWhile is_digit q)
            | _ \<Rightarrow> ([], r1))
      in if whole @ frac = [] then None
         else (case exponent_part r2 of
                 None \<Rightarrow> None
               | Some e \<Rightarrow>
                   (let n = of_nat (undecimal (whole @ frac)) :: rat;
                        k = e - int (length frac)
                    in Some (if 0 \<le> k then n * 10 ^ nat k else n / 10 ^ nat (- k)))))"

definition numeric_literal :: "string \<Rightarrow> rat option" where
  "numeric_literal s =
     (case s of
        [] \<Rightarrow> Some 0
      | CHR ''-'' # r \<Rightarrow> map_option uminus (decimal_literal r)
      | CHR ''+'' # r \<Rightarrow> decimal_literal r
      | CHR ''0'' # c # r \<Rightarrow>
          if c \<in> {CHR ''x'', CHR ''X''} then radix_literal 16 r
          else if c \<in> {CHR ''o'', CHR ''O''} then radix_literal 8 r
          else if c \<in> {CHR ''b'', CHR ''B''} then radix_literal 2 r
          else decimal_literal s
      | _ \<Rightarrow> decimal_literal s)"

definition finite_number :: "string \<Rightarrow> rat option" where
  "finite_number s =
     (case numeric_literal (trim s) of
        None \<Rightarrow> None
      | Some x \<Rightarrow> if \<bar>x\<bar> < 2 ^ 1024 - 2 ^ 970 then Some x else None)"

section \<open>Signatures\<close>

record signature_scheme =
  sg_signature_header :: string
  sg_timestamp_header :: string
  sg_prefix :: string
  sg_window :: int
  sg_base :: "string \<Rightarrow> string \<Rightarrow> string"

type_synonym header_list = "(string \<times> header_value) list"

record signature_check =
  ck_headers :: header_list
  ck_body :: string
  ck_secret :: string
  ck_now :: millis

datatype signature_failure = missing_headers | stale_timestamp | bad_signature

fun scheme_header :: "header_list \<Rightarrow> string \<Rightarrow> string option" where
  "scheme_header [] name = None"
| "scheme_header ((key, v) # rest) name =
     (if lower key \<noteq> lower name then scheme_header rest name
      else (case v of HOnce value \<Rightarrow> Some value | _ \<Rightarrow> None))"

definition given :: "string option \<Rightarrow> string option" where
  "given v = (case v of None \<Rightarrow> None | Some x \<Rightarrow> if x = [] then None else Some x)"

definition verifySignature ::
  "(string \<Rightarrow> string \<Rightarrow> string) \<Rightarrow> signature_scheme \<Rightarrow> signature_check \<Rightarrow> signature_failure + unit" where
  "verifySignature hmac scheme c =
     (case (given (scheme_header (ck_headers c) (sg_signature_header scheme)),
            given (scheme_header (ck_headers c) (sg_timestamp_header scheme))) of
        (Some signature, Some timestamp) \<Rightarrow>
          (case finite_number timestamp of
             None \<Rightarrow> Inl missing_headers
           | Some sentAt \<Rightarrow>
               if of_int (sg_window scheme) < \<bar>of_int (ck_now c) / 1000 - sentAt\<bar> then Inl stale_timestamp
               else (let expected = sg_prefix scheme @ hmac (ck_secret c) (sg_base scheme timestamp (ck_body c))
                     in if length expected \<noteq> length signature then Inl bad_signature
                        else if expected = signature then Inr () else Inl bad_signature))
      | _ \<Rightarrow> Inl missing_headers)"

definition SLACK_SIGNATURE_SCHEME :: signature_scheme where
  "SLACK_SIGNATURE_SCHEME =
     \<lparr>sg_signature_header = ''x-slack-signature'', sg_timestamp_header = ''x-slack-request-timestamp'',
      sg_prefix = ''v0='', sg_window = 300,
      sg_base = (\<lambda>timestamp body. ''v0:'' @ timestamp @ '':'' @ body)\<rparr>"

section \<open>Envelopes and messages\<close>

datatype slack_envelope =
    EnvChallenge string
  | EnvEvent string string "json option"
  | EnvIgnored

record slack_utterance =
  ut_channel :: string
  ut_thread :: string
  ut_user :: string
  ut_text :: string

datatype slack_message = MsgOpens slack_utterance | MsgReplies slack_utterance | MsgIgnored

fun asRecord :: "json option \<Rightarrow> (string \<times> json) list option" where
  "asRecord (Some (JObj kvs)) = Some kvs"
| "asRecord _ = None"

fun asText :: "json option \<Rightarrow> string option" where
  "asText (Some (JStr s)) = (if s = [] then None else Some s)"
| "asText _ = None"

definition readSlackEnvelope :: "json option \<Rightarrow> slack_envelope" where
  "readSlackEnvelope payload =
     (case asRecord payload of
        None \<Rightarrow> EnvIgnored
      | Some body \<Rightarrow>
          if map_of body ''type'' = Some (JStr ''url_verification'')
          then (case asText (map_of body ''challenge'') of None \<Rightarrow> EnvIgnored | Some c \<Rightarrow> EnvChallenge c)
          else if map_of body ''type'' \<noteq> Some (JStr ''event_callback'') then EnvIgnored
          else (case (asText (map_of body ''team_id''), asText (map_of body ''event_id'')) of
                  (Some team, Some event) \<Rightarrow> EnvEvent team event (map_of body ''event'')
                | _ \<Rightarrow> EnvIgnored))"

definition readSlackMessage :: "json option \<Rightarrow> string \<Rightarrow> slack_message" where
  "readSlackMessage event botUserId =
     (case asRecord event of
        None \<Rightarrow> MsgIgnored
      | Some m \<Rightarrow>
          if map_of m ''type'' \<noteq> Some (JStr ''message'') then MsgIgnored
          else if map_of m ''subtype'' \<noteq> None then MsgIgnored
          else if map_of m ''bot_id'' \<noteq> None then MsgIgnored
          else (case asText (map_of m ''user'') of
                  None \<Rightarrow> MsgIgnored
                | Some user \<Rightarrow>
                    if user = botUserId then MsgIgnored
                    else (case (asText (map_of m ''channel''), asText (map_of m ''ts''),
                                given (map_option trim (asText (map_of m ''text'')))) of
                            (Some channel, Some ts, Some body) \<Rightarrow>
                              (case asText (map_of m ''thread_ts'') of
                                 None \<Rightarrow> MsgOpens \<lparr>ut_channel = channel, ut_thread = ts, ut_user = user, ut_text = body\<rparr>
                               | Some thread \<Rightarrow>
                                   if thread = ts
                                   then MsgOpens \<lparr>ut_channel = channel, ut_thread = ts, ut_user = user, ut_text = body\<rparr>
                                   else MsgReplies \<lparr>ut_channel = channel, ut_thread = thread, ut_user = user, ut_text = body\<rparr>)
                          | _ \<Rightarrow> MsgIgnored)))"

fun utterance :: "slack_message \<Rightarrow> slack_utterance option" where
  "utterance (MsgOpens u) = Some u"
| "utterance (MsgReplies u) = Some u"
| "utterance MsgIgnored = None"

section \<open>Subjects\<close>

definition MAX_DERIVED_SUBJECT :: nat where "MAX_DERIVED_SUBJECT = 120"
definition FALLBACK_SUBJECT :: string where "FALLBACK_SUBJECT = ''Slack conversation''"

text \<open>The horizontal ellipsis.\<close>

definition ellipsis :: string where "ellipsis = [CHR 0xE2, CHR 0x80, CHR 0xA6]"

text \<open>\<open>s.lastIndexOf(c)\<close>\<close>

definition lastIndexOf :: "char \<Rightarrow> string \<Rightarrow> nat option" where
  "lastIndexOf c s =
     (case dropWhile (\<lambda>x. x \<noteq> c) (rev s) of [] \<Rightarrow> None | _ # before \<Rightarrow> Some (length before))"

definition trim_end :: "string \<Rightarrow> string" where
  "trim_end s = rev (dropWhile is_space (rev s))"

definition subjectFrom :: "string \<Rightarrow> string" where
  "subjectFrom body =
     (let firstLine = trim (hd (split_on (CHR 0x0A) body))
      in if firstLine = [] then FALLBACK_SUBJECT
         else if length firstLine \<le> MAX_DERIVED_SUBJECT then firstLine
         else (let clipped = take MAX_DERIVED_SUBJECT firstLine;
                   kept = (case lastIndexOf (CHR '' '') clipped of
                             None \<Rightarrow> clipped
                           | Some k \<Rightarrow> if MAX_DERIVED_SUBJECT div 2 < k then take k clipped else clipped)
               in trim_end kept @ ellipsis))"

section \<open>Lemmas\<close>

lemma verified_iff:
  "verifySignature hmac scheme c = Inr () \<longleftrightarrow>
     (\<exists>signature timestamp sentAt.
        scheme_header (ck_headers c) (sg_signature_header scheme) = Some signature \<and> signature \<noteq> [] \<and>
        scheme_header (ck_headers c) (sg_timestamp_header scheme) = Some timestamp \<and> timestamp \<noteq> [] \<and>
        finite_number timestamp = Some sentAt \<and>
        \<bar>of_int (ck_now c) / 1000 - sentAt\<bar> \<le> of_int (sg_window scheme) \<and>
        signature = sg_prefix scheme @ hmac (ck_secret c) (sg_base scheme timestamp (ck_body c)))"
  unfolding verifySignature_def given_def Let_def
  by (auto split: option.splits if_splits simp: not_less)

text \<open>The moments at which one and the same request verifies lie within twice the window.\<close>

lemma replay_window:
  assumes "verifySignature hmac scheme c = Inr ()" and "verifySignature hmac scheme (c\<lparr>ck_now := t\<rparr>) = Inr ()"
  shows "\<bar>t - ck_now c\<bar> \<le> 2000 * sg_window scheme"
proof -
  obtain ts x where x: "scheme_header (ck_headers c) (sg_timestamp_header scheme) = Some ts" "finite_number ts = Some x"
      "\<bar>of_int (ck_now c) / 1000 - x\<bar> \<le> of_int (sg_window scheme)"
    using assms(1) unfolding verified_iff by blast
  obtain ts' y where y: "scheme_header (ck_headers (c\<lparr>ck_now := t\<rparr>)) (sg_timestamp_header scheme) = Some ts'" "finite_number ts' = Some y"
      "\<bar>of_int (ck_now (c\<lparr>ck_now := t\<rparr>)) / 1000 - y\<bar> \<le> of_int (sg_window scheme)"
    using assms(2) unfolding verified_iff by blast
  have "y = x" using x(1,2) y(1,2) by simp
  then have "\<bar>of_int (ck_now c) / 1000 - x\<bar> \<le> of_int (sg_window scheme)" "\<bar>of_int t / 1000 - x\<bar> \<le> of_int (sg_window scheme)"
    using x(3) y(3) by simp_all
  then have "\<bar>of_int t / 1000 - of_int (ck_now c) / (1000 :: rat)\<bar> \<le> 2 * of_int (sg_window scheme)" by linarith
  then have "\<bar>of_int (t - ck_now c) :: rat\<bar> \<le> of_int (2000 * sg_window scheme)"
    by (simp add: diff_divide_distrib [symmetric] abs_divide field_simps)
  then show ?thesis by linarith
qed

text \<open>What the adapter takes for a customer's utterance.\<close>

lemma dropWhile_space_hd: "dropWhile is_space s \<noteq> [] \<Longrightarrow> \<not> is_space (hd (dropWhile is_space s))"
  using hd_dropWhile by blast

lemma utterance_sound:
  assumes "utterance (readSlackMessage event botUser) = Some u"
  shows "ut_user u \<noteq> botUser \<and> ut_user u \<noteq> [] \<and> ut_channel u \<noteq> [] \<and> ut_thread u \<noteq> [] \<and> ut_text u \<noteq> [] \<and>
    (\<exists>m. event = Some (JObj m) \<and> map_of m ''bot_id'' = None \<and> map_of m ''subtype'' = None \<and>
       map_of m ''user'' = Some (JStr (ut_user u)))"
proof -
  have asTextD: "asText v = Some x \<Longrightarrow> v = Some (JStr x) \<and> x \<noteq> []" for v x
    by (cases v rule: asText.cases) (auto split: if_splits)
  have givenD: "given v = Some x \<Longrightarrow> x \<noteq> []" for v x by (auto simp: given_def split: option.splits if_splits)
  have asRecordD: "asRecord event = Some m \<Longrightarrow> event = Some (JObj m)" for m by (cases event rule: asRecord.cases) auto
  show ?thesis
    using assms
    by (auto simp: readSlackMessage_def split: option.splits if_splits dest!: asTextD givenD asRecordD)
qed

text \<open>The reply the adapter posts itself is ignored when it comes back.\<close>

lemma own_posts_ignored:
  "map_of m ''user'' = Some (JStr botUser) \<Longrightarrow> readSlackMessage (Some (JObj m)) botUser = MsgIgnored"
  by (auto simp: readSlackMessage_def split: if_splits option.splits)

lemma lastIndexOf_less: "lastIndexOf c s = Some k \<Longrightarrow> k < length s"
proof -
  assume "lastIndexOf c s = Some k"
  then obtain x before where d: "dropWhile (\<lambda>x. x \<noteq> c) (rev s) = x # before" and k: "k = length before"
    by (auto simp: lastIndexOf_def split: list.splits)
  have "length (x # before) \<le> length (rev s)" unfolding d [symmetric] by (rule length_dropWhile_le)
  then show "k < length s" using k by simp
qed

lemma trim_end_prefix: "\<exists>r. s = trim_end s @ r \<and> list_all is_space r"
proof -
  have "rev s = takeWhile is_space (rev s) @ dropWhile is_space (rev s)" by simp
  then have "s = rev (dropWhile is_space (rev s)) @ rev (takeWhile is_space (rev s))" by (metis rev_append rev_rev_ident)
  moreover have "list_all is_space (rev (takeWhile is_space (rev s)))" by (auto simp: list_all_iff dest: set_takeWhileD)
  ultimately show ?thesis unfolding trim_end_def by blast
qed

text \<open>A derived subject is one line, at most 120 units and an ellipsis long, and never empty.\<close>

lemma subject_shape:
  "subjectFrom body \<noteq> [] \<and>
   (subjectFrom body = FALLBACK_SUBJECT \<or> subjectFrom body = trim (hd (split_on (CHR 0x0A) body)) \<and> length (subjectFrom body) \<le> 120 \<or>
    (\<exists>kept r. subjectFrom body = kept @ ellipsis \<and> length kept \<le> 120 \<and> trim (hd (split_on (CHR 0x0A) body)) = kept @ r))"
proof -
  let ?l = "trim (hd (split_on (CHR 0x0A) body))"
  let ?c = "take MAX_DERIVED_SUBJECT ?l"
  define kept where "kept = (case lastIndexOf (CHR '' '') ?c of None \<Rightarrow> ?c
    | Some k \<Rightarrow> if MAX_DERIVED_SUBJECT div 2 < k then take k ?c else ?c)"
  have len: "length kept \<le> 120" by (auto simp: kept_def MAX_DERIVED_SUBJECT_def split: option.splits)
  obtain r where "kept = trim_end kept @ r" using trim_end_prefix by blast
  then have le: "length (trim_end kept) \<le> 120" using len by (metis dual_order.trans le_add1 length_append)
  have "\<exists>q. ?l = kept @ q"
  proof (cases "lastIndexOf (CHR '' '') ?c")
    case None
    then have "?l = kept @ drop MAX_DERIVED_SUBJECT ?l" by (simp add: kept_def)
    then show ?thesis by blast
  next
    case (Some k)
    have "?l = take k ?c @ drop k ?c @ drop MAX_DERIVED_SUBJECT ?l" by (metis append.assoc append_take_drop_id)
    moreover have "?l = ?c @ drop MAX_DERIVED_SUBJECT ?l" by (simp only: append_take_drop_id)
    moreover have "kept = take k ?c \<or> kept = ?c" using Some by (simp add: kept_def)
    ultimately show ?thesis by metis
  qed
  then obtain q where "?l = trim_end kept @ (r @ q)" using \<open>kept = trim_end kept @ r\<close> by (metis append.assoc)
  moreover have "subjectFrom body = (if ?l = [] then FALLBACK_SUBJECT else if length ?l \<le> MAX_DERIVED_SUBJECT then ?l else trim_end kept @ ellipsis)"
    by (simp add: subjectFrom_def Let_def kept_def)
  ultimately show ?thesis using le by (auto simp: FALLBACK_SUBJECT_def ellipsis_def MAX_DERIVED_SUBJECT_def)
qed

end
