(* ===== verification/Slack_Inbound.thy ===== *)
theory Slack_Inbound
  imports Slack_Events Conversation
begin

text \<open>
  The front half of the Slack adapter (\<open>slack-installation.service.ts\<close>,
  \<open>slack-inbound.service.ts\<close>, \<open>slack-events.controller.ts\<close>): believe a request, find its
  tenant, claim the event, queue the work, answer. The table of idempotency records and the
  database are both part of the state; what the connection does to the three statements that
  can fail on their own is an argument.
\<close>

section \<open>Installations\<close>

record installation_row =
  si_team :: string
  si_tenant :: ident
  si_bot :: string

definition installation_visible :: "session \<Rightarrow> installation_row \<Rightarrow> bool" where
  "installation_visible s r \<longleftrightarrow> (tenant_matches s (si_tenant r) \<and> \<not> current_actor_is_contact s) \<or> s_installations s"

definition installation_resolve ::
  "millis \<Rightarrow> string \<Rightarrow> installation_row list \<Rightarrow> thrown + (installation_row option \<times> installation_row list)" where
  "installation_resolve now team =
     withInstallationLookup now (\<lambda>s rows. Inr (find (\<lambda>r. installation_visible s r \<and> si_team r = team) rows, rows))"

section \<open>Accepting a request\<close>

record slack_request =
  sr_headers :: header_list
  sr_body :: string

datatype slack_ack = Ack | Challenge string | Refuse

definition INBOUND_EVENT_JOB :: string where "INBOUND_EVENT_JOB = ''inbound.event''"

definition inboundEventScope :: "string \<Rightarrow> string" where
  "inboundEventScope source = source @ '':event''"

record accept_faults =
  enqueue_fault :: "thrown option"
  settle_fault :: "thrown option"

definition or_fault :: "thrown option \<Rightarrow> thrown + 'a \<Rightarrow> thrown + 'a" where
  "or_fault fault r = (case fault of None \<Rightarrow> r | Some e \<Rightarrow> Inl e)"

definition event_job :: "string \<Rightarrow> string \<Rightarrow> json option \<Rightarrow> enqueue_input" where
  "event_job eventId botUser event =
     \<lparr>eq_kind = INBOUND_EVENT_JOB,
      eq_payload = JObj ([(''source'', JStr ''slack''), (''eventId'', JStr eventId), (''botUserId'', JStr botUser)] @
        (case event of None \<Rightarrow> [] | Some e \<Rightarrow> [(''event'', e)])),
      eq_run_after = None, eq_max_attempts = None\<rparr>"

text \<open>A fresh claim: queue the work, then settle the record; a failure to queue gives the key back.\<close>

definition queue_event ::
  "accept_faults \<Rightarrow> millis \<Rightarrow> ident \<Rightarrow> tenant_context \<Rightarrow> idem_ref \<Rightarrow> enqueue_input \<Rightarrow> idem_table \<Rightarrow> db \<Rightarrow>
   (thrown + slack_ack) \<times> idem_table \<times> db" where
  "queue_event fl now i ctx ref input idem d =
     (case or_fault (enqueue_fault fl) (withTenant now ctx (enqueue i input) d) of
        Inl e \<Rightarrow>
          (case or_fault (settle_fault fl) (idem_release now ctx ref idem) of
             Inl e' \<Rightarrow> (Inl e', idem, d)
           | Inr (_, idem') \<Rightarrow> (Inl e, idem', d))
      | Inr (_, d') \<Rightarrow>
          (case or_fault (settle_fault fl) (idem_complete now ctx ref None idem) of
             Inl e \<Rightarrow> (Inl e, idem, d')
           | Inr (_, idem') \<Rightarrow> (Inr Ack, idem', d')))"

definition accept_event ::
  "(nat \<Rightarrow> idem_table \<Rightarrow> idem_table) \<Rightarrow> accept_faults \<Rightarrow> millis \<Rightarrow> ident \<Rightarrow> installation_row list \<Rightarrow>
   string \<Rightarrow> string \<Rightarrow> json option \<Rightarrow> idem_table \<Rightarrow> db \<Rightarrow> (thrown + slack_ack) \<times> idem_table \<times> db" where
  "accept_event between fl now i installs team eventId event idem d =
     (case installation_resolve now team installs of
        Inl e \<Rightarrow> (Inl e, idem, d)
      | Inr (None, _) \<Rightarrow> (Inr Ack, idem, d)
      | Inr (Some r, _) \<Rightarrow>
          (let ctx = systemContextFor (si_tenant r);
               ref = \<lparr>ref_scope = inboundEventScope ''slack'', ref_key = eventId\<rparr>
           in case idem_claim_op between now ctx ref None idem of
                (Inl e, idem') \<Rightarrow> (Inl e, idem', d)
              | (Inr c, idem') \<Rightarrow>
                  if c \<noteq> Fresh then (Inr Ack, idem', d)
                  else queue_event fl now i ctx ref (event_job eventId (si_bot r) event) idem' d))"

definition slack_accept ::
  "(string \<Rightarrow> string \<Rightarrow> string) \<Rightarrow> string option \<Rightarrow> (nat \<Rightarrow> idem_table \<Rightarrow> idem_table) \<Rightarrow> accept_faults \<Rightarrow> millis \<Rightarrow>
   ident \<Rightarrow> installation_row list \<Rightarrow> slack_request \<Rightarrow> idem_table \<Rightarrow> db \<Rightarrow>
   (thrown + slack_ack) \<times> idem_table \<times> db" where
  "slack_accept hmac secret between fl now i installs rq idem d =
     (case given secret of
        None \<Rightarrow> (Inr Refuse, idem, d)
      | Some k \<Rightarrow>
          (case verifySignature hmac SLACK_SIGNATURE_SCHEME
                  \<lparr>ck_headers = sr_headers rq, ck_body = sr_body rq, ck_secret = k, ck_now = now\<rparr> of
             Inl _ \<Rightarrow> (Inr Refuse, idem, d)
           | Inr _ \<Rightarrow>
               (case json_parse (sr_body rq) of
                  None \<Rightarrow> (Inr Ack, idem, d)
                | Some payload \<Rightarrow>
                    (case readSlackEnvelope (Some payload) of
                       EnvChallenge c \<Rightarrow> (Inr (Challenge c), idem, d)
                     | EnvIgnored \<Rightarrow> (Inr Ack, idem, d)
                     | EnvEvent team eventId event \<Rightarrow>
                         accept_event between fl now i installs team eventId event idem d))))"

text \<open>The controller: the status and the body of the answer. A missing raw body is an empty one.\<close>

definition receive :: "slack_ack \<Rightarrow> nat \<times> string" where
  "receive a = (case a of Challenge c \<Rightarrow> (200, c) | Refuse \<Rightarrow> (401, []) | Ack \<Rightarrow> (200, []))"

section \<open>An event is queued once\<close>

definition verified_at :: "(string \<Rightarrow> string \<Rightarrow> string) \<Rightarrow> string option \<Rightarrow> millis \<Rightarrow> slack_request \<Rightarrow> bool" where
  "verified_at hmac secret now rq \<longleftrightarrow>
     (\<exists>k. given secret = Some k \<and> verifySignature hmac SLACK_SIGNATURE_SCHEME
        \<lparr>ck_headers = sr_headers rq, ck_body = sr_body rq, ck_secret = k, ck_now = now\<rparr> = Inr ())"

definition carries :: "slack_request \<Rightarrow> string \<Rightarrow> string \<Rightarrow> bool" where
  "carries rq team eventId \<longleftrightarrow>
     (\<exists>payload event. json_parse (sr_body rq) = Some payload \<and> readSlackEnvelope (Some payload) = EnvEvent team eventId event)"

lemma verified_replay:
  assumes "verified_at hmac secret now rq" and "verified_at hmac secret now' rq"
  shows "\<bar>now' - now\<bar> \<le> 600000"
proof -
  let ?c = "\<lambda>k. \<lparr>ck_headers = sr_headers rq, ck_body = sr_body rq, ck_secret = k, ck_now = now\<rparr>"
  obtain k where k: "given secret = Some k" "verifySignature hmac SLACK_SIGNATURE_SCHEME (?c k) = Inr ()"
    using assms(1) by (auto simp: verified_at_def)
  then have "verifySignature hmac SLACK_SIGNATURE_SCHEME (?c k\<lparr>ck_now := now'\<rparr>) = Inr ()"
    using assms(2) by (auto simp: verified_at_def)
  from replay_window [OF k(2) this] show ?thesis by (simp add: SLACK_SIGNATURE_SCHEME_def)
qed

text \<open>A request that is not verified, or carries no event, changes nothing.\<close>

lemma accept_cases:
  assumes "slack_accept hmac secret between fl now i installs rq idem d = (r, idem', d')"
  obtains (nothing) "idem' = idem" "d' = d" "is_ok r" "\<not> verified_at hmac secret now rq \<Longrightarrow> r = Inr Refuse"
  | (event) team eventId event where "verified_at hmac secret now rq" "carries rq team eventId"
      "accept_event between fl now i installs team eventId event idem d = (r, idem', d')"
proof -
  have "\<not> verified_at hmac secret now rq \<Longrightarrow> slack_accept hmac secret between fl now i installs rq idem d = (Inr Refuse, idem, d)"
    by (auto simp: slack_accept_def verified_at_def split: option.splits sum.splits)
  then show ?thesis
  proof (cases "verified_at hmac secret now rq")
    case True
    then obtain k where k: "given secret = Some k" "verifySignature hmac SLACK_SIGNATURE_SCHEME
        \<lparr>ck_headers = sr_headers rq, ck_body = sr_body rq, ck_secret = k, ck_now = now\<rparr> = Inr ()"
      by (auto simp: verified_at_def)
    show ?thesis
    proof (cases "\<exists>team eventId. carries rq team eventId")
      case True
      then obtain team eventId payload event where c: "json_parse (sr_body rq) = Some payload"
        "readSlackEnvelope (Some payload) = EnvEvent team eventId event" by (auto simp: carries_def)
      show ?thesis by (rule event [OF \<open>verified_at hmac secret now rq\<close>]) (use assms k c in \<open>auto simp: slack_accept_def carries_def\<close>)
    next
      case False
      show ?thesis
        by (rule nothing) (use assms k False \<open>verified_at hmac secret now rq\<close> in
          \<open>auto simp: slack_accept_def carries_def split: option.splits slack_envelope.splits\<close>)
    qed
  next
    case False
    with \<open>\<not> verified_at hmac secret now rq \<Longrightarrow> slack_accept hmac secret between fl now i installs rq idem d = (Inr Refuse, idem, d)\<close>
    have "r = Inr Refuse" "idem' = idem" "d' = d" using assms by simp_all
    then show ?thesis by - (rule nothing, simp_all)
  qed
qed

lemma resolve_eq: "installation_resolve now team installs = Inr (find (\<lambda>r. si_team r = team) installs, installs)"
  by (simp add: installation_resolve_def withInstallationLookup_def installation_visible_def)

lemma queue_event_queued:
  assumes "queue_event fl now i ctx ref input idem d = (r, idem', d')" and "jobs d' \<noteq> jobs d"
  shows "\<exists>u. withTenant now ctx (enqueue i input) d = Inr (u, d')"
  using assms by (auto simp: queue_event_def or_fault_def split: option.splits sum.splits prod.splits)


lemma idem_claim_no_jobs:
  assumes "accept_event between fl now i installs team eventId event idem d = (r, idem', d')" and "jobs d' \<noteq> jobs d"
  obtains inst idem1 where "find (\<lambda>x. si_team x = team) installs = Some inst"
    and "idem_claim_op between now (systemContextFor (si_tenant inst)) \<lparr>ref_scope = inboundEventScope ''slack'', ref_key = eventId\<rparr> None idem = (Inr Fresh, idem1)"
    and "queue_event fl now i (systemContextFor (si_tenant inst)) \<lparr>ref_scope = inboundEventScope ''slack'', ref_key = eventId\<rparr>
       (event_job eventId (si_bot inst) event) idem1 d = (r, idem', d')"
  using assms
  by (auto simp: accept_event_def resolve_eq Let_def split: option.splits prod.splits sum.splits if_splits)

lemma event_acked_again:
  assumes kept: "record_kept (si_tenant inst) \<lparr>ref_scope = inboundEventScope ''slack'', ref_key = eventId\<rparr> rec idem"
    and "find (\<lambda>x. si_team x = team) installs = Some inst" and "is_uuid (si_tenant inst)"
    and "now < i_expires rec" and "\<forall>n. \<forall>e \<in> set (g n). fst e < i_expires rec"
  shows "\<exists>idem'. accept_event (meanwhile g) fl now i installs team eventId event idem d = (Inr Ack, idem', d)"
proof -
  let ?ctx = "systemContextFor (si_tenant inst)"
  have t: "ctx_tenant ?ctx = si_tenant inst" by (simp add: systemContextFor_def)
  have ctx: "contextSettings ?ctx = Inr (ctx_tenant ?ctx, ''system'', [])"
    using assms(3) is_uuid_not_Nil by (auto simp: contextSettings_def systemContextFor_def isTenantIdShaped_def ACTOR_KINDS_def)
  show ?thesis
    using settled_claim [OF _ assms(4) ctx, of _ idem g RECLAIM_ATTEMPTS None] assms(5) kept assms(2)
    by (simp add: accept_event_def resolve_eq Let_def idem_claim_op_def t)
qed

text \<open>
  From a table of records on, a request at a moment is acknowledged, challenged or refused
  and leaves the database alone, whatever other requests do to the records before it and
  between its own statements.
\<close>

definition leaves_nothing ::
  "(string \<Rightarrow> string \<Rightarrow> string) \<Rightarrow> string option \<Rightarrow> installation_row list \<Rightarrow> idem_table \<Rightarrow> slack_request \<Rightarrow> millis \<Rightarrow> bool" where
  "leaves_nothing hmac secret installs idem rq now \<longleftrightarrow>
     (\<forall>es g fl i d r idem' d'.
        (\<forall>e \<in> set es. fst e \<le> now) \<and> (\<forall>n. \<forall>e \<in> set (g n). fst e \<le> now) \<and>
        slack_accept hmac secret (meanwhile g) fl now i installs rq (idem_trace es idem) d = (r, idem', d') \<longrightarrow>
        d' = d \<and> is_ok r)"

lemma kept_leaves_nothing:
  assumes rec: "record_kept (si_tenant inst) \<lparr>ref_scope = inboundEventScope ''slack'', ref_key = eventId\<rparr> rec idem"
    and inst: "find (\<lambda>x. si_team x = team) installs = Some inst" and uuid: "is_uuid (si_tenant inst)"
    and car: "carries rq team eventId" and now: "now < i_expires rec"
  shows "leaves_nothing hmac secret installs idem rq now"
  unfolding leaves_nothing_def
proof (intro allI impI)
  fix es g fl i d r idem' d'
  assume h: "(\<forall>e \<in> set es. fst e \<le> now) \<and> (\<forall>n. \<forall>e \<in> set (g n). fst e \<le> now) \<and>
    slack_accept hmac secret (meanwhile g) fl now i installs rq (idem_trace es idem) d = (r, idem', d')"
  from conjunct2 [OF conjunct2 [OF h]] show "d' = d \<and> is_ok r"
  proof (cases rule: accept_cases)
    case (event team' eventId' ev)
    then have same: "team' = team" "eventId' = eventId" using car by (auto simp: carries_def)
    have "record_kept (si_tenant inst) \<lparr>ref_scope = inboundEventScope ''slack'', ref_key = eventId\<rparr> rec (idem_trace es idem)"
      using settled_trace [OF rec] h now by fastforce
    then obtain idem2 where "accept_event (meanwhile g) fl now i installs team eventId ev (idem_trace es idem) d = (Inr Ack, idem2, d)"
      using event_acked_again [OF _ inst uuid now, of eventId "idem_trace es idem" g] h now by fastforce
    then show ?thesis using event(3) same by auto
  qed simp
qed

lemma unverified_leaves_nothing: "\<not> verified_at hmac secret now rq \<Longrightarrow> leaves_nothing hmac secret installs idem rq now"
  unfolding leaves_nothing_def by (auto elim: accept_cases)

text \<open>
  C14. An event of Slack is queued once and only on Slack's word. When a request is acknowledged
  and leaves a job, its signature over the raw bytes is valid and at most five minutes old,
  the one job it leaves belongs to the tenant that installed the workspace the body names,
  and from then on no redelivery of the event within 24 hours, and no replay of the very
  same request at any time, leaves another job, whatever happens to the table of records in
  between.
\<close>

theorem slack_event_once:
  assumes first: "slack_accept hmac secret (meanwhile g) fl now i installs rq idem d = (Inr Ack, idem1, d1)"
    and queued: "jobs d1 \<noteq> jobs d" and uniq: "unique_keys idem"
  shows "verified_at hmac secret now rq \<and>
    (\<exists>team eventId inst j. carries rq team eventId \<and> inst \<in> set installs \<and> si_team inst = team \<and>
       jobs d1 = jobs d @ [j] \<and> j_tenant j = si_tenant inst \<and> j_kind j = INBOUND_EVENT_JOB \<and>
       (\<forall>rq' now'. carries rq' team eventId \<and> now' < now + idempotency_retention \<longrightarrow>
          leaves_nothing hmac secret installs idem1 rq' now')) \<and>
    (\<forall>now'. leaves_nothing hmac secret installs idem1 rq now')"
proof -
  from first obtain team eventId event where ver: "verified_at hmac secret now rq" and car: "carries rq team eventId"
    and run: "accept_event (meanwhile g) fl now i installs team eventId event idem d = (Inr Ack, idem1, d1)"
    by (cases rule: accept_cases) (use queued in auto)
  let ?ref = "\<lparr>ref_scope = inboundEventScope ''slack'', ref_key = eventId\<rparr>"
  obtain inst idem0 where inst: "find (\<lambda>x. si_team x = team) installs = Some inst"
    and claim: "idem_claim_op (meanwhile g) now (systemContextFor (si_tenant inst)) ?ref None idem = (Inr Fresh, idem0)"
    and q: "queue_event fl now i (systemContextFor (si_tenant inst)) ?ref (event_job eventId (si_bot inst) event) idem0 d = (Inr Ack, idem1, d1)"
    using run queued by (rule idem_claim_no_jobs)
  have t: "ctx_tenant (systemContextFor (si_tenant inst)) = si_tenant inst" by (simp add: systemContextFor_def)
  obtain u where enq: "withTenant now (systemContextFor (si_tenant inst)) (enqueue i (event_job eventId (si_bot inst) event)) d = Inr (u, d1)"
    using queue_event_queued [OF q queued] by blast
  obtain x where comp: "idem_complete now (systemContextFor (si_tenant inst)) ?ref None idem0 = Inr (x, idem1)"
    using q by (auto simp: queue_event_def or_fault_def split: option.splits sum.splits prod.splits)
  have "claimed (si_tenant inst) ?ref None now idem0"
    using fresh_claimed [of g now "systemContextFor (si_tenant inst)" ?ref None RECLAIM_ATTEMPTS idem idem0] claim uniq t
    by (simp add: idem_claim_op_def)
  then obtain rec where rec: "record_kept (si_tenant inst) ?ref rec idem1" "i_expires rec = now + idempotency_retention"
    using complete_keeps [OF _ comp] t by auto
  have uuid: "is_uuid (si_tenant inst)"
    using enq by (rule withTenant_session) (use contextSettings_shape(2) in \<open>fastforce simp: systemContextFor_def\<close>)
  have job: "\<exists>j. jobs d1 = jobs d @ [j] \<and> j_tenant j = si_tenant inst \<and> j_kind j = INBOUND_EVENT_JOB"
    using enq
  proof (rule withTenant_session)
    fix kind k assume "enqueue i (event_job eventId (si_bot inst) event)
      (tenant_session now (ctx_tenant (systemContextFor (si_tenant inst))) kind k) d = Inr (u, d1)"
    then show ?thesis by (rule enqueue_parts) (auto simp: event_job_def t)
  qed
  have again: "leaves_nothing hmac secret installs idem1 rq' now'"
    if "carries rq' team eventId" "now' < now + idempotency_retention" for rq' now'
    using kept_leaves_nothing [OF rec(1) inst uuid] rec(2) that by simp
  have "leaves_nothing hmac secret installs idem1 rq now'" for now'
    using again [OF car, of now'] verified_replay [OF ver, of now'] unverified_leaves_nothing
    by (cases "now' < now + idempotency_retention") (force simp: idempotency_retention_def)+
  with ver car again job find_SomeD [OF inst] show ?thesis by blast
qed

section \<open>A delivery and its redelivery\<close>

definition inbound_tenant :: ident where "inbound_tenant = ''77777777-7777-4777-8777-777777777777''"

definition slack_installs :: "installation_row list" where
  "slack_installs = [\<lparr>si_team = ''T1'', si_tenant = inbound_tenant, si_bot = ''UBOT''\<rparr>]"

definition slack_event_json :: json where
  "slack_event_json = (JObj [(''type'', JStr ''event_callback''), (''team_id'', JStr ''T1''), (''event_id'', JStr ''Ev1''),
     (''event'', JObj [(''type'', JStr ''message''), (''user'', JStr ''U1''), (''channel'', JStr ''C1''), (''ts'', JStr ''1.5''), (''text'', JStr ''Help'')])])"

definition slack_event_body :: string where "slack_event_body = json_text slack_event_json"

text \<open>A stand-in for the keyed hash.\<close>

definition toy_hmac :: "string \<Rightarrow> string \<Rightarrow> string" where
  "toy_hmac key base = key"

definition slack_delivery :: slack_request where
  "slack_delivery = \<lparr>sr_headers = [(''X-Slack-Request-Timestamp'', HOnce ''0''),
      (''X-Slack-Signature'', HOnce (''v0='' @ toy_hmac ''key'' (''v0:0:'' @ slack_event_body)))],
    sr_body = slack_event_body\<rparr>"

definition slack_first :: "(thrown + slack_ack) \<times> idem_table \<times> db" where
  "slack_first = slack_accept toy_hmac (Some ''key'') (meanwhile (\<lambda>_. [])) \<lparr>enqueue_fault = None, settle_fault = None\<rparr> 100000
     ''j1'' slack_installs slack_delivery [] empty_db"

lemma slack_delivery_verified:
  "verifySignature toy_hmac SLACK_SIGNATURE_SCHEME
     \<lparr>ck_headers = sr_headers slack_delivery, ck_body = sr_body slack_delivery, ck_secret = ''key'', ck_now = 100000\<rparr> = Inr ()"
proof -
  have "numeric_literal (trim ''0'') = Some 0" by code_simp
  then have "finite_number ''0'' = Some 0" by (simp add: finite_number_def)
  moreover have "scheme_header (sr_headers slack_delivery) ''x-slack-request-timestamp'' = Some ''0''"
    "scheme_header (sr_headers slack_delivery) ''x-slack-signature'' = Some ''v0=key''" by code_simp+
  ultimately show ?thesis unfolding verified_iff by (simp add: SLACK_SIGNATURE_SCHEME_def toy_hmac_def)
qed

lemma slack_first_steps:
  "slack_first = accept_event (meanwhile (\<lambda>_. [])) \<lparr>enqueue_fault = None, settle_fault = None\<rparr> 100000
     ''j1'' slack_installs ''T1'' ''Ev1'' (json_field slack_event_json ''event'') [] empty_db"
proof -
  have "json_parse (sr_body slack_delivery) = Some slack_event_json"
    "readSlackEnvelope (Some slack_event_json) = EnvEvent ''T1'' ''Ev1'' (json_field slack_event_json ''event'')"
    by code_simp+
  then show ?thesis by (simp add: slack_first_def slack_accept_def given_def slack_delivery_verified)
qed

theorem slack_event_once_witness:
  "length (jobs (snd (snd slack_first))) = 1 \<and>
   leaves_nothing toy_hmac (Some ''key'') slack_installs (fst (snd slack_first)) slack_delivery 200000"
proof -
  have r: "fst slack_first = Inr Ack" "length (jobs (snd (snd slack_first))) = 1" unfolding slack_first_steps by code_simp+
  then have run: "slack_first = (Inr Ack, fst (snd slack_first), snd (snd slack_first))"
    and jobs: "jobs (snd (snd slack_first)) \<noteq> jobs empty_db"
    by (simp_all add: prod_eq_iff) (auto simp: empty_db_def)
  have "unique_keys []" by simp
  from slack_event_once [OF run [unfolded slack_first_def] jobs [unfolded slack_first_def] this] r(2)
  show ?thesis unfolding slack_first_def by blast
qed

end
