(* ===== verification/Reply_Outcomes.thy ===== *)
theory Reply_Outcomes
  imports Ticket_Outcomes
begin

text \<open>
  Where a customer's reply lands: the ticket it is written to, the landing that is
  announced and the message it leaves, for every database that satisfies the schema's
  invariant.
\<close>

section \<open>Chains\<close>

lemma row_by_id:
  assumes "ticket_inv d" and "t \<in> set (tickets d)" and "u \<in> set (tickets d)" and "t_id t = t_id u"
  shows "t = u"
  using assms by (auto simp: ticket_inv_def dest: distinct_key_eq)

text \<open>The predicate the service queries with is membership of the chain.\<close>

lemma inChainWith_iff:
  assumes inv: "ticket_inv d" and t: "t \<in> set (tickets d)" and u: "u \<in> set (tickets d)"
    and tenant: "t_tenant t = t_tenant u"
  shows "inChainWith t u \<longleftrightarrow> chainRootOf u = chainRootOf t"
proof
  assume "inChainWith t u"
  then consider (origin) "t_id u = chainRootOf t" | (member) "t_root u = Some (chainRootOf t)"
    by (auto simp: inChainWith_def)
  then show "chainRootOf u = chainRootOf t"
  proof cases
    case origin
    have "t_root u = None"
    proof (cases "t_root t")
      case None
      then have "u = t" using origin row_by_id [OF inv u t] by (simp add: chainRootOf_def)
      with None show ?thesis by simp
    next
      case (Some r)
      have "linked (tickets d) t" using inv t by (simp add: ticket_inv_def)
      then obtain q where "q \<in> set (tickets d)" "t_id q = r" "t_root q = None"
        using Some by (auto simp: linked_def split: option.splits)
      with Some origin show ?thesis using row_by_id [OF inv u, of q] by (simp add: chainRootOf_def)
    qed
    with origin show ?thesis by (simp add: chainRootOf_def)
  qed (simp add: chainRootOf_def)
qed (auto simp: inChainWith_def chainRootOf_def split: option.splits)

lemma find_facts:
  assumes "ticket_findUnique i s d = Some t"
  shows "t \<in> set (tickets d)" and "t_id t = i" and "visible_ticket s t"
  using find_SomeD [OF assms [unfolded ticket_findUnique_def]] by simp_all

section \<open>The target\<close>

definition lands_on :: "ticket \<Rightarrow> ticket \<Rightarrow> reply_outcome \<Rightarrow> bool" where
  "lands_on u t landing \<longleftrightarrow>
     t_id t = t_id u \<and> t_tenant t = t_tenant u \<and> t_contact t = t_contact u \<and>
     chainRootOf t = chainRootOf u \<and> live t \<and> landing = replyOutcomeFor (t_state u)"

lemma transition_lands:
  assumes inv: "ticket_inv d" and arm: "armed s" and u: "u \<in> set (tickets d)"
    and tr: "transitionIn p (t_id u) TOpen s d = Inr (t, d')"
  shows "t_id t = t_id u \<and> t_tenant t = t_tenant u \<and> t_contact t = t_contact u \<and>
    chainRootOf t = chainRootOf u \<and> live t"
proof -
  obtain cur where cur: "ticket_findUnique (t_id u) s d = Some cur" and t: "t = moved (s_now s) TOpen cur"
    using tr unfolding transitionIn_exact [OF inv arm] by (auto split: option.splits if_splits)
  have "cur = u" using row_by_id [OF inv _ u] find_facts [OF cur] by simp
  with t show ?thesis by (simp add: moved_def chainRootOf_def live_def split: option.split)
qed

lemma target_lands:
  assumes inv: "ticket_inv d" and arm: "armed s" and u: "u \<in> set (tickets d)"
    and tg: "target_unless_spawn p u s d = Some (Inr ((t, landing), d'))"
  shows "lands_on u t landing"
  using tg
proof (cases rule: target_unless_spawn_cases)
  case append
  then show ?thesis by (auto simp: lands_on_def live_def)
next
  case reopen
  then show ?thesis using transition_lands [OF inv arm u] by (auto simp: lands_on_def)
qed

lemma spawn_lands:
  assumes inv: "ticket_inv d" and u: "u \<in> set (tickets d)" "visible_ticket s u"
    and cr: "createIn i p \<lparr>ci_subject = subj, ci_contact = contact, ci_source = source,
               ci_spawned = Some (t_id u), ci_slack_route = None\<rparr> s d = Inr (t, d')"
  shows "t_id t = i" and "t_spawned t = Some (t_id u)" and "t_state t = TOpen" and "t_contact t = contact"
    and "chainRootOf t = chainRootOf u" and "t_id t \<notin> t_id ` set (tickets d)" and "t_tenant t = tenantOf p"
proof -
  let ?new = "new_ticket i (s_now s) (tenantOf p) \<lparr>ci_subject = subj, ci_contact = contact, ci_source = source,
               ci_spawned = Some (t_id u), ci_slack_route = None\<rparr>"
  obtain d1 where ins: "ticket_insert ?new s d = Inr (t, d1)" using cr by (rule createIn_parts)
  from ins have link: "ticket_linkage_on_insert s d ?new = Inr t" and fresh: "t_id t \<notin> t_id ` set (tickets d)"
    by (auto elim: insert_parts)
  obtain q where q: "find (\<lambda>t. visible_ticket s t \<and> t_tenant t = tenantOf p \<and> t_id t = t_id u) (tickets d) = Some q"
    and t: "t_root t = Some (case t_root q of None \<Rightarrow> t_id u | Some r \<Rightarrow> r)"
    using link by (auto simp: ticket_linkage_on_insert_def split: option.splits)
  have "q = u" using find_SomeD [OF q] row_by_id [OF inv _ u(1)] by simp
  with t show "chainRootOf t = chainRootOf u" by (simp add: chainRootOf_def)
  show "t_id t = i" "t_spawned t = Some (t_id u)" "t_state t = TOpen" "t_contact t = contact" "t_tenant t = tenantOf p"
    using linkage_on_insert_simps [OF link] by simp_all
  show "t_id t \<notin> t_id ` set (tickets d)" by (rule fresh)
qed

text \<open>None of this touches the queue.\<close>

lemma transitionIn_queue:
  "transitionIn p i to_state s d = Inr (t, d') \<Longrightarrow> jobs d' = jobs d \<and> deliveries d' = deliveries d"
  by (auto elim!: transitionIn_parts updateMany_parts)

lemma createIn_queue: "createIn i p input s d = Inr (t, d') \<Longrightarrow> jobs d' = jobs d \<and> deliveries d' = deliveries d"
  by (auto simp: audit_record_def split: sum.splits elim!: createIn_parts insert_parts)

lemma targetFor_queue:
  assumes "targetFor i p contact a source s d = Inr ((t, landing), d')"
  shows "jobs d' = jobs d \<and> deliveries d' = deliveries d"
  using assms
  by (cases rule: targetFor_cases)
    (auto elim!: target_unless_spawn_cases dest: transitionIn_queue createIn_queue)

section \<open>The message\<close>

lemma message_insert_row:
  assumes "message_insert i tenant tid body s d = Inr (m, d')"
  shows "m \<in> set (messages d')" and "m_id m = i" and "m_ticket m = tid" and "m_body m = body"
    and "current_actor s = Inr (m_author_kind m, m_author_id m)" and "m_created m = s_now s"
    and "jobs d' = jobs d" and "deliveries d' = deliveries d"
  using assms
  by (auto simp: message_insert_def thread_row_of_def split: sum.splits prod.splits if_splits elim!: updateMany_parts)

lemma contact_not_dispatched:
  assumes "dispatchIn fr m s d = Inr (u, d')" and "m_author_kind m = ''contact''"
  shows "d' = d"
  using assms by (simp add: dispatchIn_def)

section \<open>The reply\<close>

text \<open>
  Either the addressed ticket is live and the reply lands there, or it is closed and the
  reply lands on the chain's live ticket, or the chain has none the customer can see and a
  new ticket is spawned from the addressed one.
\<close>

definition reply_lands_on :: "db \<Rightarrow> ticket \<Rightarrow> ticket \<Rightarrow> reply_outcome \<Rightarrow> bool" where
  "reply_lands_on d addressed t landing \<longleftrightarrow>
     (if live addressed then lands_on addressed t landing
      else (\<exists>u \<in> set (tickets d). live u \<and> t_tenant u = t_tenant addressed \<and>
              chainRootOf u = chainRootOf addressed \<and> lands_on u t landing) \<or>
           (landing = ReplySpawn \<and> t_spawned t = Some (t_id addressed) \<and> t_state t = TOpen \<and>
            t_id t \<notin> t_id ` set (tickets d) \<and> chainRootOf t = chainRootOf addressed))"

lemma targetFor_lands:
  assumes inv: "ticket_inv d" and arm: "armed s" and a: "a \<in> set (tickets d)" "visible_ticket s a"
    and tg: "targetFor i p contact a source s d = Inr ((t, landing), d')"
  shows "reply_lands_on d a t landing"
  using tg
proof (cases rule: targetFor_cases)
  case keep
  then show ?thesis using target_lands [OF inv arm a(1)] by (simp add: reply_lands_on_def live_def)
next
  case (join u rest)
  have u: "u \<in> set (tickets d)" "visible_ticket s u" "inChainWith a u" "live u"
    using select_live [OF join(2)] by (simp_all add: live_def)
  have "t_tenant a = t_tenant u" using u(2) a(2) by (simp add: visible_ticket_def tenant_matches_def)
  then have "chainRootOf u = chainRootOf a" using inChainWith_iff [OF inv a(1) u(1)] u(3) by simp
  with \<open>t_tenant a = t_tenant u\<close> u join(1) target_lands [OF inv arm u(1) join(3)]
  show ?thesis by (auto simp: reply_lands_on_def live_def)
next
  case spawn
  then show ?thesis using spawn_lands [OF inv a spawn(4)] by (simp add: reply_lands_on_def live_def)
qed

lemma replyIn_lands:
  assumes inv: "ticket_inv d" and arm: "armed s" and who: "s_actor_kind s = ''contact''" "s_actor_id s = contact" "contact \<noteq> []"
    and run: "replyIn fr tenant contact tid body source s d = Inr (r, d')"
  obtains addressed where "addressed \<in> set (tickets d)" and "t_id addressed = tid" and "visible_ticket s addressed"
    and "reply_lands_on d addressed (re_ticket r) (re_landing r)"
    and "re_message r \<in> set (messages d')" and "m_ticket (re_message r) = t_id (re_ticket r)"
    and "m_body (re_message r) = body" and "m_author_kind (re_message r) = ''contact''"
    and "m_author_id (re_message r) = Some contact"
    and "jobs d' = jobs d" and "deliveries d' = deliveries d"
proof -
  obtain a t landing d1 m where a: "ticket_findUnique tid s d = Some a"
    and tg: "targetFor (fr_ticket fr) (ContactPrincipal tenant contact) contact a source s d = Inr ((t, landing), d1)"
    and post: "postIn fr (ContactPrincipal tenant contact) (t_id t) body s d1 = Inr (m, d')"
    and r: "r = \<lparr>re_ticket = t, re_message = m, re_landing = landing\<rparr>"
    using run by (rule replyIn_parts)
  obtain u d2 where ins: "message_insert (fr_message fr) tenant (t_id t) body s d1 = Inr (m, d2)"
    and dis: "dispatchIn fr m s d2 = Inr ((), d')"
    using post by (rule postIn_parts) simp
  have author: "m_author_kind m = ''contact''" "m_author_id m = Some contact"
    using message_insert_row(5) [OF ins] who by (auto simp: current_actor_def)
  have d': "d' = d2" using contact_not_dispatched [OF dis author(1)] .
  have q: "jobs d1 = jobs d \<and> deliveries d1 = deliveries d" by (rule targetFor_queue [OF tg])
  show thesis
    using that [of a] find_facts [OF a] targetFor_lands [OF inv arm _ _ tg] message_insert_row [OF ins] author d' q r
    by simp
qed

lemma reply_facts:
  assumes "ticket_inv d"
    and "Conversation.reply now fr tenant contact tid body source d rt = Inr (r, d', rt')"
  shows "\<exists>addressed \<in> set (tickets d).
    t_id addressed = tid \<and> t_tenant addressed = tenant \<and> t_contact addressed = contact \<and>
    reply_lands_on d addressed (re_ticket r) (re_landing r) \<and>
    re_message r \<in> set (messages d') \<and> m_ticket (re_message r) = t_id (re_ticket r) \<and>
    m_body (re_message r) = body \<and> m_author_kind (re_message r) = ''contact'' \<and>
    m_author_id (re_message r) = Some contact \<and> jobs d' = jobs d \<and> deliveries d' = deliveries d"
proof -
  have "asPrincipal now (ContactPrincipal tenant contact) (replyIn fr tenant contact tid body source) d = Inr (r, d')"
    using assms(2) by (auto simp: reply_def announcing_def split: sum.splits)
  then obtain kind i where actor: "actorFor (ContactPrincipal tenant contact) = Inr (kind, i)"
    and uuid: "is_uuid (tenantOf (ContactPrincipal tenant contact))" and i: "i \<noteq> []"
    and run: "replyIn fr tenant contact tid body source
      (tenant_session now (tenantOf (ContactPrincipal tenant contact)) kind i) d = Inr (r, d')"
    by (rule asPrincipal_session)
  let ?s = "tenant_session now tenant ''contact'' contact"
  have ki: "kind = ''contact''" "i = contact" using actor by simp_all
  have arm: "armed ?s" using uuid i ki is_uuid_not_Nil [of tenant] by (simp add: armed_def)
  obtain addressed where "addressed \<in> set (tickets d)" "t_id addressed = tid" "visible_ticket ?s addressed"
    "reply_lands_on d addressed (re_ticket r) (re_landing r)" "re_message r \<in> set (messages d')"
    "m_ticket (re_message r) = t_id (re_ticket r)" "m_body (re_message r) = body"
    "m_author_kind (re_message r) = ''contact''" "m_author_id (re_message r) = Some contact"
    "jobs d' = jobs d" "deliveries d' = deliveries d"
    using replyIn_lands [OF assms(1) arm, of contact] run ki i by (metis request_principal.sel(2) tenant_session_simps(2,3))
  then show ?thesis
    by (auto simp: visible_ticket_def tenant_matches_def current_actor_is_contact_def intro!: bexI [of _ addressed])
qed

end
