(* ===== verification/Slack_Work.thy ===== *)
theory Slack_Work
  imports Slack_Inbound Reply_Outcomes
begin

text \<open>
  The back half of the Slack adapter, as the handlers of the queue run it: the ingestion of an
  event (\<open>slack-ingestion.service.ts\<close>), the delivery of a reply (\<open>slack-delivery.service.ts\<close>)
  through the client of Slack's API (\<open>slack-client.ts\<close>), and the registry of
  \<open>scheduler.module.ts\<close>. A handler commits transactions of its own besides the one the
  drainer opened for it; its writes to that one come last in every path.

  What Slack answers is an argument, one answer for each request that is sent.
\<close>

section \<open>State outside the ticket tables\<close>

record slack_post =
  sp_channel :: string
  sp_thread :: string
  sp_text :: string
  sp_token :: string

text \<open>
  The column \<open>slack_user_id\<close> of \<open>contact\<close>, the table \<open>slack_credential\<close>, the socket server
  and the requests sent to Slack so far.
\<close>

record slack_world =
  sw_speakers :: "(ident \<times> string \<times> ident) list"
  sw_tokens :: "(ident \<times> string) list"
  sw_rt :: realtime
  sw_sent :: "slack_post list"

definition payloadString :: "json \<Rightarrow> string \<Rightarrow> string" where
  "payloadString payload key = (case json_field payload key of Some (JStr s) \<Rightarrow> s | _ \<Rightarrow> [])"

section \<open>Ingestion\<close>

definition contact_upsert :: "ident \<Rightarrow> string \<Rightarrow> ident \<Rightarrow> (db \<times> slack_world, ident) transaction" where
  "contact_upsert tenant user i s st =
     (case find (\<lambda>(t, u, c). tenant_matches s t \<and> t = tenant \<and> u = user) (sw_speakers (snd st)) of
        Some (_, _, c) \<Rightarrow> Inr (c, st)
      | None \<Rightarrow>
          if \<not> tenant_matches s tenant then Inl policy_error
          else if i \<in> snd ` set (contacts (fst st)) then Inl unique_error
          else Inr (i, (fst st)\<lparr>contacts := contacts (fst st) @ [(tenant, i)]\<rparr>,
                       (snd st)\<lparr>sw_speakers := sw_speakers (snd st) @ [(tenant, user, i)]\<rparr>))"

definition contactFor :: "millis \<Rightarrow> ident \<Rightarrow> string \<Rightarrow> ident \<Rightarrow> db \<times> slack_world \<Rightarrow> thrown + (ident \<times> db \<times> slack_world)" where
  "contactFor now tenant user i st = withTenant now (systemContextFor tenant) (contact_upsert tenant user i) st"

definition contactContext :: "ident \<Rightarrow> ident \<Rightarrow> tenant_context" where
  "contactContext tenant contact =
     \<lparr>ctx_tenant = tenant, ctx_actor_kind = Some ''contact'', ctx_actor_id = Some contact\<rparr>"

definition on_thread :: "string \<Rightarrow> string \<Rightarrow> ticket \<Rightarrow> bool" where
  "on_thread channel thread t \<longleftrightarrow> t_slack_channel t = Some channel \<and> t_slack_thread t = Some thread"

definition thread_ticket :: "string \<Rightarrow> string \<Rightarrow> session \<Rightarrow> db \<Rightarrow> ticket option" where
  "thread_ticket channel thread s d =
     (case ticket_select (\<lambda>t. on_thread channel thread t \<and> t_state t \<noteq> TClosed) s d of
        t # _ \<Rightarrow> Some t
      | [] \<Rightarrow>
          (case order_rows ticket_table \<lparr>sort_field = ''createdAt'', sort_dir = Desc\<rparr>
                  (ticket_select (on_thread channel thread) s d) of
             t # _ \<Rightarrow> Some t
           | [] \<Rightarrow> None))"

definition ticketOnThread ::
  "millis \<Rightarrow> ident \<Rightarrow> ident \<Rightarrow> string \<Rightarrow> string \<Rightarrow> db \<Rightarrow> thrown + (ticket option \<times> db)" where
  "ticketOnThread now tenant contact channel thread d =
     withTenant now (contactContext tenant contact) (\<lambda>s d. Inr (thread_ticket channel thread s d, d)) d"

definition open_input :: "ident \<Rightarrow> slack_utterance \<Rightarrow> create_input" where
  "open_input contact u =
     \<lparr>ci_subject = subjectFrom (ut_text u), ci_contact = contact, ci_source = SrcSlack, ci_spawned = None,
      ci_slack_route = Some (ut_channel u, ut_thread u)\<rparr>"

definition open_work ::
  "fresh_ids \<Rightarrow> ident \<Rightarrow> ident \<Rightarrow> slack_utterance \<Rightarrow> (db, ticket \<times> thread_row) transaction" where
  "open_work fr tenant contact u s d =
     (case createIn (fr_ticket fr) (ContactPrincipal tenant contact) (open_input contact u) s d of
        Inl e \<Rightarrow> Inl e
      | Inr (t, d1) \<Rightarrow>
          (case postIn fr (ContactPrincipal tenant contact) (t_id t) (ut_text u) s d1 of
             Inl e \<Rightarrow> Inl e
           | Inr (m, d2) \<Rightarrow> Inr ((t, m), d2)))"

definition slack_open ::
  "millis \<Rightarrow> fresh_ids \<Rightarrow> ident \<Rightarrow> ident \<Rightarrow> slack_utterance \<Rightarrow> db \<Rightarrow> realtime \<Rightarrow> thrown + (unit \<times> db \<times> realtime)" where
  "slack_open now fr tenant contact u d rt =
     (case withTenant now (contactContext tenant contact) (open_work fr tenant contact u) d of
        Inl e \<Rightarrow> Inl e
      | Inr ((t, m), d') \<Rightarrow> Inr ((), d', messageCreated now m (ticketCreated now t rt)))"

definition appendTo ::
  "millis \<Rightarrow> fresh_ids \<Rightarrow> ident \<Rightarrow> ident \<Rightarrow> ticket \<Rightarrow> string \<Rightarrow> db \<Rightarrow> realtime \<Rightarrow> thrown + (unit \<times> db \<times> realtime)" where
  "appendTo now fr tenant contact t body d rt =
     (case Conversation.reply now fr tenant contact (t_id t) body SrcSlack d rt of
        Inl e \<Rightarrow> Inl e
      | Inr (_, d', rt') \<Rightarrow> Inr ((), d', rt'))"

definition ingest ::
  "millis \<Rightarrow> fresh_ids \<Rightarrow> ident \<Rightarrow> ident \<Rightarrow> slack_utterance \<Rightarrow> db \<Rightarrow> realtime \<Rightarrow> thrown + (unit \<times> db \<times> realtime)" where
  "ingest now fr tenant contact u d rt =
     (case ticketOnThread now tenant contact (ut_channel u) (ut_thread u) d of
        Inl e \<Rightarrow> Inl e
      | Inr (Some t, _) \<Rightarrow> appendTo now fr tenant contact t (ut_text u) d rt
      | Inr (None, _) \<Rightarrow> slack_open now fr tenant contact u d rt)"

text \<open>The drainer's session is not used: every write is armed for the speaker or the system.\<close>

definition ingestion_handle :: "millis \<Rightarrow> (json \<Rightarrow> ident \<times> fresh_ids) \<Rightarrow> slack_world job_handler" where
  "ingestion_handle now fresh payload jc s st =
     (case utterance (readSlackMessage (json_field payload ''event'') (payloadString payload ''botUserId'')) of
        None \<Rightarrow> (Inr (), st)
      | Some u \<Rightarrow>
          (case contactFor now (jc_tenant jc) (ut_user u) (fst (fresh payload)) st of
             Inl e \<Rightarrow> (Inl e, st)
           | Inr (contact, d, w) \<Rightarrow>
               (case ingest now (snd (fresh payload)) (jc_tenant jc) contact u d (sw_rt w) of
                  Inl e \<Rightarrow> (Inl e, d, w)
                | Inr (_, d', rt') \<Rightarrow> (Inr (), d', w\<lparr>sw_rt := rt'\<rparr>))))"

section \<open>The client of Slack's API\<close>

datatype post_error = PermanentSlackError string | OtherError string

fun error_message :: "post_error \<Rightarrow> string" where
  "error_message (PermanentSlackError m) = m"
| "error_message (OtherError m) = m"

definition PERMANENT_ERRORS :: "string list" where
  "PERMANENT_ERRORS = [''channel_not_found'', ''thread_not_found'', ''is_archived'', ''not_in_channel'', ''invalid_auth'',
     ''account_inactive'', ''token_revoked'', ''no_permission'', ''msg_too_long'']"

text \<open>
  What one request comes back with: a failed or timed-out connection and its message, a
  response with its status, and the fields of a body that could be read.
\<close>

datatype slack_answer =
    Unreachable string
  | Unreadable nat string
  | Answered nat "bool option" "string option" "string option"

definition http_ok :: "nat \<Rightarrow> bool" where
  "http_ok status \<longleftrightarrow> 200 \<le> status \<and> status \<le> 299"

definition http_error :: "nat \<Rightarrow> post_error" where
  "http_error status = OtherError (''Slack answered HTTP '' @ decimal status @ '' to chat.postMessage'')"

fun read_answer :: "slack_answer \<Rightarrow> post_error + string" where
  "read_answer (Unreachable m) = Inl (OtherError m)"
| "read_answer (Unreadable status m) = Inl (if http_ok status then OtherError m else http_error status)"
| "read_answer (Answered status ok error ts) =
     (if \<not> http_ok status then Inl (http_error status)
      else if ok \<noteq> Some True then
        (let e = (case error of None \<Rightarrow> ''unknown_error'' | Some x \<Rightarrow> x);
             m = ''Slack refused the post: '' @ e
         in Inl (if e \<in> set PERMANENT_ERRORS then PermanentSlackError m else OtherError m))
      else (case given ts of
              None \<Rightarrow> Inl (OtherError ''Slack accepted the post but named no message'')
            | Some t \<Rightarrow> Inr t))"

definition postMessage ::
  "(nat \<Rightarrow> slack_answer) \<Rightarrow> string option \<Rightarrow> string \<times> string \<Rightarrow> string \<Rightarrow> string option \<Rightarrow> slack_world \<Rightarrow>
   (post_error + string) \<times> slack_world" where
  "postMessage answers configured destination body token w =
     (case given (case token of None \<Rightarrow> configured | Some t \<Rightarrow> Some t) of
        None \<Rightarrow> (Inl (PermanentSlackError
                  ''Slack is not configured in this process, so there is no credential to post with.''), w)
      | Some t \<Rightarrow>
          (read_answer (answers (length (sw_sent w))),
           w\<lparr>sw_sent := sw_sent w @ [\<lparr>sp_channel = fst destination, sp_thread = snd destination, sp_text = body, sp_token = t\<rparr>]\<rparr>))"

section \<open>Delivery\<close>

definition delivery_visible :: "session \<Rightarrow> delivery_row \<Rightarrow> bool" where
  "delivery_visible s r \<longleftrightarrow> tenant_matches s (d_tenant r) \<and> \<not> current_actor_is_contact s"

definition delivery_claim :: "ident \<Rightarrow> string \<Rightarrow> (db, delivery_row option) transaction" where
  "delivery_claim message target s d =
     (let hit = (\<lambda>r. delivery_visible s r \<and> d_message r = message \<and> d_target r = target \<and> d_status r = DPending);
          d' = d\<lparr>deliveries := map (\<lambda>r. if hit r then r\<lparr>d_attempts := Suc (d_attempts r)\<rparr> else r) (deliveries d)\<rparr>
      in if filter hit (deliveries d) = [] then Inr (None, d)
         else Inr (find (\<lambda>r. delivery_visible s r \<and> d_message r = message \<and> d_target r = target) (deliveries d'), d'))"

text \<open>An update by id fails when the policy shows no such row; a delivered row carries its instant.\<close>

definition delivery_update :: "ident \<Rightarrow> (delivery_row \<Rightarrow> delivery_row) \<Rightarrow> (db, unit) transaction" where
  "delivery_update i f s d =
     (let hit = (\<lambda>r. delivery_visible s r \<and> d_id r = i);
          changed = map f (filter hit (deliveries d))
      in if changed = [] then Inl (RawError (Some ''P2025'') None)
         else if \<not> list_all (\<lambda>r. (d_status r = DDelivered) = (d_delivered_at r \<noteq> None)) changed then Inl check_error
         else Inr ((), d\<lparr>deliveries := map (\<lambda>r. if hit r then f r else r) (deliveries d)\<rparr>))"

definition delivery_settle :: "ident \<Rightarrow> delivery_status \<Rightarrow> string \<Rightarrow> (db, unit) transaction" where
  "delivery_settle i status message = delivery_update i (\<lambda>r. r\<lparr>d_status := status, d_last_error := Some message\<rparr>)"

definition delivery_record :: "ident \<Rightarrow> string \<Rightarrow> (db, unit) transaction" where
  "delivery_record i external s =
     delivery_update i (\<lambda>r. r\<lparr>d_status := DDelivered, d_delivered_at := Some (s_now s), d_external := Some external,
       d_last_error := None\<rparr>) s"

definition tokenFor :: "session \<Rightarrow> slack_world \<Rightarrow> string option" where
  "tokenFor s w = map_option snd (find (\<lambda>(t, _). tenant_matches s t \<and> \<not> current_actor_is_contact s) (sw_tokens w))"

definition message_find :: "ident \<Rightarrow> session \<Rightarrow> db \<Rightarrow> thread_row option" where
  "message_find i s d = find (\<lambda>m. visible_message s d m \<and> m_id m = i) (messages d)"

definition textOf :: "ident \<Rightarrow> session \<Rightarrow> db \<Rightarrow> string option" where
  "textOf i s d = map_option m_body (message_find i s d)"

definition abandon_audit :: "delivery_row \<Rightarrow> ident option \<Rightarrow> string \<Rightarrow> audit_values" where
  "abandon_audit row tid message =
     \<lparr>v_action = integration_failed, v_target_kind = ''integration'', v_target_id = d_id row,
      v_ticket = (case tid of None \<Rightarrow> None | Some i \<Rightarrow> if i = [] then None else Some i), v_from = None, v_to = None,
      v_metadata = Some (JObj [(''source'', JStr (d_source row)), (''target'', JStr (d_target row)),
        (''messageId'', JStr (d_message row)), (''attempts'', JNum (JInt (int (d_attempts row)))), (''error'', JStr message)])\<rparr>"

definition settleAndAudit :: "delivery_row \<Rightarrow> string \<Rightarrow> (db, ident option) transaction" where
  "settleAndAudit row message s d =
     (case delivery_settle (d_id row) DDead message s d of
        Inl e \<Rightarrow> Inl e
      | Inr (_, d1) \<Rightarrow>
          (let tid = map_option m_ticket (message_find (d_message row) s d1)
           in case audit_record (abandon_audit row tid message) s d1 of
                Inl e \<Rightarrow> Inl e
              | Inr (_, d2) \<Rightarrow> Inr (tid, d2)))"

definition abandon ::
  "millis \<Rightarrow> ident \<Rightarrow> delivery_row \<Rightarrow> string \<Rightarrow> session \<Rightarrow> db \<times> slack_world \<Rightarrow> (thrown + unit) \<times> db \<times> slack_world" where
  "abandon now tenant row message s st =
     (case settleAndAudit row message s (fst st) of
        Inl e \<Rightarrow> (Inl e, st)
      | Inr (tid, d') \<Rightarrow>
          (Inr (), d',
           (case given tid of
              None \<Rightarrow> snd st
            | Some i \<Rightarrow> (snd st)\<lparr>sw_rt := integrationFailed now tenant
                \<lparr>fl_ticket = i, fl_message = d_message row, fl_source = d_source row, fl_target = d_target row,
                 fl_error = message\<rparr> (sw_rt (snd st))\<rparr>)))"

text \<open>
  A failed attempt. The message and the value that is thrown on are those of the error; only
  an error of the client can be permanent.
\<close>

definition delivery_fail ::
  "millis \<Rightarrow> job_context \<Rightarrow> delivery_row \<Rightarrow> string \<Rightarrow> bool \<Rightarrow> thrown \<Rightarrow> session \<Rightarrow> db \<times> slack_world \<Rightarrow>
   (thrown + unit) \<times> db \<times> slack_world" where
  "delivery_fail now jc row message permanent error s st =
     (if permanent \<or> jc_max_attempts jc \<le> jc_attempt jc then abandon now (jc_tenant jc) row message s st
      else (case withTenant now (systemContextFor (jc_tenant jc)) (delivery_settle (d_id row) DPending message) (fst st) of
              Inl e \<Rightarrow> (Inl e, st)
            | Inr (_, d') \<Rightarrow> (Inl error, d', snd st)))"

fun is_permanent :: "post_error \<Rightarrow> bool" where
  "is_permanent (PermanentSlackError _) = True"
| "is_permanent (OtherError _) = False"

record slack_client =
  sc_answers :: "nat \<Rightarrow> slack_answer"
  sc_configured :: "string option"
  sc_describe :: "thrown \<Rightarrow> string"
  sc_record_fault :: "thrown option"

definition attempt_delivery ::
  "slack_client \<Rightarrow> millis \<Rightarrow> job_context \<Rightarrow> delivery_row \<Rightarrow> string \<times> string \<Rightarrow> string \<Rightarrow> session \<Rightarrow> db \<times> slack_world \<Rightarrow>
   (thrown + unit) \<times> db \<times> slack_world" where
  "attempt_delivery cl now jc row destination body s st =
     (case postMessage (sc_answers cl) (sc_configured cl) destination body (tokenFor s (snd st)) (snd st) of
        (Inl err, w) \<Rightarrow>
          delivery_fail now jc row (error_message err) (is_permanent err) (RawError None None) s (fst st, w)
      | (Inr ts, w) \<Rightarrow>
          (case or_fault (sc_record_fault cl)
                  (withTenant now (systemContextFor (jc_tenant jc)) (delivery_record (d_id row) ts) (fst st)) of
             Inl e \<Rightarrow> delivery_fail now jc row (sc_describe cl e) False e s (fst st, w)
           | Inr (_, d') \<Rightarrow> (Inr (), d', w)))"

definition not_a_destination :: "string \<Rightarrow> string" where
  "not_a_destination target = ''The delivery target '' @ json_text (JStr target) @ '' is not a Slack destination.''"

definition delivery_handle :: "slack_client \<Rightarrow> millis \<Rightarrow> slack_world job_handler" where
  "delivery_handle cl now payload jc s st =
     (let message = payloadString payload ''messageId'';
          target = payloadString payload ''target''
      in case withTenant now (systemContextFor (jc_tenant jc)) (delivery_claim message target) (fst st) of
           Inl e \<Rightarrow> (Inl e, st)
         | Inr (None, d) \<Rightarrow> (Inr (), d, snd st)
         | Inr (Some row, d) \<Rightarrow>
             (case parseSlackTarget target of
                None \<Rightarrow> abandon now (jc_tenant jc) row (not_a_destination target) s (d, snd st)
              | Some destination \<Rightarrow>
                  (case textOf (d_message row) s d of
                     None \<Rightarrow>
                       (case delivery_settle (d_id row) DDead ''The Message was deleted before it could be delivered.'' s d of
                          Inl e \<Rightarrow> (Inl e, d, snd st)
                        | Inr (_, d') \<Rightarrow> (Inr (), d', snd st))
                   | Some body \<Rightarrow> attempt_delivery cl now jc row destination body s (d, snd st))))"

section \<open>The registry\<close>

definition job_handlers ::
  "slack_client \<Rightarrow> millis \<Rightarrow> (json \<Rightarrow> ident \<times> fresh_ids) \<Rightarrow> string \<Rightarrow> slack_world job_handler option" where
  "job_handlers cl now fresh kind =
     (if kind = INBOUND_EVENT_JOB then Some (ingestion_handle now fresh)
      else if kind = OUTBOUND_DELIVERY_JOB then Some (delivery_handle cl now)
      else None)"

section \<open>What the handlers touch\<close>

text \<open>A delivery touches its own table and appends to the audit log; nothing else.\<close>

definition deliveries_only :: "db \<Rightarrow> db \<Rightarrow> bool" where
  "deliveries_only d d' \<longleftrightarrow>
     contacts d' = contacts d \<and> users d' = users d \<and> tickets d' = tickets d \<and> messages d' = messages d \<and>
     note_rows d' = note_rows d \<and> jobs d' = jobs d \<and> prefix (audit d) (audit d')"

lemma deliveries_only_refl [simp]: "deliveries_only d d"
  by (simp add: deliveries_only_def)

lemma deliveries_only_trans: "deliveries_only d d1 \<Longrightarrow> deliveries_only d1 d2 \<Longrightarrow> deliveries_only d d2"
  unfolding deliveries_only_def by (auto intro: prefix_order.trans)

definition delivery_step :: "ident \<Rightarrow> db \<Rightarrow> db \<Rightarrow> bool" where
  "delivery_step tenant d d' \<longleftrightarrow> deliveries_only d d' \<and> (ticket_inv d \<longrightarrow> safe_step tenant d d')"

lemma delivery_step_refl [simp]: "delivery_step tenant d d"
  by (simp add: delivery_step_def safe_step_refl)

lemma delivery_step_trans: "delivery_step tenant d d1 \<Longrightarrow> delivery_step tenant d1 d2 \<Longrightarrow> delivery_step tenant d d2"
  unfolding delivery_step_def by (blast intro: deliveries_only_trans safe_step_trans safe_step_inv)

lemma deliveries_step:
  assumes "d' = d\<lparr>deliveries := map (\<lambda>r. if Q r then f r else r) (deliveries d)\<rparr>"
    and "\<And>r. Q r \<Longrightarrow> d_tenant r = tenant" and "\<And>r. d_tenant (f r) = d_tenant r"
  shows "delivery_step tenant d d'"
proof -
  have "filter (\<lambda>x. d_tenant x \<noteq> tenant) (map (\<lambda>r. if Q r then f r else r) xs) = filter (\<lambda>x. d_tenant x \<noteq> tenant) xs" for xs
    using assms(2,3) by (induction xs) auto
  then have "safe_step tenant d d'" if "ticket_inv d"
    using that by (intro frame_safe) (simp_all add: assms(1) others_def)
  moreover have "deliveries_only d d'" by (simp add: deliveries_only_def assms(1))
  ultimately show ?thesis by (simp add: delivery_step_def)
qed

lemma delivery_claim_step: "delivery_claim message target s d = Inr (x, d') \<Longrightarrow> delivery_step (s_tenant s) d d'"
  by (auto simp: delivery_claim_def Let_def delivery_visible_def tenant_matches_def split: if_splits intro!: deliveries_step)

lemma delivery_update_step:
  assumes "delivery_update i f s d = Inr (x, d')" and "\<And>r. d_tenant (f r) = d_tenant r"
  shows "delivery_step (s_tenant s) d d'"
  using assms
  by (auto simp: delivery_update_def Let_def delivery_visible_def tenant_matches_def split: if_splits intro!: deliveries_step)

lemma delivery_writes:
  "delivery_settle i status message s d = Inr (x, d') \<Longrightarrow> delivery_step (s_tenant s) d d'"
  "delivery_record i ts s d = Inr (x, d') \<Longrightarrow> delivery_step (s_tenant s) d d'"
  by (auto simp: delivery_settle_def delivery_record_def elim: delivery_update_step)

lemma abandon_record_step:
  assumes "audit_record (abandon_audit row tid message) s d = Inr (u, d')"
  shows "delivery_step (s_tenant s) d d'"
proof -
  have "deliveries_only d d'"
    using assms by (auto simp: deliveries_only_def audit_record_def split: sum.splits)
  moreover have "ticket_inv d \<Longrightarrow> safe_step (s_tenant s) d d'"
    using audit_record_safe [OF _ assms] by (simp add: abandon_audit_def)
  ultimately show ?thesis by (simp add: delivery_step_def)
qed

lemma settleAndAudit_step:
  assumes "settleAndAudit row message s d = Inr (tid, d')"
  shows "delivery_step (s_tenant s) d d'"
proof -
  obtain d1 u v where "delivery_settle (d_id row) DDead message s d = Inr (u, d1)"
    and "audit_record (abandon_audit row tid message) s d1 = Inr (v, d')"
    using assms by (auto simp: settleAndAudit_def Let_def split: sum.splits)
  then show ?thesis using delivery_writes(1) abandon_record_step delivery_step_trans by blast
qed

lemma own_step:
  assumes "withTenant now (systemContextFor tenant) work d = Inr (x, d')"
    and "\<And>s. work s d = Inr (x, d') \<Longrightarrow> delivery_step (s_tenant s) d d'"
  shows "delivery_step tenant d d'"
  using assms(1) by (rule withTenant_session) (use assms(2) in \<open>fastforce simp: systemContextFor_def\<close>)

text \<open>The world a delivery leaves: a socket server that heard at most one more announcement.\<close>

definition announces_failure :: "ident \<Rightarrow> slack_world \<Rightarrow> slack_world \<Rightarrow> bool" where
  "announces_failure tenant w w' \<longleftrightarrow>
     sw_rt w' = sw_rt w \<or> (\<exists>now f. sw_rt w' = integrationFailed now tenant f (sw_rt w))"

lemma announces_failureI [intro]:
  "sw_rt w' = sw_rt w \<Longrightarrow> announces_failure tenant w w'"
  "sw_rt w' = integrationFailed now tenant f (sw_rt w) \<Longrightarrow> announces_failure tenant w w'"
  by (auto simp: announces_failure_def)

lemma abandon_step:
  assumes "abandon now tenant row message s (d, w) = (r, d', w')"
  shows "delivery_step (s_tenant s) d d' \<and> announces_failure tenant w w' \<and> sw_sent w' = sw_sent w \<and>
    sw_speakers w' = sw_speakers w \<and> sw_tokens w' = sw_tokens w"
  using assms
  by (auto simp: abandon_def split: sum.splits prod.splits option.splits dest: settleAndAudit_step)

lemma delivery_fail_step:
  assumes "delivery_fail now jc row message permanent e s (d, w) = (r, d', w')" and "s_tenant s = jc_tenant jc"
  shows "delivery_step (jc_tenant jc) d d' \<and> announces_failure (jc_tenant jc) w w' \<and> sw_sent w' = sw_sent w \<and>
    sw_speakers w' = sw_speakers w \<and> sw_tokens w' = sw_tokens w"
proof (cases "permanent \<or> jc_max_attempts jc \<le> jc_attempt jc")
  case True
  then show ?thesis using assms abandon_step [of now "jc_tenant jc" row message s d w r d' w'] by (simp add: delivery_fail_def)
next
  case False
  then show ?thesis
    using assms(1) delivery_writes(1)
    by (auto simp: delivery_fail_def split: sum.splits prod.splits elim!: own_step)
qed

lemma postMessage_world:
  assumes "postMessage answers configured destination body token w = (r, w')"
  shows "sw_rt w' = sw_rt w \<and> sw_speakers w' = sw_speakers w \<and> sw_tokens w' = sw_tokens w \<and>
    (sw_sent w' = sw_sent w \<or> (\<exists>p. sw_sent w' = sw_sent w @ [p]))"
  using assms by (auto simp: postMessage_def split: option.splits)

lemma announces_after: "announces_failure tenant w w' \<Longrightarrow> sw_rt w = sw_rt w0 \<Longrightarrow> announces_failure tenant w0 w'"
  by (simp add: announces_failure_def)

lemma attempt_step:
  assumes run: "attempt_delivery cl now jc row destination body s (d, w) = (r, d', w')" and s: "s_tenant s = jc_tenant jc"
  shows "delivery_step (jc_tenant jc) d d' \<and> announces_failure (jc_tenant jc) w w' \<and>
    (sw_sent w' = sw_sent w \<or> (\<exists>p. sw_sent w' = sw_sent w @ [p])) \<and>
    sw_speakers w' = sw_speakers w \<and> sw_tokens w' = sw_tokens w"
proof -
  obtain res w1 where post: "postMessage (sc_answers cl) (sc_configured cl) destination body (tokenFor s w) w = (res, w1)"
    by fastforce
  note pw = postMessage_world [OF post]
  show ?thesis
  proof (cases "\<exists>m p e. delivery_fail now jc row m p e s (d, w1) = (r, d', w')")
    case True
    then obtain m p e where "delivery_fail now jc row m p e s (d, w1) = (r, d', w')" by blast
    from delivery_fail_step [OF this s] show ?thesis using pw announces_after by auto
  next
    case False
    with run post obtain ts x where "withTenant now (systemContextFor (jc_tenant jc)) (delivery_record (d_id row) ts) d = Inr (x, d')" "w' = w1"
      by (auto simp: attempt_delivery_def or_fault_def split: sum.splits prod.splits option.splits)
    then show ?thesis using pw delivery_writes(2) by (auto elim!: own_step)
  qed
qed

lemma delivery_handle_step:
  assumes run: "delivery_handle cl now payload jc s (d, w) = (r, d', w')" and s: "s_tenant s = jc_tenant jc"
  shows "delivery_step (jc_tenant jc) d d' \<and> announces_failure (jc_tenant jc) w w' \<and>
    (sw_sent w' = sw_sent w \<or> (\<exists>p. sw_sent w' = sw_sent w @ [p])) \<and>
    sw_speakers w' = sw_speakers w \<and> sw_tokens w' = sw_tokens w"
proof (cases "withTenant now (systemContextFor (jc_tenant jc))
    (delivery_claim (payloadString payload ''messageId'') (payloadString payload ''target'')) d")
  case (Inl e)
  then show ?thesis using run by (auto simp: delivery_handle_def Let_def)
next
  case (Inr y)
  then obtain found d1 where claim: "withTenant now (systemContextFor (jc_tenant jc))
      (delivery_claim (payloadString payload ''messageId'') (payloadString payload ''target'')) d = Inr (found, d1)"
    by (cases y) auto
  have one: "delivery_step (jc_tenant jc) d d1" by (rule own_step [OF claim]) (rule delivery_claim_step)
  show ?thesis
  proof (cases found)
    case None
    then show ?thesis using run claim one by (auto simp: delivery_handle_def Let_def)
  next
    case (Some row)
    note rest = delivery_step_trans [OF one]
    show ?thesis
    proof (cases "parseSlackTarget (payloadString payload ''target'')")
      case None
      then have "abandon now (jc_tenant jc) row (not_a_destination (payloadString payload ''target'')) s (d1, w) = (r, d', w')"
        using run claim Some by (simp add: delivery_handle_def Let_def)
      from abandon_step [OF this] show ?thesis using rest s by simp
    next
      case dest: (Some destination)
      show ?thesis
      proof (cases "textOf (d_message row) s d1")
        case None
        then show ?thesis
          using run claim Some dest rest s one delivery_writes(1) [of "d_id row" DDead _ s d1]
          by (auto simp: delivery_handle_def Let_def split: sum.splits prod.splits)
      next
        case (Some body)
        then have "attempt_delivery cl now jc row destination body s (d1, w) = (r, d', w')"
          using run claim \<open>found = Some row\<close> dest by (simp add: delivery_handle_def Let_def)
        from attempt_step [OF this s] show ?thesis using rest by auto
      qed
    qed
  qed
qed

section \<open>Ingestion keeps the contract\<close>

lemma contact_upsert_cases:
  assumes "contact_upsert tenant user i s (d, w) = Inr (c, d', w')"
  obtains (known) "d' = d" "w' = w" "(tenant, user, c) \<in> set (sw_speakers w)"
  | (fresh) "c = i" "d' = d\<lparr>contacts := contacts d @ [(tenant, i)]\<rparr>" "w' = w\<lparr>sw_speakers := sw_speakers w @ [(tenant, user, i)]\<rparr>"
      "i \<notin> snd ` set (contacts d)" "s_tenant s = tenant"
proof (cases "find (\<lambda>(t, u, c). tenant_matches s t \<and> t = tenant \<and> u = user) (sw_speakers w)")
  case None
  then have "c = i \<and> d' = d\<lparr>contacts := contacts d @ [(tenant, i)]\<rparr> \<and> w' = w\<lparr>sw_speakers := sw_speakers w @ [(tenant, user, i)]\<rparr> \<and>
      i \<notin> snd ` set (contacts d) \<and> s_tenant s = tenant"
    using assms by (auto simp: contact_upsert_def tenant_matches_def split: if_splits)
  then show ?thesis by (intro fresh) simp_all
next
  case (Some x)
  have "x \<in> set (sw_speakers w) \<and> (case x of (t, u, c) \<Rightarrow> t = tenant \<and> u = user)"
    using find_SomeD [OF Some] by (simp add: case_prod_beta)
  then show ?thesis using assms Some by (intro known) (simp_all add: contact_upsert_def split: prod.splits)
qed

lemma contactFor_cases:
  assumes "contactFor now tenant user i (d, w) = Inr (c, d', w')"
  obtains (known) "d' = d" "w' = w" "(tenant, user, c) \<in> set (sw_speakers w)"
  | (fresh) "c = i" "d' = d\<lparr>contacts := contacts d @ [(tenant, i)]\<rparr>" "w' = w\<lparr>sw_speakers := sw_speakers w @ [(tenant, user, i)]\<rparr>"
      "i \<notin> snd ` set (contacts d)"
proof -
  obtain s where "contact_upsert tenant user i s (d, w) = Inr (c, d', w')"
    using assms unfolding contactFor_def by (rule withTenant_session)
  then show ?thesis
  proof (cases rule: contact_upsert_cases)
    case known
    then show ?thesis by (rule that(1))
  next
    case fresh
    from fresh(1-4) show ?thesis by (rule that(2))
  qed
qed

lemma contactFor_safe:
  assumes "contactFor now tenant user i (d, w) = Inr (c, d', w')" and "ticket_inv d"
  shows "safe_step tenant d d' \<and> sw_rt w' = sw_rt w \<and> tickets d' = tickets d"
  using assms(1)
proof (cases rule: contactFor_cases)
  case fresh
  have "safe_step tenant d d'" by (rule frame_safe [OF assms(2)]) (auto simp: fresh others_def)
  then show ?thesis by (simp add: fresh)
qed (use assms(2) in \<open>simp add: safe_step_refl\<close>)

lemma open_work_safe: "tx_safe (open_work fr tenant contact u)"
proof (rule tx_safeI)
  fix s d x d' assume inv: "ticket_inv d" and "open_work fr tenant contact u s d = Inr (x, d')"
  then obtain t d1 m where c: "createIn (fr_ticket fr) (ContactPrincipal tenant contact) (open_input contact u) s d = Inr (t, d1)"
    and p: "postIn fr (ContactPrincipal tenant contact) (t_id t) (ut_text u) s d1 = Inr (m, d')"
    by (auto simp: open_work_def split: sum.splits)
  note one = tx_safeD [OF createIn_safe inv c]
  show "safe_step (s_tenant s) d d'" by (rule safe_step_trans [OF one tx_safeD [OF postIn_safe safe_step_inv [OF one] p]])
qed

interpretation slack_opening: armed_work "open_work fr tenant contact u" for fr tenant contact u
  by unfold_locales (rule open_work_safe)

lemma slack_open_ok:
  assumes "slack_open now fr tenant contact u d rt = Inr (x, d', rt')" and "ticket_inv d" and "realtime_inv d rt"
  shows "service_ok tenant d rt d' rt'"
proof -
  obtain t m where run: "withTenant now (contactContext tenant contact) (open_work fr tenant contact u) d = Inr ((t, m), d')"
    and rt': "rt' = messageCreated now m (ticketCreated now t rt)"
    using assms(1) by (auto simp: slack_open_def split: sum.splits)
  have "safe_step tenant d d'" using slack_opening.tenant_run [OF assms(2) run] by (simp add: contactContext_def)
  then show ?thesis using assms(3) unfolding service_ok_def rt' by (auto simp: safe_step_def intro: service_inv realtime_inv_mono)
qed

lemma ingest_ok:
  assumes "ingest now fr tenant contact u d rt = Inr (x, d', rt')" and "ticket_inv d" and "realtime_inv d rt"
  shows "service_ok tenant d rt d' rt'"
  using assms slack_open_ok reply_ok
  by (fastforce simp: ingest_def appendTo_def split: sum.splits prod.splits option.splits)

lemma ingestion_ok:
  assumes run: "ingestion_handle now fresh payload jc s (d, w) = (r, d', w')" and "ticket_inv d" and "realtime_inv d (sw_rt w)"
  shows "service_ok (jc_tenant jc) d (sw_rt w) d' (sw_rt w')"
proof (cases "utterance (readSlackMessage (json_field payload ''event'') (payloadString payload ''botUserId''))")
  case None
  then show ?thesis using assms by (auto simp: ingestion_handle_def service_ok_def safe_step_refl)
next
  case (Some u)
  show ?thesis
  proof (cases "contactFor now (jc_tenant jc) (ut_user u) (fst (fresh payload)) (d, w)")
    case (Inl e)
    then show ?thesis using assms Some by (auto simp: ingestion_handle_def service_ok_def safe_step_refl)
  next
    case (Inr y)
    then obtain c d1 w1 where c: "contactFor now (jc_tenant jc) (ut_user u) (fst (fresh payload)) (d, w) = Inr (c, d1, w1)"
      by (cases y) auto
    note one = contactFor_safe [OF c assms(2)]
    have rt1: "realtime_inv d1 (sw_rt w1)" using one assms(3) by (auto simp: safe_step_def intro: realtime_inv_mono)
    show ?thesis
    proof (cases "ingest now (snd (fresh payload)) (jc_tenant jc) c u d1 (sw_rt w1)")
      case (Inl e)
      then show ?thesis using run Some c one rt1 by (simp add: ingestion_handle_def service_ok_def)
    next
      case (Inr z)
      obtain x d2 rt2 where z: "z = (x, d2, rt2)" by (cases z)
      have "service_ok (jc_tenant jc) d1 (sw_rt w1) d2 rt2" by (rule ingest_ok [OF Inr [unfolded z] safe_step_inv [OF conjunct1 [OF one]] rt1])
      then show ?thesis using run Some c one Inr z by (auto simp: ingestion_handle_def service_ok_def intro: safe_step_trans)
    qed
  qed
qed

section \<open>The handlers and the queue\<close>

lemma postIn_jobs: "postIn fr p tid body s d = Inr (m, d') \<Longrightarrow> \<exists>new. jobs d' = jobs d @ new"
proof (erule postIn_parts)
  fix t d1 assume ins: "message_insert (fr_message fr) (tenantOf p) tid body s d = Inr (m, d1)"
    and dis: "dispatchIn fr m s d1 = Inr ((), d')"
  have "jobs d1 = jobs d" by (rule message_insert_row(7) [OF ins])
  moreover from dis have "\<exists>new. jobs d' = jobs d1 @ new"
  proof (cases rule: dispatchIn_cases)
    case (queued source target d2 v)
    from queued(3) have "jobs d2 = jobs d1" by (auto elim: delivery_insert_parts)
    then show ?thesis using queued(4) by (auto elim!: enqueue_parts)
  qed simp
  ultimately show "\<exists>new. jobs d' = jobs d @ new" by simp
qed

lemma reply_jobs:
  assumes "Conversation.reply now fr tenant contact tid body source d rt = Inr (r, d', rt')"
  shows "\<exists>new. jobs d' = jobs d @ new"
proof -
  have "asPrincipal now (ContactPrincipal tenant contact) (replyIn fr tenant contact tid body source) d = Inr (r, d')"
    using assms by (auto simp: reply_def announcing_def split: sum.splits)
  then obtain s where "replyIn fr tenant contact tid body source s d = Inr (r, d')" by (rule asPrincipal_session)
  then obtain a t landing d1 m where
    "targetFor (fr_ticket fr) (ContactPrincipal tenant contact) contact a source s d = Inr ((t, landing), d1)"
    "postIn fr (ContactPrincipal tenant contact) (t_id t) body s d1 = Inr (m, d')" by (rule replyIn_parts)
  then show ?thesis using targetFor_queue postIn_jobs by metis
qed

lemma slack_open_jobs:
  assumes "slack_open now fr tenant contact u d rt = Inr (x, d', rt')"
  shows "\<exists>new. jobs d' = jobs d @ new"
proof -
  obtain y where "withTenant now (contactContext tenant contact) (open_work fr tenant contact u) d = Inr (y, d')"
    using assms by (auto simp: slack_open_def split: sum.splits)
  then obtain s where "open_work fr tenant contact u s d = Inr (y, d')" by (rule withTenant_session)
  then obtain t d1 m where
    "createIn (fr_ticket fr) (ContactPrincipal tenant contact) (open_input contact u) s d = Inr (t, d1)"
    "postIn fr (ContactPrincipal tenant contact) (t_id t) (ut_text u) s d1 = Inr (m, d')"
    by (auto simp: open_work_def split: sum.splits)
  then show ?thesis using createIn_queue postIn_jobs by metis
qed

lemma ingestion_jobs:
  assumes run: "ingestion_handle now fresh payload jc s (d, w) = (r, d', w')"
  shows "\<exists>new. jobs d' = jobs d @ new"
proof (cases "utterance (readSlackMessage (json_field payload ''event'') (payloadString payload ''botUserId''))")
  case (Some u)
  show ?thesis
  proof (cases "contactFor now (jc_tenant jc) (ut_user u) (fst (fresh payload)) (d, w)")
    case (Inr y)
    then obtain c d1 w1 where c: "contactFor now (jc_tenant jc) (ut_user u) (fst (fresh payload)) (d, w) = Inr (c, d1, w1)"
      by (cases y) auto
    then have one: "jobs d1 = jobs d" by (cases rule: contactFor_cases) simp_all
    have "\<exists>new. jobs d2 = jobs d1 @ new" if "ingest now fr tenant c u d1 rt = Inr (x, d2, rt2)" for fr tenant rt x d2 rt2
      using that by (auto simp: ingest_def appendTo_def split: sum.splits prod.splits option.splits dest: reply_jobs slack_open_jobs)
    then show ?thesis using run Some c one by (auto simp: ingestion_handle_def split: sum.splits prod.splits)
  qed (use run Some in \<open>simp add: ingestion_handle_def\<close>)
qed (use run in \<open>simp add: ingestion_handle_def\<close>)

lemma job_handlers_cases:
  "job_handlers cl now fresh kind = Some h \<Longrightarrow> h = ingestion_handle now fresh \<or> h = delivery_handle cl now"
  by (auto simp: job_handlers_def split: if_splits)

text \<open>A handler keeps to the tenant of its job and keeps the invariants of the tickets and the rooms.\<close>

lemma job_handler_ok:
  assumes h: "job_handlers cl now fresh kind = Some h" and s: "s_tenant s = jc_tenant jc"
    and run: "h payload jc s (d, w) = (r, d', w')" and inv: "ticket_inv d" "realtime_inv d (sw_rt w)"
  shows "service_ok (jc_tenant jc) d (sw_rt w) d' (sw_rt w')"
proof -
  consider "h = ingestion_handle now fresh" | "h = delivery_handle cl now" using job_handlers_cases [OF h] by blast
  then show ?thesis
  proof cases
    case 1
    then show ?thesis using run inv by (blast intro: ingestion_ok)
  next
    case 2
    then have "delivery_step (jc_tenant jc) d d'" and rt: "announces_failure (jc_tenant jc) w w'"
      using delivery_handle_step [of cl now payload jc s d w r d' w'] run s by auto
    then have safe: "safe_step (jc_tenant jc) d d'" using inv(1) by (simp add: delivery_step_def)
    then have "realtime_inv d' (sw_rt w)" using inv(2) by (auto simp: safe_step_def intro: realtime_inv_mono)
    then have "realtime_inv d' (sw_rt w')" using rt service_inv(7) by (auto simp: announces_failure_def)
    with safe show ?thesis by (simp add: service_ok_def)
  qed
qed

lemma job_transaction_ok:
  assumes h: "job_handlers cl now fresh kind = Some h" and tenant: "ctx_tenant ctx = jc_tenant jc"
    and run: "handler_transaction t ctx (h payload jc) (d, w) = (r, d', w')" and inv: "ticket_inv d" "realtime_inv d (sw_rt w)"
  shows "service_ok (jc_tenant jc) d (sw_rt w) d' (sw_rt w')"
proof (cases "contextSettings ctx")
  case (Inl e)
  then show ?thesis using run inv by (simp add: handler_transaction_def service_ok_def safe_step_refl)
next
  case (Inr y)
  obtain tn kind i where y: "y = (tn, kind, i)" by (cases y)
  have "s_tenant (tenant_session t tn kind i) = jc_tenant jc" using contextSettings_shape(1) [OF Inr [unfolded y]] tenant by simp
  from job_handler_ok [OF h this _ inv] show ?thesis using run Inr y by (simp add: handler_transaction_def)
qed

interpretation slack_queue: queue_handlers "job_handlers cl now fresh" for cl now fresh
proof
  fix k h s jc payload d w r d' w'
  assume h: "job_handlers cl now fresh k = Some h" and s: "s_tenant s = jc_tenant jc" and run: "h payload jc s (d, w) = (r, d', w')"
  from job_handlers_cases [OF h] show "\<exists>new. jobs d' = jobs d @ new"
    using run ingestion_jobs delivery_handle_step [of cl now payload jc s d w r d' w'] s
    by (auto simp: delivery_step_def deliveries_only_def)
qed

text \<open>
  C16. A tick settles every job it claims: with the handlers the program registers, whatever
  Slack answers and whatever the handlers throw, each claimed job is afterwards done, dead
  or ready again at a later moment, none is left locked, and the summary counts each once.
\<close>

theorem tick_settles:
  assumes "jobs_ok d" and "claim locked now limit d = (js, d1)"
    and "drainer_tick describe (job_handlers cl t fresh) random locked now limit (d, w) = (sm, d', w')"
    and "\<forall>n. 0 \<le> random n \<and> random n \<le> 1"
  shows "ds_claimed sm = length js \<and> ds_completed sm + ds_retried sm + ds_dead sm = ds_claimed sm \<and>
    (\<forall>job \<in> set js. \<exists>j. job_of (j_id job) d' = Some j \<and>
       (j_status j = JDone \<or> j_status j = JDead \<or> (j_status j = JReady \<and> now < j_run_after j)))"
  using slack_queue.tick_summary [OF assms(1,2,3)] assms(4) unfolding settled_def by blast

section \<open>A conversation through Slack\<close>

definition slack_tenant :: ident where "slack_tenant = ''11111111-1111-4111-8111-111111111111''"
definition speaker_one :: ident where "speaker_one = ''33333333-3333-4333-8333-333333333333''"

definition slack_event_payload :: "string \<Rightarrow> string \<Rightarrow> json" where
  "slack_event_payload user body = JObj [(''source'', JStr ''slack''), (''eventId'', JStr ''Ev1''), (''botUserId'', JStr ''B''),
     (''event'', JObj [(''type'', JStr ''message''), (''user'', JStr user), (''channel'', JStr ''C''), (''ts'', JStr ''1.1''),
       (''text'', JStr body)])]"

definition slack_ids :: "json \<Rightarrow> ident \<times> fresh_ids" where
  "slack_ids payload = (speaker_one, \<lparr>fr_message = ''m1'', fr_delivery = ''d1'', fr_job = ''j1'',
     fr_ticket = ''55555555-5555-4555-8555-555555555555''\<rparr>)"

definition slack_job :: job_context where
  "slack_job = \<lparr>jc_tenant = slack_tenant, jc_attempt = 1, jc_max_attempts = 5\<rparr>"

definition quiet_world :: slack_world where
  "quiet_world = \<lparr>sw_speakers = [], sw_tokens = [], sw_rt = new_realtime, sw_sent = []\<rparr>"

definition first_ingestion :: "(thrown + unit) \<times> db \<times> slack_world" where
  "first_ingestion = ingestion_handle 1000 slack_ids (slack_event_payload ''U1'' ''Help'') slack_job
     (tenant_session 1000 slack_tenant ''system'' []) (empty_db, quiet_world)"

definition agent_reply :: "thrown + (thread_row \<times> db \<times> realtime)" where
  "agent_reply = message_post 2000 \<lparr>fr_message = ''m2'', fr_delivery = ''d2'', fr_job = ''j2'', fr_ticket = ''x''\<rparr>
     (StaffPrincipal slack_tenant ''44444444-4444-4444-8444-444444444444'' ''agent'')
     ''55555555-5555-4555-8555-555555555555'' ''Try now'' (fst (snd first_ingestion)) (sw_rt (snd (snd first_ingestion)))"

definition replied_db :: db where
  "replied_db = (case agent_reply of Inl e \<Rightarrow> empty_db | Inr (m, d, rt) \<Rightarrow> d)"

definition queued_delivery :: delivery_row where
  "queued_delivery = \<lparr>d_id = ''d2'', d_tenant = slack_tenant, d_source = ''slack'', d_message = ''m2'', d_target = ''C/1.1'',
     d_status = DPending, d_attempts = 0, d_external = None, d_last_error = None, d_delivered_at = None\<rparr>"

definition posted_answer :: thread_row where
  "posted_answer = \<lparr>m_id = ''m2'', m_tenant = slack_tenant, m_ticket = ''55555555-5555-4555-8555-555555555555'', m_body = ''Try now'',
     m_author_kind = ''user'', m_author_id = Some ''44444444-4444-4444-8444-444444444444'', m_created = 2000\<rparr>"

lemma replied_rows:
  "deliveries replied_db = [queued_delivery]"
  "find (\<lambda>m. m_tenant m = slack_tenant \<and> m_id m = ''m2'') (messages replied_db) = Some posted_answer"
  "map (\<lambda>t. (t_tenant t, t_id t)) (tickets replied_db) = [(slack_tenant, m_ticket posted_answer)]"
  "jobs_ok replied_db" "length (fst (claim {} 5000 10 replied_db)) = 1"
proof -
  have "let d = replied_db in
      deliveries d = [queued_delivery] \<and> find (\<lambda>m. m_tenant m = slack_tenant \<and> m_id m = ''m2'') (messages d) = Some posted_answer \<and>
      map (\<lambda>t. (t_tenant t, t_id t)) (tickets d) = [(slack_tenant, m_ticket posted_answer)] \<and>
      jobs_ok d \<and> length (fst (claim {} 5000 10 d)) = 1"
    by code_simp
  then show
    "deliveries replied_db = [queued_delivery]"
    "find (\<lambda>m. m_tenant m = slack_tenant \<and> m_id m = ''m2'') (messages replied_db) = Some posted_answer"
    "map (\<lambda>t. (t_tenant t, t_id t)) (tickets replied_db) = [(slack_tenant, m_ticket posted_answer)]"
    "jobs_ok replied_db" "length (fst (claim {} 5000 10 replied_db)) = 1"
    unfolding Let_def by blast+
qed

definition willing_slack :: slack_client where
  "willing_slack = \<lparr>sc_answers = (\<lambda>n. Answered 200 (Some True) None (Some ''9.9'')), sc_configured = Some ''xoxb'',
     sc_describe = (\<lambda>e. ''lost''), sc_record_fault = None\<rparr>"

theorem tick_settles_witness:
  "length (fst (claim {} 5000 10 replied_db)) = 1 \<and>
   ds_claimed (fst (drainer_tick (\<lambda>e. ''lost'') (job_handlers willing_slack 5000 slack_ids) (\<lambda>n. 0) {} 5000 10 (replied_db, quiet_world))) = 1"
proof -
  obtain js d1 where c: "claim {} 5000 10 replied_db = (js, d1)" by (cases "claim {} 5000 10 replied_db")
  obtain sm d' w' where t: "drainer_tick (\<lambda>e. ''lost'') (job_handlers willing_slack 5000 slack_ids) (\<lambda>n. 0) {} 5000 10 (replied_db, quiet_world) = (sm, d', w')"
    by (cases "drainer_tick (\<lambda>e. ''lost'') (job_handlers willing_slack 5000 slack_ids) (\<lambda>n. 0) {} 5000 10 (replied_db, quiet_world)")
  show ?thesis using tick_settles [OF replied_rows(4) c t] replied_rows(5) by (simp add: c t)
qed

end
