(* ===== verification/World.thy ===== *)
theory World
  imports Sweeps Slack_Work
begin

text \<open>
  The running system as a state machine: the database and the socket server, the requests
  of a tenant's principals, the frames of sockets and the background work. An operation
  that throws changes nothing, so only the successful ones are steps.
\<close>

record world =
  w_db :: db
  w_rt :: realtime

definition initial_world :: world where
  "initial_world = \<lparr>w_db = empty_db, w_rt = new_realtime\<rparr>"

section \<open>Steps\<close>

text \<open>A request carries the tenant its credential was issued for.\<close>

inductive request :: "ident \<Rightarrow> world \<Rightarrow> world \<Rightarrow> bool" where
  create: "ticket_create now i p input (w_db w) (w_rt w) = Inr (t, d, rt) \<Longrightarrow>
    request (tenantOf p) w \<lparr>w_db = d, w_rt = rt\<rparr>"
| transition: "ticket_transition_op now p i to_state (w_db w) (w_rt w) = Inr (t, d, rt) \<Longrightarrow>
    request (tenantOf p) w \<lparr>w_db = d, w_rt = rt\<rparr>"
| priority: "setPriority now p i pr (w_db w) (w_rt w) = Inr (t, d, rt) \<Longrightarrow>
    request (tenantOf p) w \<lparr>w_db = d, w_rt = rt\<rparr>"
| assignee: "setAssignee now p i a (w_db w) (w_rt w) = Inr (t, d, rt) \<Longrightarrow>
    request (tenantOf p) w \<lparr>w_db = d, w_rt = rt\<rparr>"
| post: "message_post now fr p tid body (w_db w) (w_rt w) = Inr (m, d, rt) \<Longrightarrow>
    request (tenantOf p) w \<lparr>w_db = d, w_rt = rt\<rparr>"
| annotate: "note_write now i p tid body (w_db w) (w_rt w) = Inr (m, d, rt) \<Longrightarrow>
    request (tenantOf p) w \<lparr>w_db = d, w_rt = rt\<rparr>"
| reply: "Conversation.reply now fr tenant contact tid body source (w_db w) (w_rt w) = Inr (r, d, rt) \<Longrightarrow>
    request tenant w \<lparr>w_db = d, w_rt = rt\<rparr>"
| new_contact: "request tenant w (w\<lparr>w_db := (w_db w)\<lparr>contacts := contacts (w_db w) @ [(tenant, c)]\<rparr>\<rparr>)"
| new_user: "request tenant w (w\<lparr>w_db := (w_db w)\<lparr>users := users (w_db w) @ [(tenant, u)]\<rparr>\<rparr>)"

inductive frame :: "world \<Rightarrow> world \<Rightarrow> bool" where
  connect: "gateway_connect wv av sid auth (w_rt w) = (ok, rt) \<Longrightarrow> frame w (w\<lparr>w_rt := rt\<rparr>)"
| subscribe: "gateway_subscribe now sid body (w_db w) (w_rt w) = Inr (ack, rt) \<Longrightarrow> frame w (w\<lparr>w_rt := rt\<rparr>)"
| unsubscribe: "gateway_unsubscribe sid body (w_rt w) = (name, rt) \<Longrightarrow> frame w (w\<lparr>w_rt := rt\<rparr>)"
| disconnect: "frame w (w\<lparr>w_rt := (w_rt w)\<lparr>rt_sockets := AList.delete sid (rt_sockets (w_rt w))\<rparr>\<rparr>)"
| transport: "frame w (w\<lparr>w_rt := (w_rt w)\<lparr>rt_transport := b\<rparr>\<rparr>)"

inductive background :: "world \<Rightarrow> world \<Rightarrow> bool" where
  claimed: "claim locked now limit (w_db w) = (js, d) \<Longrightarrow> background w (w\<lparr>w_db := d\<rparr>)"
| completed: "background w (w\<lparr>w_db := complete i (w_db w)\<rparr>)"
| failed: "fail random job message now (w_db w) = (out, d) \<Longrightarrow> background w (w\<lparr>w_db := d\<rparr>)"
| ran: "drainer_run describe (job_handlers cl t fresh) random now job (w_db w, sl) = (out, d, sl') \<Longrightarrow>
    sw_rt sl = w_rt w \<Longrightarrow> background w \<lparr>w_db = d, w_rt = sw_rt sl'\<rparr>"
| sla_swept: "breach_sweep targets clock now tenants (w_db w) (w_rt w) = (r, d, rt) \<Longrightarrow> background w \<lparr>w_db = d, w_rt = rt\<rparr>"
| dwell_swept: "dwell_sweep clock now tenants (w_db w) (w_rt w) = (r, d, rt) \<Longrightarrow> background w \<lparr>w_db = d, w_rt = rt\<rparr>"

inductive reachable :: "world \<Rightarrow> bool" where
  start: "reachable initial_world"
| requested: "reachable w \<Longrightarrow> request tenant w w' \<Longrightarrow> reachable w'"
| framed: "reachable w \<Longrightarrow> frame w w' \<Longrightarrow> reachable w'"
| backed: "reachable w \<Longrightarrow> background w w' \<Longrightarrow> reachable w'"

inductive_cases requestE: "request tenant w w'"
inductive_cases frameE: "frame w w'"
inductive_cases backgroundE: "background w w'"

section \<open>The invariant\<close>

definition world_inv :: "world \<Rightarrow> bool" where
  "world_inv w \<longleftrightarrow> ticket_inv (w_db w) \<and> realtime_inv (w_db w) (w_rt w)"

lemma service_world:
  assumes "service_ok tenant (w_db w) (w_rt w) d rt"
  shows "world_inv \<lparr>w_db = d, w_rt = rt\<rparr>"
  using assms by (simp add: world_inv_def service_ok_def safe_step_def)

lemmas service_oks = ticket_create_ok ticket_transition_ok setPriority_ok setAssignee_ok
  message_post_ok note_write_ok reply_ok

lemma request_safe:
  assumes "world_inv w" and "request tenant w w'"
  shows "service_ok tenant (w_db w) (w_rt w) (w_db w') (w_rt w')"
proof -
  have inv: "ticket_inv (w_db w)" and rt: "realtime_inv (w_db w) (w_rt w)"
    using assms(1) by (auto simp: world_inv_def)
  have frame: "service_ok tenant (w_db w) (w_rt w) d (w_rt w)" if "safe_step tenant (w_db w) d" for d
    using that rt by (auto simp: service_ok_def safe_step_def intro: realtime_inv_mono)
  from assms(2) show ?thesis
  proof (cases rule: request.cases)
    case (new_contact c)
    have "safe_step tenant (w_db w) ((w_db w)\<lparr>contacts := contacts (w_db w) @ [(tenant, c)]\<rparr>)"
      by (rule frame_safe [OF inv]) (auto simp: others_def)
    with new_contact frame show ?thesis by simp
  next
    case (new_user u)
    have "safe_step tenant (w_db w) ((w_db w)\<lparr>users := users (w_db w) @ [(tenant, u)]\<rparr>)"
      by (rule frame_safe [OF inv]) (auto simp: others_def)
    with new_user frame show ?thesis by simp
  qed (simp_all add: service_oks [OF inv rt])
qed

lemma request_inv: "world_inv w \<Longrightarrow> request tenant w w' \<Longrightarrow> world_inv w'"
  using request_safe [of w tenant w'] by (auto simp: world_inv_def service_ok_def safe_step_def)

lemma frame_inv: "world_inv w \<Longrightarrow> frame w w' \<Longrightarrow> world_inv w'"
proof (erule frameE, goal_cases)
  case (4 sid)
  then show ?case by (auto simp: world_inv_def realtime_inv_def map_of_delete_eq)
next
  case (5 b)
  then show ?case by (auto simp: world_inv_def realtime_inv_def)
qed (auto simp: world_inv_def intro: connect_inv subscribe_inv unsubscribe_inv)

text \<open>The queue touches no other table; the handlers it runs and the sweeps keep the contract.\<close>

definition queue_only :: "db \<Rightarrow> db \<Rightarrow> bool" where
  "queue_only d d' \<longleftrightarrow> (\<exists>js. d' = d\<lparr>jobs := js\<rparr>)"

lemma queue_steps:
  "claim locked now limit d = (js, d') \<Longrightarrow> queue_only d d'"
  "queue_only d (complete i d)"
  "fail random job message now d = (out, d') \<Longrightarrow> queue_only d d'"
  by (auto simp: queue_only_def claim_def complete_def fail_def update_job_def Let_def split: if_splits)

lemma queue_only_inv: "queue_only d d' \<Longrightarrow> ticket_inv d \<Longrightarrow> ticket_inv d' \<and> keeps_tickets d d'"
  by (auto simp: queue_only_def intro: inv_frame keeps_same)

lemma settleFailure_queue: "settleFailure random job message now d = (out, d') \<Longrightarrow> queue_only d d'"
  by (auto simp: settleFailure_def split: prod.splits failure_outcome.splits dest: queue_steps(3))

lemma run_steps:
  assumes run: "drainer_run describe (job_handlers cl t fresh) random now job (d, w) = (out, d', w')"
    and inv: "ticket_inv d" "realtime_inv d (sw_rt w)"
  obtains d1 where "service_ok (j_tenant job) d (sw_rt w) d1 (sw_rt w')" and "queue_only d1 d'"
proof (cases "job_handlers cl t fresh (j_kind job)")
  case None
  then have "queue_only d d'" "w' = w" using run by (auto simp: drainer_run_def split: prod.splits dest: settleFailure_queue)
  moreover have "service_ok (j_tenant job) d (sw_rt w) d (sw_rt w)" using inv by (simp add: service_ok_def safe_step_refl)
  ultimately show ?thesis using that by simp
next
  case (Some h)
  let ?jc = "\<lparr>jc_tenant = j_tenant job, jc_attempt = j_attempts job, jc_max_attempts = j_max_attempts job\<rparr>"
  let ?tx = "handler_transaction now (systemContextFor (j_tenant job)) (h (j_payload job) ?jc) (d, w)"
  obtain r d1 w1 where tx: "?tx = (r, d1, w1)" by (cases ?tx)
  have "service_ok (jc_tenant ?jc) d (sw_rt w) d1 (sw_rt w1)"
    by (rule job_transaction_ok [OF Some _ tx inv]) (simp add: systemContextFor_def)
  moreover have "queue_only d1 d' \<and> w' = w1"
    using run Some tx queue_steps(2) settleFailure_queue by (auto simp: drainer_run_def split: sum.splits prod.splits)
  ultimately show ?thesis using that by simp
qed

lemma background_keeps:
  assumes "world_inv w" and "background w w'"
  shows "world_inv w' \<and> keeps_tickets (w_db w) (w_db w')"
proof -
  have inv: "ticket_inv (w_db w)" and rt: "realtime_inv (w_db w) (w_rt w)"
    using assms(1) by (auto simp: world_inv_def)
  have queue: "world_inv (w\<lparr>w_db := d\<rparr>) \<and> keeps_tickets (w_db w) d" if "queue_only (w_db w) d" for d
    using queue_only_inv [OF that inv] rt by (auto simp: world_inv_def intro: realtime_inv_mono)
  from assms(2) show ?thesis
  proof (cases rule: background.cases)
    case (ran describe cl t fresh random now job sl out d sl')
    have "realtime_inv (w_db w) (sw_rt sl)" using rt ran(3) by simp
    from ran(2) inv this obtain d1 where one: "service_ok (j_tenant job) (w_db w) (sw_rt sl) d1 (sw_rt sl')" and two: "queue_only d1 d"
      by (rule run_steps)
    have inv1: "ticket_inv d1" using one by (simp add: service_ok_def safe_step_def)
    have "realtime_inv d (sw_rt sl')" using one queue_only_inv [OF two inv1] by (auto simp: service_ok_def intro: realtime_inv_mono)
    then show ?thesis using one queue_only_inv [OF two inv1] ran(1)
      by (auto simp: world_inv_def service_ok_def safe_step_def intro: keeps_trans)
  qed (use queue_steps queue sweeps_ok [OF inv rt] in \<open>fastforce simp: world_inv_def\<close>)+
qed

lemma reachable_inv: "reachable w \<Longrightarrow> world_inv w"
proof (induction rule: reachable.induct)
  case start
  show ?case by (simp add: world_inv_def initial_world_def ticket_inv_empty realtime_inv_new)
qed (auto intro: request_inv frame_inv dest: background_keeps)

section \<open>Histories\<close>

inductive later :: "world \<Rightarrow> world \<Rightarrow> bool" where
  now: "later w w"
| by_request: "later w w' \<Longrightarrow> request tenant w' w'' \<Longrightarrow> later w w''"
| by_frame: "later w w' \<Longrightarrow> frame w' w'' \<Longrightarrow> later w w''"
| by_background: "later w w' \<Longrightarrow> background w' w'' \<Longrightarrow> later w w''"

lemma frame_db: "frame w w' \<Longrightarrow> w_db w' = w_db w"
  by (erule frameE) auto

lemma later_inv: "later w w' \<Longrightarrow> world_inv w \<Longrightarrow> world_inv w' \<and> keeps_tickets (w_db w) (w_db w')"
proof (induction rule: later.induct)
  case (by_request w w' tenant w'')
  then have inv: "world_inv w'" and keeps: "keeps_tickets (w_db w) (w_db w')" by auto
  have "keeps_tickets (w_db w') (w_db w'')"
    using request_safe [OF inv by_request.hyps(2)] by (simp add: service_ok_def safe_step_def)
  with keeps request_inv [OF inv by_request.hyps(2)] show ?case by (blast intro: keeps_trans)
next
  case (by_frame w w' w'')
  then show ?case using frame_inv [of w' w''] frame_db [of w' w''] by simp
next
  case (by_background w w' w'')
  then show ?case using background_keeps [of w' w''] by (blast intro: keeps_trans)
qed simp

lemma later_reachable: "later w w' \<Longrightarrow> reachable w \<Longrightarrow> reachable w'"
  by (induction rule: later.induct) (auto intro: reachable.intros)

end
