(* ===== verification/Listing.thy ===== *)
theory Listing
  imports Ticket_Outcomes
begin

text \<open>
  A client that walks a list endpoint by its cursors. The endpoint is a function of the
  cursor and the database of the moment; the walk makes one request per database of a
  list. \<open>TicketService.list\<close> and the two thread lists are shown to be the generic page
  function of the pagination theory over the rows the principal can see.
\<close>

fun follow ::
  "(string option \<Rightarrow> 'd \<Rightarrow> thrown + 'r page) \<Rightarrow> string option \<Rightarrow> 'd list \<Rightarrow> thrown + ('r list \<times> bool)" where
  "follow fetch cursor [] = Inr ([], False)"
| "follow fetch cursor (d # ds) =
     bindE (fetch cursor d) (\<lambda>pg.
       case pg_next pg of
         None \<Rightarrow> Inr (pg_data pg, True)
       | Some c \<Rightarrow> bindE (follow fetch (Some c) ds) (\<lambda>(rest, done). Inr (pg_data pg @ rest, done)))"

lemma follow_traverse:
  assumes "\<And>c d. d \<in> set ds \<Longrightarrow> fetch c d = list_page other tb flds limit c raw (rows_of d)"
  shows "follow fetch cursor ds = traverse other tb flds limit raw cursor (map rows_of ds)"
  using assms
proof (induction ds arbitrary: cursor)
  case (Cons d ds)
  have "follow fetch (Some c) ds = traverse other tb flds limit raw (Some c) (map rows_of ds)" for c
    using Cons.prems by (intro Cons.IH) simp
  then show ?case using Cons.prems
    by (auto simp: bindE_eq_Inr split: option.splits intro!: arg_cong2 [where f = bindE])
qed simp

lemma bindE_assoc: "bindE (bindE r f) g = bindE r (\<lambda>x. bindE (f x) g)"
  by (cases r) simp_all

lemma bindE_Inr [simp]: "bindE r Inr = r"
  by (cases r) simp_all

section \<open>The contract of a list endpoint\<close>

text \<open>
  What a client of any list endpoint relies on: while \<open>ok\<close> holds, a page is the generic page
  over the rows the endpoint selects.
\<close>

locale cursor_list =
  fixes fetch :: "nat \<Rightarrow> string option \<Rightarrow> string option \<Rightarrow> 'd \<Rightarrow> thrown + 'r page"
    and other :: "string \<Rightarrow> millis option" and tb :: "'r table" and flds :: sortable_fields
    and rows_of :: "'d \<Rightarrow> 'r list" and ok :: "'d \<Rightarrow> bool"
  assumes page: "ok d \<Longrightarrow> fetch limit cursor raw d = list_page other tb flds limit cursor raw (rows_of d)"
begin

lemma walk:
  assumes "\<forall>d \<in> set ds. ok d"
  shows "follow (\<lambda>c. fetch limit c raw) cursor ds = traverse other tb flds limit raw cursor (map rows_of ds)"
  by (rule follow_traverse) (use assms page in blast)

lemma complete_walk:
  assumes "ok d" and sort: "parseSort raw (sortableFieldNames flds) DEFAULT_SORT = Inr s"
    and snap: "snapshot_ok tb flds s (rows_of d)" and "0 < limit" and len: "length (rows_of d) \<le> n"
  shows "follow (\<lambda>c. fetch limit c raw) None (replicate (Suc n) d) = Inr (order_rows tb s (rows_of d), True)"
proof -
  have "length (beyond tb s None (rows_of d)) < Suc n" using len by (simp add: beyond_def less_Suc_eq_le del: order_rows.simps)
  moreover have "\<forall>x \<in> set (replicate (Suc n) d). ok x" using assms(1) by simp
  ultimately show ?thesis
    using traverse_fixed [OF sort snap assms(4), of None "Suc n" other]
    by (simp add: walk beyond_def del: order_rows.simps replicate_Suc traverse.simps follow.simps)
qed

lemma stable_walk:
  assumes "\<forall>d \<in> set ds. ok d \<and> snapshot_ok tb flds s (rows_of d)"
    and sort: "parseSort raw (sortableFieldNames flds) DEFAULT_SORT = Inr s" and "0 < limit"
  shows "\<exists>out fin. follow (\<lambda>c. fetch limit c raw) None ds = Inr (out, fin) \<and> sorted_wrt (key_past tb s) out \<and>
    (\<forall>r \<in> set out. \<exists>d \<in> set ds. r \<in> set (rows_of d)) \<and>
    (fin \<longrightarrow> (\<forall>r. (\<forall>d \<in> set ds. r \<in> set (rows_of d)) \<longrightarrow> r \<in> set out))"
proof -
  have "\<forall>rows \<in> set (map rows_of ds). snapshot_ok tb flds s rows" using assms(1) by auto
  from traverse_moving [OF sort assms(3) this, of None other] assms(1) show ?thesis by (simp add: walk)
qed

end

section \<open>Tickets\<close>

text \<open>The tickets a principal can see that pass the filter.\<close>

definition listed :: "millis \<Rightarrow> request_principal \<Rightarrow> ticket_where \<Rightarrow> db \<Rightarrow> ticket list" where
  "listed now p w d = ticket_select (where_selects w) (session_of now p) d"

lemma ticket_list_page:
  assumes "can_arm p" and "ticketWhere other f = Inr w"
  shows "ticket_list other now p limit cursor raw f d =
    list_page other ticket_table TICKET_SORTABLE limit cursor raw (listed now p w d)"
  unfolding ticket_list_def list_page_def session_of_armed(2) [OF assms(1)] listed_def
  by (simp add: assms(2) bindE_assoc)

interpretation ticket_lister: cursor_list "\<lambda>limit c raw. ticket_list other now p limit c raw f" other ticket_table TICKET_SORTABLE
  "listed now p w" "\<lambda>_. can_arm p \<and> ticketWhere other f = Inr w" for other now p f w
  by unfold_locales (simp add: ticket_list_page)

text \<open>Identifiers are uuids and instants print with a four-digit year.\<close>

definition printable :: "ticket \<Rightarrow> bool" where
  "printable t \<longleftrightarrow> is_uuid (t_id t) \<and> four_digit_year (t_created t) \<and> four_digit_year (t_updated t)"

lemma parseSort_field:
  assumes "parseSort raw (sortableFieldNames flds) DEFAULT_SORT = Inr s" and "map_of flds ''createdAt'' \<noteq> None"
  shows "map_of flds (sort_field s) \<noteq> None"
  using assms
  by (auto simp: parseSort_def sortableFieldNames_def DEFAULT_SORT_def Let_def map_of_eq_None_iff
      split: option.splits if_splits intro: rev_image_eqI)

lemma listed_snapshot:
  assumes "ticket_inv d" and "\<forall>t \<in> set (tickets d). printable t"
    and "parseSort raw (sortableFieldNames TICKET_SORTABLE) DEFAULT_SORT = Inr s"
  shows "snapshot_ok ticket_table TICKET_SORTABLE s (listed now p w d)"
proof -
  have "sort_field s = ''createdAt'' \<or> sort_field s = ''updatedAt''"
    using parseSort_field [OF assms(3)] by (auto simp: TICKET_SORTABLE_def split: if_splits)
  moreover have "distinct (map t_id (tickets d))" using assms(1) by (simp add: ticket_inv_def)
  ultimately show ?thesis
    using assms(2)
    by (auto simp: snapshot_ok_def listed_def ticket_select_def ticket_table_def readable_def column_of_def
        TICKET_SORTABLE_def printable_def distinct_map_filter)
qed

section \<open>Threads\<close>

text \<open>The messages and the notes of one ticket that a principal can see.\<close>

definition shown_messages :: "millis \<Rightarrow> request_principal \<Rightarrow> ident \<Rightarrow> db \<Rightarrow> thread_row list" where
  "shown_messages now p tid d = filter (\<lambda>m. visible_message (session_of now p) d m \<and> m_ticket m = tid) (messages d)"

definition shown_notes :: "millis \<Rightarrow> request_principal \<Rightarrow> ident \<Rightarrow> db \<Rightarrow> thread_row list" where
  "shown_notes now p tid d = filter (\<lambda>m. visible_note (session_of now p) m \<and> m_ticket m = tid) (note_rows d)"

definition sees_ticket :: "millis \<Rightarrow> request_principal \<Rightarrow> ident \<Rightarrow> db \<Rightarrow> bool" where
  "sees_ticket now p tid d \<longleftrightarrow> can_arm p \<and> ticket_findUnique tid (session_of now p) d \<noteq> None"

lemma thread_list_page:
  assumes "sees_ticket now p tid d"
  shows "message_list other now p tid limit cursor raw d = list_page other thread_table THREAD_SORTABLE limit cursor raw (shown_messages now p tid d)"
    and "note_list other now p tid limit cursor raw d = list_page other thread_table THREAD_SORTABLE limit cursor raw (shown_notes now p tid d)"
proof -
  have arm: "can_arm p" and found: "ticket_findUnique tid (session_of now p) d \<noteq> None" using assms by (auto simp: sees_ticket_def)
  show "message_list other now p tid limit cursor raw d = list_page other thread_table THREAD_SORTABLE limit cursor raw (shown_messages now p tid d)"
    "note_list other now p tid limit cursor raw d = list_page other thread_table THREAD_SORTABLE limit cursor raw (shown_notes now p tid d)"
    unfolding message_list_def note_list_def session_of_armed(2) [OF arm]
    using found by (auto simp: list_page_def threadQuery_def assertTicketVisible_def shown_messages_def shown_notes_def bindE_assoc)
qed

interpretation message_lister: cursor_list "\<lambda>limit c raw. message_list other now p tid limit c raw" other thread_table THREAD_SORTABLE
  "shown_messages now p tid" "sees_ticket now p tid" for other now p tid
  by unfold_locales (rule thread_list_page(1))

interpretation note_lister: cursor_list "\<lambda>limit c raw. note_list other now p tid limit c raw" other thread_table THREAD_SORTABLE
  "shown_notes now p tid" "sees_ticket now p tid" for other now p tid
  by unfold_locales (rule thread_list_page(2))

section \<open>The audit trail of a ticket\<close>

text \<open>
  \<open>AuditService.listForTicket\<close>. The identifier and the instant of an entry are column defaults
  of the database; they are an argument, by the position of the entry in the log.
\<close>

record audit_entry =
  ae_id :: ident
  ae_created :: millis
  ae_row :: audit_row

definition AUDIT_SORTABLE :: sortable_fields where
  "AUDIT_SORTABLE = [(''createdAt'', DateField)]"

definition audit_table :: "audit_entry table" where
  "audit_table = \<lparr>tb_id = ae_id, tb_col = (\<lambda>e fld. if fld = ''createdAt'' then Some (CDate (ae_created e)) else None)\<rparr>"

definition audit_entries :: "(nat \<Rightarrow> ident \<times> millis) \<Rightarrow> db \<Rightarrow> audit_entry list" where
  "audit_entries stamp d =
     map (\<lambda>(k, a). \<lparr>ae_id = fst (stamp k), ae_created = snd (stamp k), ae_row = a\<rparr>) (enumerate 0 (audit d))"

definition trail :: "(nat \<Rightarrow> ident \<times> millis) \<Rightarrow> ident \<Rightarrow> session \<Rightarrow> db \<Rightarrow> audit_entry list" where
  "trail stamp tid s d = filter (\<lambda>e. visible_audit s d (ae_row e) \<and> a_ticket (ae_row e) = Some tid) (audit_entries stamp d)"

definition listForTicket ::
  "(string \<Rightarrow> millis option) \<Rightarrow> (nat \<Rightarrow> ident \<times> millis) \<Rightarrow> millis \<Rightarrow> request_principal \<Rightarrow> ident \<Rightarrow> nat \<Rightarrow> string option \<Rightarrow>
   string option \<Rightarrow> db \<Rightarrow> thrown + audit_entry page" where
  "listForTicket other stamp now p tid limit cursor rawSort d =
     bindE (parseSort rawSort (sortableFieldNames AUDIT_SORTABLE) DEFAULT_SORT) (\<lambda>sort.
     bindE (keysetPlan other sort cursor AUDIT_SORTABLE) (\<lambda>plan.
     bindE (asPrincipal now p (\<lambda>s d.
              bindE (assertTicketVisible tid s d) (\<lambda>_.
              bindE (find_many audit_table sort plan (Suc limit) (trail stamp tid s d)) (\<lambda>rows. Inr (rows, d)))) d) (\<lambda>(rows, _).
       buildPage audit_table rows limit sort)))"

lemma audit_list_page:
  assumes "sees_ticket now p tid d"
  shows "listForTicket other stamp now p tid limit cursor raw d =
    list_page other audit_table AUDIT_SORTABLE limit cursor raw (trail stamp tid (session_of now p) d)"
proof -
  have arm: "can_arm p" and found: "ticket_findUnique tid (session_of now p) d \<noteq> None" using assms by (auto simp: sees_ticket_def)
  show ?thesis
    unfolding listForTicket_def session_of_armed(2) [OF arm] using found by (auto simp: list_page_def assertTicketVisible_def bindE_assoc)
qed

interpretation audit_lister: cursor_list "\<lambda>limit c raw. listForTicket other stamp now p tid limit c raw" other audit_table AUDIT_SORTABLE
  "trail stamp tid (session_of now p)" "sees_ticket now p tid" for other stamp now p tid
  by unfold_locales (rule audit_list_page)

text \<open>Stamps the database gives out: a fresh uuid for each entry and an instant of this era.\<close>

definition stamps_ok :: "(nat \<Rightarrow> ident \<times> millis) \<Rightarrow> nat \<Rightarrow> bool" where
  "stamps_ok stamp n \<longleftrightarrow> distinct (map (fst \<circ> stamp) [0..<n]) \<and> (\<forall>k < n. is_uuid (fst (stamp k)) \<and> four_digit_year (snd (stamp k)))"

lemma audit_entries_ids: "map ae_id (audit_entries stamp d) = map (fst \<circ> stamp) [0..<length (audit d)]"
  by (intro nth_equalityI) (simp_all add: audit_entries_def nth_enumerate_eq)

lemma trail_snapshot:
  assumes "stamps_ok stamp (length (audit d))" and "parseSort raw (sortableFieldNames AUDIT_SORTABLE) DEFAULT_SORT = Inr s"
  shows "snapshot_ok audit_table AUDIT_SORTABLE s (trail stamp tid ss d)"
proof -
  have sort: "sort_field s = ''createdAt''"
    using parseSort_field [OF assms(2)] by (auto simp: AUDIT_SORTABLE_def split: if_splits)
  have "distinct (map ae_id (audit_entries stamp d))" using assms(1) unfolding audit_entries_ids by (simp add: stamps_ok_def)
  moreover have "\<forall>e \<in> set (audit_entries stamp d). is_uuid (ae_id e) \<and> four_digit_year (ae_created e)"
    using assms(1) by (auto simp: audit_entries_def stamps_ok_def in_set_enumerate_eq)
  ultimately show ?thesis
    using sort by (auto simp: snapshot_ok_def trail_def audit_table_def readable_def column_of_def AUDIT_SORTABLE_def distinct_map_filter)
qed

end
