(* ===== verification/Samples.thy ===== *)
theory Samples
  imports World Listing
begin

text \<open>Concrete identifiers and a small conversation on which the theorems are exercised.\<close>

definition tenantA :: ident where "tenantA = ''11111111-1111-4111-8111-111111111111''"
definition tenantB :: ident where "tenantB = ''22222222-2222-4222-8222-222222222222''"
definition contactA :: ident where "contactA = ''33333333-3333-4333-8333-333333333333''"
definition userA :: ident where "userA = ''44444444-4444-4444-8444-444444444444''"
definition ticketA :: ident where "ticketA = ''55555555-5555-4555-8555-555555555555''"
definition ticketB :: ident where "ticketB = ''66666666-6666-4666-8666-666666666666''"

definition adminA :: request_principal where "adminA = StaffPrincipal tenantA userA ''admin''"
definition agentA :: request_principal where "agentA = StaffPrincipal tenantA userA ''agent''"
definition customerA :: request_principal where "customerA = ContactPrincipal tenantA contactA"

definition input1 :: create_input where
  "input1 = \<lparr>ci_subject = ''Refund'', ci_contact = contactA, ci_source = SrcPortal, ci_spawned = None,
     ci_slack_route = None\<rparr>"

definition fresh1 :: fresh_ids where
  "fresh1 = \<lparr>fr_message = ''m1'', fr_delivery = ''d1'', fr_job = ''j1'', fr_ticket = ticketB\<rparr>"

definition world0 :: world where
  "world0 = initial_world\<lparr>w_db := empty_db\<lparr>contacts := [(tenantA, contactA)]\<rparr>\<rparr>"

fun after_op :: "thrown + ('a \<times> db \<times> realtime) \<Rightarrow> world \<Rightarrow> world" where
  "after_op (Inr (x, d, rt)) w = \<lparr>w_db = d, w_rt = rt\<rparr>"
| "after_op (Inl e) w = w"

definition world1 :: world where
  "world1 = after_op (ticket_create 1000 ticketA adminA input1 (w_db world0) (w_rt world0)) world0"

definition world2 :: world where
  "world2 = after_op (ticket_transition_op 2000 adminA ticketA TResolved (w_db world1) (w_rt world1)) world1"

definition world3 :: world where
  "world3 = after_op (ticket_transition_op 3000 adminA ticketA TClosed (w_db world2) (w_rt world2)) world2"

definition world4 :: world where
  "world4 = after_op (Conversation.reply 4000 fresh1 tenantA contactA ticketA ''Still broken'' SrcPortal
     (w_db world3) (w_rt world3)) world3"

lemma after_op_Inr: "is_ok r \<Longrightarrow> \<exists>x d rt. r = Inr (x, d, rt) \<and> after_op r w = \<lparr>w_db = d, w_rt = rt\<rparr>"
  by (cases r) (auto simp: isl_def)

lemma world0_reachable: "reachable world0"
proof -
  have "request tenantA initial_world (initial_world\<lparr>w_db := (w_db initial_world)\<lparr>contacts :=
      contacts (w_db initial_world) @ [(tenantA, contactA)]\<rparr>\<rparr>)" by (rule request.new_contact)
  from reachable.requested [OF reachable.start this] show ?thesis
    by (simp add: world0_def initial_world_def empty_db_def)
qed

lemma world_ops_succeed:
  "is_ok (ticket_create 1000 ticketA adminA input1 (w_db world0) (w_rt world0))"
  "is_ok (ticket_transition_op 2000 adminA ticketA TResolved (w_db world1) (w_rt world1))"
  "is_ok (ticket_transition_op 3000 adminA ticketA TClosed (w_db world2) (w_rt world2))"
  "is_ok (Conversation.reply 4000 fresh1 tenantA contactA ticketA ''Still broken'' SrcPortal (w_db world3) (w_rt world3))"
  by code_simp+

lemma op_reachable:
  assumes "reachable w" and "is_ok r" and "\<And>x d rt. r = Inr (x, d, rt) \<Longrightarrow> request tenant w \<lparr>w_db = d, w_rt = rt\<rparr>"
  shows "reachable (after_op r w)"
  using after_op_Inr [OF assms(2), of w] assms(1,3) by (auto intro: reachable.requested)

lemma worlds_reachable: "reachable world1" "reachable world2" "reachable world3" "reachable world4"
proof -
  show r1: "reachable world1" unfolding world1_def
    by (rule op_reachable [OF world0_reachable world_ops_succeed(1)]) (rule request.create)
  show r2: "reachable world2" unfolding world2_def
    by (rule op_reachable [OF r1 world_ops_succeed(2)]) (rule request.transition)
  show r3: "reachable world3" unfolding world3_def
    by (rule op_reachable [OF r2 world_ops_succeed(3)]) (rule request.transition)
  show "reachable world4" unfolding world4_def
    by (rule op_reachable [OF r3 world_ops_succeed(4)]) (rule request.reply)
qed

lemma adminA_arms: "can_arm adminA" and agentA_arms: "can_arm agentA" and customerA_arms: "can_arm customerA"
  by (simp_all add: can_arm_def adminA_def agentA_def customerA_def) code_simp+

lemma world1_inv: "ticket_inv (w_db world1)" and world2_inv: "ticket_inv (w_db world2)"
    and world3_inv: "ticket_inv (w_db world3)"
  using reachable_inv [OF worlds_reachable(1)] reachable_inv [OF worlds_reachable(2)] reachable_inv [OF worlds_reachable(3)]
  by (simp_all add: world_inv_def)

lemma request_world1: "request tenantA world1 world2"
proof -
  obtain t d rt where op: "ticket_transition_op 2000 adminA ticketA TResolved (w_db world1) (w_rt world1) = Inr (t, d, rt)"
    and "world2 = \<lparr>w_db = d, w_rt = rt\<rparr>"
    using after_op_Inr [OF world_ops_succeed(2)] by (metis world2_def)
  then show ?thesis using request.transition [OF op] by (simp add: adminA_def)
qed

lemma world1_tickets: "tickets (w_db world1) \<noteq> []"
  by code_simp

lemma world4_shape: "map (\<lambda>t. (t_state t, t_spawned t)) (tickets (w_db world4)) = [(TClosed, None), (TOpen, Some ticketA)]"
  by code_simp

lemma world4_rows: "\<exists>t \<in> set (tickets (w_db world4)). t_spawned t = Some ticketA"
    "\<exists>t \<in> set (tickets (w_db world4)). t_state t = TClosed"
  using world4_shape by auto

text \<open>A customer's socket, subscribed to the room of the ticket of \<open>world1\<close>, hears its resolution.\<close>

definition sample_token :: json where
  "sample_token = JObj [(''token'', JStr ''tok'')]"

definition world5 :: world where
  "world5 = world1\<lparr>w_rt := snd (gateway_connect (\<lambda>_. Inr None) (\<lambda>_. Inr (Some customerA)) ''s'' (Some sample_token) (w_rt world1))\<rparr>"

definition subscribe5 :: "thrown + (subscribe_ack \<times> realtime)" where
  "subscribe5 = gateway_subscribe 1500 ''s'' (JObj [(''room'', JStr (ticketRoom tenantA ticketA))]) (w_db world5) (w_rt world5)"

definition world6 :: world where
  "world6 = world5\<lparr>w_rt := snd (projr subscribe5)\<rparr>"

definition world7 :: world where
  "world7 = after_op (ticket_transition_op 2000 adminA ticketA TResolved (w_db world6) (w_rt world6)) world6"

lemma world7_steps:
  "is_ok subscribe5"
  "is_ok (ticket_transition_op 2000 adminA ticketA TResolved (w_db world6) (w_rt world6))"
  "map (\<lambda>(sid, so). (sid, map ev_event (so_received so))) (rt_sockets (w_rt world7)) = [(''s'', [EvTicketUpdated])]"
  by code_simp+

lemma world7_reachable: "reachable world7"
proof -
  have "frame world1 world5" unfolding world5_def by (rule frame.connect) (rule prod.collapse [symmetric])
  then have r5: "reachable world5" by (rule reachable.framed [OF worlds_reachable(1)])
  obtain ack rt where sub: "subscribe5 = Inr (ack, rt)" using world7_steps(1) by (metis is_ok.elims(2) prod.exhaust)
  have "frame world5 world6"
    unfolding world6_def sub sum.sel snd_conv by (rule frame.subscribe) (rule sub [unfolded subscribe5_def])
  then have "reachable world6" by (rule reachable.framed [OF r5])
  moreover have "request tenantA world6 \<lparr>w_db = d, w_rt = rt\<rparr>"
    if "ticket_transition_op 2000 adminA ticketA TResolved (w_db world6) (w_rt world6) = Inr (x, d, rt)" for x d rt
    using request.transition [OF that] by (simp add: adminA_def)
  ultimately show ?thesis
    unfolding world7_def by (rule op_reachable [OF _ world7_steps(2)])
qed

text \<open>The ticket list without filters.\<close>

definition no_filter :: ticket_filters where
  "no_filter = \<lparr>f_state = None, f_priority = None, f_source = None, f_assignee = None, f_contact = None,
     f_created_after = None, f_created_before = None\<rparr>"

definition all_tickets :: ticket_where where
  "all_tickets = \<lparr>w_state = None, w_priority = None, w_source = None, w_assignee = None, w_contact = None,
     w_gte = None, w_lte = None\<rparr>"

lemma list_samples:
  "ticketWhere (\<lambda>_. None) no_filter = Inr all_tickets"
  "parseSort None (sortableFieldNames TICKET_SORTABLE) DEFAULT_SORT = Inr DEFAULT_SORT"
  "\<forall>t \<in> set (tickets (w_db world4)). printable t"
  by code_simp+

lemma world4_inv: "ticket_inv (w_db world4)"
  using reachable_inv [OF worlds_reachable(4)] by (simp add: world_inv_def)

end
