(* ===== verification/Slack_Outcomes.thy ===== *)
theory Slack_Outcomes
  imports Slack_Work
begin

text \<open>
  What the delivery handler of the Slack adapter does exactly: the outcome of a delivery on every
  answer, that a settled delivery is never posted again, and that a post whose record is lost
  is.
\<close>

section \<open>Deliveries\<close>

definition delivery_key :: "delivery_row \<Rightarrow> ident \<times> ident \<times> string" where
  "delivery_key r = (d_tenant r, d_message r, d_target r)"

definition instant_ok :: "delivery_row \<Rightarrow> bool" where
  "instant_ok r \<longleftrightarrow> (d_status r = DDelivered) = (d_delivered_at r \<noteq> None)"

definition deliveries_ok :: "db \<Rightarrow> bool" where
  "deliveries_ok d \<longleftrightarrow> distinct (map d_id (deliveries d)) \<and> distinct (map delivery_key (deliveries d)) \<and>
     (\<forall>r \<in> set (deliveries d). instant_ok r)"

abbreviation drainer_session :: "millis \<Rightarrow> ident \<Rightarrow> session" where
  "drainer_session now tenant \<equiv> tenant_session now tenant ''system'' []"

abbreviation delivery_payload :: "delivery_row \<Rightarrow> json" where
  "delivery_payload r \<equiv> JObj [(''messageId'', JStr (d_message r)), (''target'', JStr (d_target r))]"

definition put_delivery :: "delivery_row \<Rightarrow> db \<Rightarrow> db" where
  "put_delivery r d = d\<lparr>deliveries := map (\<lambda>x. if d_id x = d_id r then r else x) (deliveries d)\<rparr>"

lemma own_system: "is_uuid tenant \<Longrightarrow> withTenant now (systemContextFor tenant) work st = work (drainer_session now tenant) st"
  using is_uuid_not_Nil
  by (auto simp: withTenant_def contextSettings_def systemContextFor_def isTenantIdShaped_def ACTOR_KINDS_def)

lemma system_sees: "is_uuid (d_tenant r) \<Longrightarrow> delivery_visible (drainer_session now (d_tenant r)) x = (d_tenant x = d_tenant r)"
  using is_uuid_not_Nil by (auto simp: delivery_visible_def tenant_matches_def current_actor_is_contact_def)

lemma same_delivery:
  assumes "deliveries_ok d" and "r \<in> set (deliveries d)" and "x \<in> set (deliveries d)"
  shows "d_id x = d_id r \<longleftrightarrow> x = r" and "delivery_key x = delivery_key r \<longleftrightarrow> x = r"
  using assms distinct_key_eq [of d_id "deliveries d" x r] distinct_key_eq [of delivery_key "deliveries d" x r]
  by (auto simp: deliveries_ok_def)

lemma update_exact:
  assumes ok: "deliveries_ok d" and r: "r \<in> set (deliveries d)" and uuid: "is_uuid (d_tenant r)"
    and f: "d_id (f r) = d_id r" "instant_ok (f r)"
  shows "delivery_update (d_id r) f (drainer_session now (d_tenant r)) d = Inr ((), put_delivery (f r) d)"
proof -
  let ?hit = "\<lambda>x. delivery_visible (drainer_session now (d_tenant r)) x \<and> d_id x = d_id r"
  have hit: "?hit x \<longleftrightarrow> x = r" if "x \<in> set (deliveries d)" for x
    using same_delivery(1) [OF ok r that] by (auto simp: system_sees [OF uuid])
  have "filter ?hit (deliveries d) = filter (\<lambda>x. x = r) (deliveries d)" using hit by (intro filter_cong) auto
  then have changed: "set (filter ?hit (deliveries d)) = {r}" using r by auto
  then have "filter ?hit (deliveries d) \<noteq> []" by (metis empty_set insert_not_empty)
  moreover have "list_all instant_ok (map f (filter ?hit (deliveries d)))" using changed f(2) by (auto simp: list_all_iff)
  moreover have "map (\<lambda>x. if ?hit x then f x else x) (deliveries d) = map (\<lambda>x. if d_id x = d_id (f r) then f r else x) (deliveries d)"
    using hit same_delivery(1) [OF ok r] f(1) by (intro map_cong) auto
  ultimately show ?thesis unfolding delivery_update_def put_delivery_def Let_def instant_ok_def by simp
qed

lemma claim_exact:
  assumes ok: "deliveries_ok d" and r: "r \<in> set (deliveries d)" "d_status r = DPending" and uuid: "is_uuid (d_tenant r)"
  shows "delivery_claim (d_message r) (d_target r) (drainer_session now (d_tenant r)) d =
    Inr (Some (r\<lparr>d_attempts := Suc (d_attempts r)\<rparr>), put_delivery (r\<lparr>d_attempts := Suc (d_attempts r)\<rparr>) d)"
proof -
  let ?s = "drainer_session now (d_tenant r)" and ?r = "r\<lparr>d_attempts := Suc (d_attempts r)\<rparr>"
  let ?key = "\<lambda>x. delivery_visible ?s x \<and> d_message x = d_message r \<and> d_target x = d_target r"
  have key: "?key x \<longleftrightarrow> x = r" if "x \<in> set (deliveries d)" for x
    using same_delivery(2) [OF ok r(1) that] by (auto simp: system_sees [OF uuid] delivery_key_def)
  let ?rows = "map (\<lambda>x. if delivery_visible ?s x \<and> d_message x = d_message r \<and> d_target x = d_target r \<and> d_status x = DPending
      then x\<lparr>d_attempts := Suc (d_attempts x)\<rparr> else x) (deliveries d)"
  have rows: "?rows = map (\<lambda>x. if d_id x = d_id ?r then ?r else x) (deliveries d)"
    using key same_delivery(1) [OF ok r(1)] r(2) by (intro map_cong) auto
  have "find ?key ?rows = Some ?r"
  proof -
    have "?r \<in> set ?rows" unfolding rows using r(1) by force
    moreover have "x = ?r" if x: "x \<in> set ?rows" "?key x" for x
    proof -
      obtain y where y: "y \<in> set (deliveries d)" "x = (if d_id y = d_id ?r then ?r else y)" using x(1) unfolding rows by auto
      show ?thesis
      proof (cases "d_id y = d_id ?r")
        case False
        then have "y = r" using key [OF y(1)] y(2) x(2) by simp
        then show ?thesis using False by simp
      qed (use y(2) in simp)
    qed
    moreover have "?key ?r" using key [OF r(1)] by (simp add: delivery_visible_def)
    ultimately have found: "?r \<in> set ?rows" "\<And>x. x \<in> set ?rows \<Longrightarrow> ?key x \<Longrightarrow> x = ?r" "?key ?r" by blast+
    show ?thesis
    proof (cases "find ?key ?rows")
      case None
      then show ?thesis using found(1,3) by (simp only: find_None_iff) blast
    next
      case (Some x)
      have "x = ?r" by (rule found(2)) (use find_SomeD [OF Some] in blast)+
      then show ?thesis using Some by simp
    qed
  qed
  moreover have "filter (\<lambda>x. delivery_visible ?s x \<and> d_message x = d_message r \<and> d_target x = d_target r \<and> d_status x = DPending) (deliveries d) \<noteq> []"
    using r key [OF r(1)] by (auto simp: filter_empty_conv)
  ultimately show ?thesis unfolding delivery_claim_def Let_def put_delivery_def rows [symmetric] by simp
qed


lemma put_ok:
  assumes "deliveries_ok d" and "r \<in> set (deliveries d)" and "d_id r' = d_id r" and "delivery_key r' = delivery_key r" and "instant_ok r'"
  shows "deliveries_ok (put_delivery r' d)" and "r' \<in> set (deliveries (put_delivery r' d))"
proof -
  let ?rows = "map (\<lambda>x. if d_id x = d_id r' then r' else x) (deliveries d)"
  have ids: "map d_id ?rows = map d_id (deliveries d)" by (induction "deliveries d") auto
  have keys: "map delivery_key ?rows = map delivery_key (deliveries d)"
    using same_delivery(1) [OF assms(1,2)] assms(3,4) by (auto intro!: map_cong)
  have rows: "deliveries (put_delivery r' d) = ?rows" by (simp add: put_delivery_def)
  have "\<forall>x \<in> set ?rows. instant_ok x" using assms(1,5) by (auto simp: deliveries_ok_def)
  then show "deliveries_ok (put_delivery r' d)"
    using assms(1) unfolding deliveries_ok_def rows ids keys by blast
  show "r' \<in> set (deliveries (put_delivery r' d))" using assms(2,3) by (force simp: put_delivery_def)
qed

lemma put_put: "d_id r' = d_id r \<Longrightarrow> put_delivery r' (put_delivery r d) = put_delivery r' d"
  by (auto simp: put_delivery_def)

lemma put_tables [simp]:
  "messages (put_delivery r d) = messages d" "tickets (put_delivery r d) = tickets d" "audit (put_delivery r d) = audit d"
  by (simp_all add: put_delivery_def)

text \<open>A delivery that can be attempted: pending, for a message of its tenant on a ticket.\<close>

record attempt =
  at_row :: delivery_row
  at_message :: thread_row
  at_destination :: "string \<times> string"

definition attemptable :: "attempt \<Rightarrow> db \<Rightarrow> bool" where
  "attemptable a d \<longleftrightarrow>
     deliveries_ok d \<and> at_row a \<in> set (deliveries d) \<and> d_status (at_row a) = DPending \<and> is_uuid (d_tenant (at_row a)) \<and>
     find (\<lambda>m. m_tenant m = d_tenant (at_row a) \<and> m_id m = d_message (at_row a)) (messages d) = Some (at_message a) \<and>
     (\<exists>t \<in> set (tickets d). t_tenant t = d_tenant (at_row a) \<and> t_id t = m_ticket (at_message a)) \<and> m_ticket (at_message a) \<noteq> [] \<and>
     parseSlackTarget (d_target (at_row a)) = Some (at_destination a)"

definition tried :: "delivery_row \<Rightarrow> delivery_row" where
  "tried r = r\<lparr>d_attempts := Suc (d_attempts r)\<rparr>"

lemma tried_simps [simp]:
  "d_id (tried r) = d_id r" "d_tenant (tried r) = d_tenant r" "d_message (tried r) = d_message r" "d_target (tried r) = d_target r"
  "d_source (tried r) = d_source r" "d_status (tried r) = d_status r" "d_delivered_at (tried r) = d_delivered_at r"
  by (simp_all add: tried_def)

lemma message_seen:
  "is_uuid tenant \<Longrightarrow> message_find i (drainer_session now tenant) d = find (\<lambda>m. m_tenant m = tenant \<and> m_id m = i) (messages d)"
  using is_uuid_not_Nil
  by (auto simp: message_find_def visible_message_def tenant_matches_def current_actor_is_contact_def intro!: arg_cong2 [of _ _ _ _ find])

definition given_up :: "millis \<Rightarrow> attempt \<Rightarrow> string \<Rightarrow> db \<Rightarrow> slack_world \<Rightarrow> (thrown + unit) \<times> db \<times> slack_world" where
  "given_up now a message d w =
     (let r = tried (at_row a)
      in (Inr (), (put_delivery (r\<lparr>d_status := DDead, d_last_error := Some message\<rparr>) d)
            \<lparr>audit := audit d @ [audit_row_of (d_tenant r) ''system'' None (abandon_audit r (Some (m_ticket (at_message a))) message)]\<rparr>,
          w\<lparr>sw_rt := integrationFailed now (d_tenant r)
            \<lparr>fl_ticket = m_ticket (at_message a), fl_message = d_message r, fl_source = d_source r, fl_target = d_target r,
             fl_error = message\<rparr> (sw_rt w)\<rparr>))"

definition try_again :: "attempt \<Rightarrow> string \<Rightarrow> thrown \<Rightarrow> db \<Rightarrow> slack_world \<Rightarrow> (thrown + unit) \<times> db \<times> slack_world" where
  "try_again a message e d w = (Inl e, put_delivery ((tried (at_row a))\<lparr>d_last_error := Some message\<rparr>) d, w)"

lemma attempt_tried:
  assumes "attemptable a d"
  shows "deliveries_ok (put_delivery (tried (at_row a)) d)" and "tried (at_row a) \<in> set (deliveries (put_delivery (tried (at_row a)) d))"
    and "instant_ok (at_row a)" and "d_delivered_at (at_row a) = None"
proof -
  have a: "deliveries_ok d" "at_row a \<in> set (deliveries d)" "d_status (at_row a) = DPending" using assms by (auto simp: attemptable_def)
  then show i: "instant_ok (at_row a)" by (simp add: deliveries_ok_def)
  then show "d_delivered_at (at_row a) = None" using a(3) by (simp add: instant_ok_def)
  show "deliveries_ok (put_delivery (tried (at_row a)) d)" "tried (at_row a) \<in> set (deliveries (put_delivery (tried (at_row a)) d))"
    using put_ok [OF a(1,2), of "tried (at_row a)"] i by (auto simp: delivery_key_def instant_ok_def)
qed

lemma abandon_exact:
  assumes a: "attemptable a d"
  shows "abandon now (d_tenant (at_row a)) (tried (at_row a)) message (drainer_session now (d_tenant (at_row a)))
    (put_delivery (tried (at_row a)) d, w) = given_up now a message d w"
proof -
  let ?r = "tried (at_row a)" and ?m = "at_message a" and ?s = "drainer_session now (d_tenant (at_row a))"
  have uuid: "is_uuid (d_tenant ?r)" using a by (simp add: attemptable_def)
  let ?dead = "?r\<lparr>d_status := DDead, d_last_error := Some message\<rparr>"
  have "delivery_settle (d_id ?r) DDead message ?s (put_delivery ?r d) = Inr ((), put_delivery ?dead (put_delivery ?r d))"
    using update_exact [OF attempt_tried(1,2) [OF a] uuid, of "\<lambda>r. r\<lparr>d_status := DDead, d_last_error := Some message\<rparr>" now]
      attempt_tried(4) [OF a]
    by (simp add: delivery_settle_def instant_ok_def)
  then have settle: "delivery_settle (d_id ?r) DDead message ?s (put_delivery ?r d) = Inr ((), put_delivery ?dead d)" by (simp add: put_put)
  have find: "message_find (d_message ?r) ?s (put_delivery ?dead d) = Some ?m"
    using a uuid by (simp add: message_seen attemptable_def)
  obtain t where t: "t \<in> set (tickets d)" "t_tenant t = d_tenant ?r" "t_id t = m_ticket ?m" and ne: "m_ticket ?m \<noteq> []"
    using a by (auto simp: attemptable_def)
  have "audit_record (abandon_audit ?r (Some (m_ticket ?m)) message) ?s (put_delivery ?dead d) =
      Inr ((), (put_delivery ?dead d)\<lparr>audit := audit d @ [audit_row_of (d_tenant ?r) ''system'' None (abandon_audit ?r (Some (m_ticket ?m)) message)]\<rparr>)"
    using t ne is_uuid_not_Nil [OF uuid]
    by (auto simp: audit_record_def audit_insert_def current_actor_def visible_audit_def tenant_matches_def
      current_actor_is_contact_def abandon_audit_def Let_def)
  then show ?thesis
    using settle find ne by (simp add: abandon_def settleAndAudit_def Let_def given_up_def given_def)
qed

lemma fail_exact:
  assumes a: "attemptable a d" and jc: "jc_tenant jc = d_tenant (at_row a)"
  shows "delivery_fail now jc (tried (at_row a)) message permanent e (drainer_session now (d_tenant (at_row a)))
      (put_delivery (tried (at_row a)) d, w) =
    (if permanent \<or> jc_max_attempts jc \<le> jc_attempt jc then given_up now a message d w else try_again a message e d w)"
proof -
  let ?r = "tried (at_row a)" and ?s = "drainer_session now (d_tenant (at_row a))"
  have uuid: "is_uuid (d_tenant ?r)" and pending: "d_status ?r = DPending" using a by (simp_all add: attemptable_def)
  have same: "?r\<lparr>d_status := DPending, d_last_error := Some message\<rparr> = ?r\<lparr>d_last_error := Some message\<rparr>"
    using pending by (cases ?r) simp
  have "delivery_settle (d_id ?r) DPending message ?s (put_delivery ?r d) = Inr ((), put_delivery (?r\<lparr>d_last_error := Some message\<rparr>) d)"
    using update_exact [OF attempt_tried(1,2) [OF a] uuid, of "\<lambda>r. r\<lparr>d_status := DPending, d_last_error := Some message\<rparr>" now]
      attempt_tried(4) [OF a] pending
    unfolding delivery_settle_def same by (simp add: instant_ok_def put_put)
  then show ?thesis
    using abandon_exact [OF a] uuid by (simp add: delivery_fail_def jc own_system try_again_def)
qed

section \<open>Exact outcomes of a delivery\<close>

definition recorded :: "millis \<Rightarrow> string \<Rightarrow> delivery_row \<Rightarrow> delivery_row" where
  "recorded now ts r = r\<lparr>d_attempts := Suc (d_attempts r), d_status := DDelivered, d_delivered_at := Some now,
     d_external := Some ts, d_last_error := None\<rparr>"

definition post_of :: "attempt \<Rightarrow> string \<Rightarrow> slack_post" where
  "post_of a token = \<lparr>sp_channel = fst (at_destination a), sp_thread = snd (at_destination a),
     sp_text = m_body (at_message a), sp_token = token\<rparr>"

definition after_post :: "attempt \<Rightarrow> string \<Rightarrow> slack_world \<Rightarrow> slack_world" where
  "after_post a token w = w\<lparr>sw_sent := sw_sent w @ [post_of a token]\<rparr>"

text \<open>The credential a delivery posts with: the tenant's own, or the one of the environment.\<close>

definition credential_for :: "slack_client \<Rightarrow> ident \<Rightarrow> slack_world \<Rightarrow> string option" where
  "credential_for cl tenant w =
     given (case map_option snd (find (\<lambda>(t, _). t = tenant) (sw_tokens w)) of None \<Rightarrow> sc_configured cl | Some t \<Rightarrow> Some t)"

lemma token_seen: "is_uuid tenant \<Longrightarrow> tokenFor (drainer_session now tenant) w = map_option snd (find (\<lambda>(t, _). t = tenant) (sw_tokens w))"
  using is_uuid_not_Nil
  by (auto simp: tokenFor_def tenant_matches_def current_actor_is_contact_def intro!: arg_cong2 [of _ _ _ _ find])

lemma handle_attempts:
  assumes a: "attemptable a d" and jc: "jc_tenant jc = d_tenant (at_row a)"
  shows "delivery_handle cl now (delivery_payload (at_row a)) jc (drainer_session now (d_tenant (at_row a))) (d, w) =
    attempt_delivery cl now jc (tried (at_row a)) (at_destination a) (m_body (at_message a))
      (drainer_session now (d_tenant (at_row a))) (put_delivery (tried (at_row a)) d, w)"
proof -
  let ?r = "at_row a"
  have r: "deliveries_ok d" "?r \<in> set (deliveries d)" "d_status ?r = DPending" "is_uuid (d_tenant ?r)" using a by (simp_all add: attemptable_def)
  have payload: "payloadString (delivery_payload ?r) ''messageId'' = d_message ?r" "payloadString (delivery_payload ?r) ''target'' = d_target ?r"
    by (simp_all add: payloadString_def)
  have claim: "withTenant now (systemContextFor (jc_tenant jc)) (delivery_claim (d_message ?r) (d_target ?r)) d =
      Inr (Some (tried ?r), put_delivery (tried ?r) d)"
    using claim_exact [OF r] r(4) by (simp add: jc own_system tried_def)
  have body: "textOf (d_message ?r) (drainer_session now (d_tenant ?r)) (put_delivery (tried ?r) d) = Some (m_body (at_message a))"
    using a r(4) by (simp add: textOf_def message_seen attemptable_def)
  have "parseSlackTarget (d_target ?r) = Some (at_destination a)" using a by (simp add: attemptable_def)
  then show ?thesis by (simp add: delivery_handle_def Let_def payload claim body)
qed

lemma record_exact:
  assumes a: "attemptable a d"
  shows "withTenant now (systemContextFor (d_tenant (at_row a))) (delivery_record (d_id (tried (at_row a))) ts) (put_delivery (tried (at_row a)) d) =
    Inr ((), put_delivery (recorded now ts (at_row a)) d)"
proof -
  let ?r = "tried (at_row a)"
  have uuid: "is_uuid (d_tenant ?r)" using a by (simp add: attemptable_def)
  let ?f = "\<lambda>r. r\<lparr>d_status := DDelivered, d_delivered_at := Some now, d_external := Some ts, d_last_error := None\<rparr>"
  have f: "?f ?r = recorded now ts (at_row a)" by (simp add: recorded_def tried_def)
  have "delivery_update (d_id ?r) ?f (drainer_session now (d_tenant ?r)) (put_delivery ?r d) = Inr ((), put_delivery (?f ?r) (put_delivery ?r d))"
    by (rule update_exact [OF attempt_tried(1,2) [OF a] uuid]) (simp_all add: instant_ok_def)
  then show ?thesis using uuid unfolding f by (simp add: own_system delivery_record_def put_put recorded_def)
qed

lemma delivery_attempt_cases:
  assumes a: "attemptable a d" and jc: "jc_tenant jc = d_tenant (at_row a)"
    and token: "credential_for cl (d_tenant (at_row a)) w = Some token"
  shows "delivery_handle cl now (delivery_payload (at_row a)) jc (drainer_session now (d_tenant (at_row a))) (d, w) =
    (case read_answer (sc_answers cl (length (sw_sent w))) of
       Inl e \<Rightarrow>
         if is_permanent e \<or> jc_max_attempts jc \<le> jc_attempt jc then given_up now a (error_message e) d (after_post a token w)
         else try_again a (error_message e) (RawError None None) d (after_post a token w)
     | Inr ts \<Rightarrow>
         (case sc_record_fault cl of
            None \<Rightarrow> (Inr (), put_delivery (recorded now ts (at_row a)) d, after_post a token w)
          | Some x \<Rightarrow>
              if jc_max_attempts jc \<le> jc_attempt jc then given_up now a (sc_describe cl x) d (after_post a token w)
              else try_again a (sc_describe cl x) x d (after_post a token w)))"
proof -
  have uuid: "is_uuid (d_tenant (at_row a))" using a by (simp add: attemptable_def)
  show ?thesis
    using token fail_exact [OF a jc] record_exact [OF a]
    unfolding handle_attempts [OF a jc] attempt_delivery_def postMessage_def token_seen [OF uuid] credential_for_def
    by (simp add: after_post_def post_of_def or_fault_def jc split: sum.split option.split)
qed

text \<open>
  C17. One attempt of a delivery, on every answer of Slack: a post that Slack names is recorded
  as delivered with its instant and its timestamp; a permanent refusal, or any failure of the
  last attempt, settles the delivery dead with the reason, writes one audit entry and
  announces it; any other failure leaves it pending with the reason and throws on, so that
  the queue runs it again. Each attempt sends one request and counts one attempt.
\<close>

theorem delivery_outcome:
  assumes a: "attemptable a d" and jc: "jc_tenant jc = d_tenant (at_row a)" and fault: "sc_record_fault cl = None"
    and token: "credential_for cl (d_tenant (at_row a)) w = Some token"
    and run: "delivery_handle cl now (delivery_payload (at_row a)) jc (drainer_session now (d_tenant (at_row a))) (d, w) = out"
    and answer: "read_answer (sc_answers cl (length (sw_sent w))) = answer"
  shows "(\<forall>ts. answer = Inr ts \<longrightarrow> out = (Inr (), put_delivery (recorded now ts (at_row a)) d, after_post a token w)) \<and>
    (\<forall>e. answer = Inl e \<longrightarrow> is_permanent e \<or> jc_max_attempts jc \<le> jc_attempt jc \<longrightarrow>
       out = given_up now a (error_message e) d (after_post a token w)) \<and>
    (\<forall>e. answer = Inl e \<longrightarrow> \<not> is_permanent e \<longrightarrow> jc_attempt jc < jc_max_attempts jc \<longrightarrow>
       out = try_again a (error_message e) (RawError None None) d (after_post a token w))"
  using delivery_attempt_cases [OF a jc token, of now] fault unfolding run answer by (auto split: sum.splits)

definition sample_attempt :: attempt where
  "sample_attempt = \<lparr>at_row = queued_delivery, at_message = posted_answer, at_destination = (''C'', ''1.1'')\<rparr>"

lemma sample_simps [simp]:
  "at_row sample_attempt = queued_delivery" "at_message sample_attempt = posted_answer" "at_destination sample_attempt = (''C'', ''1.1'')"
  "d_tenant queued_delivery = slack_tenant" "d_message queued_delivery = ''m2''" "d_status queued_delivery = DPending"
  by (simp_all add: sample_attempt_def queued_delivery_def)

lemma sample_attemptable: "attemptable sample_attempt replied_db"
proof -
  have "is_uuid slack_tenant" "parseSlackTarget (d_target queued_delivery) = Some (''C'', ''1.1'')" by code_simp+
  moreover have "\<exists>t \<in> set (tickets replied_db). (t_tenant t, t_id t) = (slack_tenant, m_ticket posted_answer)"
    using replied_rows(3) by (auto simp: map_eq_Cons_conv)
  moreover have "deliveries_ok replied_db" by (simp add: deliveries_ok_def replied_rows(1) instant_ok_def queued_delivery_def)
  moreover have "m_ticket posted_answer \<noteq> []" by (simp add: posted_answer_def)
  ultimately show ?thesis by (simp add: attemptable_def replied_rows)
qed

lemma sample_attempt_facts:
  "jc_tenant slack_job = d_tenant (at_row sample_attempt)" "jc_attempt slack_job < jc_max_attempts slack_job"
  "credential_for willing_slack (d_tenant (at_row sample_attempt)) quiet_world = Some ''xoxb''"
  "read_answer (sc_answers willing_slack n) = Inr ''9.9''"
  by (simp_all add: slack_job_def credential_for_def willing_slack_def quiet_world_def given_def http_ok_def)

theorem delivery_outcome_witness:
  "delivery_handle willing_slack 3000 (delivery_payload (at_row sample_attempt)) slack_job
     (drainer_session 3000 (d_tenant (at_row sample_attempt))) (replied_db, quiet_world) =
   (Inr (), put_delivery (recorded 3000 ''9.9'' (at_row sample_attempt)) replied_db, after_post sample_attempt ''xoxb'' quiet_world)"
  using delivery_outcome [OF sample_attemptable sample_attempt_facts(1) _ sample_attempt_facts(3) refl sample_attempt_facts(4)]
  by (simp add: willing_slack_def)

lemma retried_attemptable:
  assumes a: "attemptable a d" and r: "r = (tried (at_row a))\<lparr>d_last_error := Some message\<rparr>"
  shows "attemptable (a\<lparr>at_row := r\<rparr>) (put_delivery r d)"
proof -
  have "instant_ok r" using attempt_tried(3) [OF a] by (simp add: r instant_ok_def)
  then have "deliveries_ok (put_delivery r d)" "r \<in> set (deliveries (put_delivery r d))"
    using put_ok [of d "at_row a" r] a by (simp_all add: r attemptable_def delivery_key_def)
  then show ?thesis using a by (simp add: attemptable_def r)
qed

text \<open>
  A post whose record is lost is sent twice. The client posts and only then records; when
  the write of the record fails after Slack accepted the post, the attempt counts as a failed
  one, the row is pending again, and the next run posts the same reply to the same thread.
\<close>

theorem unrecorded_post_is_sent_again:
  assumes a: "attemptable a d" and jc: "jc_tenant jc = d_tenant (at_row a)" "jc_attempt jc < jc_max_attempts jc"
    and jc': "jc_tenant jc' = d_tenant (at_row a)"
    and lost: "sc_record_fault cl = Some x"
    and token: "credential_for cl (d_tenant (at_row a)) w = Some token"
    and accepts: "read_answer (sc_answers cl (length (sw_sent w))) = Inr ts" "read_answer (sc_answers cl (Suc (length (sw_sent w)))) = Inr ts'"
    and first: "delivery_handle cl now (delivery_payload (at_row a)) jc (drainer_session now (d_tenant (at_row a))) (d, w) = (r, d1, w1)"
    and second: "delivery_handle (cl\<lparr>sc_record_fault := None\<rparr>) now' (delivery_payload (at_row a)) jc'
      (drainer_session now' (d_tenant (at_row a))) (d1, w1) = (r', d2, w2)"
  shows "r = Inl x \<and> r' = Inr () \<and> sw_sent w2 = sw_sent w @ [post_of a token, post_of a token]"
proof -
  let ?row = "(tried (at_row a))\<lparr>d_last_error := Some (sc_describe cl x)\<rparr>"
  let ?a = "a\<lparr>at_row := ?row\<rparr>"
  have one: "(r, d1, w1) = try_again a (sc_describe cl x) x d (after_post a token w)"
    using delivery_attempt_cases [OF a jc(1) token, of now] jc(2) unfolding first accepts(1) lost by simp
  then have d1: "d1 = put_delivery ?row d" and w1: "w1 = after_post a token w" and r: "r = Inl x" by (simp_all add: try_again_def)
  have a1: "attemptable ?a d1" unfolding d1 by (rule retried_attemptable [OF a]) simp
  have token1: "credential_for (cl\<lparr>sc_record_fault := None\<rparr>) (d_tenant (at_row ?a)) w1 = Some token"
    using token by (simp add: credential_for_def w1 after_post_def cong: option.case_cong)
  have jc1: "jc_tenant jc' = d_tenant (at_row ?a)" using jc' by simp
  have "length (sw_sent w1) = Suc (length (sw_sent w))" by (simp add: w1 after_post_def)
  then have "(r', d2, w2) = (Inr (), put_delivery (recorded now' ts' ?row) d1, after_post ?a token w1)"
    using delivery_attempt_cases [OF a1 jc1 token1, of now'] accepts(2) second by simp
  then show ?thesis using r by (simp add: after_post_def w1 post_of_def)
qed

theorem unrecorded_post_is_sent_again_witness:
  "\<exists>d1 w1 r' d2 w2.
     delivery_handle (willing_slack\<lparr>sc_record_fault := Some unique_error\<rparr>) 3000 (delivery_payload (at_row sample_attempt)) slack_job
       (drainer_session 3000 (d_tenant (at_row sample_attempt))) (replied_db, quiet_world) = (Inl unique_error, d1, w1) \<and>
     delivery_handle (willing_slack\<lparr>sc_record_fault := Some unique_error, sc_record_fault := None\<rparr>) 9000 (delivery_payload (at_row sample_attempt)) slack_job
       (drainer_session 9000 (d_tenant (at_row sample_attempt))) (d1, w1) = (r', d2, w2) \<and>
     sw_sent w2 = [post_of sample_attempt ''xoxb'', post_of sample_attempt ''xoxb'']"
proof -
  let ?cl = "willing_slack\<lparr>sc_record_fault := Some unique_error\<rparr>" and ?p = "delivery_payload (at_row sample_attempt)"
  let ?s = "\<lambda>now. drainer_session now (d_tenant (at_row sample_attempt))"
  obtain r d1 w1 where one: "delivery_handle ?cl 3000 ?p slack_job (?s 3000) (replied_db, quiet_world) = (r, d1, w1)"
    by (cases "delivery_handle ?cl 3000 ?p slack_job (?s 3000) (replied_db, quiet_world)")
  obtain r' d2 w2 where two: "delivery_handle (?cl\<lparr>sc_record_fault := None\<rparr>) 9000 ?p slack_job (?s 9000) (d1, w1) = (r', d2, w2)"
    by (cases "delivery_handle (?cl\<lparr>sc_record_fault := None\<rparr>) 9000 ?p slack_job (?s 9000) (d1, w1)")
  have cl: "sc_record_fault ?cl = Some unique_error" "read_answer (sc_answers ?cl n) = Inr ''9.9''" for n
    using sample_attempt_facts(4) by simp_all
  have token: "credential_for ?cl (d_tenant (at_row sample_attempt)) quiet_world = Some ''xoxb''"
    by (simp add: credential_for_def willing_slack_def quiet_world_def given_def)
  have "sw_sent quiet_world = []" by (simp add: quiet_world_def)
  with unrecorded_post_is_sent_again [OF sample_attemptable sample_attempt_facts(1,2,1) cl(1) token cl(2) cl(2) one two] one two
  show ?thesis by auto
qed

section \<open>Settled deliveries\<close>

text \<open>Rows a run leaves alone: everything but the rows of one identifier.\<close>

definition keeps_delivery :: "ident \<Rightarrow> db \<Rightarrow> db \<Rightarrow> bool" where
  "keeps_delivery i d d' \<longleftrightarrow> deliveries_ok d \<longrightarrow>
     deliveries_ok d' \<and> (\<forall>r \<in> set (deliveries d). d_id r \<noteq> i \<longrightarrow> r \<in> set (deliveries d'))"

lemma keeps_delivery_same: "deliveries d' = deliveries d \<Longrightarrow> keeps_delivery i d d'"
  by (simp add: keeps_delivery_def deliveries_ok_def)

lemma keeps_delivery_trans: "keeps_delivery i d d1 \<Longrightarrow> keeps_delivery i d1 d2 \<Longrightarrow> keeps_delivery i d d2"
  unfolding keeps_delivery_def by blast

lemma update_keys:
  assumes "\<And>r. d_id (f r) = d_id r" and "\<And>r. delivery_key (f r) = delivery_key r"
  shows "map d_id (map (\<lambda>r. if Q r then f r else r) rows) = map d_id rows"
    and "map delivery_key (map (\<lambda>r. if Q r then f r else r) rows) = map delivery_key rows"
  using assms by (induction rows) auto

lemma update_keeps:
  assumes run: "delivery_update i f s d = Inr (x, d')"
    and f: "\<And>r. d_id (f r) = d_id r" "\<And>r. delivery_key (f r) = delivery_key r"
  shows "keeps_delivery i d d'"
proof -
  let ?hit = "\<lambda>r. delivery_visible s r \<and> d_id r = i"
  have rows: "deliveries d' = map (\<lambda>r. if ?hit r then f r else r) (deliveries d)"
    and checked: "\<forall>r \<in> set (deliveries d). ?hit r \<longrightarrow> instant_ok (f r)"
    using run by (auto simp: delivery_update_def Let_def instant_ok_def list_all_iff split: if_splits)
  have "\<forall>r \<in> set (deliveries d'). instant_ok r" if "deliveries_ok d"
    using that checked unfolding rows by (auto simp: deliveries_ok_def)
  moreover have "map d_id (deliveries d') = map d_id (deliveries d)" "map delivery_key (deliveries d') = map delivery_key (deliveries d)"
    unfolding rows by (rule update_keys [OF f])+
  ultimately have "deliveries_ok d'" if "deliveries_ok d"
    using that unfolding deliveries_ok_def by simp
  moreover have "r \<in> set (deliveries d')" if "r \<in> set (deliveries d)" "d_id r \<noteq> i" for r
    using that unfolding rows by force
  ultimately show ?thesis by (simp add: keeps_delivery_def)
qed

lemma settle_keeps:
  "delivery_settle i status message s d = Inr (x, d') \<Longrightarrow> keeps_delivery i d d'"
  "delivery_record i ts s d = Inr (x, d') \<Longrightarrow> keeps_delivery i d d'"
  unfolding delivery_settle_def delivery_record_def by (erule update_keeps, simp_all add: delivery_key_def)+

lemma own_keeps:
  assumes "withTenant now ctx work d = Inr (x, d')" and "\<And>s. work s d = Inr (x, d') \<Longrightarrow> keeps_delivery i d d'"
  shows "keeps_delivery i d d'"
  using assms(1) by (rule withTenant_session) (use assms(2) in blast)

lemma audit_record_deliveries: "audit_record v s d = Inr (u, d') \<Longrightarrow> deliveries d' = deliveries d"
  by (auto simp: audit_record_def split: sum.splits)

lemma abandon_keeps:
  assumes "abandon now tenant row message s (d, w) = (r, d', w')"
  shows "keeps_delivery (d_id row) d d'"
proof (cases "settleAndAudit row message s d")
  case (Inl e)
  then show ?thesis using assms by (simp add: abandon_def keeps_delivery_same)
next
  case (Inr y)
  then obtain tid where "settleAndAudit row message s d = Inr (tid, d')" using assms by (cases y) (simp add: abandon_def)
  then obtain d1 u v where "delivery_settle (d_id row) DDead message s d = Inr (u, d1)"
    and "audit_record (abandon_audit row tid message) s d1 = Inr (v, d')"
    by (auto simp: settleAndAudit_def Let_def split: sum.splits)
  then show ?thesis using settle_keeps(1) audit_record_deliveries keeps_delivery_same keeps_delivery_trans by blast
qed

lemma delivery_fail_keeps:
  assumes "delivery_fail now jc row message permanent e s (d, w) = (r, d', w')"
  shows "keeps_delivery (d_id row) d d'"
proof (cases "permanent \<or> jc_max_attempts jc \<le> jc_attempt jc")
  case True
  then show ?thesis using assms abandon_keeps by (simp add: delivery_fail_def)
next
  case False
  then show ?thesis
    using assms settle_keeps(1)
    by (auto simp: delivery_fail_def keeps_delivery_same split: sum.splits prod.splits elim!: own_keeps)
qed

lemma attempt_keeps:
  assumes run: "attempt_delivery cl now jc row destination body s (d, w) = (r, d', w')"
  shows "keeps_delivery (d_id row) d d'"
proof -
  obtain res w1 where post: "postMessage (sc_answers cl) (sc_configured cl) destination body (tokenFor s w) w = (res, w1)"
    by fastforce
  show ?thesis
  proof (cases "\<exists>m p e. delivery_fail now jc row m p e s (d, w1) = (r, d', w')")
    case True
    then show ?thesis using delivery_fail_keeps by blast
  next
    case False
    with run post obtain ts x where "withTenant now (systemContextFor (jc_tenant jc)) (delivery_record (d_id row) ts) d = Inr (x, d')"
      by (auto simp: attempt_delivery_def or_fault_def split: sum.splits prod.splits option.splits)
    then show ?thesis using settle_keeps(2) by (rule own_keeps)
  qed
qed

text \<open>A claim hands out the pending row of its message and target, and touches no other.\<close>

lemma claim_keeps:
  assumes run: "delivery_claim message target s d = Inr (found, d')" and ok: "deliveries_ok d"
    and r: "r \<in> set (deliveries d)" "d_status r \<noteq> DPending"
  shows "deliveries_ok d' \<and> r \<in> set (deliveries d') \<and> (\<forall>row. found = Some row \<longrightarrow> d_id row \<noteq> d_id r)"
proof -
  let ?key = "\<lambda>x. delivery_visible s x \<and> d_message x = message \<and> d_target x = target"
  let ?hit = "\<lambda>x. delivery_visible s x \<and> d_message x = message \<and> d_target x = target \<and> d_status x = DPending"
  let ?rows = "map (\<lambda>x. if ?hit x then x\<lparr>d_attempts := Suc (d_attempts x)\<rparr> else x) (deliveries d)"
  show ?thesis
  proof (cases "filter ?hit (deliveries d) = []")
    case True
    then have "found = None" "d' = d" using run by (simp_all add: delivery_claim_def Let_def)
    then show ?thesis using ok r by simp
  next
    case some: False
    have d': "deliveries d' = ?rows" and find: "find ?key ?rows = found"
      using run some by (auto simp: delivery_claim_def Let_def simp del: filter_empty_conv)
    have ids: "map d_id ?rows = map d_id (deliveries d)" and keys: "map delivery_key ?rows = map delivery_key (deliveries d)"
      by (rule update_keys; simp add: delivery_key_def)+
    have "\<forall>x \<in> set ?rows. instant_ok x" using ok by (auto simp: deliveries_ok_def instant_ok_def)
    then have ok': "deliveries_ok d'" using ok unfolding deliveries_ok_def d' ids keys by blast
    have r': "r \<in> set (deliveries d')" unfolding d' using r by force
    obtain p where p: "p \<in> set (deliveries d)" "?hit p" using some by (auto simp: filter_empty_conv)
    let ?p = "p\<lparr>d_attempts := Suc (d_attempts p)\<rparr>"
    have p': "?p \<in> set (deliveries d')" unfolding d' using p by force
    have "d_id row \<noteq> d_id r" if "found = Some row" for row
    proof -
      have row: "row \<in> set (deliveries d')" "?key row" using find_SomeD [OF find [unfolded that]] unfolding d' by blast+
      then have "delivery_key row = delivery_key ?p"
        using p(2) by (auto simp: delivery_key_def delivery_visible_def tenant_matches_def)
      then have "row = ?p" using same_delivery(2) [OF ok' p' row(1)] by blast
      then show ?thesis using same_delivery(1) [OF ok r(1) p(1)] p(2) r(2) by auto
    qed
    with ok' r' show ?thesis by blast
  qed
qed

lemma handle_keeps_settled:
  assumes run: "delivery_handle cl now payload jc s (d, w) = (x, d', w')" and ok: "deliveries_ok d"
    and r: "r \<in> set (deliveries d)" "d_status r \<noteq> DPending"
  shows "deliveries_ok d' \<and> r \<in> set (deliveries d')"
proof (cases "withTenant now (systemContextFor (jc_tenant jc))
    (delivery_claim (payloadString payload ''messageId'') (payloadString payload ''target'')) d")
  case (Inl e)
  then show ?thesis using run ok r by (simp add: delivery_handle_def Let_def)
next
  case (Inr y)
  obtain found d1 where y: "y = (found, d1)" by (cases y)
  from Inr [unfolded y] obtain s1 where "delivery_claim (payloadString payload ''messageId'') (payloadString payload ''target'') s1 d = Inr (found, d1)"
    by (rule withTenant_session)
  note one = claim_keeps [OF this ok r]
  show ?thesis
  proof (cases found)
    case None
    then show ?thesis using run Inr y one by (auto simp: delivery_handle_def Let_def)
  next
    case (Some row)
    have "keeps_delivery (d_id row) d1 d'"
      using run Inr y Some abandon_keeps attempt_keeps settle_keeps(1)
      by (auto simp: delivery_handle_def Let_def keeps_delivery_same split: option.splits sum.splits prod.splits)
    then show ?thesis using one Some by (auto simp: keeps_delivery_def)
  qed
qed

text \<open>Deliveries run one after another, each in the transaction the drainer opens for it.\<close>

record delivery_run =
  dr_client :: slack_client
  dr_now :: millis
  dr_payload :: json
  dr_context :: job_context

fun deliver_all :: "delivery_run list \<Rightarrow> db \<times> slack_world \<Rightarrow> db \<times> slack_world" where
  "deliver_all [] st = st"
| "deliver_all (x # xs) st =
     deliver_all xs (snd (handler_transaction (dr_now x) (systemContextFor (jc_tenant (dr_context x)))
       (delivery_handle (dr_client x) (dr_now x) (dr_payload x) (dr_context x)) st))"

lemma deliver_all_keeps:
  assumes "deliveries_ok (fst st)" and "r \<in> set (deliveries (fst st))" and "d_status r \<noteq> DPending"
  shows "deliveries_ok (fst (deliver_all runs st)) \<and> r \<in> set (deliveries (fst (deliver_all runs st)))"
  using assms
proof (induction runs arbitrary: st)
  case (Cons x xs)
  obtain d w where st: "st = (d, w)" by (cases st)
  let ?out = "handler_transaction (dr_now x) (systemContextFor (jc_tenant (dr_context x)))
      (delivery_handle (dr_client x) (dr_now x) (dr_payload x) (dr_context x)) st"
  have "deliveries_ok (fst (snd ?out)) \<and> r \<in> set (deliveries (fst (snd ?out)))"
  proof (cases "contextSettings (systemContextFor (jc_tenant (dr_context x)))")
    case (Inl e)
    then show ?thesis using Cons.prems by (simp add: handler_transaction_def)
  next
    case (Inr y)
    obtain tenant kind i where y: "y = (tenant, kind, i)" by (cases y)
    let ?h = "delivery_handle (dr_client x) (dr_now x) (dr_payload x) (dr_context x) (tenant_session (dr_now x) tenant kind i) (d, w)"
    obtain z d' w' where h: "?h = (z, d', w')" by (cases ?h)
    from handle_keeps_settled [OF h] Cons.prems show ?thesis by (simp add: handler_transaction_def Inr y st h)
  qed
  then show ?case using Cons.IH [of "snd ?out"] Cons.prems(3) by simp
qed simp

lemma settled_not_claimed:
  assumes ok: "deliveries_ok d" and r: "r \<in> set (deliveries d)" "d_status r \<noteq> DPending" and uuid: "is_uuid (d_tenant r)"
  shows "delivery_claim (d_message r) (d_target r) (drainer_session now (d_tenant r)) d = Inr (None, d)"
proof -
  have "x = r" if "x \<in> set (deliveries d)" "d_tenant x = d_tenant r" "d_message x = d_message r" "d_target x = d_target r" for x
    using same_delivery(2) [OF ok r(1) that(1)] that by (simp add: delivery_key_def)
  then show ?thesis using r(2) by (auto simp: delivery_claim_def Let_def system_sees [OF uuid] filter_empty_conv)
qed

text \<open>
  C18. A settled delivery is never attempted again: once its row is delivered or dead, no
  sequence of runs of the handler, with any payloads and any answers of Slack, changes the
  row, and running its own job again succeeds without a request and without a write.
\<close>

theorem settled_never_reposted:
  assumes "deliveries_ok d" and "r \<in> set (deliveries d)" and "d_status r \<noteq> DPending" and "is_uuid (d_tenant r)"
    and "deliver_all runs (d, w) = (d', w')" and "jc_tenant jc = d_tenant r"
  shows "r \<in> set (deliveries d') \<and> delivery_handle cl now (delivery_payload r) jc s (d', w') = (Inr (), d', w')"
proof -
  have kept: "deliveries_ok d'" "r \<in> set (deliveries d')" using deliver_all_keeps [of "(d, w)" r runs] assms by simp_all
  have "withTenant now (systemContextFor (d_tenant r)) (delivery_claim (d_message r) (d_target r)) d' = Inr (None, d')"
    using settled_not_claimed [OF kept assms(3,4)] assms(4) by (simp add: own_system)
  then show ?thesis using kept assms(6) by (simp add: delivery_handle_def Let_def payloadString_def)
qed

definition delivered_db :: db where
  "delivered_db = put_delivery (recorded 3000 ''9.9'' (at_row sample_attempt)) replied_db"

theorem settled_never_reposted_witness:
  "\<exists>r \<in> set (deliveries delivered_db). \<exists>d' w'.
     deliver_all [\<lparr>dr_client = willing_slack, dr_now = 4000, dr_payload = delivery_payload r, dr_context = slack_job\<rparr>]
       (delivered_db, quiet_world) = (d', w') \<and> r \<in> set (deliveries d') \<and>
     delivery_handle willing_slack 5000 (delivery_payload r) slack_job (drainer_session 5000 slack_tenant) (d', w') = (Inr (), d', w')"
proof -
  let ?r = "recorded 3000 ''9.9'' (at_row sample_attempt)"
  have r: "deliveries_ok delivered_db" "?r \<in> set (deliveries delivered_db)" "d_status ?r \<noteq> DPending" "is_uuid (d_tenant ?r)"
    using put_ok [of replied_db queued_delivery ?r] sample_attemptable
    by (simp_all add: delivered_db_def attemptable_def recorded_def delivery_key_def instant_ok_def)
  have jc: "jc_tenant slack_job = d_tenant ?r" by (simp add: recorded_def slack_job_def)
  show ?thesis using settled_never_reposted [OF r prod.collapse [symmetric] jc] r(2) by (metis prod.collapse)
qed

end
