(* ===== verification/Slack_Threads.thy ===== *)
theory Slack_Threads
  imports Slack_Work
begin

text \<open>
  Where the ingestion handler of the Slack adapter puts a message: on the ticket of its thread,
  or on a new one, with the speaker as author; and the speaker it cannot serve.
\<close>

section \<open>The ticket of a thread\<close>

lemma contact_armed:
  assumes "withTenant now (contactContext tenant contact) work d = Inr x"
  shows "is_uuid tenant" and "contact \<noteq> []" and "work (tenant_session now tenant ''contact'' contact) d = Inr x"
  using assms by (auto simp: withTenant_def contactContext_def contextSettings_def isTenantIdShaped_def ACTOR_KINDS_def split: if_splits)

lemma contact_sees:
  "contact \<noteq> [] \<Longrightarrow> visible_ticket (tenant_session now tenant ''contact'' contact) t \<Longrightarrow> t_tenant t = tenant \<and> t_contact t = contact"
  by (auto simp: visible_ticket_def tenant_matches_def current_actor_is_contact_def)

lemma thread_ticket_found:
  assumes "thread_ticket channel thread s d = Some t"
  shows "t \<in> set (tickets d) \<and> visible_ticket s t \<and> on_thread channel thread t"
proof -
  let ?rows = "ticket_select (on_thread channel thread) s d"
  let ?ordered = "order_rows ticket_table \<lparr>sort_field = ''createdAt'', sort_dir = Desc\<rparr> ?rows"
  have "t \<in> set ?rows"
  proof (cases "ticket_select (\<lambda>t. on_thread channel thread t \<and> t_state t \<noteq> TClosed) s d")
    case (Cons x xs)
    then have "t \<in> set (ticket_select (\<lambda>t. on_thread channel thread t \<and> t_state t \<noteq> TClosed) s d)"
      using assms by (simp add: thread_ticket_def)
    then show ?thesis by (auto simp: ticket_select_def)
  next
    case Nil
    then obtain xs where "?ordered = t # xs"
      using assms by (auto simp: thread_ticket_def simp del: order_rows.simps split: list.splits)
    then have "t \<in> set ?ordered" by simp
    then show ?thesis by (simp only: set_order_rows)
  qed
  then show ?thesis by (simp add: ticket_select_def)
qed

lemma thread_ticket_none:
  assumes "\<And>t. t \<in> set (tickets d) \<Longrightarrow> visible_ticket s t \<Longrightarrow> \<not> on_thread channel thread t"
  shows "thread_ticket channel thread s d = None"
  using assms thread_ticket_found by (cases "thread_ticket channel thread s d") blast+

lemma linkage_free: "t_spawned new = None \<Longrightarrow> ticket_linkage_on_insert s d new = Inr t \<Longrightarrow> t = new\<lparr>t_root := None\<rparr>"
  by (simp add: ticket_linkage_on_insert_def)

section \<open>Where a message lands\<close>

lemma open_lands:
  assumes "slack_open now fr tenant contact u d rt = Inr (x, d', rt')"
  shows "\<exists>t m. on_thread (ut_channel u) (ut_thread u) t \<and> t_subject t = subjectFrom (ut_text u) \<and> t_contact t = contact \<and>
    t_tenant t = tenant \<and> live t \<and> t_id t \<notin> t_id ` set (tickets d) \<and> m \<in> set (messages d') \<and> m_ticket m = t_id t \<and>
    m_body m = ut_text u \<and> m_author_kind m = ''contact'' \<and> m_author_id m = Some contact \<and>
    jobs d' = jobs d \<and> deliveries d' = deliveries d"
proof -
  let ?s = "tenant_session now tenant ''contact'' contact" and ?p = "ContactPrincipal tenant contact"
  obtain y where "withTenant now (contactContext tenant contact) (open_work fr tenant contact u) d = Inr (y, d')"
    using assms by (auto simp: slack_open_def split: sum.splits)
  note armed = contact_armed [OF this]
  then obtain t d1 m where c: "createIn (fr_ticket fr) ?p (open_input contact u) ?s d = Inr (t, d1)"
    and p: "postIn fr ?p (t_id t) (ut_text u) ?s d1 = Inr (m, d')"
    by (auto simp: open_work_def split: sum.splits)
  let ?new = "new_ticket (fr_ticket fr) now tenant (open_input contact u)"
  obtain d2 where "ticket_insert ?new ?s d = Inr (t, d2)" using c by (auto elim: createIn_parts)
  then have "ticket_linkage_on_insert ?s d ?new = Inr t" and fresh: "t_id t \<notin> t_id ` set (tickets d)"
    by (auto elim: insert_parts)
  then have t: "t = ?new\<lparr>t_root := None\<rparr>" by (intro linkage_free) (auto simp: new_ticket_def open_input_def)
  obtain d3 where ins: "message_insert (fr_message fr) tenant (t_id t) (ut_text u) ?s d1 = Inr (m, d3)"
    and dis: "dispatchIn fr m ?s d3 = Inr ((), d')"
    using p by (rule postIn_parts) simp
  have author: "m_author_kind m = ''contact''" "m_author_id m = Some contact"
    using message_insert_row(5) [OF ins] armed(2) by (auto simp: current_actor_def)
  have "d' = d3" using contact_not_dispatched [OF dis author(1)] .
  moreover have "on_thread (ut_channel u) (ut_thread u) t \<and> t_subject t = subjectFrom (ut_text u) \<and> t_contact t = contact \<and>
      t_tenant t = tenant \<and> live t"
    by (simp add: t new_ticket_def open_input_def on_thread_def live_def)
  ultimately show ?thesis
    using message_insert_row [OF ins] author createIn_queue [OF c] fresh by (intro exI [of _ t] exI [of _ m]) simp
qed

definition lands_in_thread :: "db \<Rightarrow> ident \<Rightarrow> ident \<Rightarrow> slack_utterance \<Rightarrow> ticket \<Rightarrow> bool" where
  "lands_in_thread d tenant contact u t \<longleftrightarrow>
     (\<exists>addressed \<in> set (tickets d). \<exists>landing. on_thread (ut_channel u) (ut_thread u) addressed \<and>
        t_tenant addressed = tenant \<and> t_contact addressed = contact \<and> reply_lands_on d addressed t landing) \<or>
     (on_thread (ut_channel u) (ut_thread u) t \<and> t_subject t = subjectFrom (ut_text u) \<and> t_contact t = contact \<and>
      t_tenant t = tenant \<and> t_id t \<notin> t_id ` set (tickets d))"

lemma ingest_lands:
  assumes run: "ingest now fr tenant contact u d rt = Inr (x, d', rt')" and inv: "ticket_inv d"
  shows "\<exists>t m. lands_in_thread d tenant contact u t \<and> m \<in> set (messages d') \<and> m_ticket m = t_id t \<and>
    m_body m = ut_text u \<and> m_author_kind m = ''contact'' \<and> m_author_id m = Some contact \<and>
    jobs d' = jobs d \<and> deliveries d' = deliveries d"
proof -
  obtain found d0 where look: "ticketOnThread now tenant contact (ut_channel u) (ut_thread u) d = Inr (found, d0)"
    using run by (auto simp: ingest_def split: sum.splits)
  note armed = contact_armed [OF look [unfolded ticketOnThread_def]]
  show ?thesis
  proof (cases found)
    case None
    then have "slack_open now fr tenant contact u d rt = Inr (x, d', rt')" using run look by (simp add: ingest_def)
    from open_lands [OF this] show ?thesis unfolding lands_in_thread_def by blast
  next
    case (Some a)
    then have "thread_ticket (ut_channel u) (ut_thread u) (tenant_session now tenant ''contact'' contact) d = Some a"
      using armed(3) by auto
    note a = thread_ticket_found [OF this]
    have owner: "t_tenant a = tenant \<and> t_contact a = contact" using contact_sees [OF armed(2)] a by blast
    obtain r where "Conversation.reply now fr tenant contact (t_id a) (ut_text u) SrcSlack d rt = Inr (r, d', rt')"
      using run look Some by (auto simp: ingest_def appendTo_def split: sum.splits)
    from reply_facts [OF inv this] obtain b where b: "b \<in> set (tickets d)" "t_id b = t_id a"
      and lands: "reply_lands_on d b (re_ticket r) (re_landing r)" and m: "re_message r \<in> set (messages d')"
        "m_ticket (re_message r) = t_id (re_ticket r)" "m_body (re_message r) = ut_text u"
        "m_author_kind (re_message r) = ''contact''" "m_author_id (re_message r) = Some contact"
        "jobs d' = jobs d" "deliveries d' = deliveries d"
      by blast
    have "b = a" using row_by_id [OF inv b(1) _ b(2)] a by simp
    then have "lands_in_thread d tenant contact u (re_ticket r)"
      using a owner lands b(1) unfolding lands_in_thread_def by blast
    with m show ?thesis by blast
  qed
qed


definition first_utterance :: "string \<Rightarrow> slack_utterance" where
  "first_utterance user = \<lparr>ut_channel = ''C'', ut_thread = ''1.1'', ut_user = user, ut_text = ''Help''\<rparr>"

lemma first_heard:
  "utterance (readSlackMessage (json_field (slack_event_payload ''U1'' ''Help'') ''event'')
     (payloadString (slack_event_payload ''U1'' ''Help'') ''botUserId'')) = Some (first_utterance ''U1'')"
  "utterance (readSlackMessage (json_field (slack_event_payload ''U2'' ''Help'') ''event'')
     (payloadString (slack_event_payload ''U2'' ''Help'') ''botUserId'')) = Some (first_utterance ''U2'')"
  by code_simp+


section \<open>The second speaker\<close>

lemma taken_thread:
  assumes "t \<in> set (tickets d)" and "live t" and "on_thread (ut_channel u) (ut_thread u) t" and "t_tenant t = tenant"
  shows "\<exists>e. slack_open now fr tenant contact u d rt = Inl e"
proof (cases "slack_open now fr tenant contact u d rt")
  case (Inr y)
  then obtain z where "withTenant now (contactContext tenant contact) (open_work fr tenant contact u) d = Inr z"
    by (auto simp: slack_open_def split: sum.splits)
  note armed = contact_armed [OF this]
  let ?new = "new_ticket (fr_ticket fr) now tenant (open_input contact u)"
  let ?s = "tenant_session now tenant ''contact'' contact"
  obtain t' d2 where "ticket_insert ?new ?s d = Inr (t', d2)"
    using armed(3) by (auto simp: open_work_def split: sum.splits elim!: createIn_parts)
  then have link: "ticket_linkage_on_insert ?s d ?new = Inr t'" and one: "one_live_per_slack_thread (tickets d @ [t'])"
    by (auto elim: insert_parts)
  have "t' = ?new\<lparr>t_root := None\<rparr>" by (rule linkage_free [OF _ link]) (simp add: new_ticket_def open_input_def)
  then have False
    using one assms by (force simp: one_live_per_slack_thread_def on_thread_def live_def new_ticket_def open_input_def)
  then show ?thesis ..
qed blast

text \<open>
  C32. The second speaker of a thread is refused. While a live ticket holds a thread, the lookup
  under another speaker's own customer identity does not see it, so the handler tries to open
  a ticket on the same thread and the unique index refuses it: the handler throws and no
  message is written, however often the queue tries again.
\<close>

theorem second_speaker_refused:
  assumes "utterance (readSlackMessage (json_field payload ''event'') (payloadString payload ''botUserId'')) = Some u"
    and t: "t \<in> set (tickets d)" "live t" "on_thread (ut_channel u) (ut_thread u) t" "t_tenant t = jc_tenant jc"
    and owner: "\<forall>x \<in> set (tickets d). on_thread (ut_channel u) (ut_thread u) x \<longrightarrow> t_contact x = owner"
    and known: "owner \<in> snd ` set (contacts d)" and other: "(jc_tenant jc, ut_user u, owner) \<notin> set (sw_speakers w)"
  shows "\<exists>e d' w'. ingestion_handle now fresh payload jc s (d, w) = (Inl e, d', w') \<and>
    tickets d' = tickets d \<and> messages d' = messages d \<and> jobs d' = jobs d \<and> sw_rt w' = sw_rt w"
proof (cases "contactFor now (jc_tenant jc) (ut_user u) (fst (fresh payload)) (d, w)")
  case (Inl e)
  then show ?thesis using assms(1) by (simp add: ingestion_handle_def)
next
  case (Inr y)
  obtain c d1 w1 where y: "y = (c, d1, w1)" by (cases y)
  note run = Inr [unfolded y]
  have one: "c \<noteq> owner \<and> tickets d1 = tickets d \<and> messages d1 = messages d \<and> jobs d1 = jobs d \<and> sw_rt w1 = sw_rt w"
    using run known other by (cases rule: contactFor_cases) auto
  have "\<exists>e. ingest now (snd (fresh payload)) (jc_tenant jc) c u d1 (sw_rt w1) = Inl e"
  proof (cases "ticketOnThread now (jc_tenant jc) c (ut_channel u) (ut_thread u) d1")
    case (Inr z)
    note armed = contact_armed [OF Inr [unfolded ticketOnThread_def]]
    have "thread_ticket (ut_channel u) (ut_thread u) (tenant_session now (jc_tenant jc) ''contact'' c) d1 = None"
      by (rule thread_ticket_none) (use one owner contact_sees [OF armed(2)] in fastforce)
    then have "z = (None, d1)" using armed(3) by simp
    then show ?thesis using Inr taken_thread [of t d1 u "jc_tenant jc"] t one by (simp add: ingest_def)
  qed (simp add: ingest_def)
  then show ?thesis using one assms(1) run by (auto simp: ingestion_handle_def)
qed

theorem second_speaker_refused_witness:
  "\<exists>e d' w'. ingestion_handle 2000 (\<lambda>payload. (''u2'', snd (slack_ids payload))) (slack_event_payload ''U2'' ''Help'') slack_job
     (tenant_session 2000 slack_tenant ''system'' []) (fst (snd first_ingestion), snd (snd first_ingestion)) = (Inl e, d', w') \<and>
     messages d' = messages (fst (snd first_ingestion))"
proof -
  let ?d = "fst (snd first_ingestion)" and ?w = "snd (snd first_ingestion)"
  have "let st = snd first_ingestion; t = hd (tickets (fst st)); u = first_utterance ''U2'' in
      t \<in> set (tickets (fst st)) \<and> live t \<and> on_thread (ut_channel u) (ut_thread u) t \<and> t_tenant t = jc_tenant slack_job \<and>
      (\<forall>x \<in> set (tickets (fst st)). on_thread (ut_channel u) (ut_thread u) x \<longrightarrow> t_contact x = speaker_one) \<and>
      speaker_one \<in> snd ` set (contacts (fst st)) \<and> (jc_tenant slack_job, ut_user u, speaker_one) \<notin> set (sw_speakers (snd st))"
    by code_simp
  then have "hd (tickets ?d) \<in> set (tickets ?d)" "live (hd (tickets ?d))"
    "on_thread (ut_channel (first_utterance ''U2'')) (ut_thread (first_utterance ''U2'')) (hd (tickets ?d))"
    "t_tenant (hd (tickets ?d)) = jc_tenant slack_job"
    "\<forall>x \<in> set (tickets ?d). on_thread (ut_channel (first_utterance ''U2'')) (ut_thread (first_utterance ''U2'')) x \<longrightarrow> t_contact x = speaker_one"
    "speaker_one \<in> snd ` set (contacts ?d)" "(jc_tenant slack_job, ut_user (first_utterance ''U2''), speaker_one) \<notin> set (sw_speakers ?w)"
    unfolding Let_def by blast+
  from second_speaker_refused [OF first_heard(2) this] show ?thesis by blast
qed

end
