(* ===== verification/Scheduler_Runtime.thy ===== *)
theory Scheduler_Runtime
  imports Sweeps Idempotency
begin

text \<open>
  The clock of the process: whether anyone uses the API (\<open>scheduler-activity.ts\<close> and its
  middleware), the heartbeat (\<open>scheduler-heartbeat.ts\<close>), the ticker with its two loops
  (\<open>scheduler-ticker.service.ts\<close>), the slow tick (\<open>sweeper.service.ts\<close>), the verdict on
  readiness (\<open>readiness.ts\<close>) and the probes (\<open>health.controller.ts\<close>, \<open>keep-warm.ts\<close>).

  The ticker is a state machine: time passes, requests arrive, due timers fire and ticks that
  are in flight finish, in any order. What a tick does is not part of it, only whether it
  throws.
\<close>

section \<open>Readiness\<close>

definition STALE_TICK_MULTIPLIER :: int where
  "STALE_TICK_MULTIPLIER = 3"

record tick_report =
  tr_name :: string
  tr_last :: "millis option"
  tr_interval :: int

record scheduler_report =
  sr_enabled :: bool
  sr_ticks :: "tick_report list"

record redis_report =
  rr_configured :: bool
  rr_reachable :: bool

record readiness_input =
  ri_now :: millis
  ri_database :: bool
  ri_redis :: redis_report
  ri_scheduler :: scheduler_report

datatype tick_status = TickOk | TickStalled

record tick_health =
  th_name :: string
  th_status :: tick_status
  th_last :: "string option"
  th_age :: "rat option"

datatype scheduler_status = SchedulerOk | SchedulerStalled | SchedulerDisabled

datatype redis_status = RedisOk | RedisDegraded | RedisDormant

datatype verdict = Ready | Unavailable

record readiness =
  rd_status :: verdict
  rd_database :: verdict
  rd_redis :: redis_status
  rd_scheduler :: scheduler_status
  rd_ticks :: "tick_health list"

definition healthOf :: "tick_report \<Rightarrow> millis \<Rightarrow> tick_health" where
  "healthOf tick now =
     (let stale = tr_interval tick * STALE_TICK_MULTIPLIER
      in case tr_last tick of
           None \<Rightarrow> \<lparr>th_name = tr_name tick, th_status = TickStalled, th_last = None, th_age = None\<rparr>
         | Some beat \<Rightarrow>
             (let age = now - beat
              in \<lparr>th_name = tr_name tick, th_status = (if stale < age then TickStalled else TickOk),
                  th_last = Some (to_iso beat), th_age = Some (of_int age / 1000)\<rparr>))"

definition evaluateReadiness :: "readiness_input \<Rightarrow> readiness" where
  "evaluateReadiness i =
     (let ticks = (if sr_enabled (ri_scheduler i) then map (\<lambda>t. healthOf t (ri_now i)) (sr_ticks (ri_scheduler i)) else []);
          scheduler = (if \<not> sr_enabled (ri_scheduler i) then SchedulerDisabled
            else if ticks = [] \<or> list_ex (\<lambda>t. th_status t = TickStalled) ticks then SchedulerStalled
            else SchedulerOk);
          database = (if ri_database i then Ready else Unavailable);
          redis = (if \<not> rr_configured (ri_redis i) then RedisDormant
            else if rr_reachable (ri_redis i) then RedisOk else RedisDegraded)
      in \<lparr>rd_status = (if database = Ready \<and> scheduler \<noteq> SchedulerStalled then Ready else Unavailable),
          rd_database = database, rd_redis = redis, rd_scheduler = scheduler, rd_ticks = ticks\<rparr>)"

section \<open>The heartbeat\<close>

type_synonym heartbeat = "(string \<times> int \<times> millis option) list"

definition hb_register :: "string \<Rightarrow> int \<Rightarrow> heartbeat \<Rightarrow> heartbeat" where
  "hb_register name interval h = AList.update name (interval, None) h"

definition hb_retime :: "string \<Rightarrow> int \<Rightarrow> heartbeat \<Rightarrow> heartbeat" where
  "hb_retime name interval h =
     (case map_of h name of None \<Rightarrow> h | Some (_, beat) \<Rightarrow> AList.update name (interval, beat) h)"

definition hb_beat :: "string \<Rightarrow> millis \<Rightarrow> heartbeat \<Rightarrow> heartbeat" where
  "hb_beat name at_time h =
     (case map_of h name of None \<Rightarrow> h | Some (interval, _) \<Rightarrow> AList.update name (interval, Some at_time) h)"

definition hb_started :: "heartbeat \<Rightarrow> bool" where
  "hb_started h \<longleftrightarrow> 0 < length h"

definition hb_report :: "heartbeat \<Rightarrow> tick_report list" where
  "hb_report h = map (\<lambda>(name, interval, beat). \<lparr>tr_name = name, tr_last = beat, tr_interval = interval\<rparr>) h"

section \<open>The ticker\<close>

definition IDLE_AFTER_MS :: int where "IDLE_AFTER_MS = 10 * 60000"
definition IDLE_TICK_MS :: int where "IDLE_TICK_MS = 30 * 60000"
definition FAST_TICK_MS :: int where "FAST_TICK_MS = 3000"
definition SLOW_TICK_MS :: int where "SLOW_TICK_MS = 60000"
definition FAST_TICK :: string where "FAST_TICK = ''fast-drain''"
definition SLOW_TICK :: string where "SLOW_TICK = ''slow-sweep''"

record loop =
  lp_name :: string
  lp_active :: int
  lp_timer :: "nat option"

text \<open>
  Why a tick was started decides what follows it: nothing after a timer, arming after a wake,
  and the second loop after the first tick of the boot.
\<close>

datatype cause = ByTimer | ByWake | ByBoot

record ticker =
  tk_now :: millis
  tk_last_request :: millis
  tk_listening :: bool
  tk_stopped :: bool
  tk_loops :: "loop list"
  tk_timers :: "(nat \<times> string \<times> millis) list"
  tk_serial :: nat
  tk_heartbeat :: heartbeat
  tk_running :: "(string \<times> cause) list"

definition isIdle :: "ticker \<Rightarrow> bool" where
  "isIdle k \<longleftrightarrow> IDLE_AFTER_MS < tk_now k - tk_last_request k"

definition set_timer :: "string \<Rightarrow> nat option \<Rightarrow> loop list \<Rightarrow> loop list" where
  "set_timer name t loops = map (\<lambda>l. if lp_name l = name then l\<lparr>lp_timer := t\<rparr> else l) loops"

definition arm :: "loop \<Rightarrow> ticker \<Rightarrow> ticker" where
  "arm l k =
     (if tk_stopped k then k
      else
        (let interval = (if isIdle k then max (lp_active l) IDLE_TICK_MS else lp_active l)
         in k\<lparr>tk_heartbeat := hb_retime (lp_name l) interval (tk_heartbeat k),
              tk_loops := set_timer (lp_name l) (Some (tk_serial k)) (tk_loops k),
              tk_timers := tk_timers k @ [(tk_serial k, lp_name l, tk_now k + interval)],
              tk_serial := Suc (tk_serial k)\<rparr>))"

definition loop_named :: "string \<Rightarrow> ticker \<Rightarrow> loop option" where
  "loop_named name k = find (\<lambda>l. lp_name l = name) (tk_loops k)"

definition arm_named :: "string \<Rightarrow> ticker \<Rightarrow> ticker" where
  "arm_named name k = (case loop_named name k of None \<Rightarrow> k | Some l \<Rightarrow> arm l k)"

definition run_tick :: "string \<Rightarrow> cause \<Rightarrow> ticker \<Rightarrow> ticker" where
  "run_tick name c k = k\<lparr>tk_running := tk_running k @ [(name, c)]\<rparr>"

definition clearTimeout :: "nat option \<Rightarrow> ticker \<Rightarrow> ticker" where
  "clearTimeout t k =
     (case t of None \<Rightarrow> k | Some i \<Rightarrow> k\<lparr>tk_timers := filter (\<lambda>(j, _). j \<noteq> i) (tk_timers k)\<rparr>)"

definition fire :: "nat \<times> string \<times> millis \<Rightarrow> ticker \<Rightarrow> ticker" where
  "fire t k =
     (case t of (i, name, _) \<Rightarrow> run_tick name ByTimer (arm_named name (clearTimeout (Some i) k)))"

definition wake :: "ticker \<Rightarrow> ticker" where
  "wake k =
     fold (\<lambda>l k. run_tick (lp_name l) ByWake
       ((clearTimeout (lp_timer l) k)\<lparr>tk_loops := set_timer (lp_name l) None (tk_loops k)\<rparr>)) (tk_loops k) k"

definition activity_touch :: "ticker \<Rightarrow> ticker" where
  "activity_touch k =
     (let was_idle = isIdle k; k' = k\<lparr>tk_last_request := tk_now k\<rparr>
      in if was_idle \<and> tk_listening k then wake k' else k')"

definition isHealthProbe :: "string \<Rightarrow> bool" where
  "isHealthProbe url =
     (let path = hd (split_on (CHR ''?'') url) in path = ''/health'' \<or> starts_with ''/health/'' path)"

definition activity_use :: "string \<Rightarrow> ticker \<Rightarrow> ticker" where
  "activity_use url k = (if isHealthProbe url then k else activity_touch k)"

definition start_loop :: "string \<Rightarrow> int \<Rightarrow> ticker \<Rightarrow> ticker" where
  "start_loop name interval k =
     (let l = \<lparr>lp_name = name, lp_active = interval, lp_timer = None\<rparr>
      in run_tick name ByBoot
           (arm l (k\<lparr>tk_heartbeat := hb_register name interval (tk_heartbeat k), tk_loops := tk_loops k @ [l]\<rparr>)))"

definition new_ticker :: "millis \<Rightarrow> ticker" where
  "new_ticker now =
     \<lparr>tk_now = now, tk_last_request = now, tk_listening = False, tk_stopped = False, tk_loops = [], tk_timers = [],
      tk_serial = 0, tk_heartbeat = [], tk_running = []\<rparr>"

definition onApplicationBootstrap :: "bool \<Rightarrow> ticker \<Rightarrow> ticker" where
  "onApplicationBootstrap runScheduler k =
     (if \<not> runScheduler then k else start_loop FAST_TICK FAST_TICK_MS (k\<lparr>tk_listening := True\<rparr>))"

text \<open>A tick that is in flight ends; one that throws records no beat.\<close>

definition finish :: "string \<times> cause \<Rightarrow> bool \<Rightarrow> ticker \<Rightarrow> ticker" where
  "finish r ok k =
     (case r of (name, c) \<Rightarrow>
        (let k1 = k\<lparr>tk_running := remove1 r (tk_running k)\<rparr>;
             k2 = (if ok then k1\<lparr>tk_heartbeat := hb_beat name (tk_now k1) (tk_heartbeat k1)\<rparr> else k1)
         in case c of
              ByTimer \<Rightarrow> k2
            | ByWake \<Rightarrow> arm_named name k2
            | ByBoot \<Rightarrow> if name = FAST_TICK then start_loop SLOW_TICK SLOW_TICK_MS k2 else k2))"

definition onApplicationShutdown :: "ticker \<Rightarrow> ticker" where
  "onApplicationShutdown k =
     (fold (\<lambda>l. clearTimeout (lp_timer l)) (tk_loops k) (k\<lparr>tk_stopped := True\<rparr>))\<lparr>tk_loops := []\<rparr>"

section \<open>The slow tick\<close>

type_synonym 'st sweep = "string \<times> (millis \<Rightarrow> 'st \<Rightarrow> (thrown + unit) \<times> 'st)"

record sweep_summary =
  ss_ran :: "string list"
  ss_failed :: "string list"

fun sweeper_tick :: "'st sweep list \<Rightarrow> millis \<Rightarrow> sweep_summary \<Rightarrow> 'st \<Rightarrow> sweep_summary \<times> 'st" where
  "sweeper_tick [] now sm st = (sm, st)"
| "sweeper_tick ((name, run) # rest) now sm st =
     (case run now st of
        (Inr _, st') \<Rightarrow> sweeper_tick rest now (sm\<lparr>ss_ran := ss_ran sm @ [name]\<rparr>) st'
      | (Inl _, st') \<Rightarrow> sweeper_tick rest now (sm\<lparr>ss_failed := ss_failed sm @ [name]\<rparr>) st')"

definition sweep_registry :: "sla_targets \<Rightarrow> millis \<Rightarrow> ident list \<Rightarrow> (db \<times> realtime \<times> idem_table) sweep list" where
  "sweep_registry targets clock tenants =
     [(''sla-breach'', \<lambda>now (d, rt, idem). case breach_sweep targets clock now tenants d rt of (r, d', rt') \<Rightarrow> (r, d', rt', idem)),
      (''dwell'', \<lambda>now (d, rt, idem). case dwell_sweep clock now tenants d rt of (r, d', rt') \<Rightarrow> (r, d', rt', idem)),
      (''idempotency-retention'', \<lambda>now (d, rt, idem). case retention_sweep now tenants idem of
         (Inl e, idem') \<Rightarrow> (Inl e, d, rt, idem') | (Inr _, idem') \<Rightarrow> (Inr (), d, rt, idem'))]"

section \<open>The probes\<close>

definition liveness :: "millis \<Rightarrow> millis \<Rightarrow> int" where
  "liveness started now = (now - started) div 1000"

definition redis_probe :: "bool option \<Rightarrow> redis_report" where
  "redis_probe ping =
     (case ping of
        None \<Rightarrow> \<lparr>rr_configured = False, rr_reachable = False\<rparr>
      | Some answered \<Rightarrow> \<lparr>rr_configured = True, rr_reachable = answered\<rparr>)"

definition readiness_probe :: "bool \<Rightarrow> bool option \<Rightarrow> bool \<Rightarrow> ticker \<Rightarrow> nat \<times> readiness" where
  "readiness_probe database ping runScheduler k =
     (let r = evaluateReadiness
        \<lparr>ri_now = tk_now k, ri_database = database, ri_redis = redis_probe ping,
         ri_scheduler = \<lparr>sr_enabled = runScheduler, sr_ticks = hb_report (tk_heartbeat k)\<rparr>\<rparr>
      in (if rd_status r \<noteq> Ready then 503 else 200, r))"

definition KEEP_WARM_INTERVAL_MS :: int where "KEEP_WARM_INTERVAL_MS = 5 * 60000"
definition PLATFORM_IDLE_WINDOW_MS :: int where "PLATFORM_IDLE_WINDOW_MS = 15 * 60000"

section \<open>Histories of the ticker\<close>

datatype ticker_event =
    Passes int
  | Request string
  | Fires "nat \<times> string \<times> millis"
  | Ends "string \<times> cause" bool
  | Shutdown

fun may_happen :: "ticker_event \<Rightarrow> ticker \<Rightarrow> bool" where
  "may_happen (Passes t) k \<longleftrightarrow> 0 \<le> t"
| "may_happen (Request url) k \<longleftrightarrow> True"
| "may_happen (Fires t) k \<longleftrightarrow> t \<in> set (tk_timers k) \<and> snd (snd t) \<le> tk_now k"
| "may_happen (Ends r ok) k \<longleftrightarrow> r \<in> set (tk_running k)"
| "may_happen Shutdown k \<longleftrightarrow> True"

fun happens :: "ticker_event \<Rightarrow> ticker \<Rightarrow> ticker" where
  "happens (Passes t) k = k\<lparr>tk_now := tk_now k + t\<rparr>"
| "happens (Request url) k = activity_use url k"
| "happens (Fires t) k = fire t k"
| "happens (Ends r ok) k = finish r ok k"
| "happens Shutdown k = onApplicationShutdown k"

inductive ticker_reachable :: "ticker \<Rightarrow> bool" where
  boot: "ticker_reachable (onApplicationBootstrap True (new_ticker now))"
| step: "ticker_reachable k \<Longrightarrow> may_happen e k \<Longrightarrow> ticker_reachable (happens e k)"

inductive history :: "ticker_event list \<Rightarrow> ticker \<Rightarrow> ticker \<Rightarrow> bool" where
  none: "history [] k k"
| event: "may_happen e k \<Longrightarrow> history es (happens e k) k' \<Longrightarrow> history (e # es) k k'"

inductive_cases history_ConsE: "history (e # es) k k'"
inductive_cases history_NilE: "history [] k k'"

section \<open>The clock keeps ticking\<close>

definition timers_ok :: "ticker \<Rightarrow> bool" where
  "timers_ok k \<longleftrightarrow> distinct (map fst (tk_timers k)) \<and> (\<forall>(i, _, due) \<in> set (tk_timers k). i < tk_serial k \<and> due \<le> tk_now k + IDLE_TICK_MS)"

definition loop_ok :: "ticker \<Rightarrow> loop \<Rightarrow> bool" where
  "loop_ok k l \<longleftrightarrow> lp_active l \<in> {FAST_TICK_MS, SLOW_TICK_MS} \<and>
     (case lp_timer l of
        Some i \<Rightarrow> (\<exists>due. (i, lp_name l, due) \<in> set (tk_timers k))
      | None \<Rightarrow> (lp_name l, ByWake) \<in> set (tk_running k))"

definition boot_ok :: "ticker \<Rightarrow> bool" where
  "boot_ok k \<longleftrightarrow> count_list (tk_running k) (FAST_TICK, ByBoot) \<le> 1 \<and>
     ((FAST_TICK, ByBoot) \<in> set (tk_running k) \<longrightarrow> map lp_name (tk_loops k) = [FAST_TICK])"

definition ticker_inv :: "ticker \<Rightarrow> bool" where
  "ticker_inv k \<longleftrightarrow> tk_stopped k \<or>
     timers_ok k \<and> distinct (map lp_name (tk_loops k)) \<and> boot_ok k \<and> (\<forall>l \<in> set (tk_loops k). loop_ok k l)"

lemma tick_bounds [simp]: "0 < FAST_TICK_MS" "0 < SLOW_TICK_MS" "FAST_TICK_MS \<le> IDLE_TICK_MS" "SLOW_TICK_MS \<le> IDLE_TICK_MS"
  "FAST_TICK \<noteq> SLOW_TICK"
  by (simp_all add: FAST_TICK_MS_def SLOW_TICK_MS_def IDLE_TICK_MS_def FAST_TICK_def SLOW_TICK_def)

lemma set_timer_names [simp]: "map lp_name (set_timer name t ls) = map lp_name ls"
  by (simp add: set_timer_def)

lemma arm_fields:
  assumes "\<not> tk_stopped k"
  shows "tk_loops (arm l k) = set_timer (lp_name l) (Some (tk_serial k)) (tk_loops k)"
    and "\<exists>interval. tk_timers (arm l k) = tk_timers k @ [(tk_serial k, lp_name l, tk_now k + interval)] \<and>
      (interval = lp_active l \<or> interval = max (lp_active l) IDLE_TICK_MS)"
    and "tk_serial (arm l k) = Suc (tk_serial k)" and "tk_running (arm l k) = tk_running k" and "tk_now (arm l k) = tk_now k"
    and "tk_stopped (arm l k) = tk_stopped k"
  using assms by (auto simp: arm_def Let_def)

lemma arm_timers:
  assumes "\<not> tk_stopped k" and "timers_ok k" and "lp_active l \<le> IDLE_TICK_MS"
  shows "timers_ok (arm l k)"
proof -
  obtain interval where t: "tk_timers (arm l k) = tk_timers k @ [(tk_serial k, lp_name l, tk_now k + interval)]"
    and i: "interval = lp_active l \<or> interval = max (lp_active l) IDLE_TICK_MS"
    using arm_fields(2) [OF assms(1)] by blast
  have fresh: "tk_serial k \<notin> fst ` set (tk_timers k)" using assms(2) by (force simp: timers_ok_def)
  show ?thesis using assms(2,3) i fresh
    unfolding timers_ok_def t arm_fields(3,5) [OF assms(1)] by (auto simp: less_Suc_eq)
qed

text \<open>Arming keeps every loop served: its own gets the new timer, the timers of the others stay.\<close>

lemma arm_inv:
  assumes stop: "\<not> tk_stopped k" and t: "timers_ok k" and names: "distinct (map lp_name (tk_loops k))" and l: "l \<in> set (tk_loops k)"
    and active: "lp_active l \<in> {FAST_TICK_MS, SLOW_TICK_MS}" and boot: "boot_ok k"
    and others: "\<And>m. m \<in> set (tk_loops k) \<Longrightarrow> lp_name m \<noteq> lp_name l \<Longrightarrow> loop_ok k m"
  shows "ticker_inv (arm l k)"
proof -
  have idle: "lp_active l \<le> IDLE_TICK_MS" using active by auto
  have ok: "timers_ok (arm l k)" by (rule arm_timers [OF stop t idle])
  have "loop_ok (arm l k) m" if m: "m \<in> set (tk_loops (arm l k))" for m
  proof -
    obtain m0 where m0: "m0 \<in> set (tk_loops k)" "m = (if lp_name m0 = lp_name l then m0\<lparr>lp_timer := Some (tk_serial k)\<rparr> else m0)"
      using m unfolding arm_fields(1) [OF stop] by (auto simp: set_timer_def)
    show ?thesis
    proof (cases "lp_name m0 = lp_name l")
      case True
      then have "m0 = l" using names m0(1) l by (simp add: distinct_key_eq)
      then show ?thesis using True m0(2) active arm_fields(2) [OF stop, of l] by (auto simp: loop_ok_def)
    next
      case False
      then show ?thesis using others [OF m0(1) False] m0(2) arm_fields(2) [OF stop, of l] arm_fields(4) [OF stop, of l]
        by (auto simp: loop_ok_def split: option.splits)
    qed
  qed
  moreover have "boot_ok (arm l k)" using boot arm_fields(1,4) [OF stop, of l] by (simp add: boot_ok_def)
  ultimately show ?thesis using ok names arm_fields(1) [OF stop, of l] by (simp add: ticker_inv_def)
qed

lemma arm_named_inv:
  assumes stop: "\<not> tk_stopped k" and t: "timers_ok k" and names: "distinct (map lp_name (tk_loops k))" and boot: "boot_ok k"
    and active: "\<And>m. m \<in> set (tk_loops k) \<Longrightarrow> lp_active m \<in> {FAST_TICK_MS, SLOW_TICK_MS}"
    and others: "\<And>m. m \<in> set (tk_loops k) \<Longrightarrow> lp_name m \<noteq> name \<Longrightarrow> loop_ok k m"
  shows "ticker_inv (arm_named name k)"
proof (cases "loop_named name k")
  case (Some l)
  then have l: "l \<in> set (tk_loops k)" "lp_name l = name" by (auto simp: loop_named_def dest: find_SomeD)
  have "ticker_inv (arm l k)"
    by (rule arm_inv [OF stop t names l(1) active [OF l(1)] boot]) (use others l(2) in blast)
  then show ?thesis using Some by (simp add: arm_named_def)
next
  case None
  then have "lp_name m \<noteq> name" if "m \<in> set (tk_loops k)" for m using that by (auto simp: loop_named_def find_None_iff)
  then show ?thesis using None t names boot others by (simp add: arm_named_def ticker_inv_def)
qed

lemma run_tick_fields [simp]:
  "tk_loops (run_tick name c k) = tk_loops k" "tk_timers (run_tick name c k) = tk_timers k" "tk_now (run_tick name c k) = tk_now k"
  "tk_serial (run_tick name c k) = tk_serial k" "tk_stopped (run_tick name c k) = tk_stopped k"
  "tk_running (run_tick name c k) = tk_running k @ [(name, c)]" "tk_heartbeat (run_tick name c k) = tk_heartbeat k"
  "tk_last_request (run_tick name c k) = tk_last_request k"
  by (simp_all add: run_tick_def)

lemma run_tick_inv: "ticker_inv k \<Longrightarrow> c \<noteq> ByBoot \<Longrightarrow> ticker_inv (run_tick name c k)"
  by (auto simp: ticker_inv_def timers_ok_def boot_ok_def loop_ok_def split: option.splits)

lemma clear_fields [simp]:
  "tk_loops (clearTimeout t k) = tk_loops k" "tk_now (clearTimeout t k) = tk_now k" "tk_serial (clearTimeout t k) = tk_serial k"
  "tk_stopped (clearTimeout t k) = tk_stopped k" "tk_running (clearTimeout t k) = tk_running k"
  "tk_heartbeat (clearTimeout t k) = tk_heartbeat k" "tk_last_request (clearTimeout t k) = tk_last_request k"
  "tk_timers (clearTimeout t k) = filter (\<lambda>(j, _). Some j \<noteq> t) (tk_timers k)"
  by (auto simp: clearTimeout_def split: option.splits)

lemma clear_timers: "timers_ok k \<Longrightarrow> timers_ok (clearTimeout t k)"
  by (auto simp: timers_ok_def distinct_map_filter)

lemma fire_inv:
  assumes inv: "ticker_inv k" and t: "(i, name, due) \<in> set (tk_timers k)"
  shows "ticker_inv (fire (i, name, due) k)"
proof (cases "tk_stopped k")
  case True
  then show ?thesis by (simp add: fire_def arm_named_def arm_def ticker_inv_def split: option.split)
next
  case stop: False
  let ?k = "clearTimeout (Some i) k"
  have k: "timers_ok k" "distinct (map lp_name (tk_loops k))" "boot_ok k" and loops: "\<And>l. l \<in> set (tk_loops k) \<Longrightarrow> loop_ok k l"
    using inv stop by (auto simp: ticker_inv_def)
  have id: "name' = name" if "(i, name', due') \<in> set (tk_timers k)" for name' due'
    using that t k(1) distinct_key_eq [of fst "tk_timers k" "(i, name', due')" "(i, name, due)"] by (simp add: timers_ok_def)
  have others: "loop_ok ?k m" if "m \<in> set (tk_loops k)" "lp_name m \<noteq> name" for m
    using loops [OF that(1)] that(2) id by (fastforce simp: loop_ok_def split: option.splits)
  have "ticker_inv (arm_named name ?k)"
    by (rule arm_named_inv) (use stop k clear_timers others loops in \<open>auto simp: boot_ok_def loop_ok_def\<close>)
  then show ?thesis by (simp add: fire_def run_tick_inv)
qed

text \<open>What a wake leaves: no loop has a timer, each has a tick in flight that arms it.\<close>

lemma wake_fold:
  "let k' = fold (\<lambda>l k. run_tick (lp_name l) ByWake
       ((clearTimeout (lp_timer l) k)\<lparr>tk_loops := set_timer (lp_name l) None (tk_loops k)\<rparr>)) ls k
   in tk_loops k' = map (\<lambda>l. if lp_name l \<in> lp_name ` set ls then l\<lparr>lp_timer := None\<rparr> else l) (tk_loops k) \<and>
     tk_timers k' = filter (\<lambda>(j, _). Some j \<notin> lp_timer ` set ls) (tk_timers k) \<and>
     tk_running k' = tk_running k @ map (\<lambda>l. (lp_name l, ByWake)) ls \<and> tk_now k' = tk_now k \<and> tk_serial k' = tk_serial k \<and>
     tk_stopped k' = tk_stopped k \<and> tk_heartbeat k' = tk_heartbeat k \<and> tk_last_request k' = tk_last_request k"
proof (induction ls arbitrary: k)
  case (Cons l ls)
  let ?k = "run_tick (lp_name l) ByWake ((clearTimeout (lp_timer l) k)\<lparr>tk_loops := set_timer (lp_name l) None (tk_loops k)\<rparr>)"
  have "filter (\<lambda>(j, _). Some j \<notin> lp_timer ` set ls) (filter (\<lambda>(j, _). Some j \<noteq> lp_timer l) (tk_timers k)) =
      filter (\<lambda>(j, _). Some j \<notin> lp_timer ` set (l # ls)) (tk_timers k)"
    by (simp add: case_prod_beta) (rule filter_cong, auto)
  moreover have "map (\<lambda>l. if lp_name l \<in> lp_name ` set ls then l\<lparr>lp_timer := None\<rparr> else l) (set_timer (lp_name l) None (tk_loops k)) =
      map (\<lambda>m. if lp_name m \<in> lp_name ` set (l # ls) then m\<lparr>lp_timer := None\<rparr> else m) (tk_loops k)"
    by (auto simp: set_timer_def)
  ultimately show ?case using Cons.IH [of ?k] by (simp add: Let_def)
qed (simp add: case_prod_beta)

lemma wake_fields:
  "tk_loops (wake k) = map (\<lambda>l. l\<lparr>lp_timer := None\<rparr>) (tk_loops k)"
  "tk_timers (wake k) = filter (\<lambda>(j, _). Some j \<notin> lp_timer ` set (tk_loops k)) (tk_timers k)"
  "tk_running (wake k) = tk_running k @ map (\<lambda>l. (lp_name l, ByWake)) (tk_loops k)"
  "tk_now (wake k) = tk_now k" "tk_serial (wake k) = tk_serial k" "tk_stopped (wake k) = tk_stopped k"
  "tk_heartbeat (wake k) = tk_heartbeat k" "tk_last_request (wake k) = tk_last_request k"
  using wake_fold [of "tk_loops k" k] unfolding wake_def Let_def by auto

lemma count_wakes: "count_list (map (\<lambda>l. (lp_name l, ByWake)) ls) (name, ByBoot) = 0"
  by (induction ls) auto

lemma wake_inv: "ticker_inv k \<Longrightarrow> ticker_inv (wake k)"
  unfolding ticker_inv_def timers_ok_def boot_ok_def loop_ok_def wake_fields
  by (auto simp: distinct_map_filter comp_def count_wakes)

text \<open>Fields the invariant does not read.\<close>

lemma loop_ok_cong: "tk_timers k' = tk_timers k \<Longrightarrow> tk_running k' = tk_running k \<Longrightarrow> loop_ok k' l = loop_ok k l"
  by (simp add: loop_ok_def split: option.split)

lemma ticker_inv_cong:
  assumes "tk_stopped k' = tk_stopped k" "tk_loops k' = tk_loops k" "tk_timers k' = tk_timers k" "tk_serial k' = tk_serial k"
    "tk_running k' = tk_running k" "tk_now k \<le> tk_now k'" and "ticker_inv k"
  shows "ticker_inv k'"
proof -
  have "loop_ok k' l = loop_ok k l" for l using assms by (intro loop_ok_cong) simp_all
  then show ?thesis using assms by (fastforce simp: ticker_inv_def timers_ok_def boot_ok_def)
qed

lemma use_inv: "ticker_inv k \<Longrightarrow> ticker_inv (activity_use url k)"
proof -
  assume inv: "ticker_inv k"
  have "ticker_inv (k\<lparr>tk_last_request := tk_now k\<rparr>)" by (rule ticker_inv_cong [OF _ _ _ _ _ _ inv]) simp_all
  then show ?thesis using inv wake_inv by (auto simp: activity_use_def activity_touch_def Let_def)
qed

lemma start_inv:
  assumes stop: "\<not> tk_stopped k" and t: "timers_ok k" and names: "distinct (map lp_name (tk_loops k))" "name \<notin> lp_name ` set (tk_loops k)"
    and interval: "interval \<in> {FAST_TICK_MS, SLOW_TICK_MS}" and loops: "\<And>m. m \<in> set (tk_loops k) \<Longrightarrow> loop_ok k m"
    and boot: "(FAST_TICK, ByBoot) \<notin> set (tk_running k)" "name = FAST_TICK \<Longrightarrow> tk_loops k = []"
  shows "ticker_inv (start_loop name interval k)"
proof -
  let ?l = "\<lparr>lp_name = name, lp_active = interval, lp_timer = None\<rparr>"
  let ?k = "k\<lparr>tk_heartbeat := hb_register name interval (tk_heartbeat k), tk_loops := tk_loops k @ [?l]\<rparr>"
  have boot1: "boot_ok ?k" using boot(1) by (simp add: boot_ok_def count_list_0_iff)
  have others: "loop_ok ?k m" if "m \<in> set (tk_loops ?k)" "lp_name m \<noteq> lp_name ?l" for m
  proof -
    have "loop_ok ?k m = loop_ok k m" by (rule loop_ok_cong) simp_all
    then show ?thesis using that loops by auto
  qed
  have "ticker_inv (arm ?l ?k)"
    by (rule arm_inv) (use stop t names interval boot1 others in \<open>auto simp: timers_ok_def\<close>)
  moreover have "tk_stopped (arm ?l ?k) = tk_stopped k" "tk_running (arm ?l ?k) = tk_running k"
    "map lp_name (tk_loops (arm ?l ?k)) = map lp_name (tk_loops k) @ [name]"
    using stop by (simp_all add: arm_fields)
  moreover have "loop_ok (run_tick name ByBoot (arm ?l ?k)) m" if "loop_ok (arm ?l ?k) m" for m
    using that by (auto simp: loop_ok_def split: option.splits)
  moreover have "timers_ok (run_tick name ByBoot (arm ?l ?k))" if "timers_ok (arm ?l ?k)"
    using that by (simp add: timers_ok_def)
  moreover have "count_list (tk_running k @ [(name, ByBoot)]) (FAST_TICK, ByBoot) \<le> 1" using boot(1) by (simp add: count_list_0_iff)
  ultimately show ?thesis
    using stop boot by (auto simp: start_loop_def Let_def ticker_inv_def boot_ok_def)
qed

lemma ended_ok:
  assumes inv: "ticker_inv k" and stop: "\<not> tk_stopped k" and r: "(name, c) \<in> set (tk_running k)"
    and k': "tk_loops k' = tk_loops k" "tk_timers k' = tk_timers k" "tk_serial k' = tk_serial k" "tk_now k' = tk_now k"
      "tk_running k' = remove1 (name, c) (tk_running k)"
  shows "timers_ok k'" and "boot_ok k'"
    and "\<And>m. m \<in> set (tk_loops k') \<Longrightarrow> c = ByWake \<longrightarrow> lp_name m \<noteq> name \<Longrightarrow> loop_ok k' m"
    and "c = ByBoot \<Longrightarrow> name = FAST_TICK \<Longrightarrow> (FAST_TICK, ByBoot) \<notin> set (tk_running k') \<and> map lp_name (tk_loops k') = [FAST_TICK]"
proof -
  show "timers_ok k'" using inv stop k' by (simp add: ticker_inv_def timers_ok_def)
  have b: "boot_ok k" using inv stop by (simp add: ticker_inv_def)
  have count: "count_list (remove1 (name, c) (tk_running k)) x = count_list (tk_running k) x - (if x = (name, c) then 1 else 0)" for x
    by (induction "tk_running k") (auto simp: count_list_0_iff)
  have sub: "set (remove1 (name, c) (tk_running k)) \<subseteq> set (tk_running k)" by (rule set_remove1_subset)
  show "boot_ok k'" using b k' sub by (auto simp: boot_ok_def count)
  show "loop_ok k' m" if "m \<in> set (tk_loops k')" "c = ByWake \<longrightarrow> lp_name m \<noteq> name" for m
  proof -
    have "loop_ok k m" using that(1) inv stop k'(1) by (simp add: ticker_inv_def)
    then show ?thesis using that(2) k' by (auto simp: loop_ok_def in_set_remove1 split: option.splits)
  qed
  assume c: "c = ByBoot" "name = FAST_TICK"
  then have "count_list (tk_running k') (FAST_TICK, ByBoot) = 0" using b k' count [of "(FAST_TICK, ByBoot)"] by (simp add: boot_ok_def)
  then show "(FAST_TICK, ByBoot) \<notin> set (tk_running k') \<and> map lp_name (tk_loops k') = [FAST_TICK]"
    using b r c k'(1) by (auto simp: count_list_0_iff boot_ok_def)
qed

lemma finish_inv:
  assumes inv: "ticker_inv k" and r: "(name, c) \<in> set (tk_running k)"
  shows "ticker_inv (finish (name, c) ok k)"
proof -
  let ?k1 = "k\<lparr>tk_running := remove1 (name, c) (tk_running k)\<rparr>"
  define k2 where "k2 = (if ok then ?k1\<lparr>tk_heartbeat := hb_beat name (tk_now ?k1) (tk_heartbeat ?k1)\<rparr> else ?k1)"
  have k2: "tk_loops k2 = tk_loops k" "tk_timers k2 = tk_timers k" "tk_serial k2 = tk_serial k" "tk_now k2 = tk_now k"
    "tk_running k2 = remove1 (name, c) (tk_running k)" "tk_stopped k2 = tk_stopped k"
    by (simp_all add: k2_def)
  have fin: "finish (name, c) ok k = (case c of ByTimer \<Rightarrow> k2 | ByWake \<Rightarrow> arm_named name k2
      | ByBoot \<Rightarrow> if name = FAST_TICK then start_loop SLOW_TICK SLOW_TICK_MS k2 else k2)"
    unfolding finish_def Let_def k2_def prod.case by (rule refl)
  show ?thesis
  proof (cases "tk_stopped k")
    case True
    then have "tk_stopped (finish (name, c) ok k)"
      using k2(6) unfolding fin by (auto simp: arm_named_def arm_def start_loop_def Let_def split: cause.split option.split)
    then show ?thesis by (simp add: ticker_inv_def)
  next
    case stop: False
    note e = ended_ok [OF inv stop r k2(1-5)]
    have names: "distinct (map lp_name (tk_loops k2))" using inv stop k2(1) by (simp add: ticker_inv_def)
    have active: "lp_active m \<in> {FAST_TICK_MS, SLOW_TICK_MS}" if "m \<in> set (tk_loops k2)" for m
      using that inv stop k2(1) by (auto simp: ticker_inv_def loop_ok_def)
    have same: "ticker_inv k2" if "c \<noteq> ByWake" using that e names by (simp add: ticker_inv_def)
    show ?thesis
    proof (cases c)
      case ByTimer
      then show ?thesis using same unfolding fin by simp
    next
      case ByWake
      have "ticker_inv (arm_named name k2)"
        by (rule arm_named_inv) (use stop k2(6) e names active in auto)
      then show ?thesis unfolding fin by (simp add: ByWake)
    next
      case ByBoot
      show ?thesis
      proof (cases "name = FAST_TICK")
        case True
        have l: "map lp_name (tk_loops k2) = [FAST_TICK]" and none: "(FAST_TICK, ByBoot) \<notin> set (tk_running k2)"
          using e(4) [OF ByBoot True] by auto
        have "SLOW_TICK \<notin> lp_name ` set (tk_loops k2)" using l tick_bounds(5) by (metis empty_set list.simps(15) set_map singletonD)
        then have "ticker_inv (start_loop SLOW_TICK SLOW_TICK_MS k2)"
          using none stop k2(6) e names ByBoot by (intro start_inv) (auto simp: tick_bounds(5) [symmetric])
        then show ?thesis unfolding fin by (simp add: ByBoot True)
      qed (use same ByBoot fin in simp)
    qed
  qed
qed

lemma shutdown_stops: "tk_stopped (onApplicationShutdown k)"
proof -
  have "tk_stopped (fold (\<lambda>l. clearTimeout (lp_timer l)) ls k') = tk_stopped k'" for ls :: "loop list" and k' :: ticker
    by (induction ls arbitrary: k') simp_all
  then show ?thesis by (simp add: onApplicationShutdown_def)
qed

lemma happens_inv:
  assumes "may_happen e k" and "ticker_inv k"
  shows "ticker_inv (happens e k)"
proof (cases e)
  case (Passes t)
  then show ?thesis using assms ticker_inv_cong [of "k\<lparr>tk_now := tk_now k + t\<rparr>" k] by simp
next
  case (Fires t)
  then show ?thesis using assms fire_inv by (cases t) simp
next
  case (Ends r ok)
  then show ?thesis using assms finish_inv by (cases r) simp
next
  case Shutdown
  then show ?thesis by (simp add: ticker_inv_def shutdown_stops)
qed (use assms use_inv in simp)

lemma ticker_reachable_inv: "ticker_reachable k \<Longrightarrow> ticker_inv k"
proof (induction rule: ticker_reachable.induct)
  case (boot now)
  show ?case
    unfolding onApplicationBootstrap_def if_True not_True_eq_False if_False
    by (rule start_inv) (simp_all add: new_ticker_def timers_ok_def)
qed (blast intro: happens_inv)

text \<open>
  C33. The clock keeps ticking: in every state a process with the scheduler switched on can
  reach before it shuts down, whatever requests, ticks and failures came before, each loop
  either has a pending timer that is due in at most thirty minutes, or has a tick in flight
  that was started by a wake and arms the loop when it ends, however it ends.
\<close>

theorem clock_keeps_ticking:
  assumes "ticker_reachable k" and "\<not> tk_stopped k" and "l \<in> set (tk_loops k)"
  shows "(\<exists>i due. lp_timer l = Some i \<and> (i, lp_name l, due) \<in> set (tk_timers k) \<and> due \<le> tk_now k + IDLE_TICK_MS) \<or>
    (lp_timer l = None \<and> (lp_name l, ByWake) \<in> set (tk_running k) \<and>
      (\<forall>ok. \<exists>i due. (i, lp_name l, due) \<in> set (tk_timers (finish (lp_name l, ByWake) ok k))))"
proof -
  have inv: "ticker_inv k" by (rule ticker_reachable_inv [OF assms(1)])
  then have l: "loop_ok k l" and t: "timers_ok k" using assms(2,3) by (auto simp: ticker_inv_def)
  show ?thesis
  proof (cases "lp_timer l")
    case (Some i)
    then obtain due where due: "(i, lp_name l, due) \<in> set (tk_timers k)" using l by (auto simp: loop_ok_def)
    with t Some show ?thesis by (auto simp: timers_ok_def)
  next
    case None
    then have r: "(lp_name l, ByWake) \<in> set (tk_running k)" using l by (auto simp: loop_ok_def)
    have "\<exists>i due. (i, lp_name l, due) \<in> set (tk_timers (finish (lp_name l, ByWake) ok k))" for ok
    proof -
      obtain m where m: "loop_named (lp_name l) k' = Some m" "lp_name m = lp_name l" if "tk_loops k' = tk_loops k" for k' :: ticker
        using assms(3) by (cases "loop_named (lp_name l) k") (auto simp: loop_named_def find_None_iff dest: find_SomeD)
      then show ?thesis using assms(2) by (cases ok) (auto simp: finish_def Let_def arm_named_def arm_def)
    qed
    with None r show ?thesis by blast
  qed
qed

text \<open>
  The verdict of the readiness probe: it answers 200 exactly when the database answers and,
  where the scheduler is switched on, some loop is registered and every registered loop has
  completed a tick within three of its own intervals. Redis never changes the answer.
\<close>

theorem readiness_exact:
  "fst (readiness_probe database ping runScheduler k) = 200 \<longleftrightarrow>
     database \<and> (runScheduler \<longrightarrow> hb_started (tk_heartbeat k) \<and>
       (\<forall>(name, interval, beat) \<in> set (tk_heartbeat k). \<exists>b. beat = Some b \<and> tk_now k - b \<le> 3 * interval))"
proof -
  have "th_status (healthOf t now) = TickStalled \<longleftrightarrow> (\<nexists>b. tr_last t = Some b \<and> now - b \<le> 3 * tr_interval t)" for t now
    by (auto simp: healthOf_def Let_def STALE_TICK_MULTIPLIER_def split: option.splits)
  then show ?thesis
    by (auto simp: readiness_probe_def evaluateReadiness_def Let_def hb_report_def hb_started_def list_ex_iff split: if_splits) fastforce+
qed

text \<open>Where a wake leads: no loop is armed until its tick ends.\<close>

lemma touch_wakes:
  assumes "isIdle k" and "tk_listening k"
  shows "activity_touch k = wake (k\<lparr>tk_last_request := tk_now k\<rparr>)"
  using assms by (simp add: activity_touch_def Let_def)

lemma finish_woken:
  assumes l: "l \<in> set (tk_loops k)" and names: "distinct (map lp_name (tk_loops k))" and stop: "\<not> tk_stopped k" and idle: "isIdle k" "tk_listening k"
  shows "tk_heartbeat (finish (lp_name l, ByWake) False (activity_touch k)) = hb_retime (lp_name l) (lp_active l) (tk_heartbeat k)"
    and "tk_now (finish (lp_name l, ByWake) False (activity_touch k)) = tk_now k"
proof -
  let ?k = "(activity_touch k)\<lparr>tk_running := remove1 (lp_name l, ByWake) (tk_running (activity_touch k))\<rparr>"
  have f: "tk_loops ?k = map (\<lambda>l. l\<lparr>lp_timer := None\<rparr>) (tk_loops k)" "\<not> tk_stopped ?k" "tk_heartbeat ?k = tk_heartbeat k"
    "tk_now ?k = tk_now k" "tk_last_request ?k = tk_now k"
    using stop unfolding touch_wakes [OF idle] by (simp_all add: wake_fields)
  obtain m where m: "loop_named (lp_name l) ?k = Some m" "m \<in> set (tk_loops ?k)" "lp_name m = lp_name l"
    using l f(1) by (cases "loop_named (lp_name l) ?k") (auto simp: loop_named_def find_None_iff dest: find_SomeD)
  then obtain m0 where m0: "m0 \<in> set (tk_loops k)" "m = m0\<lparr>lp_timer := None\<rparr>" using f(1) by auto
  then have "m0 = l" using m(3) names l by (simp add: distinct_key_eq)
  then have active: "lp_active m = lp_active l" using m0 by simp
  have "\<not> isIdle ?k" using f by (simp add: isIdle_def IDLE_AFTER_MS_def)
  then show "tk_heartbeat (finish (lp_name l, ByWake) False (activity_touch k)) = hb_retime (lp_name l) (lp_active l) (tk_heartbeat k)"
    "tk_now (finish (lp_name l, ByWake) False (activity_touch k)) = tk_now k"
    using m f active by (simp_all add: finish_def Let_def arm_named_def arm_def)
qed

text \<open>
  C34. One failed tick after an idle spell makes a ready process unready. The heartbeat of a loop
  is as old as the idle interval allows; the tick a wake starts fails, and the loop is then
  measured against its active interval, which the old beat exceeds, so the probe answers 503
  although only one tick has failed.
\<close>

theorem wake_failure_unreadies:
  assumes "ticker_reachable k" and "\<not> tk_stopped k" and "isIdle k" and "tk_listening k" and l: "l \<in> set (tk_loops k)"
    and beat: "map_of (tk_heartbeat k) (lp_name l) = Some (interval, Some b)" "3 * lp_active l < tk_now k - b"
    and ready: "fst (readiness_probe True ping True k) = 200"
  shows "fst (readiness_probe True ping True (finish (lp_name l, ByWake) False (happens (Request ''/tickets'') k))) = 503"
proof -
  have touch: "happens (Request ''/tickets'') k = activity_touch k"
    by (simp add: activity_use_def isHealthProbe_def starts_with_def)
  let ?k = "finish (lp_name l, ByWake) False (activity_touch k)"
  have "distinct (map lp_name (tk_loops k))" using ticker_reachable_inv [OF assms(1)] assms(2) by (simp add: ticker_inv_def)
  note f = finish_woken [OF l this assms(2-4)]
  have "map_of (tk_heartbeat ?k) (lp_name l) = Some (lp_active l, Some b)"
    unfolding f using beat(1) by (simp add: hb_retime_def update_conv')
  then have "(lp_name l, lp_active l, Some b) \<in> set (tk_heartbeat ?k)" by (rule map_of_SomeD)
  then have "fst (readiness_probe True ping True ?k) \<noteq> 200"
    unfolding readiness_exact using beat(2) f(2) by fastforce
  then show ?thesis unfolding touch by (simp add: readiness_probe_def Let_def split: if_splits)
qed

definition unarmed :: "string \<Rightarrow> ticker \<Rightarrow> bool" where
  "unarmed name k \<longleftrightarrow> (\<forall>(_, n, _) \<in> set (tk_timers k). n \<noteq> name)"

lemma arm_named_unarmed: "name' \<noteq> name \<Longrightarrow> unarmed name k \<Longrightarrow> unarmed name (arm_named name' k)"
  by (auto simp: unarmed_def arm_named_def arm_def Let_def loop_named_def dest!: find_SomeD split: option.split)

lemma happens_unarmed:
  assumes "unarmed name k" and "may_happen e k" and "\<And>c ok. e \<noteq> Ends (name, c) ok" and booted: "(FAST_TICK, ByBoot) \<notin> set (tk_running k)"
  shows "unarmed name (happens e k) \<and> (FAST_TICK, ByBoot) \<notin> set (tk_running (happens e k))"
proof (cases e)
  case (Request url)
  have "unarmed name (wake k')" if "tk_timers k' = tk_timers k" for k'
    using assms(1) that by (auto simp: unarmed_def wake_fields)
  then show ?thesis using Request assms(1) booted
    by (auto simp: activity_use_def activity_touch_def Let_def wake_fields unarmed_def)
next
  case (Fires t)
  obtain i n due where t: "t = (i, n, due)" by (cases t)
  have "n \<noteq> name" using assms(1,2) Fires t by (auto simp: unarmed_def)
  moreover have "unarmed name (clearTimeout (Some i) k)" using assms(1) by (auto simp: unarmed_def)
  ultimately have "unarmed name (arm_named n (clearTimeout (Some i) k))" by (rule arm_named_unarmed)
  then show ?thesis using booted Fires t by (auto simp: fire_def unarmed_def arm_named_def arm_def Let_def split: option.splits)
next
  case (Ends r ok)
  obtain n c where r: "r = (n, c)" by (cases r)
  have n: "n \<noteq> name" using assms(3) Ends r by blast
  have c: "c = ByBoot \<Longrightarrow> n \<noteq> FAST_TICK" using assms(2) Ends r booted by auto
  let ?k1 = "k\<lparr>tk_running := remove1 r (tk_running k)\<rparr>"
  define k2 where "k2 = (if ok then ?k1\<lparr>tk_heartbeat := hb_beat n (tk_now ?k1) (tk_heartbeat ?k1)\<rparr> else ?k1)"
  have k2: "unarmed name k2" "(FAST_TICK, ByBoot) \<notin> set (tk_running k2)"
    using assms(1) booted set_remove1_subset [of r "tk_running k"] by (auto simp: k2_def unarmed_def)
  have "happens e k = (if c = ByWake then arm_named n k2 else k2)"
    using c unfolding Ends r happens.simps finish_def Let_def k2_def by (auto split: cause.split)
  then show ?thesis using k2 arm_named_unarmed [OF n k2(1)] by (auto simp: arm_named_def arm_def Let_def split: option.splits)
next
  case Shutdown
  have "set (tk_timers (fold (\<lambda>l. clearTimeout (lp_timer l)) ls k')) \<subseteq> set (tk_timers k') \<and>
      tk_running (fold (\<lambda>l. clearTimeout (lp_timer l)) ls k') = tk_running k'" for ls :: "loop list" and k' :: ticker
    by (induction ls arbitrary: k') fastforce+
  then show ?thesis using Shutdown assms(1) booted by (fastforce simp: onApplicationShutdown_def unarmed_def)
qed (use assms in \<open>auto simp: unarmed_def\<close>)

text \<open>
  A tick that hangs after a wake stops its loop. A wake clears the timer of a loop and arms it
  again only when the tick it starts has ended; as long as that tick does not end, whatever
  requests arrive and whatever the other loop does, no timer of the loop is pending.
\<close>

theorem hung_wake_stops_loop:
  assumes "isIdle k" and "tk_listening k" and l: "l \<in> set (tk_loops k)" and booted: "(FAST_TICK, ByBoot) \<notin> set (tk_running k)"
    and one: "\<forall>(i, n, due) \<in> set (tk_timers k). n = lp_name l \<longrightarrow> lp_timer l = Some i"
    and later: "history es (activity_touch k) k'" and hung: "\<forall>e \<in> set es. \<forall>c ok. e \<noteq> Ends (lp_name l, c) ok"
  shows "(lp_name l, ByWake) \<in> set (tk_running (activity_touch k)) \<and> unarmed (lp_name l) k'"
proof -
  have start: "unarmed (lp_name l) (activity_touch k)" "(FAST_TICK, ByBoot) \<notin> set (tk_running (activity_touch k))"
    "(lp_name l, ByWake) \<in> set (tk_running (activity_touch k))"
    using one l booted unfolding touch_wakes [OF assms(1,2)] by (force simp: unarmed_def wake_fields)+
  have "unarmed (lp_name l) k'" if "history es k0 k'" "\<forall>e \<in> set es. \<forall>c ok. e \<noteq> Ends (lp_name l, c) ok"
      "unarmed (lp_name l) k0" "(FAST_TICK, ByBoot) \<notin> set (tk_running k0)" for k0
    using that
  proof (induction rule: history.induct)
    case (event e k es k')
    then show ?case using happens_unarmed [of "lp_name l" k e] by simp
  qed simp
  then show ?thesis using later hung start by blast
qed

section \<open>A quiet morning\<close>

fun played :: "ticker_event list \<Rightarrow> ticker \<Rightarrow> ticker option" where
  "played [] k = Some k"
| "played (e # es) k = (if may_happen e k then played es (happens e k) else None)"

lemma played_history: "played es k = Some k' \<Longrightarrow> history es k k'"
  by (induction es k rule: played.induct) (auto intro: history.intros split: if_splits)

lemma history_reachable: "history es k k' \<Longrightarrow> ticker_reachable k \<Longrightarrow> ticker_reachable k'"
  by (induction rule: history.induct) (auto intro: ticker_reachable.step)

definition quiet_events :: "ticker_event list" where
  "quiet_events = [Ends (FAST_TICK, ByBoot) True, Ends (SLOW_TICK, ByBoot) True, Passes 700000, Fires (0, FAST_TICK, 3000),
     Fires (1, SLOW_TICK, 60000), Ends (FAST_TICK, ByTimer) True, Ends (SLOW_TICK, ByTimer) True, Passes 20000]"

definition quiet_ticker :: ticker where
  "quiet_ticker = the (played quiet_events (onApplicationBootstrap True (new_ticker 0)))"

definition fast_loop :: loop where
  "fast_loop = \<lparr>lp_name = FAST_TICK, lp_active = FAST_TICK_MS, lp_timer = Some 2\<rparr>"

lemma quiet_facts:
  "played quiet_events (onApplicationBootstrap True (new_ticker 0)) = Some quiet_ticker"
  "\<not> tk_stopped quiet_ticker" "isIdle quiet_ticker" "tk_listening quiet_ticker" "fast_loop \<in> set (tk_loops quiet_ticker)"
  "map_of (tk_heartbeat quiet_ticker) (lp_name fast_loop) = Some (1800000, Some 700000)" "3 * lp_active fast_loop < tk_now quiet_ticker - 700000"
  "fst (readiness_probe True None True quiet_ticker) = 200" "(FAST_TICK, ByBoot) \<notin> set (tk_running quiet_ticker)"
  "\<forall>(i, n, due) \<in> set (tk_timers quiet_ticker). n = lp_name fast_loop \<longrightarrow> lp_timer fast_loop = Some i"
proof -
  have "played quiet_events (onApplicationBootstrap True (new_ticker 0)) \<noteq> None" by code_simp
  then show "played quiet_events (onApplicationBootstrap True (new_ticker 0)) = Some quiet_ticker" by (auto simp: quiet_ticker_def)
  show "\<not> tk_stopped quiet_ticker" "isIdle quiet_ticker" "tk_listening quiet_ticker" "fast_loop \<in> set (tk_loops quiet_ticker)"
    "map_of (tk_heartbeat quiet_ticker) (lp_name fast_loop) = Some (1800000, Some 700000)" "3 * lp_active fast_loop < tk_now quiet_ticker - 700000"
    "fst (readiness_probe True None True quiet_ticker) = 200" "(FAST_TICK, ByBoot) \<notin> set (tk_running quiet_ticker)"
    "\<forall>(i, n, due) \<in> set (tk_timers quiet_ticker). n = lp_name fast_loop \<longrightarrow> lp_timer fast_loop = Some i"
    by code_simp+
qed

lemma quiet_reachable: "ticker_reachable quiet_ticker"
  by (rule history_reachable [OF played_history [OF quiet_facts(1)] ticker_reachable.boot])

theorem clock_keeps_ticking_witness:
  "\<exists>i due. lp_timer fast_loop = Some i \<and> (i, FAST_TICK, due) \<in> set (tk_timers quiet_ticker)"
  using clock_keeps_ticking [OF quiet_reachable quiet_facts(2,5)] by (auto simp: fast_loop_def)

theorem wake_failure_unreadies_witness:
  "fst (readiness_probe True None True quiet_ticker) = 200 \<and>
   fst (readiness_probe True None True (finish (lp_name fast_loop, ByWake) False (happens (Request ''/tickets'') quiet_ticker))) = 503"
  using wake_failure_unreadies [OF quiet_reachable quiet_facts(2-8)] quiet_facts(8) by blast

theorem hung_wake_stops_loop_witness: "unarmed FAST_TICK (happens (Passes 1) (activity_touch quiet_ticker))"
proof -
  have "history [Passes 1] (activity_touch quiet_ticker) (happens (Passes 1) (activity_touch quiet_ticker))"
    by (intro history.intros) simp
  from hung_wake_stops_loop [OF quiet_facts(3-5,9,10) this] show ?thesis by (simp add: fast_loop_def)
qed

section \<open>The slow tick runs every sweep\<close>

text \<open>
  A slow tick runs every registered sweep once and in order, whichever of them throw: the
  service-level sweep, then the dwell sweep on what it left, and the retention sweep; and the
  summary names each of the three once, as run or as failed.
\<close>

theorem slow_tick_exact:
  assumes "breach_sweep targets clock now tenants d rt = (r1, d1, rt1)" and "dwell_sweep clock now tenants d1 rt1 = (r2, d2, rt2)"
    and "retention_sweep now tenants idem = (r3, idem')"
  shows "sweeper_tick (sweep_registry targets clock tenants) now \<lparr>ss_ran = [], ss_failed = []\<rparr> (d, rt, idem) =
    (\<lparr>ss_ran = (if isl r1 then [] else [''sla-breach'']) @ (if isl r2 then [] else [''dwell'']) @
                 (if isl r3 then [] else [''idempotency-retention'']),
      ss_failed = (if isl r1 then [''sla-breach''] else []) @ (if isl r2 then [''dwell''] else []) @
                 (if isl r3 then [''idempotency-retention''] else [])\<rparr>, d2, rt2, idem')"
  using assms by (cases r1; cases r2; cases r3) (simp_all add: sweep_registry_def)

end
