(* ===== verification/Analytics.thy ===== *)
theory Analytics
  imports Sweeps "HOL-Library.Char_ord" "HOL-Library.List_Lexorder"
begin

text \<open>
  The report of \<open>analytics/\<close>: the plan of a request (\<open>analytics-query.ts\<close>) and the
  aggregates over the tickets of a tenant (\<open>analytics.service.ts\<close>). The raw query is read as
  the database runs it: the rows the policies show, one row of computed columns for each
  ticket of the window, counts with their filters, \<open>percentile_cont\<close> by linear interpolation
  and groups in the order of their key. Ratios and percentiles are exact rationals here; the
  source has them as doubles.
\<close>

section \<open>The plan\<close>

datatype group_by = GPriority | GSource | GAssignee | GDay

fun axis_name :: "group_by \<Rightarrow> string" where
  "axis_name GPriority = ''priority''"
| "axis_name GSource = ''source''"
| "axis_name GAssignee = ''assignee''"
| "axis_name GDay = ''day''"

definition GROUP_BY_AXES :: "group_by list" where
  "GROUP_BY_AXES = [GPriority, GSource, GAssignee, GDay]"

definition DEFAULT_WINDOW_MS :: int where
  "DEFAULT_WINDOW_MS = 30 * 24 * 60 * 60 * 1000"

record analytics_plan =
  ap_from :: millis
  ap_to :: millis
  ap_group :: "group_by option"

record analytics_query =
  aq_from :: "string option"
  aq_to :: "string option"
  aq_group :: "string option"

definition parseInstant :: "(string \<Rightarrow> millis option) \<Rightarrow> string \<Rightarrow> string \<Rightarrow> thrown + millis" where
  "parseInstant other raw fld =
     (case date_of other raw of
        None \<Rightarrow> Inl (App (app_error invalid_filter (''`'' @ fld @ ''` is not a valid ISO-8601 instant.'')))
      | Some ms \<Rightarrow> Inr ms)"

definition parseGroupBy :: "string option \<Rightarrow> thrown + group_by option" where
  "parseGroupBy raw =
     (case raw of
        None \<Rightarrow> Inr None
      | Some r \<Rightarrow>
          (case find (\<lambda>g. axis_name g = r) GROUP_BY_AXES of
             None \<Rightarrow> Inl (App (app_error invalid_filter
               (''`groupBy` must be one of: '' @ join_with '', '' (map axis_name GROUP_BY_AXES) @ ''.'')))
           | Some g \<Rightarrow> Inr (Some g)))"

definition planAnalytics :: "(string \<Rightarrow> millis option) \<Rightarrow> analytics_query \<Rightarrow> millis \<Rightarrow> thrown + analytics_plan" where
  "planAnalytics other q now =
     (case (case aq_to q of None \<Rightarrow> Inr now | Some raw \<Rightarrow> parseInstant other raw ''to'') of
        Inl e \<Rightarrow> Inl e
      | Inr until \<Rightarrow>
          (case (case aq_from q of None \<Rightarrow> Inr (until - DEFAULT_WINDOW_MS) | Some raw \<Rightarrow> parseInstant other raw ''from'') of
             Inl e \<Rightarrow> Inl e
           | Inr since \<Rightarrow>
               if until < since
               then Inl (App (app_error invalid_filter
                 ''`from` is after `to`: the cohort window is empty. Give a range where `from` is at or before `to`.''))
               else (case parseGroupBy (aq_group q) of
                       Inl e \<Rightarrow> Inl e
                     | Inr g \<Rightarrow> Inr \<lparr>ap_from = since, ap_to = until, ap_group = g\<rparr>)))"

section \<open>The query\<close>

record cohort_row =
  co_priority :: ticket_priority
  co_source :: ticket_source
  co_assignee :: "ident option"
  co_created :: millis
  co_resolved :: bool
  co_deflected :: bool
  co_fr_breached :: bool
  co_res_breached :: bool
  co_fr_ms :: "int option"
  co_res_ms :: "int option"

definition cohort_row_of :: "session \<Rightarrow> db \<Rightarrow> ticket \<Rightarrow> cohort_row" where
  "cohort_row_of s d t =
     \<lparr>co_priority = t_priority t, co_source = t_source t, co_assignee = t_assignee t, co_created = t_created t,
      co_resolved = t_state t \<in> {TResolved, TClosed},
      co_deflected = (t_state t \<in> {TResolved, TClosed} \<and>
        \<not> list_ex (\<lambda>m. visible_message s d m \<and> m_ticket m = t_id t \<and> m_author_kind m = ''user'') (messages d) \<and>
        \<not> list_ex (\<lambda>n. visible_note s n \<and> m_ticket n = t_id t \<and> m_author_kind n = ''user'') (note_rows d)),
      co_fr_breached = t_first_response_breached t \<noteq> None,
      co_res_breached = t_resolution_breached t \<noteq> None,
      co_fr_ms = map_option (ticket_sla_wall_elapsed_ms (t_created t)) (t_first_response t),
      co_res_ms = (if t_state t \<in> {TResolved, TClosed}
        then map_option (\<lambda>p. ticket_sla_active_elapsed_ms (t_created t) (t_paused_ms t) (Some p) p) (t_pause_started t)
        else None)\<rparr>"

definition cohort :: "analytics_plan \<Rightarrow> session \<Rightarrow> db \<Rightarrow> cohort_row list" where
  "cohort plan s d =
     map (cohort_row_of s d) (ticket_select (\<lambda>t. ap_from plan \<le> t_created t \<and> t_created t < ap_to plan) s d)"

definition percentile_cont :: "rat \<Rightarrow> int list \<Rightarrow> rat option" where
  "percentile_cont f xs =
     (if xs = [] then None
      else (let v = sort xs; pos = f * of_nat (length xs - 1); lo = nat \<lfloor>pos\<rfloor>; hi = nat \<lceil>pos\<rceil>
            in Some (of_int (v ! lo) + (pos - of_nat lo) * of_int (v ! hi - v ! lo))))"

definition somes :: "'a option list \<Rightarrow> 'a list" where
  "somes xs = map the (filter (\<lambda>x. x \<noteq> None) xs)"

record aggregate_row =
  ag_key :: "string option"
  ag_size :: nat
  ag_deflected :: nat
  ag_resolved :: nat
  ag_fr_breached :: nat
  ag_res_breached :: nat
  ag_fr_p50 :: "rat option"
  ag_fr_p90 :: "rat option"
  ag_res_p50 :: "rat option"
  ag_res_p90 :: "rat option"

definition aggregate_of :: "string option \<Rightarrow> cohort_row list \<Rightarrow> aggregate_row" where
  "aggregate_of key rows =
     \<lparr>ag_key = key, ag_size = length rows, ag_deflected = length (filter co_deflected rows),
      ag_resolved = length (filter co_resolved rows), ag_fr_breached = length (filter co_fr_breached rows),
      ag_res_breached = length (filter co_res_breached rows),
      ag_fr_p50 = percentile_cont (1 / 2) (somes (map co_fr_ms rows)),
      ag_fr_p90 = percentile_cont (9 / 10) (somes (map co_fr_ms rows)),
      ag_res_p50 = percentile_cont (1 / 2) (somes (map co_res_ms rows)),
      ag_res_p90 = percentile_cont (9 / 10) (somes (map co_res_ms rows))\<rparr>"

definition day_text :: "millis \<Rightarrow> string" where
  "day_text ms = (case civil_of_days (ms div 86400000) of (y, m, d) \<Rightarrow> year_text y @ ''-'' @ pad2 m @ ''-'' @ pad2 d)"

fun GROUP_EXPR :: "group_by \<Rightarrow> cohort_row \<Rightarrow> string option" where
  "GROUP_EXPR GPriority r = Some (priority_text (co_priority r))"
| "GROUP_EXPR GSource r = Some (source_text (co_source r))"
| "GROUP_EXPR GAssignee r = co_assignee r"
| "GROUP_EXPR GDay r = Some (day_text (co_created r))"

text \<open>The keys of the groups in their order, a null key last.\<close>

definition group_keys :: "string option list \<Rightarrow> string option list" where
  "group_keys keys = map Some (sort (remdups (somes keys))) @ (if None \<in> set keys then [None] else [])"

definition cut_for :: "group_by option \<Rightarrow> cohort_row list \<Rightarrow> cohort_row list" where
  "cut_for g rows = (if g = Some GAssignee then filter (\<lambda>r. co_assignee r \<noteq> None \<and> \<not> co_deflected r) rows else rows)"

definition aggregate :: "analytics_plan \<Rightarrow> group_by option \<Rightarrow> session \<Rightarrow> db \<Rightarrow> aggregate_row list" where
  "aggregate plan g s d =
     (let rows = cut_for g (cohort plan s d)
      in case g of
           None \<Rightarrow> [aggregate_of None rows]
         | Some axis \<Rightarrow>
             map (\<lambda>k. aggregate_of k (filter (\<lambda>r. GROUP_EXPR axis r = k) rows)) (group_keys (map (GROUP_EXPR axis) rows)))"

section \<open>The report\<close>

record rate_dto =
  ra_count :: nat
  ra_rate :: "rat option"

record metrics =
  mt_size :: nat
  mt_deflection :: rate_dto
  mt_resolution :: rate_dto
  mt_fr_breach :: rate_dto
  mt_res_breach :: rate_dto
  mt_fr_ms :: "(rat \<times> rat) option"
  mt_res_ms :: "(rat \<times> rat) option"

definition rate :: "nat \<Rightarrow> nat \<Rightarrow> rate_dto" where
  "rate n among = \<lparr>ra_count = n, ra_rate = (if among = 0 then None else Some (of_nat n / of_nat among))\<rparr>"

definition duration :: "rat option \<Rightarrow> rat option \<Rightarrow> (rat \<times> rat) option" where
  "duration p50 p90 = (case (p50, p90) of (Some a, Some b) \<Rightarrow> Some (a, b) | _ \<Rightarrow> None)"

definition toMetrics :: "aggregate_row \<Rightarrow> metrics" where
  "toMetrics row =
     \<lparr>mt_size = ag_size row, mt_deflection = rate (ag_deflected row) (ag_size row),
      mt_resolution = rate (ag_resolved row) (ag_size row), mt_fr_breach = rate (ag_fr_breached row) (ag_size row),
      mt_res_breach = rate (ag_res_breached row) (ag_size row), mt_fr_ms = duration (ag_fr_p50 row) (ag_fr_p90 row),
      mt_res_ms = duration (ag_res_p50 row) (ag_res_p90 row)\<rparr>"

definition emptyRow :: aggregate_row where
  "emptyRow = \<lparr>ag_key = None, ag_size = 0, ag_deflected = 0, ag_resolved = 0, ag_fr_breached = 0, ag_res_breached = 0,
     ag_fr_p50 = None, ag_fr_p90 = None, ag_res_p50 = None, ag_res_p90 = None\<rparr>"

record analytics_report =
  rp_from :: string
  rp_to :: string
  rp_group :: "string option"
  rp_overall :: metrics
  rp_groups :: "(string \<times> metrics) list option"

definition report_of :: "analytics_plan \<Rightarrow> session \<Rightarrow> db \<Rightarrow> analytics_report" where
  "report_of plan s d =
     (let overall = aggregate plan None s d;
          groups = map_option (\<lambda>g. aggregate plan (Some g) s d) (ap_group plan)
      in \<lparr>rp_from = to_iso (ap_from plan), rp_to = to_iso (ap_to plan), rp_group = map_option axis_name (ap_group plan),
          rp_overall = toMetrics (case overall of [] \<Rightarrow> emptyRow | r # _ \<Rightarrow> r),
          rp_groups = map_option (map (\<lambda>row. (case ag_key row of None \<Rightarrow> [] | Some k \<Rightarrow> k, toMetrics row))) groups\<rparr>)"

definition analytics_report_op :: "millis \<Rightarrow> request_principal \<Rightarrow> analytics_plan \<Rightarrow> db \<Rightarrow> thrown + analytics_report" where
  "analytics_report_op now p plan d =
     (case asPrincipal now p (\<lambda>s d. Inr (report_of plan s d, d)) d of Inl e \<Rightarrow> Inl e | Inr (r, _) \<Rightarrow> Inr r)"

definition analytics_controller ::
  "(string \<Rightarrow> millis option) \<Rightarrow> millis \<Rightarrow> request_principal \<Rightarrow> analytics_query \<Rightarrow> db \<Rightarrow> thrown + analytics_report" where
  "analytics_controller other now p q d =
     (case planAnalytics other q now of Inl e \<Rightarrow> Inl e | Inr plan \<Rightarrow> analytics_report_op now p plan d)"

section \<open>Groups\<close>

lemma set_somes: "set (somes xs) = {x. Some x \<in> set xs}"
  by (auto simp: somes_def image_iff) (metis option.sel)

lemma group_keys_ok: "distinct (group_keys keys) \<and> set (group_keys keys) = set keys"
proof -
  have "distinct (map Some (sort (remdups (somes keys))))" by (simp add: distinct_map)
  moreover have "Some ` {x. Some x \<in> set keys} \<union> (if None \<in> set keys then {None} else {}) = set keys"
    by (auto simp: image_iff) (metis option.exhaust)+
  ultimately show ?thesis by (auto simp: group_keys_def set_somes)
qed

lemma one_hot: "distinct ks \<Longrightarrow> x \<in> set ks \<Longrightarrow> (\<Sum>k\<leftarrow>ks. if k = x then c else 0) = (c :: nat)"
proof (induction ks)
  case (Cons k ks)
  have "x \<notin> set ks \<Longrightarrow> (\<Sum>k\<leftarrow>ks. if k = x then c else 0) = 0" by (auto simp: sum_list_eq_0_iff)
  then show ?case using Cons by auto
qed simp

lemma partition_count:
  assumes "distinct ks" and "key ` set rows \<subseteq> set ks"
  shows "(\<Sum>k\<leftarrow>ks. length (filter P (filter (\<lambda>r. key r = k) rows))) = length (filter P rows)"
  using assms(2)
proof (induction rows)
  case (Cons r rows)
  have "(\<Sum>k\<leftarrow>ks. length (filter P (filter (\<lambda>x. key x = k) (r # rows)))) =
      (\<Sum>k\<leftarrow>ks. (if k = key r then (if P r then 1 else 0) else 0) + length (filter P (filter (\<lambda>x. key x = k) rows)))"
    by (intro arg_cong [of _ _ sum_list] map_cong) auto
  also have "\<dots> = (\<Sum>k\<leftarrow>ks. if k = key r then (if P r then 1 else 0) else 0) + length (filter P rows)"
    using Cons by (simp add: sum_list_addf)
  also have "(\<Sum>k\<leftarrow>ks. if k = key r then (if P r then 1 else 0) else 0) = (if P r then 1 else (0 :: nat))"
    using Cons.prems by (intro one_hot [OF assms(1)]) simp
  finally show ?case by simp
qed simp

section \<open>Percentiles\<close>

definition interpolate :: "int list \<Rightarrow> rat \<Rightarrow> rat" where
  "interpolate v pos = of_int (v ! nat \<lfloor>pos\<rfloor>) + (pos - of_nat (nat \<lfloor>pos\<rfloor>)) * of_int (v ! nat \<lceil>pos\<rceil> - v ! nat \<lfloor>pos\<rfloor>)"

lemma interpolate_between:
  assumes "sorted v" and "0 \<le> p" and "p \<le> of_nat (length v - 1)" and "v \<noteq> []"
  shows "of_int (v ! nat \<lfloor>p\<rfloor>) \<le> interpolate v p" and "interpolate v p \<le> of_int (v ! nat \<lceil>p\<rceil>)"
proof -
  have hi: "nat \<lceil>p\<rceil> < length v" using assms(2-4) by (cases v) (auto simp: nat_less_iff ceiling_less_iff less_Suc_eq_le nat_le_iff ceiling_le_iff)
  have le: "v ! nat \<lfloor>p\<rfloor> \<le> v ! nat \<lceil>p\<rceil>" using assms(1) hi floor_le_ceiling [of p] by (intro sorted_nth_mono) (auto intro: nat_mono)
  define x where "x = p - of_nat (nat \<lfloor>p\<rfloor>)"
  have x: "0 \<le> x" "x \<le> 1" using assms(2) floor_correct [of p] by (auto simp: x_def)
  define w where "w = (of_int (v ! nat \<lceil>p\<rceil> - v ! nat \<lfloor>p\<rfloor>) :: rat)"
  have w: "0 \<le> w" using le by (simp add: w_def)
  have i: "interpolate v p = of_int (v ! nat \<lfloor>p\<rfloor>) + x * w" by (simp add: interpolate_def x_def w_def)
  show "of_int (v ! nat \<lfloor>p\<rfloor>) \<le> interpolate v p" using x w i by simp
  have "x * w \<le> 1 * w" using x w by (intro mult_right_mono)
  then show "interpolate v p \<le> of_int (v ! nat \<lceil>p\<rceil>)" using i by (simp add: w_def)
qed

lemma interpolate_mono:
  assumes s: "sorted v" and p: "0 \<le> p" "p \<le> q" and q: "q \<le> of_nat (length v - 1)" and ne: "v \<noteq> []"
  shows "interpolate v p \<le> interpolate v q"
proof (cases "\<lceil>p\<rceil> \<le> \<lfloor>q\<rfloor>")
  case True
  have "nat \<lfloor>q\<rfloor> < length v" using p q ne floor_correct [of q] by (cases v) (auto simp: nat_less_iff floor_less_iff)
  then have "v ! nat \<lceil>p\<rceil> \<le> v ! nat \<lfloor>q\<rfloor>" using s True by (intro sorted_nth_mono) auto
  then have "(of_int (v ! nat \<lceil>p\<rceil>) :: rat) \<le> of_int (v ! nat \<lfloor>q\<rfloor>)" by simp
  then show ?thesis using interpolate_between(2) [OF s p(1) _ ne] interpolate_between(1) [OF s _ q ne] p q by linarith
next
  case False
  then have l: "\<lfloor>p\<rfloor> = \<lfloor>q\<rfloor>" using p(2) floor_mono [OF p(2)] ceiling_diff_floor_le_1 [of p] by linarith
  have "p \<noteq> of_int \<lfloor>p\<rfloor>" using False l by (metis ceiling_of_int order_refl)
  then have np: "\<lceil>p\<rceil> = \<lfloor>p\<rfloor> + 1" by (simp add: ceiling_altdef)
  have "q \<noteq> of_int \<lfloor>q\<rfloor>" using p(2) l np False floor_correct [of p] by (metis \<open>p \<noteq> of_int \<lfloor>p\<rfloor>\<close> antisym of_int_floor_le)
  then have nq: "\<lceil>q\<rceil> = \<lfloor>q\<rfloor> + 1" by (simp add: ceiling_altdef)
  have hi: "nat \<lceil>q\<rceil> < length v" using p q ne by (cases v) (auto simp: nat_less_iff ceiling_less_iff less_Suc_eq_le nat_le_iff ceiling_le_iff)
  have "v ! nat \<lfloor>q\<rfloor> \<le> v ! nat \<lceil>q\<rceil>" using s hi floor_le_ceiling [of q] by (intro sorted_nth_mono) (auto intro: nat_mono)
  then have w: "0 \<le> (of_int (v ! nat \<lceil>q\<rceil> - v ! nat \<lfloor>q\<rfloor>) :: rat)" by simp
  have "(p - of_nat (nat \<lfloor>q\<rfloor>)) * of_int (v ! nat \<lceil>q\<rceil> - v ! nat \<lfloor>q\<rfloor>) \<le> (q - of_nat (nat \<lfloor>q\<rfloor>)) * (of_int (v ! nat \<lceil>q\<rceil> - v ! nat \<lfloor>q\<rfloor>) :: rat)"
    using p(2) w by (intro mult_right_mono) auto
  then show ?thesis by (simp add: interpolate_def l np nq)
qed

lemma percentile_interpolates:
  "xs \<noteq> [] \<Longrightarrow> percentile_cont f xs = Some (interpolate (sort xs) (f * of_nat (length xs - 1)))"
  by (simp add: percentile_cont_def interpolate_def Let_def)

lemma percentiles_ordered:
  assumes "percentile_cont (1 / 2) xs = Some a" and "percentile_cont (9 / 10) xs = Some b" and "\<forall>x \<in> set xs. 0 \<le> x"
  shows "0 \<le> a \<and> a \<le> b"
proof -
  have ne: "xs \<noteq> []" using assms(1) by (auto simp: percentile_cont_def)
  then have ne': "sort xs \<noteq> []" by (metis length_0_conv length_sort)
  let ?n = "of_nat (length xs - 1) :: rat"
  have pos: "0 \<le> 1 / 2 * ?n" "1 / 2 * ?n \<le> 9 / 10 * ?n" "9 / 10 * ?n \<le> of_nat (length (sort xs) - 1)" "1 / 2 * ?n \<le> of_nat (length (sort xs) - 1)"
    by simp_all
  have "a \<le> b" using assms(1,2) interpolate_mono [of "sort xs", OF _ pos(1-3)] ne ne' by (simp add: percentile_interpolates)
  moreover have "0 \<le> a"
  proof -
    have "\<lfloor>1 / 2 * ?n\<rfloor> \<le> int (length xs - 1)" using pos(4) by (simp add: floor_le_iff)
    then have "nat \<lfloor>1 / 2 * ?n\<rfloor> \<le> length xs - 1" unfolding nat_le_iff .
    moreover have "0 < length xs" using ne by simp
    ultimately have "nat \<lfloor>1 / 2 * ?n\<rfloor> < length (sort xs)" unfolding length_sort by linarith
    then have "sort xs ! nat \<lfloor>1 / 2 * ?n\<rfloor> \<in> set (sort xs)" by (rule nth_mem)
    then have "sort xs ! nat \<lfloor>1 / 2 * ?n\<rfloor> \<in> set xs" unfolding set_sort .
    then have "0 \<le> sort xs ! nat \<lfloor>1 / 2 * ?n\<rfloor>" using assms(3) by blast
    then have "(0 :: rat) \<le> of_int (sort xs ! nat \<lfloor>1 / 2 * ?n\<rfloor>)" by simp
    then show ?thesis
      using interpolate_between(1) [of "sort xs", OF _ pos(1,4)] assms(1) ne ne' by (simp add: percentile_interpolates)
  qed
  ultimately show ?thesis by simp
qed

section \<open>The report\<close>

text \<open>The figures of one row that make sense together.\<close>

definition sane :: "metrics \<Rightarrow> bool" where
  "sane m \<longleftrightarrow>
     ra_count (mt_deflection m) \<le> ra_count (mt_resolution m) \<and>
     (\<forall>r \<in> {mt_deflection m, mt_resolution m, mt_fr_breach m, mt_res_breach m}.
        ra_count r \<le> mt_size m \<and>
        (case ra_rate r of None \<Rightarrow> mt_size m = 0 | Some q \<Rightarrow> 0 < mt_size m \<and> 0 \<le> q \<and> q \<le> 1 \<and> q * of_nat (mt_size m) = of_nat (ra_count r))) \<and>
     (\<forall>p \<in> {mt_fr_ms m, mt_res_ms m}. case p of None \<Rightarrow> True | Some (a, b) \<Rightarrow> 0 \<le> a \<and> a \<le> b)"

lemma cohort_facts:
  assumes "r \<in> set (cohort plan s d)"
  shows "co_deflected r \<Longrightarrow> co_resolved r" and "co_fr_ms r = Some x \<Longrightarrow> 0 \<le> x" and "co_res_ms r = Some y \<Longrightarrow> 0 \<le> y"
  using assms
  by (auto simp: cohort_def cohort_row_of_def ticket_sla_wall_elapsed_ms_def ticket_sla_active_elapsed_ms_def split: if_splits)

lemma rate_count [simp]: "ra_count (rate k among) = k"
  by (simp add: rate_def)

lemma rate_sane:
  assumes "k \<le> among"
  shows "case ra_rate (rate k among) of None \<Rightarrow> among = 0
    | Some q \<Rightarrow> 0 < among \<and> 0 \<le> q \<and> q \<le> 1 \<and> q * of_nat among = of_nat k"
  using assms by (auto simp: rate_def divide_le_eq_1)

lemma aggregate_sane:
  assumes "set rows \<subseteq> set (cohort plan s d)"
  shows "sane (toMetrics (aggregate_of key rows))"
proof -
  have "length (filter co_deflected rows) \<le> length (filter co_resolved rows)"
    using assms cohort_facts(1) by (induction rows) auto
  moreover have "case ra_rate (rate (length (filter P rows)) (length rows)) of None \<Rightarrow> length rows = 0
      | Some q \<Rightarrow> 0 < length rows \<and> 0 \<le> q \<and> q \<le> 1 \<and> q * of_nat (length rows) = of_nat (length (filter P rows))" for P
    by (rule rate_sane) simp
  moreover have "\<forall>x \<in> set (somes (map co_fr_ms rows)). 0 \<le> x" "\<forall>x \<in> set (somes (map co_res_ms rows)). 0 \<le> x"
    using assms cohort_facts(2,3) by (fastforce simp: set_somes image_iff)+
  then have "case duration (percentile_cont (1 / 2) (somes (map f rows))) (percentile_cont (9 / 10) (somes (map f rows))) of
      None \<Rightarrow> True | Some (a, b) \<Rightarrow> 0 \<le> a \<and> a \<le> b" if "f \<in> {co_fr_ms, co_res_ms}" for f
    using that percentiles_ordered by (auto simp: duration_def split: option.splits)
  ultimately show ?thesis
    unfolding sane_def toMetrics_def aggregate_of_def by (simp cong: option.case_cong)
qed

lemma report_session:
  assumes "analytics_report_op now p plan d = Inr r"
  obtains kind i where "actorFor p = Inr (kind, i)" and "r = report_of plan (tenant_session now (tenantOf p) kind i) d"
proof -
  obtain d' where "asPrincipal now p (\<lambda>s d. Inr (report_of plan s d, d)) d = Inr (r, d')"
    using assms by (auto simp: analytics_report_op_def split: sum.splits)
  then obtain kind i where "actorFor p = Inr (kind, i)" and "is_uuid (tenantOf p)" and "kind \<in> {''user'', ''contact'', ''service''}" and "i \<noteq> []"
    and "(Inr (report_of plan (tenant_session now (tenantOf p) kind i) d, d) :: thrown + _) = Inr (r, d')"
    by (rule asPrincipal_session)
  then show ?thesis by (intro that) auto
qed

lemma report_rows:
  "rp_overall (report_of plan s d) = toMetrics (aggregate_of None (cohort plan s d))"
  "rp_groups (report_of plan s d) = map_option (\<lambda>g. map (\<lambda>row. (case ag_key row of None \<Rightarrow> [] | Some k \<Rightarrow> k, toMetrics row))
     (aggregate plan (Some g) s d)) (ap_group plan)"
  by (simp_all add: report_of_def aggregate_def cut_for_def Let_def option.map_comp comp_def)

lemma cut_subset: "set (cut_for g rows) \<subseteq> set rows"
  by (auto simp: cut_for_def)


text \<open>
  The groups partition the cohort: each key occurs once, and the counts of the groups add up
  to the counts of the overall row, by priority, source and day; by assignee they add up to
  the tickets that are assigned and not deflected.
\<close>

theorem groups_partition:
  assumes "ap_group plan = Some g" and "aggregate plan (Some g) s d = rows"
  shows "distinct (map ag_key rows) \<and>
    (\<Sum>row\<leftarrow>rows. ag_size row) = length (cut_for (Some g) (cohort plan s d)) \<and>
    (\<Sum>row\<leftarrow>rows. ag_resolved row) = length (filter co_resolved (cut_for (Some g) (cohort plan s d))) \<and>
    (\<Sum>row\<leftarrow>rows. ag_deflected row) = length (filter co_deflected (cut_for (Some g) (cohort plan s d))) \<and>
    (\<Sum>row\<leftarrow>rows. ag_fr_breached row) = length (filter co_fr_breached (cut_for (Some g) (cohort plan s d))) \<and>
    (\<Sum>row\<leftarrow>rows. ag_res_breached row) = length (filter co_res_breached (cut_for (Some g) (cohort plan s d))) \<and>
    (g \<noteq> GAssignee \<longrightarrow> cut_for (Some g) (cohort plan s d) = cohort plan s d)"
proof -
  let ?rows = "cut_for (Some g) (cohort plan s d)" and ?key = "GROUP_EXPR g"
  let ?ks = "group_keys (map ?key ?rows)"
  have rows: "rows = map (\<lambda>k. aggregate_of k (filter (\<lambda>r. ?key r = k) ?rows)) ?ks"
    using assms(2) by (simp add: aggregate_def Let_def)
  have ks: "distinct ?ks" "?key ` set ?rows \<subseteq> set ?ks" using group_keys_ok [of "map ?key ?rows"] by simp_all
  have keys: "map ag_key rows = ?ks" by (simp add: rows aggregate_of_def comp_def)
  have count: "(\<Sum>row\<leftarrow>rows. f row) = length (filter P ?rows)"
    if "\<And>k xs. f (aggregate_of k xs) = length (filter P xs)" for f P
    unfolding rows using partition_count [OF ks, of P] by (simp add: that comp_def)
  have "(\<Sum>row\<leftarrow>rows. ag_size row) = length (filter (\<lambda>_. True) ?rows)" by (rule count) (simp add: aggregate_of_def)
  moreover have "(\<Sum>row\<leftarrow>rows. ag_resolved row) = length (filter co_resolved ?rows)" by (rule count) (simp add: aggregate_of_def)
  moreover have "(\<Sum>row\<leftarrow>rows. ag_deflected row) = length (filter co_deflected ?rows)" by (rule count) (simp add: aggregate_of_def)
  moreover have "(\<Sum>row\<leftarrow>rows. ag_fr_breached row) = length (filter co_fr_breached ?rows)" by (rule count) (simp add: aggregate_of_def)
  moreover have "(\<Sum>row\<leftarrow>rows. ag_res_breached row) = length (filter co_res_breached ?rows)" by (rule count) (simp add: aggregate_of_def)
  ultimately show ?thesis using ks(1) keys by (simp add: cut_for_def)
qed

text \<open>The rows of one tenant, which is all a report reads.\<close>

definition same_tenant_rows :: "ident \<Rightarrow> db \<Rightarrow> db \<Rightarrow> bool" where
  "same_tenant_rows tenant d d' \<longleftrightarrow>
     filter (\<lambda>t. t_tenant t = tenant) (tickets d) = filter (\<lambda>t. t_tenant t = tenant) (tickets d') \<and>
     filter (\<lambda>m. m_tenant m = tenant) (messages d) = filter (\<lambda>m. m_tenant m = tenant) (messages d') \<and>
     filter (\<lambda>n. m_tenant n = tenant) (note_rows d) = filter (\<lambda>n. m_tenant n = tenant) (note_rows d')"

lemma filter_tenant: "(\<And>x. P x \<Longrightarrow> Q x) \<Longrightarrow> filter P xs = filter P (filter Q xs)"
  by (induction xs) auto

lemma list_ex_tenant: "(\<And>x. P x \<Longrightarrow> Q x) \<Longrightarrow> list_ex P xs = list_ex P (filter Q xs)"
  by (auto simp: list_ex_iff)

lemma cohort_isolated:
  assumes same: "same_tenant_rows tenant d d'"
  shows "cohort plan (tenant_session now tenant kind i) d = cohort plan (tenant_session now' tenant kind i) d'"
proof -
  let ?s = "tenant_session now tenant kind i" and ?s' = "tenant_session now' tenant kind i"
  have vis: "visible_ticket ?s t = visible_ticket ?s' t" "visible_note ?s n = visible_note ?s' n" for t n
    by (simp_all add: visible_ticket_def visible_note_def tenant_matches_def current_actor_is_contact_def)
  have own: "owns_ticket ?s d tenant j = owns_ticket ?s' d' tenant j" for j
  proof -
    have gen: "owns_ticket x y tenant j \<longleftrightarrow> (\<exists>t \<in> set (filter (\<lambda>t. t_tenant t = tenant) (tickets y)). t_id t = j \<and> t_contact t = s_actor_id x)" for x y
      by (auto simp: owns_ticket_def)
    have eq: "filter (\<lambda>t. t_tenant t = tenant) (tickets d) = filter (\<lambda>t. t_tenant t = tenant) (tickets d')"
      using same by (simp add: same_tenant_rows_def)
    show ?thesis unfolding gen eq by simp
  qed
  have msg: "visible_message ?s d m = visible_message ?s' d' m" for m
    using own by (auto simp: visible_message_def tenant_matches_def current_actor_is_contact_def)
  have "list_ex (\<lambda>m. visible_message ?s d m \<and> P m) (messages d) = list_ex (\<lambda>m. visible_message ?s' d' m \<and> P m) (messages d')" for P
  proof -
    have "list_ex (\<lambda>m. visible_message x y m \<and> P m) (messages y) =
        list_ex (\<lambda>m. visible_message x y m \<and> P m) (filter (\<lambda>m. m_tenant m = tenant) (messages y))" if "s_tenant x = tenant" for x y
      using that by (intro list_ex_tenant) (auto simp: visible_message_def tenant_matches_def)
    from this [of ?s d] this [of ?s' d'] show ?thesis using same msg by (simp add: same_tenant_rows_def)
  qed
  moreover have "list_ex (\<lambda>m. visible_note ?s m \<and> P m) (note_rows d) = list_ex (\<lambda>m. visible_note ?s' m \<and> P m) (note_rows d')" for P
  proof -
    have "list_ex (\<lambda>m. visible_note x m \<and> P m) ns = list_ex (\<lambda>m. visible_note x m \<and> P m) (filter (\<lambda>m. m_tenant m = tenant) ns)"
      if "s_tenant x = tenant" for x ns
      using that by (intro list_ex_tenant) (auto simp: visible_note_def tenant_matches_def)
    from this [of ?s "note_rows d"] this [of ?s' "note_rows d'"] show ?thesis using same vis by (simp add: same_tenant_rows_def)
  qed
  ultimately have row: "cohort_row_of ?s d t = cohort_row_of ?s' d' t" for t by (simp add: cohort_row_of_def)
  have "ticket_select P ?s d = ticket_select P ?s' d'" for P
  proof -
    have "filter (\<lambda>t. visible_ticket x t \<and> P t) ts = filter (\<lambda>t. visible_ticket x t \<and> P t) (filter (\<lambda>t. t_tenant t = tenant) ts)"
      if "s_tenant x = tenant" for x ts
      using that by (intro filter_tenant) (auto simp: visible_ticket_def tenant_matches_def)
    from this [of ?s "tickets d"] this [of ?s' "tickets d'"] have
      "ticket_select P ?s d = filter (\<lambda>t. visible_ticket ?s t \<and> P t) (filter (\<lambda>t. t_tenant t = tenant) (tickets d))"
      "ticket_select P ?s' d' = filter (\<lambda>t. visible_ticket ?s' t \<and> P t) (filter (\<lambda>t. t_tenant t = tenant) (tickets d'))"
      unfolding ticket_select_def by simp_all
    moreover have "filter (\<lambda>t. t_tenant t = tenant) (tickets d) = filter (\<lambda>t. t_tenant t = tenant) (tickets d')"
      using same by (simp add: same_tenant_rows_def)
    ultimately show ?thesis unfolding vis by simp
  qed
  then show ?thesis by (simp add: cohort_def row)
qed

text \<open>
  A report reads one tenant and no clock: for a given plan and principal it is the same
  whenever it is run and whatever the rows of the other tenants are, as long as the tickets,
  messages and notes of the principal's tenant are the same.
\<close>

theorem report_isolated:
  assumes "same_tenant_rows (tenantOf p) d d'"
  shows "analytics_report_op now p plan d = analytics_report_op now' p plan d'"
proof -
  have "aggregate plan g (tenant_session now (tenantOf p) kind i) d = aggregate plan g (tenant_session now' (tenantOf p) kind i) d'" for g kind i
    unfolding aggregate_def cohort_isolated [OF assms, of plan now kind i now'] ..
  then have "report_of plan (tenant_session now (tenantOf p) kind i) d = report_of plan (tenant_session now' (tenantOf p) kind i) d'" for kind i
    by (simp add: report_of_def)
  then show ?thesis
    by (auto simp: analytics_report_op_def asPrincipal_def withTenant_def tenantContextFor_def dest: contextSettings_shape(1) split: sum.splits)
qed

section \<open>A small cohort\<close>

definition analyst :: request_principal where
  "analyst = StaffPrincipal ''11111111-1111-4111-8111-111111111111'' ''44444444-4444-4444-8444-444444444444'' ''agent''"

definition cohort_ticket :: "ident \<Rightarrow> ident \<Rightarrow> millis \<Rightarrow> ticket_source \<Rightarrow> ticket" where
  "cohort_ticket i tenant created source =
     (new_ticket i created tenant \<lparr>ci_subject = ''S'', ci_contact = ''c'', ci_source = source, ci_spawned = None, ci_slack_route = None\<rparr>)
       \<lparr>t_first_response := Some (created + 500)\<rparr>"

definition cohort_db :: db where
  "cohort_db = empty_db\<lparr>tickets := [cohort_ticket ''a'' (tenantOf analyst) 1000 SrcPortal, cohort_ticket ''b'' (tenantOf analyst) 2000 SrcSlack]\<rparr>"

definition busy_db :: db where
  "busy_db = cohort_db\<lparr>tickets := cohort_ticket ''z'' ''22222222-2222-4222-8222-222222222222'' 1500 SrcPortal # tickets cohort_db\<rparr>"

definition cohort_plan :: analytics_plan where
  "cohort_plan = \<lparr>ap_from = 0, ap_to = 10000, ap_group = Some GSource\<rparr>"


theorem groups_partition_witness:
  "(\<Sum>row\<leftarrow>aggregate cohort_plan (Some GSource) (tenant_session 5000 (tenantOf analyst) ''user'' ''u'') cohort_db. ag_size row) = 2"
proof -
  let ?s = "tenant_session 5000 (tenantOf analyst) ''user'' ''u''"
  have "length (cohort cohort_plan ?s cohort_db) = 2" by code_simp
  moreover have "ap_group cohort_plan = Some GSource" by (simp add: cohort_plan_def)
  ultimately show ?thesis using groups_partition [of cohort_plan GSource ?s cohort_db] by simp
qed

theorem report_isolated_witness:
  "analytics_report_op 5000 analyst cohort_plan cohort_db = analytics_report_op 6000 analyst cohort_plan busy_db \<and> tickets busy_db \<noteq> tickets cohort_db"
proof -
  have "same_tenant_rows (tenantOf analyst) cohort_db busy_db"
    by (simp add: same_tenant_rows_def busy_db_def cohort_db_def cohort_ticket_def new_ticket_def analyst_def empty_db_def)
  then show ?thesis using report_isolated by (auto simp: busy_db_def)
qed

end
