(* ===== verification/Rate_Limit.thy ===== *)
theory Rate_Limit
  imports Idempotency
begin

text \<open>
  Rate limiting (\<open>src/src/rate-limit\<close>): fixed windows derived from absolute time, the keys
  requests are charged against, the address of a request behind the platform's proxy, the
  counter that fails open, the guard on authenticated principals and the middleware in front
  of the public Slack route.

  Redis is outside the program: the pipelined \<open>INCR\<close> and \<open>EXPIRE\<close> is an argument, and what
  the limiter relies on of it is the hypothesis \<open>counts_hits\<close>. Times are whole milliseconds;
  the divisions are exact where the source uses floating point, whose error is below a
  millisecond for any clock before the year 200000.
\<close>

section \<open>Fixed windows\<close>

record rate_limit =
  rl_limit :: int
  rl_window :: int

datatype rate_decision = Allowed | Denied (denied_limit: int) (retry_after: int)

definition windowBucket :: "millis \<Rightarrow> int \<Rightarrow> int" where
  "windowBucket now w = (now div (1000 * w)) * w"

definition ceil_seconds :: "millis \<Rightarrow> int" where
  "ceil_seconds ms = - ((- ms) div 1000)"

definition decide :: "int option \<Rightarrow> rate_limit \<Rightarrow> millis \<Rightarrow> rate_decision" where
  "decide hits l now =
     (case hits of
        None \<Rightarrow> Allowed
      | Some c \<Rightarrow>
          if c \<le> rl_limit l then Allowed
          else Denied (rl_limit l)
                 (max 1 (ceil_seconds ((windowBucket now (rl_window l) + rl_window l) * 1000 - now))))"

section \<open>Keys\<close>

definition RATE_LIMIT_PREFIX :: string where "RATE_LIMIT_PREFIX = ''rl''"

definition authenticatedKey :: "request_principal \<Rightarrow> int \<Rightarrow> string" where
  "authenticatedKey p bucket =
     RATE_LIMIT_PREFIX @ '':auth:'' @ tenantOf p @ '':'' @ principalRef p @ '':'' @ int_text bucket"

definition slackIpKey :: "string \<Rightarrow> int \<Rightarrow> string" where
  "slackIpKey ip bucket = RATE_LIMIT_PREFIX @ '':slack:ip:'' @ ip @ '':'' @ int_text bucket"

definition slackGlobalKey :: "int \<Rightarrow> string" where
  "slackGlobalKey bucket = RATE_LIMIT_PREFIX @ '':slack:global:'' @ int_text bucket"

section \<open>The address of a request\<close>

definition PLATFORM_PROXY_HOPS :: nat where "PLATFORM_PROXY_HOPS = 1"

definition UNKNOWN :: string where "UNKNOWN = ''unknown''"

definition normalise_address :: "string \<Rightarrow> string" where
  "normalise_address a = (if starts_with ''::ffff:'' a then drop (length ''::ffff:'') a else a)"

definition forwarded_chain :: "header_value \<Rightarrow> string list option" where
  "forwarded_chain h =
     (let parts = (\<lambda>s. filter (\<lambda>e. e \<noteq> []) (map trim (split_on (CHR '','') s)))
      in case h of
           HAbsent \<Rightarrow> None
         | HOnce s \<Rightarrow> Some (parts s)
         | HMany ss \<Rightarrow> Some (parts (join_with '','' ss)))"

definition clientIp :: "header_value \<Rightarrow> string option \<Rightarrow> string" where
  "clientIp forwarded remote =
     (let hop = (case forwarded_chain forwarded of
                   None \<Rightarrow> None
                 | Some chain \<Rightarrow>
                     if PLATFORM_PROXY_HOPS \<le> length chain
                     then Some (chain ! (length chain - PLATFORM_PROXY_HOPS)) else None)
      in case (case hop of Some a \<Rightarrow> Some a | None \<Rightarrow> remote) of
           None \<Rightarrow> UNKNOWN
         | Some a \<Rightarrow> if a = [] then UNKNOWN else normalise_address a)"

section \<open>The counter\<close>

text \<open>
  \<open>incr now key ttl r\<close> is the answer of the pipelined \<open>INCR\<close> and \<open>EXPIRE\<close> on the store \<open>r\<close>:
  the count after the hit, or \<open>None\<close> when the store is not configured, fails or answers
  something that is no number.
\<close>

type_synonym 'r incr = "millis \<Rightarrow> string \<Rightarrow> int \<Rightarrow> 'r \<Rightarrow> int option \<times> 'r"

definition rate_check ::
  "'r incr \<Rightarrow> (int \<Rightarrow> string) \<Rightarrow> rate_limit \<Rightarrow> millis \<Rightarrow> 'r \<Rightarrow> rate_decision \<times> 'r" where
  "rate_check incr key l now r =
     (case incr now (key (windowBucket now (rl_window l))) (rl_window l) r of
        (hits, r') \<Rightarrow> (decide hits l now, r'))"

section \<open>Refusals\<close>

record refusal =
  rf_retry_after :: int
  rf_limit :: int
  rf_remaining :: int
  rf_reset :: int
  rf_thrown :: thrown

definition refuse :: "int \<Rightarrow> int \<Rightarrow> refusal" where
  "refuse limit retry =
     \<lparr>rf_retry_after = retry, rf_limit = limit, rf_remaining = 0, rf_reset = retry,
      rf_thrown = App (app_error rate_limited
        (''Rate limit of '' @ int_text limit @ '' requests per minute exceeded. Retry after '' @
         int_text retry @ '' seconds.''))\<rparr>"

definition rate_guard ::
  "'r incr \<Rightarrow> rate_limit \<Rightarrow> millis \<Rightarrow> request_principal option \<Rightarrow> 'r \<Rightarrow> (refusal + bool) \<times> 'r" where
  "rate_guard incr l now p r =
     (case p of
        None \<Rightarrow> (Inr True, r)
      | Some pr \<Rightarrow>
          (case rate_check incr (authenticatedKey pr) l now r of
             (Denied limit retry, r') \<Rightarrow> (Inl (refuse limit retry), r')
           | (Allowed, r') \<Rightarrow> (Inr True, r')))"

text \<open>The two ceilings of the Slack route; \<open>Inr ()\<close> is the call of \<open>next\<close>.\<close>

definition slack_rate_limit ::
  "'r incr \<Rightarrow> rate_limit \<Rightarrow> rate_limit \<Rightarrow> millis \<Rightarrow> millis \<Rightarrow> header_value \<Rightarrow> string option \<Rightarrow> 'r \<Rightarrow> (refusal + unit) \<times> 'r" where
  "slack_rate_limit incr per_ip global now1 now2 forwarded remote r =
     (case rate_check incr (slackIpKey (clientIp forwarded remote)) per_ip now1 r of
        (Denied limit retry, r1) \<Rightarrow> (Inl (refuse limit retry), r1)
      | (Allowed, r1) \<Rightarrow>
          (case rate_check incr slackGlobalKey global now2 r1 of
             (Denied limit retry, r2) \<Rightarrow> (Inl (refuse limit retry), r2)
           | (Allowed, r2) \<Rightarrow> (Inr (), r2)))"

definition overAMinute :: "int \<Rightarrow> rate_limit" where
  "overAMinute limit = \<lparr>rl_limit = limit, rl_window = 60\<rparr>"

section \<open>What the limiter relies on\<close>

text \<open>
  \<open>live r t k\<close> is the count the store holds at time \<open>t\<close> under a key. An answered hit is one
  more than what was live and stays live until its expiry, and other keys are not touched.
\<close>

definition counts_hits :: "'r incr \<Rightarrow> ('r \<Rightarrow> millis \<Rightarrow> string \<Rightarrow> int) \<Rightarrow> bool" where
  "counts_hits incr live \<longleftrightarrow>
     (\<forall>now k ttl r n r'. incr now k ttl r = (Some n, r') \<longrightarrow>
        n = live r now k + 1 \<and> (\<forall>t. now \<le> t \<and> t < now + 1000 * ttl \<longrightarrow> live r' t k = n)) \<and>
     (\<forall>now k ttl r n r' t k'. incr now k ttl r = (n, r') \<longrightarrow> k' \<noteq> k \<longrightarrow> live r' t k' = live r t k')"

text \<open>A series of charged requests, in the order the store sees them.\<close>

fun charges ::
  "'r incr \<Rightarrow> rate_limit \<Rightarrow> (millis \<times> (int \<Rightarrow> string)) list \<Rightarrow> 'r \<Rightarrow> rate_decision list" where
  "charges incr l [] r = []"
| "charges incr l ((now, key) # es) r =
     (case rate_check incr key l now r of (dec, r') \<Rightarrow> dec # charges incr l es r')"

fun answered :: "'r incr \<Rightarrow> rate_limit \<Rightarrow> (millis \<times> (int \<Rightarrow> string)) list \<Rightarrow> 'r \<Rightarrow> bool" where
  "answered incr l [] r \<longleftrightarrow> True"
| "answered incr l ((now, key) # es) r \<longleftrightarrow>
     (case incr now (key (windowBucket now (rl_window l))) (rl_window l) r of
        (c, r') \<Rightarrow> c \<noteq> None \<and> answered incr l es r')"

definition charged_to :: "rate_limit \<Rightarrow> string \<Rightarrow> millis \<times> (int \<Rightarrow> string) \<Rightarrow> bool" where
  "charged_to l k e \<longleftrightarrow> snd e (windowBucket (fst e) (rl_window l)) = k"


definition decisions_on ::
  "rate_limit \<Rightarrow> string \<Rightarrow> (millis \<times> (int \<Rightarrow> string)) list \<Rightarrow> rate_decision list \<Rightarrow> rate_decision list" where
  "decisions_on l k es ds = map snd (filter (\<lambda>(e, d). charged_to l k e) (zip es ds))"

section \<open>Windows\<close>

lemma bucket_span:
  assumes "0 < w"
  shows "windowBucket t w * 1000 \<le> t" and "t < (windowBucket t w + w) * 1000"
proof -
  have "(t div (1000 * w)) * (1000 * w) + t mod (1000 * w) = t" by (rule div_mult_mod_eq)
  moreover have "0 \<le> t mod (1000 * w)" "t mod (1000 * w) < 1000 * w" using assms by simp_all
  ultimately show "windowBucket t w * 1000 \<le> t" "t < (windowBucket t w + w) * 1000"
    by (simp_all add: windowBucket_def algebra_simps)
qed

lemma bucket_unique:
  assumes "0 < w" and "windowBucket s w * 1000 \<le> t" and "t < (windowBucket s w + w) * 1000"
  shows "windowBucket t w = windowBucket s w"
proof -
  have "t div (1000 * w) = s div (1000 * w)"
    by (rule int_div_pos_eq [of t "1000 * w" _ "t - windowBucket s w * 1000"])
      (use assms in \<open>simp_all add: windowBucket_def algebra_simps\<close>)
  then show ?thesis by (simp add: windowBucket_def)
qed

lemma bucket_later:
  assumes "0 < w" and "(windowBucket s w + w) * 1000 \<le> t"
  shows "windowBucket s w < windowBucket t w"
proof -
  have "(windowBucket s w + w) * 1000 < (windowBucket t w + w) * 1000"
    using assms(2) bucket_span(2) [OF assms(1), of t] by linarith
  then show ?thesis by simp
qed

lemma ceil_seconds_bounds: "ms \<le> ceil_seconds ms * 1000" "(ceil_seconds ms - 1) * 1000 < ms"
  unfolding ceil_seconds_def by simp_all

section \<open>The ceiling\<close>

lemma answered_hit:
  assumes "counts_hits incr live" and "incr now k ttl r = (Some n, r')"
  shows "n = live r now k + 1" and "now \<le> t \<Longrightarrow> t < now + 1000 * ttl \<Longrightarrow> live r' t k = n"
  using assms unfolding counts_hits_def by blast+

lemma other_hit:
  assumes "counts_hits incr live" and "incr now k' ttl r = (n, r')" and "k' \<noteq> k"
  shows "live r' t k = live r t k"
  using assms unfolding counts_hits_def by metis

lemma decisions_on_Cons:
  "decisions_on l k ((now, key) # es) (d # ds) =
    (if key (windowBucket now (rl_window l)) = k then d # decisions_on l k es ds else decisions_on l k es ds)"
  by (simp add: decisions_on_def charged_to_def)

lemma ceiling_from:
  assumes law: "counts_hits incr live" and w: "0 < rl_window l"
    and "\<forall>t. t0 \<le> t \<and> t < (b + rl_window l) * 1000 \<longrightarrow> live r t k = c"
    and "sorted (map fst es)" and "\<forall>e \<in> set es. t0 \<le> fst e"
    and "\<forall>e \<in> set es. charged_to l k e \<longrightarrow> windowBucket (fst e) (rl_window l) = b" and "answered incr l es r"
  shows "map (\<lambda>d. d = Allowed) (decisions_on l k es (charges incr l es r)) =
    map (\<lambda>i. c + int i < rl_limit l) [0..<length (filter (charged_to l k) es)]"
  using assms(3-)
proof (induction es arbitrary: r c t0)
  case Nil
  then show ?case by (simp add: decisions_on_def)
next
  case (Cons e es)
  obtain now key where e: "e = (now, key)" by (cases e)
  let ?k = "key (windowBucket now (rl_window l))"
  obtain n r' where hit: "incr now ?k (rl_window l) r = (Some n, r')" and rest: "answered incr l es r'"
    using Cons.prems(5) e by (auto split: prod.splits)
  have run: "charges incr l (e # es) r = decide (Some n) l now # charges incr l es r'"
    by (simp add: e rate_check_def hit)
  show ?case
  proof (cases "?k = k")
    case True
    have b: "windowBucket now (rl_window l) = b" using Cons.prems(4) True e by (simp add: charged_to_def)
    have "now < (b + rl_window l) * 1000" "b * 1000 \<le> now" using bucket_span [OF w, of now] b by simp_all
    moreover have "t0 \<le> now" using Cons.prems(3) e by simp
    ultimately have n: "n = c + 1" using answered_hit(1) [OF law hit] Cons.prems(1) True by simp
    have "\<forall>t. now \<le> t \<and> t < (b + rl_window l) * 1000 \<longrightarrow> live r' t k = c + 1"
      using answered_hit(2) [OF law hit] True n \<open>b * 1000 \<le> now\<close> by (simp add: algebra_simps)
    then have "map (\<lambda>d. d = Allowed) (decisions_on l k es (charges incr l es r')) =
        map (\<lambda>i. c + 1 + int i < rl_limit l) [0..<length (filter (charged_to l k) es)]"
      using Cons.prems(2,4) rest e by (intro Cons.IH) auto
    moreover have "(decide (Some n) l now = Allowed) = (c + 0 < rl_limit l)" using n by (auto simp: decide_def)
    moreover have "[0..<Suc m] = 0 # map Suc [0..<m]" for m by (simp add: upt_conv_Cons map_Suc_upt del: upt_Suc)
    moreover have "filter (charged_to l k) (e # es) = e # filter (charged_to l k) es" using True by (simp add: e charged_to_def)
    moreover have "decisions_on l k (e # es) (charges incr l (e # es) r) =
        decide (Some n) l now # decisions_on l k es (charges incr l es r')"
      unfolding run unfolding e using True by (simp add: decisions_on_Cons)
    ultimately show ?thesis by (simp add: comp_def add.assoc del: upt_Suc charges.simps)
  next
    case False
    have "\<forall>t. t0 \<le> t \<and> t < (b + rl_window l) * 1000 \<longrightarrow> live r' t k = c"
      using other_hit [OF law hit False] Cons.prems(1) by simp
    then have "map (\<lambda>d. d = Allowed) (decisions_on l k es (charges incr l es r')) =
        map (\<lambda>i. c + int i < rl_limit l) [0..<length (filter (charged_to l k) es)]"
      using Cons.prems(2,3,4) rest by (intro Cons.IH) auto
    moreover have "filter (charged_to l k) (e # es) = filter (charged_to l k) es" using False by (simp add: e charged_to_def)
    moreover have "decisions_on l k (e # es) (charges incr l (e # es) r) = decisions_on l k es (charges incr l es r')"
      unfolding run unfolding e using False by (simp add: decisions_on_Cons)
    ultimately show ?thesis by simp
  qed
qed

lemma slack_rate_limit_refused:
  "rate_check incr (slackIpKey (clientIp forwarded remote)) per_ip now r = (Denied limit s, r1) \<Longrightarrow>
   slack_rate_limit incr per_ip global now now' forwarded remote r = (Inl (refuse limit s), r1)"
  by (simp add: slack_rate_limit_def)

section \<open>Keys and addresses\<close>

lemma int_text_inj: "int_text i = int_text j \<longleftrightarrow> i = j"
proof
  assume eq: "int_text i = int_text j"
  have "json_number (int_text n @ []) = Some (JInt n, [])" for n by (rule json_number_text) (simp add: ends_number_def)
  from this [of i] this [of j] show "i = j" unfolding eq by simp
qed simp

lemma authenticatedKey_inj:
  assumes "CHR '':'' \<notin> set (tenantOf p)" "CHR '':'' \<notin> set (tenantOf p')"
    and "CHR '':'' \<notin> set (drop 2 (principalRef p))" "CHR '':'' \<notin> set (drop 2 (principalRef p'))"
  shows "authenticatedKey p b = authenticatedKey p' b' \<longleftrightarrow>
    tenantOf p = tenantOf p' \<and> principalRef p = principalRef p' \<and> b = b'"
proof -
  have "authenticatedKey p b = authenticatedKey p' b' \<longleftrightarrow>
      tenantOf p = tenantOf p' \<and> principalRef p @ CHR '':'' # int_text b = principalRef p' @ CHR '':'' # int_text b'"
    using append_sep_inj [OF assms(1,2)] by (simp add: authenticatedKey_def)
  also have "principalRef p @ CHR '':'' # int_text b = principalRef p' @ CHR '':'' # int_text b' \<longleftrightarrow>
      principalRef p = principalRef p' \<and> b = b'"
    using assms(3,4) by (cases p; cases p') (auto simp: append_sep_inj int_text_inj)
  finally show ?thesis .
qed

lemma split_on_append: "split_on c (s @ c # t) = split_on c s @ split_on c t"
  by (induction s) (auto split: list.split)

lemma clientIp_appended:
  assumes "CHR '','' \<notin> set peer" and "trim peer \<noteq> []"
  shows "clientIp (HOnce (sent @ '','' @ peer)) remote = normalise_address (trim peer)"
proof -
  let ?front = "filter (\<lambda>e. e \<noteq> []) (map trim (split_on (CHR '','') sent))"
  obtain front where "front = ?front" by simp
  then have "forwarded_chain (HOnce (sent @ '','' @ peer)) = Some (front @ [trim peer])"
    using assms by (simp add: forwarded_chain_def split_on_append split_on_no_sep Let_def)
  then show ?thesis using assms(2) by (simp add: clientIp_def PLATFORM_PROXY_HOPS_def)
qed

section \<open>Properties\<close>

text \<open>
  The ceiling is exact: of the requests charged to one key in one window, the first
  \<open>limit\<close> are admitted and every later one is refused, whatever is charged to other keys in
  between, as long as the store answers; and a request the store has no answer for is always
  admitted.
\<close>

theorem window_ceiling:
  assumes "counts_hits incr live" and "0 < rl_window l" and "\<forall>t. live r t k = 0"
    and "sorted (map fst es)" and "\<forall>e \<in> set es. charged_to l k e \<longrightarrow> windowBucket (fst e) (rl_window l) = b"
    and "answered incr l es r"
  shows "map (\<lambda>d. d = Allowed) (decisions_on l k es (charges incr l es r)) =
      map (\<lambda>i. int i < rl_limit l) [0..<length (filter (charged_to l k) es)] \<and>
    (\<forall>now key r0. fst (incr now (key (windowBucket now (rl_window l))) (rl_window l) r0) = None \<longrightarrow>
       fst (rate_check incr key l now r0) = Allowed)"
proof
  have "\<forall>e \<in> set es. (case es of [] \<Rightarrow> 0 | x # _ \<Rightarrow> fst x) \<le> fst e"
    using assms(4) by (cases es) auto
  then show "map (\<lambda>d. d = Allowed) (decisions_on l k es (charges incr l es r)) =
      map (\<lambda>i. int i < rl_limit l) [0..<length (filter (charged_to l k) es)]"
    using ceiling_from [OF assms(1,2), of "case es of [] \<Rightarrow> 0 | x # _ \<Rightarrow> fst x" b r k 0 es] assms(3-) by simp
  show "\<forall>now key r0. fst (incr now (key (windowBucket now (rl_window l))) (rl_window l) r0) = None \<longrightarrow>
       fst (rate_check incr key l now r0) = Allowed"
    by (auto simp: rate_check_def decide_def split: prod.split)
qed

text \<open>
  A refusal says when to come back, exactly: \<open>Retry-After\<close> is between one second and the
  window, coming back that many seconds later falls into a later window, and coming back a
  second earlier, unless that is at once, still falls into the one that is spent.
\<close>

theorem retry_after_exact:
  assumes "0 < rl_window l" and "decide hits l now = Denied limit s"
  shows "limit = rl_limit l \<and> 1 \<le> s \<and> s \<le> rl_window l \<and>
    windowBucket now (rl_window l) < windowBucket (now + 1000 * s) (rl_window l) \<and>
    windowBucket (now + 1000 * (s - 1)) (rl_window l) = windowBucket now (rl_window l)"
proof -
  let ?w = "rl_window l" and ?b = "windowBucket now (rl_window l)"
  let ?left = "(?b + ?w) * 1000 - now"
  note span = bucket_span [OF assms(1), of now]
  have s: "s = max 1 (ceil_seconds ?left)" and lim: "limit = rl_limit l"
    using assms(2) by (auto simp: decide_def split: option.splits if_splits)
  have "0 < ?left" "?left \<le> ?w * 1000" using span by (simp_all add: algebra_simps)
  then have "1 \<le> ceil_seconds ?left" using ceil_seconds_bounds(1) [of ?left] by linarith
  moreover have "(ceil_seconds ?left - 1) * 1000 < ?w * 1000"
    using ceil_seconds_bounds(2) [of ?left] \<open>?left \<le> ?w * 1000\<close> by linarith
  ultimately have c: "1 \<le> ceil_seconds ?left" "ceil_seconds ?left \<le> ?w" by simp_all
  then have s': "s = ceil_seconds ?left" using s by simp
  have late: "(?b + ?w) * 1000 \<le> now + 1000 * s" and early: "now + 1000 * (s - 1) < (?b + ?w) * 1000"
    using ceil_seconds_bounds [of ?left] s' by (simp_all add: algebra_simps)
  have "?b * 1000 \<le> now + 1000 * (s - 1)" using span(1) c s' by simp
  then show ?thesis using c s' lim bucket_later [OF assms(1) late] bucket_unique [OF assms(1) _ early] by simp
qed


text \<open>
  One caller cannot spend another's budget: the counters of two authenticated requests
  coincide only for the same tenant, the same kind of caller with the same id and the same
  window, and never with a counter of the Slack route; behind the platform's proxy the
  address that is charged is the one the proxy appended, whatever the caller sent; and a
  source that is over its own ceiling leaves every other counter of the Slack route as it
  was.
\<close>

theorem budgets_are_separate:
  assumes law: "counts_hits incr live"
    and colon: "CHR '':'' \<notin> set (tenantOf p)" "CHR '':'' \<notin> set (tenantOf p')"
      "CHR '':'' \<notin> set (drop 2 (principalRef p))" "CHR '':'' \<notin> set (drop 2 (principalRef p'))"
    and hop: "CHR '','' \<notin> set peer" "trim peer \<noteq> []"
    and flood: "rate_check incr (slackIpKey (clientIp forwarded remote)) per_ip now r = (Denied limit s, r1)"
  shows "(authenticatedKey p b = authenticatedKey p' b' \<longleftrightarrow>
      tenantOf p = tenantOf p' \<and> principalRef p = principalRef p' \<and> b = b') \<and>
    authenticatedKey p b \<noteq> slackIpKey ip b' \<and> authenticatedKey p b \<noteq> slackGlobalKey b' \<and>
    clientIp (HOnce (sent @ '','' @ peer)) remote' = normalise_address (trim peer) \<and>
    (\<forall>t k. k \<noteq> slackIpKey (clientIp forwarded remote) (windowBucket now (rl_window per_ip)) \<longrightarrow>
       live (snd (slack_rate_limit incr per_ip global now now' forwarded remote r)) t k = live r t k)"
proof (intro conjI)
  show "authenticatedKey p b = authenticatedKey p' b' \<longleftrightarrow>
      tenantOf p = tenantOf p' \<and> principalRef p = principalRef p' \<and> b = b'"
    by (rule authenticatedKey_inj [OF colon])
  show "authenticatedKey p b \<noteq> slackIpKey ip b'" "authenticatedKey p b \<noteq> slackGlobalKey b'"
    by (simp_all add: authenticatedKey_def slackIpKey_def slackGlobalKey_def)
  show "clientIp (HOnce (sent @ '','' @ peer)) remote' = normalise_address (trim peer)"
    by (rule clientIp_appended [OF hop])
  obtain n where "incr now (slackIpKey (clientIp forwarded remote) (windowBucket now (rl_window per_ip))) (rl_window per_ip) r = (n, r1)"
    using flood by (auto simp: rate_check_def split: prod.splits)
  then show "\<forall>t k. k \<noteq> slackIpKey (clientIp forwarded remote) (windowBucket now (rl_window per_ip)) \<longrightarrow>
       live (snd (slack_rate_limit incr per_ip global now now' forwarded remote r)) t k = live r t k"
    using other_hit [OF law] flood by (metis (no_types, lifting) slack_rate_limit_refused snd_conv)
qed

section \<open>A sample store\<close>

text \<open>A counter store that keeps its promise: counts with their expiry, newest first.\<close>

type_synonym sample_store = "(string \<times> int \<times> millis) list"

definition sample_live :: "sample_store \<Rightarrow> millis \<Rightarrow> string \<Rightarrow> int" where
  "sample_live r t k = (case map_of r k of None \<Rightarrow> 0 | Some (n, e) \<Rightarrow> if t < e then n else 0)"

definition sample_incr :: "sample_store incr" where
  "sample_incr now k ttl r = (let n = sample_live r now k + 1 in (Some n, (k, n, now + 1000 * ttl) # r))"

lemma sample_counts: "counts_hits sample_incr sample_live"
  by (auto simp: counts_hits_def sample_incr_def sample_live_def Let_def)

definition one_per_minute :: rate_limit where "one_per_minute = overAMinute 1"

definition sample_caller :: "string \<Rightarrow> request_principal" where
  "sample_caller c = ContactPrincipal ''t'' c"

definition sample_charges :: "(millis \<times> (int \<Rightarrow> string)) list" where
  "sample_charges = [(60000, authenticatedKey (sample_caller ''a'')), (60001, authenticatedKey (sample_caller ''b'')),
     (119999, authenticatedKey (sample_caller ''a''))]"

theorem window_ceiling_witness:
  "map (\<lambda>d. d = Allowed) (decisions_on one_per_minute (authenticatedKey (sample_caller ''a'') 60) sample_charges
     (charges sample_incr one_per_minute sample_charges [])) = [True, False]"
proof -
  have "map (\<lambda>i. int i < rl_limit one_per_minute)
      [0..<length (filter (charged_to one_per_minute (authenticatedKey (sample_caller ''a'') 60)) sample_charges)] = [True, False]"
    by code_simp
  moreover have "answered sample_incr one_per_minute sample_charges []" by code_simp
  ultimately show ?thesis
    using window_ceiling [OF sample_counts, of one_per_minute "[]" "authenticatedKey (sample_caller ''a'') 60" sample_charges 60]
    by (simp add: one_per_minute_def overAMinute_def sample_live_def sample_charges_def charged_to_def windowBucket_def)
qed

theorem retry_after_exact_witness:
  "windowBucket 119999 60 < windowBucket (119999 + 1000 * 1) 60"
  using retry_after_exact [of one_per_minute "Some 2" 119999 1 1]
  by (simp add: one_per_minute_def overAMinute_def decide_def windowBucket_def ceil_seconds_def)

theorem budgets_are_separate_witness:
  "authenticatedKey (sample_caller ''a'') 60 \<noteq> authenticatedKey (sample_caller ''b'') 60 \<and>
   clientIp (HOnce (''203.0.113.9'' @ '','' @ '' ::ffff:198.51.100.7'')) None = ''198.51.100.7''"
proof -
  have "rate_check sample_incr (slackIpKey (clientIp HAbsent None)) (overAMinute 0) 5 [] =
      (Denied 0 60, snd (rate_check sample_incr (slackIpKey (clientIp HAbsent None)) (overAMinute 0) 5 []))" by code_simp
  moreover have "trim '' ::ffff:198.51.100.7'' \<noteq> [] \<and> CHR '','' \<notin> set '' ::ffff:198.51.100.7'' \<and>
      normalise_address (trim '' ::ffff:198.51.100.7'') = ''198.51.100.7''" by code_simp
  ultimately show ?thesis
    using budgets_are_separate [OF sample_counts, of "sample_caller ''a''" "sample_caller ''b''" "'' ::ffff:198.51.100.7''"
        HAbsent None "overAMinute 0" 5 "[]" 0 60 _ 60 60 "''ip''" "''203.0.113.9''" None one_per_minute 5]
    by (simp add: sample_caller_def)
qed

end
