(* ===== verification/Cache.thy ===== *)
theory Cache
  imports Rate_Limit
begin

text \<open>
  The cache seam (\<open>src/src/cache\<close>): the key grammar and the three operations of a tenant's
  handle. Redis is outside the program: its four commands are an argument, over a world that
  only they change, and what is documented of them is stated as hypotheses. A command may
  reject; the loader is an argument too. The values of the cache are JSON values, and
  \<open>None\<close> is \<open>undefined\<close>; values \<open>JSON.stringify\<close> throws on are not considered.
\<close>

section \<open>The key grammar\<close>

definition CACHE_PREFIX :: string where "CACHE_PREFIX = ''cache''"

datatype cache_fault = InvalidCacheSegmentError string string | LoaderThrew thrown

definition FORBIDDEN :: "char list" where
  "FORBIDDEN = [CHR '':'', CHR ''*'', CHR ''?'', CHR ''['', CHR '']'', CHR 0x5C]"

definition checkSegment :: "string \<Rightarrow> string \<Rightarrow> cache_fault + string" where
  "checkSegment part v =
     (if v = [] \<or> list_ex (\<lambda>c. c \<in> set FORBIDDEN) v then Inl (InvalidCacheSegmentError part v) else Inr v)"

definition cacheKey :: "ident \<Rightarrow> string \<Rightarrow> string \<Rightarrow> cache_fault + string" where
  "cacheKey tenant namespace i =
     (case checkSegment ''namespace'' namespace of
        Inl e \<Rightarrow> Inl e
      | Inr ns \<Rightarrow>
          (case checkSegment ''id'' i of
             Inl e \<Rightarrow> Inl e
           | Inr x \<Rightarrow> Inr (CACHE_PREFIX @ '':'' @ tenant @ '':'' @ ns @ '':'' @ x)))"

definition namespacePrefix :: "ident \<Rightarrow> string \<Rightarrow> cache_fault + string" where
  "namespacePrefix tenant namespace =
     (case checkSegment ''namespace'' namespace of
        Inl e \<Rightarrow> Inl e
      | Inr ns \<Rightarrow> Inr (CACHE_PREFIX @ '':'' @ tenant @ '':'' @ ns @ '':''))"

section \<open>The operations\<close>

definition SCAN_COUNT :: nat where "SCAN_COUNT = 250"

record 'w redis_client =
  rd_get :: "string \<Rightarrow> 'w \<Rightarrow> (string + string option) \<times> 'w"
  rd_set :: "string \<Rightarrow> string \<Rightarrow> int \<Rightarrow> 'w \<Rightarrow> (string + unit) \<times> 'w"
  rd_unlink :: "string list \<Rightarrow> 'w \<Rightarrow> (string + unit) \<times> 'w"
  rd_scan :: "string \<Rightarrow> string \<Rightarrow> nat \<Rightarrow> 'w \<Rightarrow> (string + (string \<times> string list)) \<times> 'w"

type_synonym 'w loader = "'w \<Rightarrow> (thrown + json option) \<times> 'w"

text \<open>A hit and its value, or a miss.\<close>

definition cache_read :: "'w redis_client option \<Rightarrow> string \<Rightarrow> 'w \<Rightarrow> json option \<times> 'w" where
  "cache_read client key w =
     (case client of
        None \<Rightarrow> (None, w)
      | Some c \<Rightarrow>
          (case rd_get c key w of
             (Inl _, w') \<Rightarrow> (None, w')
           | (Inr None, w') \<Rightarrow> (None, w')
           | (Inr (Some raw), w') \<Rightarrow> (json_parse raw, w')))"

definition cache_write :: "'w redis_client option \<Rightarrow> string \<Rightarrow> json option \<Rightarrow> int \<Rightarrow> 'w \<Rightarrow> 'w" where
  "cache_write client key value ttl w =
     (case client of
        None \<Rightarrow> w
      | Some c \<Rightarrow>
          (case value of
             None \<Rightarrow> w
           | Some v \<Rightarrow> snd (rd_set c key (json_text v) ttl w)))"

definition getOrLoad ::
  "'w redis_client option \<Rightarrow> ident \<Rightarrow> string \<Rightarrow> string \<Rightarrow> int \<Rightarrow> 'w loader \<Rightarrow> 'w \<Rightarrow> (cache_fault + json option) \<times> 'w" where
  "getOrLoad client tenant namespace i ttl loader w =
     (case cacheKey tenant namespace i of
        Inl e \<Rightarrow> (Inl e, w)
      | Inr key \<Rightarrow>
          (case cache_read client key w of
             (Some v, w1) \<Rightarrow> (Inr (Some v), w1)
           | (None, w1) \<Rightarrow>
               (case loader w1 of
                  (Inl e, w2) \<Rightarrow> (Inl (LoaderThrew e), w2)
                | (Inr loaded, w2) \<Rightarrow> (Inr loaded, cache_write client key loaded ttl w2))))"

definition cache_del :: "'w redis_client option \<Rightarrow> ident \<Rightarrow> string \<Rightarrow> string \<Rightarrow> 'w \<Rightarrow> (cache_fault + unit) \<times> 'w" where
  "cache_del client tenant namespace i w =
     (case client of
        None \<Rightarrow> (Inr (), w)
      | Some c \<Rightarrow>
          (case cacheKey tenant namespace i of
             Inl _ \<Rightarrow> (Inr (), w)
           | Inr key \<Rightarrow> (Inr (), snd (rd_unlink c [key] w))))"

text \<open>The loop over the cursor; \<open>None\<close> is a loop that does not end.\<close>

partial_function (option) scan_loop :: "'w redis_client \<Rightarrow> string \<Rightarrow> string \<Rightarrow> 'w \<Rightarrow> 'w option" where
  "scan_loop c pattern cursor w =
     (case rd_scan c cursor pattern SCAN_COUNT w of
        (Inl _, w1) \<Rightarrow> Some w1
      | (Inr (next, ks), w1) \<Rightarrow>
          (case (if ks \<noteq> [] then rd_unlink c ks w1 else (Inr (), w1)) of
             (Inl _, w2) \<Rightarrow> Some w2
           | (Inr _, w2) \<Rightarrow> if next \<noteq> ''0'' then scan_loop c pattern next w2 else Some w2))"

definition delByPrefix :: "'w redis_client option \<Rightarrow> ident \<Rightarrow> string \<Rightarrow> 'w \<Rightarrow> ((cache_fault + unit) \<times> 'w) option" where
  "delByPrefix client tenant namespace w =
     (case client of
        None \<Rightarrow> Some (Inr (), w)
      | Some c \<Rightarrow>
          (case namespacePrefix tenant namespace of
             Inl e \<Rightarrow> Some (Inl e, w)
           | Inr p \<Rightarrow> map_option (\<lambda>w'. (Inr (), w')) (scan_loop c (p @ ''*'') ''0'' w)))"

record 'w tenant_cache =
  tc_getOrLoad :: "string \<Rightarrow> string \<Rightarrow> int \<Rightarrow> 'w loader \<Rightarrow> 'w \<Rightarrow> (cache_fault + json option) \<times> 'w"
  tc_del :: "string \<Rightarrow> string \<Rightarrow> 'w \<Rightarrow> (cache_fault + unit) \<times> 'w"
  tc_delByPrefix :: "string \<Rightarrow> 'w \<Rightarrow> ((cache_fault + unit) \<times> 'w) option"

definition forTenant :: "'w redis_client option \<Rightarrow> tenant_context \<Rightarrow> thrown + 'w tenant_cache" where
  "forTenant client ctx =
     (case contextSettings ctx of
        Inl e \<Rightarrow> Inl e
      | Inr (tenant, _, _) \<Rightarrow>
          Inr \<lparr>tc_getOrLoad = getOrLoad client tenant, tc_del = cache_del client tenant,
               tc_delByPrefix = delByPrefix client tenant\<rparr>)"

section \<open>What is documented of Redis\<close>

text \<open>
  The commands over the keyspace \<open>keys\<close>: reading changes nothing, a write that is
  acknowledged is made, an unlink touches the named keys only and, when acknowledged, removes
  them all, and \<open>SCAN\<close> answers with keys that match the pattern. A rejected command may or
  may not have been carried out.
\<close>

definition plain :: "string \<Rightarrow> bool" where
  "plain p \<longleftrightarrow> list_all (\<lambda>c. c \<notin> {CHR ''*'', CHR ''?'', CHR ''['', CHR '']'', CHR 0x5C}) p"

definition get_law :: "('w \<Rightarrow> string \<Rightarrow> string option) \<Rightarrow> 'w redis_client \<Rightarrow> bool" where
  "get_law ks c \<longleftrightarrow> (\<forall>k w r w'. rd_get c k w = (r, w') \<longrightarrow> ks w' = ks w \<and> (\<forall>v. r = Inr v \<longrightarrow> v = ks w k))"

definition set_law :: "('w \<Rightarrow> string \<Rightarrow> string option) \<Rightarrow> 'w redis_client \<Rightarrow> bool" where
  "set_law ks c \<longleftrightarrow> (\<forall>k v ttl w r w'. rd_set c k v ttl w = (r, w') \<longrightarrow>
     ks w' = (ks w)(k \<mapsto> v) \<or> (\<exists>e. r = Inl e) \<and> ks w' = ks w)"

definition unlink_law :: "('w \<Rightarrow> string \<Rightarrow> string option) \<Rightarrow> 'w redis_client \<Rightarrow> bool" where
  "unlink_law ks c \<longleftrightarrow> (\<forall>xs w r w' k. rd_unlink c xs w = (r, w') \<longrightarrow>
     (k \<notin> set xs \<longrightarrow> ks w' k = ks w k) \<and> (k \<in> set xs \<longrightarrow> ks w' k = None \<or> (\<exists>e. r = Inl e) \<and> ks w' k = ks w k))"

definition scan_law :: "('w \<Rightarrow> string \<Rightarrow> string option) \<Rightarrow> 'w redis_client \<Rightarrow> bool" where
  "scan_law ks c \<longleftrightarrow> (\<forall>cursor p n w r w'. rd_scan c cursor (p @ ''*'') n w = (r, w') \<longrightarrow>
     ks w' = ks w \<and> (plain p \<longrightarrow> (\<forall>next xs. r = Inr (next, xs) \<longrightarrow> (\<forall>k \<in> set xs. starts_with p k))))"

text \<open>
  An iteration: the pages a client has read from the cursor it started at, with keys it
  unlinked in between. A full iteration returns every matching key that was there from the
  start to the end.
\<close>

inductive iteration :: "'w redis_client \<Rightarrow> string \<Rightarrow> 'w \<Rightarrow> string list list \<Rightarrow> string \<Rightarrow> 'w \<Rightarrow> bool"
  for c :: "'w redis_client" and pattern :: string and w0 :: 'w where
  first: "rd_scan c ''0'' pattern n w0 = (Inr (next, ks), w) \<Longrightarrow> iteration c pattern w0 [ks] next w"
| unlinked: "iteration c pattern w0 pages cursor w \<Longrightarrow> rd_unlink c ks w = (Inr (), w') \<Longrightarrow> iteration c pattern w0 pages cursor w'"
| continued: "iteration c pattern w0 pages cursor w \<Longrightarrow> cursor \<noteq> ''0'' \<Longrightarrow>
    rd_scan c cursor pattern n w = (Inr (next, ks), w') \<Longrightarrow> iteration c pattern w0 (pages @ [ks]) next w'"

definition scan_complete :: "('w \<Rightarrow> string \<Rightarrow> string option) \<Rightarrow> 'w redis_client \<Rightarrow> bool" where
  "scan_complete ks c \<longleftrightarrow> (\<forall>p w0 pages w k. iteration c (p @ ''*'') w0 pages ''0'' w \<longrightarrow> plain p \<longrightarrow>
     starts_with p k \<longrightarrow> ks w0 k \<noteq> None \<longrightarrow> ks w k \<noteq> None \<longrightarrow> k \<in> set (concat pages))"

definition scan_bounded :: "'w redis_client \<Rightarrow> bool" where
  "scan_bounded c \<longleftrightarrow> (\<forall>pattern w0. \<exists>bound. \<forall>pages cursor w. iteration c pattern w0 pages cursor w \<longrightarrow> length pages \<le> bound)"

definition answers :: "'w redis_client \<Rightarrow> bool" where
  "answers c \<longleftrightarrow> (\<forall>xs w. is_ok (fst (rd_unlink c xs w))) \<and> (\<forall>cursor p n w. is_ok (fst (rd_scan c cursor p n w)))"

section \<open>Keys\<close>

lemma json_parse_text:
  assumes "wellformed_json v"
  shows "json_parse (json_text v) = Some v"
proof -
  have "json_value (2 * length (json_text v) + 2) (json_text v @ []) = Some (v, [])"
    by (rule reads_backD [OF reads_back_wellformed [OF assms]]) (simp_all add: ends_number_def)
  then show ?thesis by (simp add: json_parse_def skip_ws_def)
qed

lemma checkSegment_ok:
  "checkSegment part v = Inr x \<longleftrightarrow> x = v \<and> v \<noteq> [] \<and> set v \<inter> set FORBIDDEN = {}"
  by (auto simp: checkSegment_def list_ex_iff)

lemma cacheKey_parts:
  "cacheKey tenant ns i = Inr k \<longleftrightarrow> k = ''cache:'' @ tenant @ '':'' @ ns @ '':'' @ i \<and> is_ok (checkSegment ''namespace'' ns) \<and>
     is_ok (checkSegment ''id'' i)"
  by (auto simp: cacheKey_def CACHE_PREFIX_def checkSegment_def split: sum.splits)

lemma namespacePrefix_parts:
  "namespacePrefix tenant ns = Inr p \<longleftrightarrow> p = ''cache:'' @ tenant @ '':'' @ ns @ '':'' \<and> is_ok (checkSegment ''namespace'' ns)"
  by (auto simp: namespacePrefix_def CACHE_PREFIX_def checkSegment_def split: sum.splits)

lemma segment_no_colon: "is_ok (checkSegment part v) \<Longrightarrow> CHR '':'' \<notin> set v"
  by (auto simp: checkSegment_def FORBIDDEN_def list_ex_iff split: if_splits)

lemma prefix_plain: "is_uuid tenant \<Longrightarrow> namespacePrefix tenant ns = Inr p \<Longrightarrow> plain p"
  using is_uuid_chars [of tenant]
  by (fastforce simp: namespacePrefix_parts plain_def list_all_iff checkSegment_def FORBIDDEN_def list_ex_iff is_hex_def split: if_splits)

lemma starts_with_same: "starts_with (p @ q) (p @ s) \<longleftrightarrow> starts_with q s"
  by (simp add: starts_with_def)

lemma starts_with_segment:
  assumes "CHR '':'' \<notin> set a" and "CHR '':'' \<notin> set b"
  shows "starts_with (a @ CHR '':'' # p) (b @ CHR '':'' # s) \<longleftrightarrow> a = b \<and> starts_with p s"
proof
  assume "starts_with (a @ CHR '':'' # p) (b @ CHR '':'' # s)"
  from starts_with_drop [OF this] have "b @ CHR '':'' # s = a @ CHR '':'' # p @ drop (length (a @ CHR '':'' # p)) (b @ CHR '':'' # s)" by simp
  then have "b = a" and "s = p @ drop (length (a @ CHR '':'' # p)) (b @ CHR '':'' # s)"
    unfolding append_sep_inj [OF assms(2,1)] by blast+
  then show "a = b \<and> starts_with p s" by (metis append_eq_conv_conj starts_with_def)
qed (auto simp: starts_with_def)

section \<open>The loop\<close>

lemma loop_ends:
  assumes unl: "unlink_law ks c" and scn: "scan_law ks c" and p: "plain p"
    and bound: "\<forall>pages cursor w. iteration c (p @ ''*'') w0 pages cursor w \<longrightarrow> length pages \<le> bound"
    and prior: "\<forall>nx xs w1. rd_scan c cursor (p @ ''*'') SCAN_COUNT w = (Inr (nx, xs), w1) \<longrightarrow> iteration c (p @ ''*'') w0 (pages @ [xs]) nx w1"
    and gone: "\<forall>k \<in> set (concat pages). ks w k = None"
  shows "\<exists>w'. scan_loop c (p @ ''*'') cursor w = Some w' \<and> (\<forall>k. \<not> starts_with p k \<longrightarrow> ks w' k = ks w k) \<and>
    (\<forall>k. ks w' k = None \<or> ks w' k = ks w k) \<and>
    (answers c \<longrightarrow> (\<exists>all. iteration c (p @ ''*'') w0 all ''0'' w' \<and> (\<forall>k \<in> set (concat all). ks w' k = None)))"
  using prior gone
proof (induction "Suc bound - length pages" arbitrary: pages cursor w rule: less_induct)
  case less
  obtain r w1 where scan: "rd_scan c cursor (p @ ''*'') SCAN_COUNT w = (r, w1)" by fastforce
  have same: "ks w1 = ks w" and matching: "\<And>nx xs k. r = Inr (nx, xs) \<Longrightarrow> k \<in> set xs \<Longrightarrow> starts_with p k"
    using scn scan p unfolding scan_law_def by blast+
  show ?case
  proof (cases r)
    case (Inl e)
    have "\<not> answers c" using scan Inl unfolding answers_def by (metis fst_conv is_ok.simps(1))
    then show ?thesis using scan Inl same by (subst scan_loop.simps) simp
  next
    case (Inr page)
    obtain nx xs where page: "page = (nx, xs)" by (cases page)
    have it: "iteration c (p @ ''*'') w0 (pages @ [xs]) nx w1" using less.prems(1) scan Inr page by blast
    have smaller: "Suc bound - length (pages @ [xs]) < Suc bound - length pages"
      using bound it by (fastforce dest: spec)
    obtain u w2 where u: "(if xs \<noteq> [] then rd_unlink c xs w1 else (Inr (), w1)) = (u, w2)" by fastforce
    have out: "ks w2 k = ks w k" if "\<not> starts_with p k" for k
    proof -
      have "k \<notin> set xs" using matching Inr page that by blast
      then show ?thesis using unl u same unfolding unlink_law_def by (metis Pair_inject)
    qed
    have less_or_same: "ks w2 k = None \<or> ks w2 k = ks w k" for k
      using unl u same unfolding unlink_law_def by (metis Pair_inject)
    show ?thesis
    proof (cases u)
      case (Inl e)
      have "\<not> answers c" using u Inl unfolding answers_def by (metis Pair_inject fst_conv is_ok.simps(1) sum.distinct(1))
      moreover have "scan_loop c (p @ ''*'') cursor w = Some w2" using scan Inr page u Inl by (subst scan_loop.simps) simp
      ultimately show ?thesis using out less_or_same by blast
    next
      case (Inr z)
      have it2: "iteration c (p @ ''*'') w0 (pages @ [xs]) nx w2"
        using iteration.unlinked [OF it] it u Inr by (cases "xs = []") auto
      have gone2: "\<forall>k \<in> set (concat (pages @ [xs])). ks w2 k = None"
      proof
        fix k
        assume k: "k \<in> set (concat (pages @ [xs]))"
        show "ks w2 k = None"
        proof (cases "xs = []")
          case True
          then show ?thesis using u same less.prems(2) k by auto
        next
          case False
          then have "rd_unlink c xs w1 = (Inr z, w2)" using u Inr by simp
          then have "(k \<notin> set xs \<longrightarrow> ks w2 k = ks w1 k) \<and> (k \<in> set xs \<longrightarrow> ks w2 k = None)"
            using unl unfolding unlink_law_def by blast
          then show ?thesis using k same less.prems(2) by auto
        qed
      qed
      have here: "scan_loop c (p @ ''*'') cursor w = (if nx \<noteq> ''0'' then scan_loop c (p @ ''*'') nx w2 else Some w2)"
        using scan \<open>r = Inr page\<close> page u Inr by (subst scan_loop.simps) simp
      show ?thesis
      proof (cases "nx = ''0''")
        case True
        then have "scan_loop c (p @ ''*'') cursor w = Some w2" using here by simp
        then show ?thesis using out less_or_same it2 [unfolded True] gone2 by blast
      next
        case False
        then have "\<forall>nx' ys w3. rd_scan c nx (p @ ''*'') SCAN_COUNT w2 = (Inr (nx', ys), w3) \<longrightarrow> iteration c (p @ ''*'') w0 ((pages @ [xs]) @ [ys]) nx' w3"
          using iteration.continued [OF it2] by blast
        from less.hyps [OF smaller this gone2]
        obtain w' where "scan_loop c (p @ ''*'') nx w2 = Some w'" "\<forall>k. \<not> starts_with p k \<longrightarrow> ks w' k = ks w2 k" "\<forall>k. ks w' k = None \<or> ks w' k = ks w2 k"
          "answers c \<longrightarrow> (\<exists>all. iteration c (p @ ''*'') w0 all ''0'' w' \<and> (\<forall>k \<in> set (concat all). ks w' k = None))" by blast
        then show ?thesis using here False out less_or_same by (metis (no_types, lifting))
      qed
    qed
  qed
qed

section \<open>Properties\<close>

text \<open>
  A key means one thing: two accepted keys are equal only for the same tenant, namespace
  and id, a key lies under a namespace's prefix only when it is of that namespace and that
  tenant, and no key of the cache is a key of the rate limiter, which shares the store.
\<close>

theorem cache_keys_apart:
  assumes "is_uuid tenant" and "is_uuid tenant'" and "cacheKey tenant ns i = Inr k" and "cacheKey tenant' ns' i' = Inr k'"
    and "namespacePrefix tenant' ns' = Inr p"
  shows "(k = k' \<longleftrightarrow> tenant = tenant' \<and> ns = ns' \<and> i = i') \<and> (starts_with p k \<longleftrightarrow> tenant = tenant' \<and> ns = ns') \<and>
    k \<noteq> authenticatedKey q bucket \<and> k \<noteq> slackIpKey ip bucket \<and> k \<noteq> slackGlobalKey bucket"
proof -
  note colon = is_uuid_no_colon [OF assms(1)] is_uuid_no_colon [OF assms(2)]
  have k: "k = ''cache:'' @ tenant @ '':'' @ ns @ '':'' @ i" "k' = ''cache:'' @ tenant' @ '':'' @ ns' @ '':'' @ i'"
    and ok: "is_ok (checkSegment ''namespace'' ns)" "is_ok (checkSegment ''namespace'' ns')"
    and p: "p = ''cache:'' @ tenant' @ '':'' @ ns' @ '':''"
    using assms by (auto simp: cacheKey_parts namespacePrefix_parts)
  note seg = segment_no_colon [OF ok(1)] segment_no_colon [OF ok(2)]
  have "k = k' \<longleftrightarrow> tenant = tenant' \<and> ns = ns' \<and> i = i'"
    unfolding k by (simp add: append_sep_inj [OF colon] append_sep_inj [OF seg])
  moreover have "starts_with p k \<longleftrightarrow> tenant = tenant' \<and> ns = ns'"
    unfolding k p starts_with_same
    using starts_with_segment [OF colon(2,1), of "ns' @ '':''" "ns @ '':'' @ i"] starts_with_segment [OF seg(2,1), of "[]" i]
    by (auto simp: starts_with_def)
  moreover have "k \<noteq> authenticatedKey q bucket" "k \<noteq> slackIpKey ip bucket" "k \<noteq> slackGlobalKey bucket"
    unfolding k by (simp_all add: authenticatedKey_def slackIpKey_def slackGlobalKey_def RATE_LIMIT_PREFIX_def)
  ultimately show ?thesis by blast
qed

text \<open>
  C37. Busting a namespace ends, stays inside it and empties it: as long as Redis bounds the
  length of an iteration, the loop over the cursor returns whatever commands are rejected on
  the way, no key outside the tenant's namespace changes, and when every command is answered
  no key of the namespace is left, however many pages the iteration took.
\<close>

theorem bust_ends_and_empties:
  assumes laws: "unlink_law ks c" "scan_law ks c" "scan_complete ks c" "scan_bounded c"
    and tenant: "is_uuid tenant" and p: "namespacePrefix tenant ns = Inr p"
  shows "\<exists>w'. delByPrefix (Some c) tenant ns w = Some (Inr (), w') \<and> (\<forall>k. \<not> starts_with p k \<longrightarrow> ks w' k = ks w k) \<and>
    (answers c \<longrightarrow> (\<forall>k. starts_with p k \<longrightarrow> ks w' k = None))"
proof -
  note plain = prefix_plain [OF tenant p]
  obtain bound where bound: "\<forall>pages cursor w'. iteration c (p @ ''*'') w pages cursor w' \<longrightarrow> length pages \<le> bound"
    using laws(4) unfolding scan_bounded_def by blast
  have "\<forall>nx xs w1. rd_scan c ''0'' (p @ ''*'') SCAN_COUNT w = (Inr (nx, xs), w1) \<longrightarrow> iteration c (p @ ''*'') w ([] @ [xs]) nx w1"
    by (auto intro: iteration.first)
  from loop_ends [where cursor = "''0''" and w = w and pages = "[]", OF laws(1,2) plain bound this]
  obtain w' where w': "scan_loop c (p @ ''*'') ''0'' w = Some w'" "\<forall>k. \<not> starts_with p k \<longrightarrow> ks w' k = ks w k"
    and less: "\<forall>k. ks w' k = None \<or> ks w' k = ks w k"
    and swept: "answers c \<longrightarrow> (\<exists>all. iteration c (p @ ''*'') w all ''0'' w' \<and> (\<forall>k \<in> set (concat all). ks w' k = None))" by auto
  have "ks w' k = None" if "answers c" "starts_with p k" for k
    using swept less that laws(3) plain unfolding scan_complete_def by metis
  then show ?thesis using w' by (simp add: delByPrefix_def p)
qed

text \<open>
  What was loaded is what is read: when the store acknowledges its commands, a value the
  loader gave is answered again by the next call for the same key, whatever the loader would
  say by then, until the entry is busted.
\<close>

theorem loaded_then_cached:
  assumes laws: "get_law ks c" "set_law ks c" and up: "\<And>k w. is_ok (fst (rd_get c k w))" "\<And>k v ttl w. is_ok (fst (rd_set c k v ttl w))"
    and key: "cacheKey tenant ns i = Inr k" and v: "wellformed_json v"
    and missing: "ks w k = None" and quiet: "\<And>w r w'. loader w = (r, w') \<Longrightarrow> ks w' = ks w"
    and load: "getOrLoad (Some c) tenant ns i ttl loader w = (Inr (Some v), w1)" and same: "ks w2 k = ks w1 k"
  shows "fst (getOrLoad (Some c) tenant ns i ttl' loader' w2) = Inr (Some v) \<and>
    (\<forall>k'. k' \<noteq> k \<longrightarrow> ks w1 k' = ks w k')"
proof -
  obtain wa where got: "rd_get c k w = (Inr (None :: string option), wa)" and wa: "ks wa = ks w"
    using laws(1) up(1) [of k w] missing unfolding get_law_def by (metis is_ok.elims(2) prod.collapse)
  obtain wb where "loader wa = (Inr (Some v), wb)" and w1: "w1 = snd (rd_set c k (json_text v) ttl wb)"
    using load key got by (auto simp: getOrLoad_def cache_read_def cache_write_def split: prod.splits sum.splits option.splits)
  then have wb: "ks wb = ks w" using quiet wa by metis
  have "ks w1 = (ks wb)(k \<mapsto> json_text v)"
    using laws(2) up(2) [of k "json_text v" ttl wb] unfolding set_law_def w1 by (metis is_ok.simps(1) prod.collapse)
  moreover obtain wc where "rd_get c k w2 = (Inr (ks w2 k), wc)"
    using laws(1) up(1) [of k w2] unfolding get_law_def by (metis is_ok.elims(2) prod.collapse)
  ultimately show ?thesis
    using key same wb by (simp add: getOrLoad_def cache_read_def json_parse_text [OF v])
qed

text \<open>A segment the grammar refuses: loading and busting a namespace raise it, busting one entry does not.\<close>

lemma refused_segment:
  assumes "checkSegment ''namespace'' ns = Inl e"
  shows "getOrLoad client tenant ns i ttl loader w = (Inl e, w)" and "cache_del client tenant ns i w = (Inr (), w)"
    and "delByPrefix (Some c) tenant ns w = Some (Inl e, w)" and "delByPrefix None tenant ns w = Some (Inr (), w)"
  using assms by (simp_all add: getOrLoad_def cache_del_def delByPrefix_def cacheKey_def namespacePrefix_def split: option.split)

section \<open>A store of two pages\<close>

text \<open>Keys of even length come first, then those of odd length.\<close>

definition paged_store :: "(string \<times> string) list redis_client" where
  "paged_store =
     \<lparr>rd_get = (\<lambda>k w. (Inr (map_of w k), w)),
      rd_set = (\<lambda>k v _ w. (Inr (), (k, v) # w)),
      rd_unlink = (\<lambda>xs w. (Inr (), filter (\<lambda>(k, _). k \<notin> set xs) w)),
      rd_scan = (\<lambda>cursor pattern _ w.
        (Inr (if cursor = ''0'' then ''1'' else ''0'',
              filter (\<lambda>k. starts_with (butlast pattern) k \<and> (even (length k) \<longleftrightarrow> cursor = ''0'')) (map fst w)), w))\<rparr>"

lemma map_of_filter_keys: "map_of (filter (\<lambda>(k, _). k \<notin> A) w) x = (if x \<in> A then None else map_of w x)"
  by (induction w) auto

lemma paged_laws: "get_law map_of paged_store" "set_law map_of paged_store" "unlink_law map_of paged_store" "scan_law map_of paged_store" "answers paged_store"
  by (auto simp: get_law_def set_law_def unlink_law_def scan_law_def answers_def paged_store_def map_of_filter_keys)

lemma paged_pages:
  assumes "iteration paged_store (p @ ''*'') w0 pages cursor w"
  shows "(cursor = ''1'' \<and> length pages = 1 \<and> (\<forall>k \<in> fst ` set w. starts_with p k \<and> even (length k) \<longrightarrow> k \<in> set (concat pages))) \<or>
    (cursor = ''0'' \<and> length pages = 2 \<and> (\<forall>k \<in> fst ` set w. starts_with p k \<longrightarrow> k \<in> set (concat pages)))"
  using assms by induction (force simp: paged_store_def)+

lemma paged_scans: "scan_complete map_of paged_store" "scan_bounded paged_store"
proof -
  have "k \<in> set (concat pages)"
    if it: "iteration paged_store (p @ ''*'') w0 pages ''0'' w" and k: "starts_with p k" "map_of w k \<noteq> None" for p w0 pages w k
  proof -
    have "k \<in> fst ` set w" using k(2) by (simp add: map_of_eq_None_iff)
    moreover have "\<forall>k \<in> fst ` set w. starts_with p k \<longrightarrow> k \<in> set (concat pages)" using paged_pages [OF it] by simp
    ultimately show ?thesis using k(1) by blast
  qed
  then show "scan_complete map_of paged_store" unfolding scan_complete_def by blast
  have "cursor = ''1'' \<and> length pages = 1 \<or> cursor = ''0'' \<and> length pages = 2"
    if "iteration paged_store pattern w0 pages cursor w" for pattern w0 pages cursor w
    using that by induction (auto simp: paged_store_def)
  then show "scan_bounded paged_store" unfolding scan_bounded_def by (metis le_refl one_le_numeral)
qed

definition cache_tenants :: "ident \<times> ident" where
  "cache_tenants = (''11111111-1111-4111-8111-111111111111'', ''22222222-2222-4222-8222-222222222222'')"

definition cached_words :: "(string \<times> string) list" where
  "cached_words =
     (let key = (\<lambda>t ns i. ''cache:'' @ t @ '':'' @ ns @ '':'' @ i)
      in [(key (fst cache_tenants) ''roles'' ''a'', ''1''), (key (fst cache_tenants) ''roles'' ''bb'', ''2''),
          (key (fst cache_tenants) ''roles-old'' ''a'', ''3''), (key (snd cache_tenants) ''roles'' ''a'', ''4'')])"

lemma cached_words_facts:
  "is_uuid (fst cache_tenants)" "is_uuid (snd cache_tenants)" "is_ok (namespacePrefix (fst cache_tenants) ''roles'')"
  "is_ok (namespacePrefix (snd cache_tenants) ''roles'')" "is_ok (cacheKey (fst cache_tenants) ''roles'' ''a'')" "is_ok (cacheKey (snd cache_tenants) ''roles'' ''a'')"
  by code_simp+

theorem cache_keys_apart_witness:
  "cacheKey (fst cache_tenants) ''roles'' ''a'' \<noteq> cacheKey (snd cache_tenants) ''roles'' ''a''"
proof -
  obtain k k' p where k: "cacheKey (fst cache_tenants) ''roles'' ''a'' = Inr k" "cacheKey (snd cache_tenants) ''roles'' ''a'' = Inr k'"
    "namespacePrefix (snd cache_tenants) ''roles'' = Inr p"
    using cached_words_facts(4,5,6) by (metis is_ok.elims(2))
  have "fst cache_tenants \<noteq> snd cache_tenants" by code_simp
  then show ?thesis using cache_keys_apart [OF cached_words_facts(1,2) k] k by simp
qed

theorem bust_ends_and_empties_witness:
  "\<exists>w'. delByPrefix (Some paged_store) (fst cache_tenants) ''roles'' cached_words = Some (Inr (), w') \<and>
     map_of w' (fst (cached_words ! 0)) = None \<and> map_of w' (fst (cached_words ! 1)) = None \<and>
     map_of w' (fst (cached_words ! 2)) = Some ''3'' \<and> map_of w' (fst (cached_words ! 3)) = Some ''4''"
proof -
  define p where "p = ''cache:'' @ fst cache_tenants @ '':roles:''"
  have p: "namespacePrefix (fst cache_tenants) ''roles'' = Inr p" unfolding p_def by code_simp
  have ks: "starts_with p (fst (cached_words ! 0))" "starts_with p (fst (cached_words ! 1))"
    "\<not> starts_with p (fst (cached_words ! 2))" "\<not> starts_with p (fst (cached_words ! 3))"
    "map_of cached_words (fst (cached_words ! 2)) = Some ''3''" "map_of cached_words (fst (cached_words ! 3)) = Some ''4''"
    unfolding p_def by code_simp+
  obtain w' where "delByPrefix (Some paged_store) (fst cache_tenants) ''roles'' cached_words = Some (Inr (), w')"
    "\<forall>k. \<not> starts_with p k \<longrightarrow> map_of w' k = map_of cached_words k" "\<forall>k. starts_with p k \<longrightarrow> map_of w' k = None"
    using bust_ends_and_empties [OF paged_laws(3,4) paged_scans cached_words_facts(1) p] paged_laws(5) by blast
  then show ?thesis using ks by auto
qed

theorem loaded_then_cached_witness:
  "fst (getOrLoad (Some paged_store) (fst cache_tenants) ''roles'' ''c'' 60 (\<lambda>w. (Inr (Some JNull), w))
      (snd (getOrLoad (Some paged_store) (fst cache_tenants) ''roles'' ''c'' 60 (\<lambda>w. (Inr (Some (JArr [JBool True])), w)) cached_words))) =
   Inr (Some (JArr [JBool True]))"
proof -
  let ?load = "\<lambda>w :: (string \<times> string) list. (Inr (Some (JArr [JBool True])), w)"
  define k where "k = ''cache:'' @ fst cache_tenants @ '':roles:c''"
  have key: "cacheKey (fst cache_tenants) ''roles'' ''c'' = Inr k" and missing: "map_of cached_words k = None"
    unfolding k_def by code_simp+
  have run: "getOrLoad (Some paged_store) (fst cache_tenants) ''roles'' ''c'' 60 ?load cached_words =
      (Inr (Some (JArr [JBool True])), (k, json_text (JArr [JBool True])) # cached_words)"
    using missing by (simp add: getOrLoad_def key cache_read_def cache_write_def paged_store_def)
  have up: "is_ok (fst (rd_get paged_store k w))" "is_ok (fst (rd_set paged_store k v ttl w))" for k v ttl w
    by (simp_all add: paged_store_def)
  show ?thesis
    using loaded_then_cached [OF paged_laws(1,2) up key _ missing _ run refl, of 60 "\<lambda>w. (Inr (Some JNull), w)"]
    unfolding run by simp
qed

end
