(* ===== verification/Sessions.thy ===== *)
theory Sessions
  imports Tenancy Js_Runtime
begin

text \<open>
  Who holds a session: the refresh-token ledger and its lifecycle (\<open>src/src/auth\<close>), the staff
  and the portal authentication services over it, staff invitations (\<open>src/src/staff\<close>), access
  tokens and the bearer guard. The tables they share are one record; the hash, the password
  verifier and the token signer are library code and are arguments, and so is everything
  random: a fresh token, a fresh family, a fresh row id.
\<close>

section \<open>Tables\<close>

record user_row =
  u_id :: ident
  u_tenant :: ident
  u_email :: string
  u_name :: string
  u_role :: string
  u_password :: "string option"
  u_google :: "string option"

record contact_row =
  c_id :: ident
  c_tenant :: ident
  c_email :: "string option"
  c_name :: "string option"
  c_verified :: bool
  c_password :: "string option"
  c_slack :: "string option"

record invitation_row =
  iv_id :: ident
  iv_tenant :: ident
  iv_user :: ident
  iv_hash :: string
  iv_invited_by :: ident
  iv_expires :: millis
  iv_accepted :: "millis option"

record token_row =
  k_tenant :: ident
  k_user :: "ident option"
  k_contact :: "ident option"
  k_hash :: string
  k_family :: ident
  k_expires :: millis
  k_family_expires :: millis
  k_rotated :: "millis option"
  k_revoked :: "millis option"

record identity =
  staff :: "user_row list"
  customers :: "contact_row list"
  invitations :: "invitation_row list"
  ledger :: "token_row list"

definition token_visible :: "session \<Rightarrow> token_row \<Rightarrow> bool" where
  "token_visible s r \<longleftrightarrow> tenant_matches s (k_tenant r)"

definition user_visible :: "session \<Rightarrow> user_row \<Rightarrow> bool" where
  "user_visible s u \<longleftrightarrow> tenant_matches s (u_tenant u)"

definition contact_visible :: "session \<Rightarrow> contact_row \<Rightarrow> bool" where
  "contact_visible s c \<longleftrightarrow>
     tenant_matches s (c_tenant c) \<and> (\<not> current_actor_is_contact s \<or> c_id c = s_actor_id s)"

definition invitation_visible :: "session \<Rightarrow> invitation_row \<Rightarrow> bool" where
  "invitation_visible s i \<longleftrightarrow> tenant_matches s (iv_tenant i)"

section \<open>The lifecycle of a refresh token\<close>

definition SLIDING_WINDOW_MS :: millis where "SLIDING_WINDOW_MS = 30 * 24 * 60 * 60 * 1000"
definition ABSOLUTE_LIFETIME_MS :: millis where "ABSOLUTE_LIFETIME_MS = 90 * 24 * 60 * 60 * 1000"

definition slidingExpiryFor :: "millis \<Rightarrow> millis" where
  "slidingExpiryFor now = now + SLIDING_WINDOW_MS"

definition familyExpiryFor :: "millis \<Rightarrow> millis" where
  "familyExpiryFor now = now + ABSOLUTE_LIFETIME_MS"

datatype reject_reason = Revoked | Expired | FamilyExpired
datatype refresh_verdict = VRotate | VReplay | VReject reject_reason

definition classifyPresentedToken :: "token_row \<Rightarrow> millis \<Rightarrow> refresh_verdict" where
  "classifyPresentedToken r now =
     (if k_revoked r \<noteq> None then VReject Revoked
      else if k_rotated r \<noteq> None then VReplay
      else if k_family_expires r \<le> now then VReject FamilyExpired
      else if k_expires r \<le> now then VReject Expired
      else VRotate)"

section \<open>The ledger\<close>

datatype session_subject = SubjUser ident | SubjContact ident

datatype subject_kind = StaffAxis | ContactAxis

fun subject_axis :: "session_subject \<Rightarrow> subject_kind" where
  "subject_axis (SubjUser _) = StaffAxis"
| "subject_axis (SubjContact _) = ContactAxis"

fun subject_id :: "session_subject \<Rightarrow> ident" where
  "subject_id (SubjUser u) = u"
| "subject_id (SubjContact c) = c"

text \<open>The columns are truthy strings: an empty id would read as absent.\<close>

definition subjectOf :: "token_row \<Rightarrow> session_subject option" where
  "subjectOf r =
     (case k_user r of
        Some u \<Rightarrow> if u \<noteq> [] then Some (SubjUser u)
                  else (case k_contact r of Some c \<Rightarrow> if c \<noteq> [] then Some (SubjContact c) else None | None \<Rightarrow> None)
      | None \<Rightarrow> (case k_contact r of Some c \<Rightarrow> if c \<noteq> [] then Some (SubjContact c) else None | None \<Rightarrow> None))"

fun columnsFor :: "session_subject \<Rightarrow> ident option \<times> ident option" where
  "columnsFor (SubjUser u) = (Some u, None)"
| "columnsFor (SubjContact c) = (None, Some c)"

text \<open>What a write draws at random.\<close>

record fresh_token =
  ft_token :: string
  ft_family :: ident

definition subject_exists :: "identity \<Rightarrow> ident \<Rightarrow> session_subject \<Rightarrow> bool" where
  "subject_exists d tenant sub =
     (case sub of
        SubjUser u \<Rightarrow> (tenant, u) \<in> (\<lambda>x. (u_tenant x, u_id x)) ` set (staff d)
      | SubjContact c \<Rightarrow> (tenant, c) \<in> (\<lambda>x. (c_tenant x, c_id x)) ` set (customers d))"

definition token_write ::
  "(string \<Rightarrow> string) \<Rightarrow> string \<Rightarrow> ident \<Rightarrow> session_subject \<Rightarrow> millis \<Rightarrow> ident \<Rightarrow> millis \<Rightarrow>
   (identity, string) transaction" where
  "token_write hash token tenant sub now family family_expires s d =
     (let r = \<lparr>k_tenant = tenant, k_user = fst (columnsFor sub), k_contact = snd (columnsFor sub),
               k_hash = hash token, k_family = family, k_expires = slidingExpiryFor now,
               k_family_expires = family_expires, k_rotated = None, k_revoked = None\<rparr>
      in if \<not> token_visible s r then Inl (RawError None (Some ''42501''))
         else if (tenant, hash token) \<in> (\<lambda>x. (k_tenant x, k_hash x)) ` set (ledger d)
         then Inl (RawError (Some ''P2002'') None)
         else if \<not> subject_exists d tenant sub then Inl (RawError (Some ''P2003'') None)
         else Inr (token, d\<lparr>ledger := ledger d @ [r]\<rparr>))"

definition token_issue ::
  "(string \<Rightarrow> string) \<Rightarrow> fresh_token \<Rightarrow> ident \<Rightarrow> session_subject \<Rightarrow> millis \<Rightarrow> (identity, string) transaction" where
  "token_issue hash fr tenant sub now =
     token_write hash (ft_token fr) tenant sub now (ft_family fr) (familyExpiryFor now)"

definition token_find :: "(string \<Rightarrow> string) \<Rightarrow> string \<Rightarrow> session \<Rightarrow> identity \<Rightarrow> token_row option" where
  "token_find hash token s d = find (\<lambda>r. token_visible s r \<and> k_hash r = hash token) (ledger d)"

text \<open>\<open>None\<close> is the outcome \<open>unknown\<close>.\<close>

definition token_classify ::
  "(string \<Rightarrow> string) \<Rightarrow> string \<Rightarrow> millis \<Rightarrow> session \<Rightarrow> identity \<Rightarrow>
   (refresh_verdict \<times> session_subject \<times> ident) option" where
  "token_classify hash token now s d =
     (case token_find hash token s d of
        None \<Rightarrow> None
      | Some r \<Rightarrow>
          (case subjectOf r of
             None \<Rightarrow> None
           | Some sub \<Rightarrow> Some (classifyPresentedToken r now, sub, k_family r)))"

definition token_rotate ::
  "(string \<Rightarrow> string) \<Rightarrow> fresh_token \<Rightarrow> string \<Rightarrow> millis \<Rightarrow> (identity, string option) transaction" where
  "token_rotate hash fr token now s d =
     (let hit = (\<lambda>r. token_visible s r \<and> k_hash r = hash token \<and> k_rotated r = None);
          d1 = d\<lparr>ledger := map (\<lambda>r. if hit r then r\<lparr>k_rotated := Some now\<rparr> else r) (ledger d)\<rparr>
      in if filter hit (ledger d) = [] then Inr (None, d)
         else case token_find hash token s d1 of
           None \<Rightarrow> Inr (None, d1)
         | Some predecessor \<Rightarrow>
             (case subjectOf predecessor of
                None \<Rightarrow> Inr (None, d1)
              | Some sub \<Rightarrow>
                  (case token_write hash (ft_token fr) (k_tenant predecessor) sub now (k_family predecessor)
                          (k_family_expires predecessor) s d1 of
                     Inl e \<Rightarrow> Inl e
                   | Inr (t, d2) \<Rightarrow> Inr (Some t, d2))))"

definition revokeFamily :: "ident \<Rightarrow> millis \<Rightarrow> (identity, unit) transaction" where
  "revokeFamily family now s d =
     Inr ((), d\<lparr>ledger := map (\<lambda>r. if token_visible s r \<and> k_family r = family \<and> k_revoked r = None
                                      then r\<lparr>k_revoked := Some now\<rparr> else r) (ledger d)\<rparr>)"

section \<open>The rotation\<close>

text \<open>
  The order of \<open>rotateRefreshSession\<close>: the axis before the verdict, the replay before
  everything else, the subject re-read before the token is spent. Every refusal is \<open>None\<close>,
  and a refusal commits: the eviction of a replayed family stays.
\<close>

definition rotateRefreshSession ::
  "(string \<Rightarrow> string) \<Rightarrow> fresh_token \<Rightarrow> string \<Rightarrow> millis \<Rightarrow> subject_kind \<Rightarrow>
   (ident \<Rightarrow> session \<Rightarrow> identity \<Rightarrow> request_principal option) \<Rightarrow>
   (identity, (request_principal \<times> string) option) transaction" where
  "rotateRefreshSession hash fr token now expect resolve s d =
     (case token_classify hash token now s d of
        None \<Rightarrow> Inr (None, d)
      | Some (verdict, sub, family) \<Rightarrow>
          if subject_axis sub \<noteq> expect then Inr (None, d)
          else (case verdict of
                  VReplay \<Rightarrow> (case revokeFamily family now s d of
                                Inl e \<Rightarrow> Inl e | Inr (_, d') \<Rightarrow> Inr (None, d'))
                | VReject _ \<Rightarrow> Inr (None, d)
                | VRotate \<Rightarrow>
                    (case resolve (subject_id sub) s d of
                       None \<Rightarrow> Inr (None, d)
                     | Some p \<Rightarrow>
                         (case token_rotate hash fr token now s d of
                            Inl e \<Rightarrow> Inl e
                          | Inr (None, d') \<Rightarrow> Inr (None, d')
                          | Inr (Some t, d') \<Rightarrow> Inr (Some (p, t), d')))))"

section \<open>Access tokens\<close>

definition ACCESS_TOKEN_TTL_SECONDS :: int where "ACCESS_TOKEN_TTL_SECONDS = 15 * 60"
definition ACCESS_TOKEN_ISSUER :: string where "ACCESS_TOKEN_ISSUER = ''nivara-desk''"
definition ACCESS_TOKEN_AUDIENCE :: string where "ACCESS_TOKEN_AUDIENCE = ''nivara-api''"

text \<open>The claims of the two kinds the service issues tokens for; the type refuses the others.\<close>

fun accessClaims :: "request_principal \<Rightarrow> (string \<times> json) list" where
  "accessClaims (StaffPrincipal tenant u role) =
     [(''kind'', JStr ''user''), (''sub'', JStr u), (''tenantId'', JStr tenant), (''role'', JStr role)]"
| "accessClaims (ContactPrincipal tenant c) =
     [(''kind'', JStr ''contact''), (''sub'', JStr c), (''tenantId'', JStr tenant)]"
| "accessClaims _ = []"

definition ROLES :: "string list" where "ROLES = [''admin'', ''agent'']"

definition isRole :: "json option \<Rightarrow> string option" where
  "isRole v = (case v of Some (JStr r) \<Rightarrow> if r \<in> set ROLES then Some r else None | _ \<Rightarrow> None)"

definition isNonEmptyString :: "json option \<Rightarrow> string option" where
  "isNonEmptyString v = (case v of Some (JStr x) \<Rightarrow> if x \<noteq> [] then Some x else None | _ \<Rightarrow> None)"

text \<open>An array or a function is an object to \<open>typeof\<close> too, but has none of these members.\<close>

definition principalFromClaims :: "json \<Rightarrow> request_principal option" where
  "principalFromClaims claims =
     (case isNonEmptyString (json_field claims ''sub'') of
        None \<Rightarrow> None
      | Some sub \<Rightarrow>
          (case isNonEmptyString (json_field claims ''tenantId'') of
             None \<Rightarrow> None
           | Some tenant \<Rightarrow>
               if json_field claims ''kind'' = Some (JStr ''user'')
               then (case isRole (json_field claims ''role'') of
                       None \<Rightarrow> None | Some role \<Rightarrow> Some (StaffPrincipal tenant sub role))
               else if json_field claims ''kind'' = Some (JStr ''contact'')
               then Some (ContactPrincipal tenant sub)
               else None))"

text \<open>\<open>jwt_verify\<close> is \<open>verifyAsync\<close> under the API's key, issuer, audience and algorithm.\<close>

definition access_verify :: "(string \<Rightarrow> json option) \<Rightarrow> string \<Rightarrow> request_principal option" where
  "access_verify jwt_verify token =
     (case jwt_verify token of None \<Rightarrow> None | Some claims \<Rightarrow> principalFromClaims claims)"

section \<open>Authentication\<close>

definition refuseAuthentication :: thrown where
  "refuseAuthentication = App (app_error unauthenticated ''Invalid credentials.'')"

record auth_session =
  as_principal :: request_principal
  as_access :: string
  as_refresh :: string

text \<open>The libraries and the secrets behind the services.\<close>

record crypto =
  cr_hash :: "string \<Rightarrow> string"
  cr_argon :: "string \<Rightarrow> string \<Rightarrow> bool option"
  cr_sign :: "(string \<times> json) list \<Rightarrow> string"

definition passwords_verify :: "crypto \<Rightarrow> string option \<Rightarrow> string \<Rightarrow> bool" where
  "passwords_verify cr h password =
     (case h of None \<Rightarrow> False | Some x \<Rightarrow> (case cr_argon cr x password of None \<Rightarrow> False | Some b \<Rightarrow> b))"

definition issueSession ::
  "crypto \<Rightarrow> identity \<Rightarrow> thrown + ((request_principal \<times> string) option \<times> identity) \<Rightarrow>
   (thrown + auth_session) \<times> identity" where
  "issueSession cr d r =
     (case r of
        Inl e \<Rightarrow> (Inl e, d)
      | Inr (None, d') \<Rightarrow> (Inl refuseAuthentication, d')
      | Inr (Some (p, t), d') \<Rightarrow>
          (Inr \<lparr>as_principal = p, as_access = cr_sign cr (accessClaims p), as_refresh = t\<rparr>, d'))"

definition begin_session ::
  "crypto \<Rightarrow> fresh_token \<Rightarrow> request_principal \<Rightarrow> session_subject \<Rightarrow>
   (identity, (request_principal \<times> string) option) transaction" where
  "begin_session cr fr p sub s d =
     (case token_issue (cr_hash cr) fr (tenantOf p) sub (s_now s) s d of
        Inl e \<Rightarrow> Inl e
      | Inr (t, d') \<Rightarrow> Inr (Some (p, t), d'))"

definition signIn ::
  "crypto \<Rightarrow> millis \<Rightarrow> fresh_token \<Rightarrow> ident \<Rightarrow> string \<Rightarrow> string \<Rightarrow> identity \<Rightarrow> (thrown + auth_session) \<times> identity" where
  "signIn cr now fr tenant email password d =
     issueSession cr d (withTenant now (systemContextFor tenant) (\<lambda>s d.
       let user = find (\<lambda>u. user_visible s u \<and> u_email u = lower email) (staff d);
           valid = passwords_verify cr (Option.bind user u_password) password
       in case user of
            None \<Rightarrow> Inr (None, d)
          | Some u \<Rightarrow>
              if \<not> valid then Inr (None, d)
              else begin_session cr fr (StaffPrincipal tenant (u_id u) (u_role u)) (SubjUser (u_id u)) s d) d)"

definition resolve_staff :: "ident \<Rightarrow> ident \<Rightarrow> session \<Rightarrow> identity \<Rightarrow> request_principal option" where
  "resolve_staff tenant uid s d =
     map_option (\<lambda>u. StaffPrincipal tenant (u_id u) (u_role u))
       (find (\<lambda>u. user_visible s u \<and> u_id u = uid) (staff d))"

definition auth_refresh ::
  "crypto \<Rightarrow> millis \<Rightarrow> fresh_token \<Rightarrow> ident \<Rightarrow> string \<Rightarrow> identity \<Rightarrow> (thrown + auth_session) \<times> identity" where
  "auth_refresh cr now fr tenant token d =
     issueSession cr d (withTenant now (systemContextFor tenant)
       (rotateRefreshSession (cr_hash cr) fr token now StaffAxis (resolve_staff tenant)) d)"

definition signOut :: "crypto \<Rightarrow> millis \<Rightarrow> ident \<Rightarrow> string \<Rightarrow> identity \<Rightarrow> thrown + (unit \<times> identity)" where
  "signOut cr now tenant token d =
     withTenant now (systemContextFor tenant) (\<lambda>s d.
       case token_classify (cr_hash cr) token now s d of
         None \<Rightarrow> Inr ((), d)
       | Some (verdict, sub, family) \<Rightarrow> revokeFamily family now s d) d"

definition currentUser :: "millis \<Rightarrow> request_principal \<Rightarrow> ident \<Rightarrow> identity \<Rightarrow> thrown + user_row" where
  "currentUser now p uid d =
     (case asPrincipal now p (\<lambda>s d. Inr (find (\<lambda>u. user_visible s u \<and> u_id u = uid) (staff d), d)) d of
        Inl e \<Rightarrow> Inl e
      | Inr (None, _) \<Rightarrow> Inl (App (notFound ''user''))
      | Inr (Some u, _) \<Rightarrow> Inr u)"

section \<open>The portal's authentication\<close>

definition portal_signIn ::
  "crypto \<Rightarrow> millis \<Rightarrow> fresh_token \<Rightarrow> ident \<Rightarrow> string \<Rightarrow> string \<Rightarrow> identity \<Rightarrow> (thrown + auth_session) \<times> identity" where
  "portal_signIn cr now fr tenant email password d =
     issueSession cr d (withTenant now (systemContextFor tenant) (\<lambda>s d.
       let contact = find (\<lambda>c. contact_visible s c \<and> c_email c = Some (lower email)) (customers d);
           valid = passwords_verify cr (Option.bind contact c_password) password
       in case contact of
            None \<Rightarrow> Inr (None, d)
          | Some c \<Rightarrow>
              if \<not> valid then Inr (None, d)
              else begin_session cr fr (ContactPrincipal tenant (c_id c)) (SubjContact (c_id c)) s d) d)"

definition resolve_contact :: "ident \<Rightarrow> ident \<Rightarrow> session \<Rightarrow> identity \<Rightarrow> request_principal option" where
  "resolve_contact tenant cid s d =
     map_option (\<lambda>c. ContactPrincipal tenant (c_id c))
       (find (\<lambda>c. contact_visible s c \<and> c_id c = cid) (customers d))"

definition portal_refresh ::
  "crypto \<Rightarrow> millis \<Rightarrow> fresh_token \<Rightarrow> ident \<Rightarrow> string \<Rightarrow> identity \<Rightarrow> (thrown + auth_session) \<times> identity" where
  "portal_refresh cr now fr tenant token d =
     issueSession cr d (withTenant now (systemContextFor tenant)
       (rotateRefreshSession (cr_hash cr) fr token now ContactAxis (resolve_contact tenant)) d)"

definition portal_signOut :: "crypto \<Rightarrow> millis \<Rightarrow> ident \<Rightarrow> string \<Rightarrow> identity \<Rightarrow> thrown + (unit \<times> identity)" where
  "portal_signOut cr now tenant token d =
     withTenant now (systemContextFor tenant) (\<lambda>s d.
       case token_classify (cr_hash cr) token now s d of
         None \<Rightarrow> Inr ((), d)
       | Some (verdict, sub, family) \<Rightarrow> revokeFamily family now s d) d"

definition currentContact :: "millis \<Rightarrow> request_principal \<Rightarrow> ident \<Rightarrow> identity \<Rightarrow> thrown + contact_row" where
  "currentContact now p cid d =
     (case asPrincipal now p (\<lambda>s d. Inr (find (\<lambda>c. contact_visible s c \<and> c_id c = cid) (customers d), d)) d of
        Inl e \<Rightarrow> Inl e
      | Inr (None, _) \<Rightarrow> Inl (App (notFound ''Contact''))
      | Inr (Some c, _) \<Rightarrow> Inr c)"

section \<open>Invitations\<close>

definition INVITATION_WINDOW_MS :: millis where "INVITATION_WINDOW_MS = 7 * 24 * 60 * 60 * 1000"

definition invitationExpiryFor :: "millis \<Rightarrow> millis" where
  "invitationExpiryFor now = now + INVITATION_WINDOW_MS"

datatype invitation_verdict = IvAccept | IvAccepted | IvExpired

definition classifyInvitation :: "invitation_row \<Rightarrow> millis \<Rightarrow> invitation_verdict" where
  "classifyInvitation i now =
     (if iv_accepted i \<noteq> None then IvAccepted else if iv_expires i \<le> now then IvExpired else IvAccept)"

record issued_invitation =
  ii_id :: ident
  ii_user :: ident
  ii_email :: string
  ii_role :: string
  ii_token :: string
  ii_expires :: millis

definition user_create :: "user_row \<Rightarrow> (identity, user_row) transaction" where
  "user_create u s d =
     (if \<not> user_visible s u then Inl (RawError None (Some ''42501''))
      else if u_id u \<in> u_id ` set (staff d) \<or> (u_tenant u, u_email u) \<in> (\<lambda>x. (u_tenant x, u_email x)) ` set (staff d)
      then Inl (RawError (Some ''P2002'') None)
      else Inr (u, d\<lparr>staff := staff d @ [u]\<rparr>))"

definition invitation_create :: "invitation_row \<Rightarrow> (identity, invitation_row) transaction" where
  "invitation_create i s d =
     (if \<not> invitation_visible s i then Inl (RawError None (Some ''42501''))
      else if iv_id i \<in> iv_id ` set (invitations d) \<or> iv_user i \<in> iv_user ` set (invitations d) \<or>
              (iv_tenant i, iv_hash i) \<in> (\<lambda>x. (iv_tenant x, iv_hash x)) ` set (invitations d)
      then Inl (RawError (Some ''P2002'') None)
      else if \<not> {iv_user i, iv_invited_by i} \<subseteq> u_id ` set (staff d) then Inl (RawError (Some ''P2003'') None)
      else Inr (i, d\<lparr>invitations := invitations d @ [i]\<rparr>))"

text \<open>The inviter is a staff principal; its user id is \<open>by\<close>.\<close>

definition invite ::
  "crypto \<Rightarrow> millis \<Rightarrow> (ident \<times> ident \<times> string) \<Rightarrow> ident \<Rightarrow> ident \<Rightarrow> string \<Rightarrow> string \<Rightarrow> string \<Rightarrow> string \<Rightarrow>
   identity \<Rightarrow> thrown + (issued_invitation \<times> identity)" where
  "invite cr now fresh tenant by_user by_role email nam role d =
     (case fresh of (uid, iid, token) \<Rightarrow>
       asPrincipal now (StaffPrincipal tenant by_user by_role) (\<lambda>s d.
         case user_create \<lparr>u_id = uid, u_tenant = tenant, u_email = email, u_name = nam, u_role = role,
                           u_password = None, u_google = None\<rparr> s d of
           Inl e \<Rightarrow> Inl (if (case e of RawError (Some c) _ \<Rightarrow> c = ''P2002'' | _ \<Rightarrow> False)
                          then App (app_error conflict (email @ '' is already a member of this tenant.'')) else e)
         | Inr (u, d1) \<Rightarrow>
             (case invitation_create \<lparr>iv_id = iid, iv_tenant = tenant, iv_user = u_id u, iv_hash = cr_hash cr token,
                                      iv_invited_by = by_user, iv_expires = invitationExpiryFor now,
                                      iv_accepted = None\<rparr> s d1 of
                Inl e \<Rightarrow> Inl e
              | Inr (i, d2) \<Rightarrow>
                  Inr (\<lparr>ii_id = iv_id i, ii_user = u_id u, ii_email = u_email u, ii_role = u_role u,
                        ii_token = token, ii_expires = iv_expires i\<rparr>, d2))) d)"

definition refuse_invitation :: thrown where
  "refuse_invitation = App (app_error unauthenticated
     ''This invitation is not valid. Ask an administrator to send a new one.'')"

text \<open>The conditional update that makes an acceptance single-use; the answer is the count.\<close>

definition spend_invitation :: "ident \<Rightarrow> millis \<Rightarrow> session \<Rightarrow> identity \<Rightarrow> nat \<times> identity" where
  "spend_invitation i now s d =
     (let hit = (\<lambda>x. invitation_visible s x \<and> iv_id x = i \<and> iv_accepted x = None)
      in (length (filter hit (invitations d)),
          d\<lparr>invitations := map (\<lambda>x. if hit x then x\<lparr>iv_accepted := Some now\<rparr> else x) (invitations d)\<rparr>))"

definition user_update :: "ident \<Rightarrow> (user_row \<Rightarrow> user_row) \<Rightarrow> (identity, unit) transaction" where
  "user_update uid f s d =
     (if \<not> (\<exists>u \<in> set (staff d). user_visible s u \<and> u_id u = uid) then Inl (RawError (Some ''P2025'') None)
      else Inr ((), d\<lparr>staff := map (\<lambda>u. if user_visible s u \<and> u_id u = uid then f u else u) (staff d)\<rparr>))"

definition accept_check :: "crypto \<Rightarrow> millis \<Rightarrow> ident \<Rightarrow> string \<Rightarrow> identity \<Rightarrow> thrown + invitation_row" where
  "accept_check cr now tenant token d =
     (case withTenant now (systemContextFor tenant) (\<lambda>s d.
             Inr (find (\<lambda>i. invitation_visible s i \<and> iv_hash i = cr_hash cr token) (invitations d), d)) d of
        Inl e \<Rightarrow> Inl e
      | Inr (None, _) \<Rightarrow> Inl refuse_invitation
      | Inr (Some i, _) \<Rightarrow> if classifyInvitation i now = IvAccept then Inr i else Inl refuse_invitation)"

definition accept_write :: "millis \<Rightarrow> ident \<Rightarrow> invitation_row \<Rightarrow> string \<Rightarrow> identity \<Rightarrow> thrown + (unit \<times> identity)" where
  "accept_write now tenant i password_hash d =
     withTenant now (systemContextFor tenant) (\<lambda>s d.
       case spend_invitation (iv_id i) now s d of (n, d') \<Rightarrow>
         if n = 0 then Inl refuse_invitation
         else user_update (iv_user i) (\<lambda>u. u\<lparr>u_password := Some password_hash\<rparr>) s d') d"

text \<open>The two transactions of one acceptance; \<open>hashed\<close> is the argon2 hash of the password.\<close>

definition accept :: "crypto \<Rightarrow> millis \<Rightarrow> ident \<Rightarrow> string \<Rightarrow> string \<Rightarrow> identity \<Rightarrow> thrown + (unit \<times> identity)" where
  "accept cr now tenant token hashed d =
     (case accept_check cr now tenant token d of Inl e \<Rightarrow> Inl e | Inr i \<Rightarrow> accept_write now tenant i hashed d)"

section \<open>Signing in with Google\<close>

record google_identity =
  g_subject :: string
  g_email :: string

text \<open>The lookup by subject and then, for the first time, by email.\<close>

definition google_user :: "google_identity \<Rightarrow> session \<Rightarrow> identity \<Rightarrow> user_row option" where
  "google_user g s d =
     (case find (\<lambda>u. user_visible s u \<and> u_google u = Some (g_subject g)) (staff d) of
        Some u \<Rightarrow> Some u
      | None \<Rightarrow> find (\<lambda>u. user_visible s u \<and> u_email u = g_email g) (staff d))"

text \<open>Signing in accepts a pending invitation, or is refused with it.\<close>

definition google_invitation :: "millis \<Rightarrow> ident \<Rightarrow> session \<Rightarrow> identity \<Rightarrow> identity option" where
  "google_invitation now uid s d =
     (case find (\<lambda>i. invitation_visible s i \<and> iv_user i = uid) (invitations d) of
        None \<Rightarrow> Some d
      | Some i \<Rightarrow>
          if iv_accepted i \<noteq> None then Some d
          else if classifyInvitation i now \<noteq> IvAccept then None
          else (case spend_invitation (iv_id i) now s d of (n, d') \<Rightarrow> if n = 0 then None else Some d'))"

definition google_link :: "google_identity \<Rightarrow> user_row \<Rightarrow> (identity, unit) transaction" where
  "google_link g u s d =
     (if u_google u \<in> {None, Some []}
      then user_update (u_id u) (\<lambda>x. x\<lparr>u_google := Some (g_subject g)\<rparr>) s d
      else Inr ((), d))"

definition google_work ::
  "crypto \<Rightarrow> millis \<Rightarrow> fresh_token \<Rightarrow> ident \<Rightarrow> google_identity \<Rightarrow>
   (identity, (request_principal \<times> string) option) transaction" where
  "google_work cr now fr tenant g s d =
     (case google_user g s d of
        None \<Rightarrow> Inr (None, d)
      | Some u \<Rightarrow>
          if u_google u \<notin> {None, Some [], Some (g_subject g)} then Inr (None, d)
          else (case google_invitation now (u_id u) s d of
                  None \<Rightarrow> Inr (None, d)
                | Some d1 \<Rightarrow>
                    (case google_link g u s d1 of
                       Inl e \<Rightarrow> Inl e
                     | Inr (_, d2) \<Rightarrow>
                         begin_session cr fr (StaffPrincipal tenant (u_id u) (u_role u)) (SubjUser (u_id u)) s d2)))"

definition signInWithGoogle ::
  "crypto \<Rightarrow> millis \<Rightarrow> fresh_token \<Rightarrow> ident \<Rightarrow> google_identity \<Rightarrow> identity \<Rightarrow> (thrown + auth_session) \<times> identity" where
  "signInWithGoogle cr now fr tenant g d =
     issueSession cr d (withTenant now (systemContextFor tenant) (google_work cr now fr tenant g) d)"

end
