(* ===== verification/Session_Safety.thy ===== *)
theory Session_Safety
  imports Sessions
begin

text \<open>
  The ledger as an abstract state machine (open a family, evict a family, turn one usable
  token into its successor), that every operation of the services is such a step, and what
  follows for sessions: at most one usable token per family, single use, eviction on
  replay for good, and the absolute lifetime.
\<close>

section \<open>The abstract ledger\<close>

definition usable :: "token_row \<Rightarrow> bool" where
  "usable r \<longleftrightarrow> k_rotated r = None \<and> k_revoked r = None"

definition token_key :: "token_row \<Rightarrow> ident \<times> string" where
  "token_key r = (k_tenant r, k_hash r)"

definition spend :: "token_row \<Rightarrow> millis \<Rightarrow> token_row \<Rightarrow> token_row" where
  "spend r now x = (if x = r then x\<lparr>k_rotated := Some now\<rparr> else x)"

definition evict :: "ident \<Rightarrow> ident \<Rightarrow> millis \<Rightarrow> token_row \<Rightarrow> token_row" where
  "evict tenant family now x =
     (if k_tenant x = tenant \<and> k_family x = family \<and> k_revoked x = None then x\<lparr>k_revoked := Some now\<rparr> else x)"

definition successor_of :: "token_row \<Rightarrow> token_row \<Rightarrow> bool" where
  "successor_of r n \<longleftrightarrow> k_family n = k_family r \<and> k_tenant n = k_tenant r \<and> subjectOf n = subjectOf r \<and>
     k_family_expires n = k_family_expires r \<and> usable n"

inductive ledger_step :: "token_row list \<Rightarrow> token_row list \<Rightarrow> bool" where
  same: "ledger_step rows rows"
| opened: "usable n \<Longrightarrow> token_key n \<notin> token_key ` set rows \<Longrightarrow> k_family n \<notin> k_family ` set rows \<Longrightarrow>
    ledger_step rows (rows @ [n])"
| evicted: "ledger_step rows (map (evict tenant family now) rows)"
| turned: "r \<in> set rows \<Longrightarrow> usable r \<Longrightarrow> now < k_family_expires r \<Longrightarrow> now < k_expires r \<Longrightarrow>
    successor_of r n \<Longrightarrow> token_key n \<notin> token_key ` set rows \<Longrightarrow>
    ledger_step rows (map (spend r now) rows @ [n])"

inductive_cases ledger_stepE: "ledger_step rows rows'"

text \<open>The rows of a family agree on everything but their own life, and at most one is usable.\<close>

definition kin :: "token_row \<Rightarrow> token_row \<Rightarrow> bool" where
  "kin r r' \<longleftrightarrow> k_tenant r = k_tenant r' \<and> subjectOf r = subjectOf r' \<and>
     k_family_expires r = k_family_expires r' \<and> (k_revoked r = None) = (k_revoked r' = None) \<and>
     (usable r \<and> usable r' \<longrightarrow> r = r')"

definition ledger_ok :: "token_row list \<Rightarrow> bool" where
  "ledger_ok rows \<longleftrightarrow> distinct (map token_key rows) \<and>
     (\<forall>r \<in> set rows. \<forall>r' \<in> set rows. k_family r = k_family r' \<longrightarrow> kin r r')"

lemma token_key_stable [simp]: "token_key (spend r now x) = token_key x" "token_key (evict tenant family now x) = token_key x"
  by (simp_all add: token_key_def spend_def evict_def)

lemma subjectOf_update [simp]:
  "subjectOf (x\<lparr>k_rotated := a\<rparr>) = subjectOf x" "subjectOf (x\<lparr>k_revoked := a\<rparr>) = subjectOf x"
  by (simp_all add: subjectOf_def split: option.split)

lemma subjectOf_stable [simp]:
  "subjectOf (spend r now x) = subjectOf x" "subjectOf (evict tenant family now x) = subjectOf x"
  by (simp_all add: spend_def evict_def)

lemma kin_refl [simp]: "kin r r"
  by (simp add: kin_def)

lemma family_stable [simp]:
  "k_family (spend r now x) = k_family x" "k_family (evict tenant family now x) = k_family x"
  "k_tenant (spend r now x) = k_tenant x" "k_tenant (evict tenant family now x) = k_tenant x"
  "k_family_expires (spend r now x) = k_family_expires x"
  "k_family_expires (evict tenant family now x) = k_family_expires x"
  "k_revoked (spend r now x) = k_revoked x"
  by (simp_all add: spend_def evict_def)

lemma hash_stable [simp]: "k_hash (spend r now x) = k_hash x" "k_hash (evict tenant family now x) = k_hash x"
  by (simp_all add: spend_def evict_def)

lemma usable_spend: "usable (spend r now x) \<longleftrightarrow> usable x \<and> x \<noteq> r"
  by (auto simp: usable_def spend_def)

lemma usable_evict: "usable (evict tenant family now x) \<Longrightarrow> usable x \<and> evict tenant family now x = x"
  by (auto simp: usable_def evict_def split: if_splits)

lemma map_keys [simp]: "map (token_key \<circ> spend r now) rows = map token_key rows"
    "map (token_key \<circ> evict tenant family now) rows = map token_key rows"
  by simp_all

lemma ledger_step_ok:
  assumes "ledger_step rows rows'" and ok: "ledger_ok rows"
  shows "ledger_ok rows'"
  using assms(1)
proof cases
  case (evicted tenant family now)
  have "kin (evict tenant family now r) (evict tenant family now r')"
    if "r \<in> set rows" "r' \<in> set rows" "k_family r = k_family r'" for r r'
  proof -
    have k: "kin r r'" using ok that by (simp add: ledger_ok_def)
    then have "(k_revoked (evict tenant family now r) = None) = (k_revoked (evict tenant family now r') = None)"
      using that(3) by (auto simp: kin_def evict_def)
    with k show ?thesis
      using usable_evict [of tenant family now r] usable_evict [of tenant family now r'] by (auto simp: kin_def)
  qed
  then show ?thesis using ok unfolding evicted ledger_ok_def by auto
next
  case (opened n)
  have "kin a b" if "a \<in> set rows'" "b \<in> set rows'" "k_family a = k_family b" for a b
    using that ok opened(1,4) by (auto simp: ledger_ok_def image_iff)
  moreover have "distinct (map token_key rows')" using ok opened(1,3) by (auto simp: ledger_ok_def)
  ultimately show ?thesis by (simp add: ledger_ok_def)
next
  case (turned r now n)
  let ?f = "spend r now"
  have old: "kin (?f x) (?f y)" if "x \<in> set rows" "y \<in> set rows" "k_family x = k_family y" for x y
  proof -
    have "kin x y" using ok that by (simp add: ledger_ok_def)
    then show ?thesis by (auto simp: kin_def usable_spend)
  qed
  have new: "kin (?f x) n \<and> kin n (?f x)" if x: "x \<in> set rows" "k_family x = k_family n" for x
  proof -
    have kx: "kin x r" using ok x turned by (simp add: ledger_ok_def successor_of_def)
    then have "\<not> usable (?f x)" using turned(3) by (auto simp: usable_spend kin_def)
    moreover have "k_revoked r = None" "k_revoked n = None" using turned by (auto simp: usable_def successor_of_def)
    ultimately show ?thesis using kx turned(6) by (auto simp: kin_def successor_of_def)
  qed
  have "distinct (map token_key rows')" using ok turned(1,7) by (auto simp: ledger_ok_def)
  moreover have "kin a b" if "a \<in> set rows'" "b \<in> set rows'" "k_family a = k_family b" for a b
    using that old new unfolding turned(1) by auto
  ultimately show ?thesis by (simp add: ledger_ok_def)
qed (use ok in simp)

text \<open>What a step cannot undo.\<close>

definition ages :: "token_row \<Rightarrow> token_row \<Rightarrow> bool" where
  "ages r r' \<longleftrightarrow> token_key r' = token_key r \<and> k_family r' = k_family r \<and> subjectOf r' = subjectOf r \<and>
     k_family_expires r' = k_family_expires r \<and> k_expires r' = k_expires r \<and>
     (k_rotated r \<noteq> None \<longrightarrow> k_rotated r' = k_rotated r) \<and> (k_revoked r \<noteq> None \<longrightarrow> k_revoked r' = k_revoked r)"

lemma ledger_step_ages:
  assumes "ledger_step rows rows'" and "r \<in> set rows"
  shows "\<exists>r' \<in> set rows'. ages r r'"
  using assms(1)
proof cases
  case (evicted tenant family now)
  then show ?thesis using assms(2) by (intro bexI [of _ "evict tenant family now r"]) (auto simp: ages_def evict_def token_key_def)
next
  case (turned x now n)
  then show ?thesis using assms(2) by (intro bexI [of _ "spend x now r"]) (auto simp: ages_def spend_def token_key_def usable_def)
qed (use assms(2) in \<open>auto simp: ages_def\<close>)

section \<open>The operations are steps\<close>

lemma token_find_facts:
  assumes "token_find hash token s d = Some r"
  shows "r \<in> set (ledger d)" and "token_visible s r" and "k_hash r = hash token"
  using find_SomeD [OF assms [unfolded token_find_def]] by simp_all

lemma token_write_parts:
  assumes "token_write hash token tenant sub now family fe s d = Inr (t, d')"
  obtains n where "d' = d\<lparr>ledger := ledger d @ [n]\<rparr>" and "t = token" and "k_hash n = hash token" and "k_tenant n = tenant"
    and "k_family n = family" and "k_family_expires n = fe" and "k_expires n = slidingExpiryFor now" and "usable n"
    and "token_key n \<notin> token_key ` set (ledger d)"
    and "k_user n = fst (columnsFor sub)" and "k_contact n = snd (columnsFor sub)"
proof (rule that)
  let ?n = "\<lparr>k_tenant = tenant, k_user = fst (columnsFor sub), k_contact = snd (columnsFor sub), k_hash = hash token,
    k_family = family, k_expires = slidingExpiryFor now, k_family_expires = fe, k_rotated = None, k_revoked = None\<rparr>"
  show "d' = d\<lparr>ledger := ledger d @ [?n]\<rparr>" and "t = token" and "token_key ?n \<notin> token_key ` set (ledger d)"
    using assms by (auto simp: token_write_def Let_def token_key_def split: if_splits)
qed (simp_all add: usable_def)

lemma subjectOf_columns:
  "subjectOf r = Some sub \<Longrightarrow> k_user n = fst (columnsFor sub) \<Longrightarrow> k_contact n = snd (columnsFor sub) \<Longrightarrow>
   subjectOf n = Some sub"
  by (auto simp: subjectOf_def split: option.splits if_splits)

lemma token_issue_step:
  assumes "token_issue hash fr tenant sub now s d = Inr (t, d')" and "ft_family fr \<notin> k_family ` set (ledger d)"
  shows "ledger_step (ledger d) (ledger d')"
  using assms(1) unfolding token_issue_def
  by (rule token_write_parts) (use assms(2) ledger_step.opened in auto)

lemma revokeFamily_evicts:
  assumes "revokeFamily family now s d = Inr (u, d')"
  shows "ledger d' = (if s_tenant s = [] then ledger d else map (evict (s_tenant s) family now) (ledger d))"
  using assms by (auto simp: revokeFamily_def token_visible_def tenant_matches_def evict_def map_idI)

lemma revokeFamily_step: "revokeFamily family now s d = Inr (u, d') \<Longrightarrow> ledger_step (ledger d) (ledger d')"
  using revokeFamily_evicts ledger_step.same ledger_step.evicted by metis

lemma unique_row:
  assumes "ledger_ok rows" and "r \<in> set rows" and "x \<in> set rows" and "token_key x = token_key r"
  shows "x = r"
  using assms by (auto simp: ledger_ok_def dest: distinct_key_eq)

lemma token_rotate_spends:
  assumes ok: "ledger_ok (ledger d)" and r: "token_find hash token s d = Some r" "k_rotated r = None"
    and sub: "subjectOf r = Some sub"
  shows "token_rotate hash fr token now s d =
      (case token_write hash (ft_token fr) (k_tenant r) sub now (k_family r) (k_family_expires r) s
              (d\<lparr>ledger := map (spend r now) (ledger d)\<rparr>) of
         Inl e \<Rightarrow> Inl e | Inr (t, d2) \<Rightarrow> Inr (Some t, d2))"
proof -
  let ?hit = "\<lambda>x. token_visible s x \<and> k_hash x = hash token \<and> k_rotated x = None"
  have hit: "?hit x \<longleftrightarrow> x = r" if "x \<in> set (ledger d)" for x
    using token_find_facts [OF r(1)] r(2) unique_row [OF ok token_find_facts(1) [OF r(1)] that]
    by (auto simp: token_visible_def tenant_matches_def token_key_def)
  have rows: "map (\<lambda>x. if ?hit x then x\<lparr>k_rotated := Some now\<rparr> else x) (ledger d) = map (spend r now) (ledger d)"
    using hit by (auto simp: spend_def intro!: map_cong)
  have some: "filter ?hit (ledger d) \<noteq> []" using hit token_find_facts(1) [OF r(1)] by (auto simp: filter_empty_conv)
  let ?d1 = "d\<lparr>ledger := map (spend r now) (ledger d)\<rparr>"
  have found: "token_find hash token s ?d1 = Some (spend r now r)"
  proof -
    have "find (\<lambda>x. token_visible s x \<and> k_hash x = hash token) (map (spend r now) xs) =
        map_option (spend r now) (find (\<lambda>x. token_visible s x \<and> k_hash x = hash token) xs)" for xs
      by (induction xs) (auto simp: spend_def token_visible_def)
    then show ?thesis using r(1) by (simp add: token_find_def)
  qed
  show ?thesis unfolding token_rotate_def Let_def rows using some found sub by simp
qed

lemma token_rotate_parts:
  assumes ok: "ledger_ok (ledger d)" and r: "token_find hash token s d = Some r" "k_rotated r = None"
    and sub: "subjectOf r = Some sub" and run: "token_rotate hash fr token now s d = Inr (t, d')"
  obtains n where "t = Some (ft_token fr)" and "ledger d' = map (spend r now) (ledger d) @ [n]"
    and "token_key n \<notin> token_key ` set (ledger d)" and "k_hash n = hash (ft_token fr)" and "k_family n = k_family r"
    and "k_tenant n = k_tenant r" and "subjectOf n = Some sub" and "k_family_expires n = k_family_expires r"
    and "k_expires n = slidingExpiryFor now" and "usable n" and "staff d' = staff d" and "customers d' = customers d"
proof -
  let ?d1 = "d\<lparr>ledger := map (spend r now) (ledger d)\<rparr>"
  note token_rotate_spends [OF ok r sub, of fr now]
  with run obtain t' where t: "t = Some t'"
    and w: "token_write hash (ft_token fr) (k_tenant r) sub now (k_family r) (k_family_expires r) s ?d1 = Inr (t', d')"
    by (auto split: sum.splits)
  obtain n where "d' = ?d1\<lparr>ledger := ledger ?d1 @ [n]\<rparr>" "t' = ft_token fr" "k_hash n = hash (ft_token fr)"
      "k_tenant n = k_tenant r" "k_family n = k_family r" "k_family_expires n = k_family_expires r"
      "k_expires n = slidingExpiryFor now" "usable n" "token_key n \<notin> token_key ` set (ledger ?d1)"
      "k_user n = fst (columnsFor sub)" "k_contact n = snd (columnsFor sub)"
    using w by (rule token_write_parts)
  then show thesis using that [of n] t subjectOf_columns [OF sub, of n] by (simp add: image_image)
qed

lemma rotate_total:
  assumes ok: "ledger_ok (ledger d)" and r: "token_find hash token s d = Some r" "k_rotated r = None"
    and sub: "subjectOf r = Some sub" and fresh: "(k_tenant r, hash (ft_token fr)) \<notin> token_key ` set (ledger d)"
    and exists: "subject_exists d (k_tenant r) sub"
  shows "is_ok (token_rotate hash fr token now s d)"
proof -
  let ?d1 = "d\<lparr>ledger := map (spend r now) (ledger d)\<rparr>"
  have "token_visible s r" by (rule token_find_facts(2) [OF r(1)])
  moreover have "(\<lambda>x. (k_tenant x, k_hash x)) ` set (ledger ?d1) = token_key ` set (ledger d)"
    by (simp add: image_image token_key_def [abs_def])
  moreover have "subject_exists ?d1 (k_tenant r) sub" using exists by (simp add: subject_exists_def split: session_subject.splits)
  ultimately show ?thesis
    using fresh unfolding token_rotate_spends [OF ok r sub]
    by (simp add: token_write_def token_visible_def)
qed

lemma classify_parts:
  assumes "token_classify hash token now s d = Some (v, sub, family)"
  obtains r where "token_find hash token s d = Some r" and "subjectOf r = Some sub" and "k_family r = family"
    and "v = classifyPresentedToken r now"
  using assms by (auto simp: token_classify_def split: option.splits)

lemma classify_rotate:
  "classifyPresentedToken r now = VRotate \<longleftrightarrow> usable r \<and> now < k_family_expires r \<and> now < k_expires r"
  by (auto simp: classifyPresentedToken_def usable_def split: if_splits)

lemma token_rotate_step:
  assumes ok: "ledger_ok (ledger d)" and r: "token_find hash token s d = Some r" "classifyPresentedToken r now = VRotate"
    and sub: "subjectOf r = Some sub" and run: "token_rotate hash fr token now s d = Inr (t, d')"
  shows "ledger_step (ledger d) (ledger d')"
proof -
  have u: "usable r" "now < k_family_expires r" "now < k_expires r" using r(2) by (simp_all add: classify_rotate)
  then have rot: "k_rotated r = None" by (simp add: usable_def)
  show ?thesis
  proof (rule token_rotate_parts [OF ok r(1) rot sub run])
    fix n
    assume d': "ledger d' = map (spend r now) (ledger d) @ [n]" and fresh: "token_key n \<notin> token_key ` set (ledger d)"
      and "k_family n = k_family r" "k_tenant n = k_tenant r" "subjectOf n = Some sub"
        "k_family_expires n = k_family_expires r" "usable n"
    then have "successor_of r n" using sub by (simp add: successor_of_def)
    then show ?thesis unfolding d' by (rule ledger_step.turned [OF token_find_facts(1) [OF r(1)] u _ fresh])
  qed
qed

lemma rotateRefreshSession_step:
  assumes ok: "ledger_ok (ledger d)" and run: "rotateRefreshSession hash fr token now expect resolve s d = Inr (x, d')"
  shows "ledger_step (ledger d) (ledger d')"
proof (cases "token_classify hash token now s d")
  case None
  then show ?thesis using run by (simp add: rotateRefreshSession_def ledger_step.same)
next
  case (Some c)
  obtain v sub family where c: "c = (v, sub, family)" by (cases c)
  obtain r where r: "token_find hash token s d = Some r" "subjectOf r = Some sub" "v = classifyPresentedToken r now"
    using Some unfolding c by (rule classify_parts)
  show ?thesis
  proof (cases v)
    case VRotate
    then show ?thesis
      using run Some c r token_rotate_step [OF ok r(1) _ r(2)]
      by (auto simp: rotateRefreshSession_def ledger_step.same split: if_splits option.splits sum.splits)
  next
    case VReplay
    then show ?thesis
      using run Some c revokeFamily_step
      by (auto simp: rotateRefreshSession_def ledger_step.same split: if_splits sum.splits)
  next
    case (VReject reason)
    then show ?thesis using run Some c by (auto simp: rotateRefreshSession_def ledger_step.same split: if_splits)
  qed
qed

lemma withTenant_run:
  assumes "withTenant now ctx work d = Inr r"
  obtains s where "work s d = Inr r" and "s_tenant s = ctx_tenant ctx" and "s_tenant s \<noteq> []" and "s_now s = now"
    and "s_actor_kind s = ''system'' \<longleftrightarrow> ctx_actor_kind ctx = Some ''system''"
proof -
  obtain kind i where c: "contextSettings ctx = Inr (ctx_tenant ctx, kind, i)"
    and w: "work (tenant_session now (ctx_tenant ctx) kind i) d = Inr r"
    using assms by (rule withTenant_session)
  have "ctx_tenant ctx \<noteq> []" using contextSettings_shape(2) [OF c] is_uuid_not_Nil by blast
  moreover have "kind = ''system'' \<longleftrightarrow> ctx_actor_kind ctx = Some ''system''"
    using c by (auto simp: contextSettings_def split: if_splits option.splits)
  ultimately show thesis using that [OF w] by simp
qed

lemma issueSession_state:
  assumes "issueSession cr d r = (res, d')"
  shows "d' = d \<or> (\<exists>x. r = Inr (x, d'))"
  using assms by (auto simp: issueSession_def split: sum.splits option.splits prod.splits)

section \<open>The services\<close>

lemma begin_session_step:
  assumes "begin_session cr fr p sub s d = Inr (x, d')" and "ft_family fr \<notin> k_family ` set (ledger d)"
  shows "ledger_step (ledger d) (ledger d')"
  using assms token_issue_step by (auto simp: begin_session_def split: sum.splits)

lemma withTenant_step:
  assumes "\<And>s x d'. work s d = Inr (x, d') \<Longrightarrow> ledger_step (ledger d) (ledger d')"
    and "withTenant now ctx work d = Inr (x, d')"
  shows "ledger_step (ledger d) (ledger d')"
  by (rule withTenant_run [OF assms(2)]) (rule assms(1))

lemma issue_step:
  assumes "issueSession cr d (withTenant now ctx work d) = (res, d')"
    and "\<And>s x d'. work s d = Inr (x, d') \<Longrightarrow> ledger_step (ledger d) (ledger d')"
  shows "ledger_step (ledger d) (ledger d')"
proof (cases "d' = d")
  case False
  then obtain x where "withTenant now ctx work d = Inr (x, d')" using issueSession_state [OF assms(1)] by blast
  then show ?thesis by (rule withTenant_step [rotated]) (rule assms(2))
qed (simp add: ledger_step.same)

lemma signIn_step:
  assumes "signIn cr now fr tenant email password d = (res, d')" and "ft_family fr \<notin> k_family ` set (ledger d)"
  shows "ledger_step (ledger d) (ledger d')"
  using assms(1) unfolding signIn_def
  by (rule issue_step)
    (auto simp: Let_def split: option.splits if_splits intro: ledger_step.same begin_session_step [OF _ assms(2)])

lemma portal_signIn_step:
  assumes "portal_signIn cr now fr tenant email password d = (res, d')" and "ft_family fr \<notin> k_family ` set (ledger d)"
  shows "ledger_step (ledger d) (ledger d')"
  using assms(1) unfolding portal_signIn_def
  by (rule issue_step)
    (auto simp: Let_def split: option.splits if_splits intro: ledger_step.same begin_session_step [OF _ assms(2)])

lemma auth_refresh_step:
  assumes "auth_refresh cr now fr tenant token d = (res, d')" and "ledger_ok (ledger d)"
  shows "ledger_step (ledger d) (ledger d')"
  using assms(1) unfolding auth_refresh_def by (rule issue_step) (rule rotateRefreshSession_step [OF assms(2)])

lemma portal_refresh_step:
  assumes "portal_refresh cr now fr tenant token d = (res, d')" and "ledger_ok (ledger d)"
  shows "ledger_step (ledger d) (ledger d')"
  using assms(1) unfolding portal_refresh_def by (rule issue_step) (rule rotateRefreshSession_step [OF assms(2)])

lemma signing_out_step:
  assumes "withTenant now ctx (\<lambda>s d. case token_classify h token now s d of
       None \<Rightarrow> Inr ((), d) | Some (verdict, sub, family) \<Rightarrow> revokeFamily family now s d) d = Inr (u, d')"
  shows "ledger_step (ledger d) (ledger d')"
proof (rule withTenant_step [OF _ assms])
  fix s x d1
  assume run: "(case token_classify h token now s d of
       None \<Rightarrow> Inr ((), d) | Some (verdict, sub, family) \<Rightarrow> revokeFamily family now s d) = Inr (x, d1)"
  show "ledger_step (ledger d) (ledger d1)"
  proof (cases "token_classify h token now s d")
    case (Some c)
    then obtain family where "revokeFamily family now s d = Inr (x, d1)" using run by (cases c) simp
    then show ?thesis by (rule revokeFamily_step)
  qed (use run ledger_step.same in simp)
qed

lemma signOut_step:
  "signOut cr now tenant token d = Inr (u, d') \<Longrightarrow> ledger_step (ledger d) (ledger d')"
  "portal_signOut cr now tenant token d = Inr (u, d') \<Longrightarrow> ledger_step (ledger d) (ledger d')"
  unfolding signOut_def portal_signOut_def by (erule signing_out_step)+

lemma update_ledger [simp]:
  "user_update uid f s d = Inr (u, d') \<Longrightarrow> ledger d' = ledger d"
  "spend_invitation i now s d = (n, d') \<Longrightarrow> ledger d' = ledger d"
  by (auto simp: user_update_def spend_invitation_def Let_def split: if_splits)

lemma google_invitation_keeps:
  assumes "google_invitation now uid s d = Some d1"
  shows "ledger d1 = ledger d" and "staff d1 = staff d"
    and "find (\<lambda>i. invitation_visible s i \<and> iv_user i = uid) (invitations d) = Some i \<Longrightarrow>
      iv_accepted i \<noteq> None \<or> now < iv_expires i"
  using assms
  by (auto simp: google_invitation_def spend_invitation_def classifyInvitation_def Let_def split: option.splits if_splits)

lemma google_link_keeps:
  assumes "google_link g u s d = Inr (x, d')"
  shows "ledger d' = ledger d"
    and "map (\<lambda>u. (u_id u, u_tenant u, u_email u, u_role u)) (staff d') = map (\<lambda>u. (u_id u, u_tenant u, u_email u, u_role u)) (staff d)"
  using assms by (auto simp: google_link_def user_update_def split: if_splits)

lemma google_work_cases:
  assumes "google_work cr now fr tenant g s d = Inr (x, d')"
  obtains (refused) "x = None" "d' = d"
  | (begun) u d1 v d2 where "google_user g s d = Some u" and "u_google u \<in> {None, Some [], Some (g_subject g)}"
      and "google_invitation now (u_id u) s d = Some d1" and "google_link g u s d1 = Inr (v, d2)"
      and "begin_session cr fr (StaffPrincipal tenant (u_id u) (u_role u)) (SubjUser (u_id u)) s d2 = Inr (x, d')"
  using assms by (auto simp: google_work_def split: option.splits if_splits sum.splits)

lemma google_work_step:
  assumes "google_work cr now fr tenant g s d = Inr (x, d')" and "ft_family fr \<notin> k_family ` set (ledger d)"
  shows "ledger_step (ledger d) (ledger d')"
  using assms(1)
proof (cases rule: google_work_cases)
  case (begun u d1 v d2)
  have "ledger d2 = ledger d" using google_link_keeps(1) [OF begun(4)] google_invitation_keeps(1) [OF begun(3)] by simp
  then show ?thesis using begin_session_step [OF begun(5)] assms(2) by simp
qed (simp add: ledger_step.same)

lemma signInWithGoogle_step:
  assumes "signInWithGoogle cr now fr tenant g d = (res, d')" and "ft_family fr \<notin> k_family ` set (ledger d)"
  shows "ledger_step (ledger d) (ledger d')"
  using assms(1) unfolding signInWithGoogle_def by (rule issue_step) (rule google_work_step [OF _ assms(2)])

lemma begin_session_keeps:
  assumes "begin_session cr fr p sub s d = Inr (x, d')"
  shows "staff d' = staff d" and "\<exists>t. x = Some (p, t)"
  using assms by (auto simp: begin_session_def token_issue_def split: sum.splits elim!: token_write_parts)

lemma invite_ledger: "invite cr now fresh tenant bu br email nam role d = Inr (x, d') \<Longrightarrow> ledger d' = ledger d"
  by (auto simp: invite_def user_create_def invitation_create_def asPrincipal_def withTenant_def
      split: prod.splits sum.splits if_splits)

lemma accept_ledger: "accept cr now tenant token h d = Inr (x, d') \<Longrightarrow> ledger d' = ledger d"
  by (auto simp: accept_def accept_write_def withTenant_def split: sum.splits prod.splits if_splits)

section \<open>Histories\<close>

text \<open>
  The operations that reach the tables, in any order. A family identifier is drawn at random
  when a session begins and is not one of the ledger's; other services only add people.
\<close>

inductive auth_step :: "crypto \<Rightarrow> identity \<Rightarrow> identity \<Rightarrow> bool" for cr where
  signed_in: "signIn cr now fr tenant email password d = (res, d') \<Longrightarrow> ft_family fr \<notin> k_family ` set (ledger d) \<Longrightarrow> auth_step cr d d'"
| portal_signed_in: "portal_signIn cr now fr tenant email password d = (res, d') \<Longrightarrow> ft_family fr \<notin> k_family ` set (ledger d) \<Longrightarrow> auth_step cr d d'"
| google_signed_in: "signInWithGoogle cr now fr tenant g d = (res, d') \<Longrightarrow> ft_family fr \<notin> k_family ` set (ledger d) \<Longrightarrow> auth_step cr d d'"
| refreshed: "auth_refresh cr now fr tenant token d = (res, d') \<Longrightarrow> auth_step cr d d'"
| portal_refreshed: "portal_refresh cr now fr tenant token d = (res, d') \<Longrightarrow> auth_step cr d d'"
| signed_out: "signOut cr now tenant token d = Inr (u, d') \<Longrightarrow> auth_step cr d d'"
| portal_signed_out: "portal_signOut cr now tenant token d = Inr (u, d') \<Longrightarrow> auth_step cr d d'"
| invited: "invite cr now fresh tenant bu br email nam role d = Inr (x, d') \<Longrightarrow> auth_step cr d d'"
| accepted: "accept cr now tenant token h d = Inr (x, d') \<Longrightarrow> auth_step cr d d'"
| people: "auth_step cr d (d\<lparr>staff := us, customers := cs\<rparr>)"

inductive auth_later :: "crypto \<Rightarrow> identity \<Rightarrow> identity \<Rightarrow> bool" for cr where
  now: "auth_later cr d d"
| step: "auth_later cr d d' \<Longrightarrow> auth_step cr d' d'' \<Longrightarrow> auth_later cr d d''"

definition auth_reachable :: "crypto \<Rightarrow> identity \<Rightarrow> bool" where
  "auth_reachable cr d \<longleftrightarrow> (\<exists>d0. ledger d0 = [] \<and> auth_later cr d0 d)"

lemma auth_step_ledger:
  assumes "auth_step cr d d'" and "ledger_ok (ledger d)"
  shows "ledger_step (ledger d) (ledger d')"
  using assms(1)
proof cases
  case (invited now fresh tenant bu br email nam role x)
  then show ?thesis using invite_ledger ledger_step.same by metis
next
  case (accepted now tenant token h x)
  then show ?thesis using accept_ledger ledger_step.same by metis
qed (use assms(2) in \<open>simp_all add: signIn_step portal_signIn_step signInWithGoogle_step auth_refresh_step
  portal_refresh_step ledger_step.same signOut_step [where u = "()"]\<close>)

lemma auth_later_ledger:
  assumes "auth_later cr d d'" and "ledger_ok (ledger d)"
  shows "ledger_ok (ledger d') \<and> (\<forall>r \<in> set (ledger d). \<exists>r' \<in> set (ledger d'). ages r r')"
  using assms
proof induction
  case (now d)
  then show ?case by (auto simp: ages_def)
next
  case (step d d' d'')
  have ok: "ledger_ok (ledger d')" and old: "\<forall>r \<in> set (ledger d). \<exists>r' \<in> set (ledger d'). ages r r'"
    using step by simp_all
  have st: "ledger_step (ledger d') (ledger d'')" by (rule auth_step_ledger [OF step(2) ok])
  have "\<exists>r'' \<in> set (ledger d''). ages r r''" if r: "r \<in> set (ledger d)" for r
  proof -
    obtain r' where "r' \<in> set (ledger d')" and a: "ages r r'" using old r by blast
    then obtain r'' where "r'' \<in> set (ledger d'')" "ages r' r''" using ledger_step_ages [OF st] by blast
    then show ?thesis using a by (intro bexI [of _ r'']) (auto simp: ages_def)
  qed
  then show ?case using ledger_step_ok [OF st ok] by blast
qed

lemma auth_reachable_ok: "auth_reachable cr d \<Longrightarrow> ledger_ok (ledger d)"
  using auth_later_ledger by (auto simp: auth_reachable_def ledger_ok_def)

section \<open>Refreshing, spelled out\<close>

definition system_session :: "millis \<Rightarrow> ident \<Rightarrow> session" where
  "system_session now tenant = tenant_session now tenant ''system'' []"

lemma withTenant_system:
  "is_uuid tenant \<Longrightarrow> withTenant now (systemContextFor tenant) work d = work (system_session now tenant) d"
  by (simp add: withTenant_def systemContextFor_def contextSettings_def isTenantIdShaped_def is_uuid_not_Nil
      ACTOR_KINDS_def system_session_def)

lemma find_of_key:
  assumes "ledger_ok (ledger d)" and "r \<in> set (ledger d)" and "k_tenant r = tenant" "tenant \<noteq> []" and "k_hash r = hash token"
  shows "token_find hash token (system_session now tenant) d = Some r"
proof -
  have "token_visible (system_session now tenant) r" using assms by (simp add: system_session_def token_visible_def tenant_matches_def)
  then obtain x where x: "token_find hash token (system_session now tenant) d = Some x"
    unfolding token_find_def using assms(2,5) by (metis (mono_tags, lifting) find_None_iff option.exhaust)
  have "token_key x = token_key r"
    using token_find_facts [OF x] assms by (simp add: token_visible_def tenant_matches_def system_session_def token_key_def)
  then show ?thesis using x unique_row [OF assms(1,2) token_find_facts(1) [OF x]] by simp
qed

lemma refresh_refused:
  assumes "ledger_ok (ledger d)" and "r \<in> set (ledger d)" and "k_tenant r = tenant" and "is_uuid tenant"
    and "k_hash r = cr_hash cr token" and "\<not> usable r"
  shows "fst (auth_refresh cr now fr tenant token d) = Inl refuseAuthentication"
    and "fst (portal_refresh cr now fr tenant token d) = Inl refuseAuthentication"
proof -
  have f: "token_find (cr_hash cr) token (system_session now tenant) d = Some r"
    by (rule find_of_key) (use assms is_uuid_not_Nil in simp_all)
  have "classifyPresentedToken r now \<noteq> VRotate" using assms(6) by (simp add: classify_rotate)
  then have "\<exists>d'. rotateRefreshSession (cr_hash cr) fr token now expect resolve (system_session now tenant) d = Inr (None, d')"
    for expect resolve
    by (cases "classifyPresentedToken r now")
      (auto simp: rotateRefreshSession_def token_classify_def f revokeFamily_def split: option.splits)
  then show "fst (auth_refresh cr now fr tenant token d) = Inl refuseAuthentication"
    "fst (portal_refresh cr now fr tenant token d) = Inl refuseAuthentication"
    by (metis (no_types, lifting) auth_refresh_def portal_refresh_def withTenant_system [OF assms(4)] issueSession_def
        fst_conv sum.case(2) prod.case option.case(1))+
qed

section \<open>An accepted token\<close>

lemma refresh_accepted:
  assumes reach: "auth_reachable cr d" and tenant: "is_uuid tenant"
    and run: "auth_refresh cr now fr tenant token d = (Inr sess, d')"
  shows "\<exists>r n u. r \<in> set (ledger d) \<and> k_tenant r = tenant \<and> k_hash r = cr_hash cr token \<and> usable r \<and>
      now < k_expires r \<and> now < k_family_expires r \<and>
      n \<in> set (ledger d') \<and> as_refresh sess = ft_token fr \<and>
      k_hash n = cr_hash cr (ft_token fr) \<and> successor_of r n \<and>
      k_expires n = now + SLIDING_WINDOW_MS \<and>
      u \<in> set (staff d) \<and> subjectOf r = Some (SubjUser (u_id u)) \<and> u_tenant u = tenant \<and>
      as_principal sess = StaffPrincipal tenant (u_id u) (u_role u)"
    and "auth_later cr d' d'' \<Longrightarrow> fst (auth_refresh cr now' fr' tenant token d'') = Inl refuseAuthentication"
proof -
  have ok: "ledger_ok (ledger d)" by (rule auth_reachable_ok [OF reach])
  let ?s = "system_session now tenant"
  obtain p t where rot: "rotateRefreshSession (cr_hash cr) fr token now StaffAxis (resolve_staff tenant) ?s d = Inr (Some (p, t), d')"
    and sess: "sess = \<lparr>as_principal = p, as_access = cr_sign cr (accessClaims p), as_refresh = t\<rparr>"
    using run by (auto simp: auth_refresh_def withTenant_system [OF tenant] issueSession_def
        split: sum.splits option.splits prod.splits)
  obtain sub fam where cl: "token_classify (cr_hash cr) token now ?s d = Some (VRotate, sub, fam)"
    and axis: "subject_axis sub = StaffAxis" and res: "resolve_staff tenant (subject_id sub) ?s d = Some p"
    and turn: "token_rotate (cr_hash cr) fr token now ?s d = Inr (Some t, d')"
    using rot by (auto simp: rotateRefreshSession_def revokeFamily_def
        split: option.splits if_splits sum.splits refresh_verdict.splits prod.splits)
  obtain r where f: "token_find (cr_hash cr) token ?s d = Some r" and sub: "subjectOf r = Some sub"
    and "VRotate = classifyPresentedToken r now"
    using cl by (rule classify_parts)
  then have u: "usable r" "now < k_family_expires r" "now < k_expires r" using classify_rotate by metis+
  note row = token_find_facts [OF f]
  obtain usr where usr: "usr \<in> set (staff d)" "u_tenant usr = tenant" "sub = SubjUser (u_id usr)"
    and p: "p = StaffPrincipal tenant (u_id usr) (u_role usr)"
    using res axis
    by (cases sub) (auto simp: resolve_staff_def user_visible_def tenant_matches_def system_session_def dest!: find_SomeD)
  have rot0: "k_rotated r = None" using u(1) by (simp add: usable_def)
  obtain n where n: "Some t = Some (ft_token fr)" "ledger d' = map (spend r now) (ledger d) @ [n]"
      "token_key n \<notin> token_key ` set (ledger d)" "k_hash n = cr_hash cr (ft_token fr)" "k_family n = k_family r"
      "k_tenant n = k_tenant r" "subjectOf n = Some sub" "k_family_expires n = k_family_expires r"
      "k_expires n = slidingExpiryFor now" "usable n"
    using token_rotate_parts [OF ok f rot0 sub turn] by metis
  then have succ: "successor_of r n" using sub by (simp add: successor_of_def)
  have home: "k_tenant r = tenant" using row(2) by (simp add: token_visible_def tenant_matches_def system_session_def)
  show "\<exists>r n u. r \<in> set (ledger d) \<and> k_tenant r = tenant \<and> k_hash r = cr_hash cr token \<and> usable r \<and>
      now < k_expires r \<and> now < k_family_expires r \<and>
      n \<in> set (ledger d') \<and> as_refresh sess = ft_token fr \<and>
      k_hash n = cr_hash cr (ft_token fr) \<and> successor_of r n \<and>
      k_expires n = now + SLIDING_WINDOW_MS \<and>
      u \<in> set (staff d) \<and> subjectOf r = Some (SubjUser (u_id u)) \<and> u_tenant u = tenant \<and>
      as_principal sess = StaffPrincipal tenant (u_id u) (u_role u)"
    using row home u n succ usr p sub sess
    by (intro exI [of _ r] exI [of _ n] exI [of _ usr]) (simp add: slidingExpiryFor_def)
  assume later: "auth_later cr d' d''"
  have ok': "ledger_ok (ledger d')" using ledger_step_ok [OF auth_refresh_step [OF run ok] ok] .
  have "spend r now r \<in> set (ledger d')" using n(2) row(1) by simp
  then obtain r2 where r2: "r2 \<in> set (ledger d'')" "ages (spend r now r) r2" and ok'': "ledger_ok (ledger d'')"
    using auth_later_ledger [OF later ok'] by blast
  then have "\<not> usable r2" "token_key r2 = token_key r" by (auto simp: ages_def spend_def usable_def token_key_def)
  then show "fst (auth_refresh cr now' fr' tenant token d'') = Inl refuseAuthentication"
    using refresh_refused(1) [OF ok'' r2(1) _ tenant] row(3) home by (simp add: token_key_def)
qed

section \<open>Properties\<close>



text \<open>
  C24. A refresh token buys one successor: when the staff endpoint accepts a token, the token
  was unspent and unrevoked and neither its own window nor the family's absolute lifetime
  had passed, the successor belongs to the same family with the same absolute expiry, the
  principal is the one its row names with the role the user has now, and the token is
  never accepted again.
\<close>

theorem refresh_single_use:
  assumes "auth_reachable cr d" and "is_uuid tenant"
    and "auth_refresh cr now fr tenant token d = (Inr sess, d')"
  shows "(\<exists>r n u. r \<in> set (ledger d) \<and> k_tenant r = tenant \<and> k_hash r = cr_hash cr token \<and> usable r \<and>
      now < k_expires r \<and> now < k_family_expires r \<and>
      n \<in> set (ledger d') \<and> as_refresh sess = ft_token fr \<and>
      k_hash n = cr_hash cr (ft_token fr) \<and> successor_of r n \<and>
      k_expires n = now + SLIDING_WINDOW_MS \<and>
      u \<in> set (staff d) \<and> subjectOf r = Some (SubjUser (u_id u)) \<and> u_tenant u = tenant \<and>
      as_principal sess = StaffPrincipal tenant (u_id u) (u_role u)) \<and>
    (\<forall>d'' now' fr'. auth_later cr d' d'' \<longrightarrow>
       fst (auth_refresh cr now' fr' tenant token d'') = Inl refuseAuthentication)"
  using refresh_accepted(1) [OF assms] refresh_accepted(2) [OF assms] by blast

text \<open>
  Revoking a family does not stop a rotation that has already read its verdict: the
  conditional update of \<open>rotate\<close> looks at \<open>rotatedAt\<close> alone, so when a sign-out commits
  between the verdict and the update of a concurrent refresh, the refresh still spends the
  revoked token and leaves a usable successor in the family that was just signed out.
\<close>

theorem rotation_outlives_sign_out:
  assumes ok: "ledger_ok (ledger d)" and tenant: "is_uuid tenant"
    and cl: "token_classify (cr_hash cr) token now (system_session now tenant) d = Some (VRotate, sub, fam)"
    and out: "signOut cr now tenant token d = Inr (u, d1)"
    and fresh: "(tenant, cr_hash cr (ft_token fr)) \<notin> token_key ` set (ledger d)" and sub: "subject_exists d tenant sub"
  shows "\<exists>d2 n. token_rotate (cr_hash cr) fr token now (system_session now tenant) d1 = Inr (Some (ft_token fr), d2) \<and>
    n \<in> set (ledger d2) \<and> k_family n = fam \<and> usable n"
proof -
  let ?s = "system_session now tenant"
  obtain r where f: "token_find (cr_hash cr) token ?s d = Some r" and r: "subjectOf r = Some sub" "k_family r = fam"
    and v: "VRotate = classifyPresentedToken r now"
    using cl by (rule classify_parts)
  have live: "usable r" using v classify_rotate by metis
  have d1: "d1 = d\<lparr>ledger := map (evict tenant fam now) (ledger d)\<rparr>"
    using out cl is_uuid_not_Nil [OF tenant]
    by (auto simp: signOut_def withTenant_system [OF tenant] revokeFamily_def token_visible_def tenant_matches_def
        system_session_def evict_def)
  have ok1: "ledger_ok (ledger d1)" using ledger_step_ok [OF ledger_step.evicted ok] by (simp add: d1)
  note row = token_find_facts [OF f]
  have kt: "k_tenant r = tenant" using row(2) by (simp add: token_visible_def tenant_matches_def system_session_def)
  let ?r = "evict tenant fam now r"
  have f1: "token_find (cr_hash cr) token ?s d1 = Some ?r"
    by (rule find_of_key [OF ok1]) (use row kt is_uuid_not_Nil [OF tenant] in \<open>simp_all add: d1 evict_def\<close>)
  have rot: "k_rotated ?r = None" using live by (simp add: usable_def evict_def)
  have sub1: "subjectOf ?r = Some sub" using r by simp
  have keys: "token_key ` set (ledger d1) = token_key ` set (ledger d)" by (simp add: d1 image_image)
  have "subject_exists d1 tenant sub" using sub by (simp add: d1 subject_exists_def split: session_subject.splits)
  then have "is_ok (token_rotate (cr_hash cr) fr token now ?s d1)"
    using rotate_total [OF ok1 f1 rot sub1] fresh keys kt by simp
  then obtain t d2 where turn: "token_rotate (cr_hash cr) fr token now ?s d1 = Inr (t, d2)"
    by (cases "token_rotate (cr_hash cr) fr token now ?s d1") auto
  from token_rotate_parts [OF ok1 f1 rot sub1 turn] obtain n where
    "t = Some (ft_token fr)" "ledger d2 = map (spend ?r now) (ledger d1) @ [n]" "k_family n = k_family ?r" "usable n"
    by metis
  then show ?thesis using turn r(2) by auto
qed


text \<open>
  Google is a way to sign in and never a way to join: whatever identity Google vouches for,
  no staff row appears or disappears and no role changes, and when a session begins its user
  already was a member of the tenant, linked to that very Google account or linked to none
  and addressed by the vouched email, with no invitation that had expired unaccepted.
\<close>

theorem google_never_provisions:
  assumes "signInWithGoogle cr now fr tenant g d = (res, d')"
  shows "map (\<lambda>u. (u_id u, u_tenant u, u_email u, u_role u)) (staff d') =
      map (\<lambda>u. (u_id u, u_tenant u, u_email u, u_role u)) (staff d) \<and>
    (\<forall>sess. res = Inr sess \<longrightarrow> (\<exists>u \<in> set (staff d).
       as_principal sess = StaffPrincipal tenant (u_id u) (u_role u) \<and> u_tenant u = tenant \<and>
       (u_google u = Some (g_subject g) \<or> u_google u \<in> {None, Some []} \<and> u_email u = g_email g) \<and>
       (\<forall>i. find (\<lambda>i. iv_tenant i = tenant \<and> iv_user i = u_id u) (invitations d) = Some i \<longrightarrow>
          iv_accepted i \<noteq> None \<or> now < iv_expires i)))"
proof (cases "withTenant now (systemContextFor tenant) (google_work cr now fr tenant g) d")
  case (Inl e)
  then show ?thesis using assms by (auto simp: signInWithGoogle_def issueSession_def)
next
  case (Inr y)
  obtain x d1 where y: "y = (x, d1)" by (cases y)
  have tenant: "is_uuid tenant"
    using Inr by (auto simp: withTenant_def contextSettings_def systemContextFor_def isTenantIdShaped_def split: sum.splits if_splits)
  let ?s = "system_session now tenant"
  have run: "google_work cr now fr tenant g ?s d = Inr (x, d1)" using Inr y by (simp add: withTenant_system [OF tenant])
  have d': "d' = d1" and res: "\<And>sess. res = Inr sess \<Longrightarrow> \<exists>p t. x = Some (p, t) \<and> as_principal sess = p"
    using assms Inr y by (auto simp: signInWithGoogle_def issueSession_def split: option.splits prod.splits)
  have vis: "user_visible ?s z \<longleftrightarrow> u_tenant z = tenant" "invitation_visible ?s j \<longleftrightarrow> iv_tenant j = tenant" for z j
    using is_uuid_not_Nil [OF tenant] by (simp_all add: user_visible_def invitation_visible_def system_session_def tenant_matches_def)
  from run show ?thesis
  proof (cases rule: google_work_cases)
    case refused
    then show ?thesis using d' res by auto
  next
    case (begun u d2 v d3)
    have u: "u \<in> set (staff d)" "u_tenant u = tenant" "u_google u = Some (g_subject g) \<or> u_email u = g_email g"
      using begun(1) by (auto simp: google_user_def vis split: option.splits dest!: find_SomeD)
    have "map (\<lambda>u. (u_id u, u_tenant u, u_email u, u_role u)) (staff d') = map (\<lambda>u. (u_id u, u_tenant u, u_email u, u_role u)) (staff d)"
      using google_link_keeps(2) [OF begun(4)] google_invitation_keeps(2) [OF begun(3)] begin_session_keeps(1) [OF begun(5)] d' by simp
    moreover have "as_principal sess = StaffPrincipal tenant (u_id u) (u_role u)" if "res = Inr sess" for sess
      using res [OF that] begin_session_keeps(2) [OF begun(5)] by auto
    moreover have "\<forall>i. find (\<lambda>i. iv_tenant i = tenant \<and> iv_user i = u_id u) (invitations d) = Some i \<longrightarrow>
        iv_accepted i \<noteq> None \<or> now < iv_expires i"
      using google_invitation_keeps(3) [OF begun(3)] by (simp add: vis)
    ultimately show ?thesis using u begun(2) by blast
  qed
qed

section \<open>A session, played through\<close>

definition tenant1 :: ident where "tenant1 = ''11111111-1111-4111-8111-111111111111''"

definition crypto1 :: crypto where
  "crypto1 = \<lparr>cr_hash = (\<lambda>t. CHR ''#'' # t), cr_argon = (\<lambda>h pw. Some (h = pw)), cr_sign = (\<lambda>_. ''jwt'')\<rparr>"

definition staff0 :: identity where
  "staff0 = \<lparr>staff = [\<lparr>u_id = ''u'', u_tenant = tenant1, u_email = ''a@b'', u_name = ''A'', u_role = ''agent'',
                      u_password = Some ''pw'', u_google = None\<rparr>],
     customers = [],
     invitations = [\<lparr>iv_id = ''i'', iv_tenant = tenant1, iv_user = ''u'', iv_hash = ''#inv'', iv_invited_by = ''u'',
                      iv_expires = 5000, iv_accepted = None\<rparr>],
     ledger = []\<rparr>"

definition signed1 :: "(thrown + auth_session) \<times> identity" where
  "signed1 = signIn crypto1 0 \<lparr>ft_token = ''T1'', ft_family = ''F''\<rparr> tenant1 ''A@b'' ''pw'' staff0"

definition refreshed1 :: "(thrown + auth_session) \<times> identity" where
  "refreshed1 = auth_refresh crypto1 1000 \<lparr>ft_token = ''T2'', ft_family = ''G''\<rparr> tenant1 ''T1'' (snd signed1)"

lemma signed1_reachable: "auth_reachable crypto1 (snd signed1)"
proof -
  have "auth_step crypto1 staff0 (snd signed1)"
    unfolding signed1_def by (rule auth_step.signed_in [OF prod.collapse [symmetric]]) (simp add: staff0_def)
  then have "auth_later crypto1 staff0 (snd signed1)" by (rule auth_later.step [OF auth_later.now])
  moreover have "ledger staff0 = []" by (simp add: staff0_def)
  ultimately show ?thesis unfolding auth_reachable_def by blast
qed

lemma refreshed1_reachable: "auth_reachable crypto1 (snd refreshed1)"
proof -
  have "auth_step crypto1 (snd signed1) (snd refreshed1)"
    unfolding refreshed1_def by (rule auth_step.refreshed [OF prod.collapse [symmetric]])
  then show ?thesis using signed1_reachable auth_later.step unfolding auth_reachable_def by blast
qed

lemma session_rows:
  "ledger (snd signed1) = [\<lparr>k_tenant = tenant1, k_user = Some ''u'', k_contact = None, k_hash = ''#T1'', k_family = ''F'',
     k_expires = 2592000000, k_family_expires = 7776000000, k_rotated = None, k_revoked = None\<rparr>]"
  "ledger (snd refreshed1) = [\<lparr>k_tenant = tenant1, k_user = Some ''u'', k_contact = None, k_hash = ''#T1'', k_family = ''F'',
     k_expires = 2592000000, k_family_expires = 7776000000, k_rotated = Some 1000, k_revoked = None\<rparr>,
     \<lparr>k_tenant = tenant1, k_user = Some ''u'', k_contact = None, k_hash = ''#T2'', k_family = ''F'',
     k_expires = 2592001000, k_family_expires = 7776000000, k_rotated = None, k_revoked = None\<rparr>]"
  "is_ok (fst refreshed1)" "is_uuid tenant1" "cr_hash crypto1 ''T1'' = ''#T1''" "cr_hash crypto1 ''T2'' = ''#T2''"
  by code_simp+



theorem refresh_single_use_witness:
  "fst (auth_refresh crypto1 3000 \<lparr>ft_token = ''T3'', ft_family = ''G''\<rparr> tenant1 ''T1'' (snd refreshed1)) = Inl refuseAuthentication"
proof -
  obtain sess where "fst refreshed1 = Inr sess" using session_rows(3) by (metis is_ok.elims(2))
  then have run: "auth_refresh crypto1 1000 \<lparr>ft_token = ''T2'', ft_family = ''G''\<rparr> tenant1 ''T1'' (snd signed1) = (Inr sess, snd refreshed1)"
    unfolding refreshed1_def by (metis prod.collapse)
  show ?thesis using refresh_single_use [OF signed1_reachable session_rows(4) run] auth_later.now by blast
qed

theorem rotation_outlives_sign_out_witness:
  "\<exists>d1 d2 n. signOut crypto1 1000 tenant1 ''T1'' (snd signed1) = Inr ((), d1) \<and>
     token_rotate (cr_hash crypto1) \<lparr>ft_token = ''T2'', ft_family = ''G''\<rparr> ''T1'' 1000 (system_session 1000 tenant1) d1 =
       Inr (Some ''T2'', d2) \<and> n \<in> set (ledger d2) \<and> k_family n = ''F'' \<and> usable n"
proof -
  have cl: "token_classify (cr_hash crypto1) ''T1'' 1000 (system_session 1000 tenant1) (snd signed1) = Some (VRotate, SubjUser ''u'', ''F'')"
    by code_simp
  have "is_ok (signOut crypto1 1000 tenant1 ''T1'' (snd signed1))" by code_simp
  then obtain d1 where out: "signOut crypto1 1000 tenant1 ''T1'' (snd signed1) = Inr ((), d1)"
    by (cases "signOut crypto1 1000 tenant1 ''T1'' (snd signed1)") auto
  have fresh: "(tenant1, cr_hash crypto1 (ft_token \<lparr>ft_token = ''T2'', ft_family = ''G''\<rparr>)) \<notin> token_key ` set (ledger (snd signed1))"
    by (simp add: session_rows token_key_def)
  have "subject_exists (snd signed1) tenant1 (SubjUser ''u'')" by code_simp
  from rotation_outlives_sign_out [OF auth_reachable_ok [OF signed1_reachable] session_rows(4) cl out fresh this]
  show ?thesis using out by (metis fresh_token.select_convs(1))
qed


theorem google_never_provisions_witness:
  "length (staff (snd (signInWithGoogle crypto1 100 \<lparr>ft_token = ''T1'', ft_family = ''F''\<rparr> tenant1
     \<lparr>g_subject = ''sub'', g_email = ''x@y''\<rparr> staff0))) = 1"
  using google_never_provisions [OF prod.collapse [symmetric], of crypto1 100 "\<lparr>ft_token = ''T1'', ft_family = ''F''\<rparr>" tenant1
      "\<lparr>g_subject = ''sub'', g_email = ''x@y''\<rparr>" staff0, THEN conjunct1, THEN arg_cong [where f = length]]
  by (simp add: staff0_def)

end
