(* ===== verification/Credentials.thy ===== *)
theory Credentials
  imports Realtime Sessions "HOL-Library.Char_ord" "HOL-Library.List_Lexorder"
begin

text \<open>
  What a request presents: service tokens (\<open>src/src/service-tokens\<close>), anonymous widget
  sessions and the origin allowlist (\<open>src/src/widget\<close>), the refresh cookie and the bearer
  guard that dispatches on the form of a credential (\<open>src/src/auth\<close>). The digest, the token
  signer and everything random are arguments.
\<close>

section \<open>Tables\<close>

record service_row =
  sv_id :: ident
  sv_tenant :: ident
  sv_name :: string
  sv_hash :: string
  sv_scopes :: "string list"
  sv_created_by :: ident
  sv_revoked :: "millis option"
  sv_created :: millis

record widget_row =
  w_id :: ident
  w_tenant :: ident
  w_contact :: "ident option"
  w_expires :: millis
  w_revoked :: "millis option"

text \<open>The tables of this component beside the shared ones; a tenant carries its origins.\<close>

record credential_tables =
  core :: db
  tenant_rows :: "(ident \<times> string list) list"
  service_tokens :: "service_row list"
  widget_sessions :: "widget_row list"

definition service_visible :: "session \<Rightarrow> service_row \<Rightarrow> bool" where
  "service_visible s r \<longleftrightarrow> tenant_matches s (sv_tenant r) \<and> \<not> current_actor_is_contact s"

definition widget_visible :: "session \<Rightarrow> widget_row \<Rightarrow> bool" where
  "widget_visible s r \<longleftrightarrow> tenant_matches s (w_tenant r) \<and>
     (\<not> current_actor_is_contact s \<or> w_contact r = Some (s_actor_id s))"

section \<open>The form of a service token\<close>

definition hashServiceToken :: "(string \<Rightarrow> string) \<Rightarrow> string \<Rightarrow> string" where
  "hashServiceToken sha256 raw = sha256 raw"

text \<open>\<open>secret\<close> is the base64url text of 32 random bytes.\<close>

definition mintServiceToken :: "(string \<Rightarrow> string) \<Rightarrow> string \<Rightarrow> ident \<Rightarrow> string \<times> string" where
  "mintServiceToken sha256 secret tenant =
     (let raw = SERVICE_TOKEN_PREFIX @ tenant @ ''.'' @ secret in (raw, hashServiceToken sha256 raw))"

definition parseServiceToken :: "(string \<Rightarrow> string) \<Rightarrow> string \<Rightarrow> (ident \<times> string) option" where
  "parseServiceToken sha256 raw =
     (if \<not> isServiceToken raw then None
      else case split_on (CHR ''.'') (drop (length SERVICE_TOKEN_PREFIX) raw) of
        [tenant, secret] \<Rightarrow>
          if tenant = [] \<or> secret = [] then None
          else if \<not> isTenantIdShaped tenant then None
          else Some (tenant, hashServiceToken sha256 raw)
      | _ \<Rightarrow> None)"

section \<open>Minting, listing, revoking, verifying\<close>

definition acceptedScopes :: "string list \<Rightarrow> thrown + permission list" where
  "acceptedScopes requested =
     (case classifyScopes requested of
        ScopesAccept scopes \<Rightarrow> Inr scopes
      | ScopesEmpty \<Rightarrow> Inl (App (app_error validation_failed
          ''A service token needs at least one scope. A token with none could authenticate and then do nothing.''))
      | ScopesUnknown offending \<Rightarrow> Inl (App (app_error validation_failed
          (''Not a permission in this API: '' @ join_with '', '' offending @
           ''. GET /service-tokens/scopes lists what may be granted.'')))
      | ScopesForbidden offending \<Rightarrow> Inl (App (app_error validation_failed
          (''These permissions cannot be granted to a service token: '' @ join_with '', '' offending @
           ''. Destructive, configuration, user-management and audit-read authority is reserved to staff.''))))"

definition audit_in :: "audit_values \<Rightarrow> (credential_tables, unit) transaction" where
  "audit_in v s c =
     (case audit_record v s (core c) of Inl e \<Rightarrow> Inl e | Inr (_, d') \<Rightarrow> Inr ((), c\<lparr>core := d'\<rparr>))"

definition token_audit :: "audit_action \<Rightarrow> ident \<Rightarrow> json \<Rightarrow> audit_values" where
  "token_audit action i metadata =
     \<lparr>v_action = action, v_target_kind = ''service_token'', v_target_id = i, v_ticket = None,
      v_from = None, v_to = None, v_metadata = Some metadata\<rparr>"

definition service_create :: "service_row \<Rightarrow> (credential_tables, service_row) transaction" where
  "service_create r s c =
     (if \<not> service_visible s r then Inl policy_error
      else if sv_id r \<in> sv_id ` set (service_tokens c) \<or> sv_hash r \<in> sv_hash ` set (service_tokens c)
      then Inl unique_error
      else if (sv_tenant r, sv_created_by r) \<notin> set (users (core c)) then Inl foreign_key_error
      else Inr (r, c\<lparr>service_tokens := service_tokens c @ [r]\<rparr>))"

text \<open>\<open>fresh\<close> is the row id and the secret that are drawn.\<close>

definition token_mint ::
  "(string \<Rightarrow> string) \<Rightarrow> millis \<Rightarrow> ident \<times> string \<Rightarrow> ident \<Rightarrow> ident \<Rightarrow> string \<Rightarrow> string \<Rightarrow> string list \<Rightarrow>
   credential_tables \<Rightarrow> thrown + ((service_row \<times> string) \<times> credential_tables)" where
  "token_mint sha256 now fresh tenant by_user by_role nam requested c =
     (case acceptedScopes requested of
        Inl e \<Rightarrow> Inl e
      | Inr scopes \<Rightarrow>
          (case mintServiceToken sha256 (snd fresh) tenant of (raw, h) \<Rightarrow>
             asPrincipal now (StaffPrincipal tenant by_user by_role) (\<lambda>s c.
               case service_create \<lparr>sv_id = fst fresh, sv_tenant = tenant, sv_name = nam, sv_hash = h,
                      sv_scopes = map permission_name scopes, sv_created_by = by_user, sv_revoked = None,
                      sv_created = now\<rparr> s c of
                 Inl e \<Rightarrow> Inl e
               | Inr (created, c1) \<Rightarrow>
                   (case audit_in (token_audit token_minted (sv_id created)
                           (JObj [(''name'', JStr (sv_name created)),
                                  (''scopes'', JArr (map (\<lambda>p. JStr (permission_name p)) scopes))])) s c1 of
                      Inl e \<Rightarrow> Inl e
                    | Inr (_, c2) \<Rightarrow> Inr ((created, raw), c2))) c))"

definition token_list ::
  "millis \<Rightarrow> request_principal \<Rightarrow> credential_tables \<Rightarrow> thrown + (service_row list \<times> credential_tables)" where
  "token_list now p c =
     asPrincipal now p (\<lambda>s c.
       Inr (rev (sort_key sv_created (sort_key sv_id (filter (service_visible s) (service_tokens c)))), c)) c"

definition revoke_conflict :: thrown where
  "revoke_conflict = App (app_error conflict
     (''This service token is already revoked. Revocation is final '' @ [CHR 0xE2, CHR 0x80, CHR 0x94] @
      '' mint a new token to restore access.''))"

definition token_revoke ::
  "millis \<Rightarrow> request_principal \<Rightarrow> ident \<Rightarrow> credential_tables \<Rightarrow> thrown + (unit \<times> credential_tables)" where
  "token_revoke now p i c =
     asPrincipal now p (\<lambda>s c.
       case find (\<lambda>r. service_visible s r \<and> sv_id r = i) (service_tokens c) of
         None \<Rightarrow> Inl (App (notFound ''ServiceToken''))
       | Some existing \<Rightarrow>
           (let hit = (\<lambda>r. service_visible s r \<and> sv_id r = i \<and> sv_revoked r = None);
                c1 = c\<lparr>service_tokens :=
                   map (\<lambda>r. if hit r then r\<lparr>sv_revoked := Some now\<rparr> else r) (service_tokens c)\<rparr>
            in if filter hit (service_tokens c) = [] then Inl revoke_conflict
               else audit_in (token_audit token_revoked i (JObj [(''name'', JStr (sv_name existing))])) s c1)) c"

definition token_verify ::
  "(string \<Rightarrow> string) \<Rightarrow> millis \<Rightarrow> string \<Rightarrow> credential_tables \<Rightarrow> thrown + request_principal option" where
  "token_verify sha256 now raw c =
     (case parseServiceToken sha256 raw of
        None \<Rightarrow> Inr None
      | Some (tenant, h) \<Rightarrow>
          (case withTenant now (systemContextFor tenant) (\<lambda>s c.
                  Inr (find (\<lambda>r. service_visible s r \<and> sv_hash r = h) (service_tokens c), c)) c of
             Inl e \<Rightarrow> Inl e
           | Inr (None, _) \<Rightarrow> Inr None
           | Inr (Some r, _) \<Rightarrow>
               if sv_revoked r \<noteq> None then Inr None
               else Inr (Some (ServicePrincipal (sv_tenant r) (sv_id r) (grantedScopes (sv_scopes r))))))"

section \<open>The origin allowlist\<close>

text \<open>\<open>replace(/\/+$/, '')\<close> drops the trailing slashes.\<close>

definition drop_slashes :: "string \<Rightarrow> string" where
  "drop_slashes v = rev (dropWhile (\<lambda>x. x = CHR ''/'') (rev v))"

definition normalizeOrigin :: "string option \<Rightarrow> string option" where
  "normalizeOrigin value =
     (case value of
        None \<Rightarrow> None
      | Some v \<Rightarrow> if trim v = [] \<or> trim v = ''null'' then None else Some (drop_slashes (lower (trim v))))"

definition originIsAllowed :: "string option \<Rightarrow> string list \<Rightarrow> bool" where
  "originIsAllowed origin allowed =
     (case normalizeOrigin origin of
        None \<Rightarrow> False
      | Some candidate \<Rightarrow> list_ex (\<lambda>entry. normalizeOrigin (Some entry) = Some candidate) allowed)"

section \<open>Widget sessions\<close>

definition WIDGET_SESSION_TTL_SECONDS :: int where "WIDGET_SESSION_TTL_SECONDS = 30 * 60"

definition stripWidgetPrefix :: "string \<Rightarrow> string" where
  "stripWidgetPrefix v = drop (length WIDGET_TOKEN_PREFIX) v"

definition sessionFromClaims :: "json \<Rightarrow> (ident \<times> ident) option" where
  "sessionFromClaims claims =
     (if json_field claims ''kind'' \<noteq> Some (JStr ''widget'') then None
      else case isNonEmptyString (json_field claims ''sub'') of
        None \<Rightarrow> None
      | Some sub \<Rightarrow>
          (case isNonEmptyString (json_field claims ''tenantId'') of
             None \<Rightarrow> None
           | Some tenant \<Rightarrow> Some (sub, tenant)))"

definition refuseOrigin :: thrown where
  "refuseOrigin = App (app_error forbidden ''This origin may not start a widget session for this tenant.'')"

definition expiryFrom :: "millis \<Rightarrow> millis" where
  "expiryFrom now = now + WIDGET_SESSION_TTL_SECONDS * 1000"

definition originPasses :: "ident \<Rightarrow> string option \<Rightarrow> session \<Rightarrow> credential_tables \<Rightarrow> bool" where
  "originPasses tenant origin s c =
     (case find (\<lambda>t. tenant_matches s (fst t) \<and> fst t = tenant) (tenant_rows c) of
        None \<Rightarrow> False
      | Some t \<Rightarrow> originIsAllowed origin (snd t))"

record widget_grant =
  wg_token :: string
  wg_expires_in :: int

definition widget_claims :: "ident \<Rightarrow> ident \<Rightarrow> (string \<times> json) list" where
  "widget_claims sid tenant = [(''kind'', JStr ''widget''), (''sub'', JStr sid), (''tenantId'', JStr tenant)]"

text \<open>\<open>Math.round\<close> rounds a half up; \<open>later\<close> is the clock when the grant is made.\<close>

definition grantFor ::
  "((string \<times> json) list \<Rightarrow> string) \<Rightarrow> millis \<Rightarrow> ident \<Rightarrow> ident \<Rightarrow> millis \<Rightarrow> widget_grant" where
  "grantFor sign later sid tenant expires =
     \<lparr>wg_token = WIDGET_TOKEN_PREFIX @ sign (widget_claims sid tenant),
      wg_expires_in = max 0 ((expires - later + 500) div 1000)\<rparr>"

definition widget_create :: "widget_row \<Rightarrow> (credential_tables, widget_row) transaction" where
  "widget_create r s c =
     (if \<not> widget_visible s r then Inl policy_error
      else if w_id r \<in> w_id ` set (widget_sessions c) then Inl unique_error
      else if w_tenant r \<notin> fst ` set (tenant_rows c) then Inl foreign_key_error
      else Inr (r, c\<lparr>widget_sessions := widget_sessions c @ [r]\<rparr>))"

definition widget_bootstrap ::
  "((string \<times> json) list \<Rightarrow> string) \<Rightarrow> millis \<Rightarrow> millis \<Rightarrow> ident \<Rightarrow> ident \<Rightarrow> string option \<Rightarrow> credential_tables \<Rightarrow>
   thrown + (widget_grant \<times> credential_tables)" where
  "widget_bootstrap sign now later fresh tenant origin c =
     (case withTenant now (systemContextFor tenant) (\<lambda>s c.
             if \<not> originPasses tenant origin s c then Inr (None, c)
             else (case widget_create \<lparr>w_id = fresh, w_tenant = tenant, w_contact = None,
                          w_expires = expiryFrom now, w_revoked = None\<rparr> s c of
                     Inl e \<Rightarrow> Inl e
                   | Inr (r, c') \<Rightarrow> Inr (Some (w_id r), c'))) c of
        Inl e \<Rightarrow> Inl e
      | Inr (None, _) \<Rightarrow> Inl refuseOrigin
      | Inr (Some sid, c') \<Rightarrow> Inr (grantFor sign later sid tenant (expiryFrom now), c'))"

text \<open>\<open>jwt_verify\<close> is \<open>verifyAsync\<close> under the widget's key, issuer, audience and algorithm.\<close>

definition widget_verify ::
  "(string \<Rightarrow> json option) \<Rightarrow> millis \<Rightarrow> string \<Rightarrow> credential_tables \<Rightarrow> thrown + request_principal option" where
  "widget_verify jwt_verify now raw c =
     (case jwt_verify (stripWidgetPrefix raw) of
        None \<Rightarrow> Inr None
      | Some claims \<Rightarrow>
          (case sessionFromClaims claims of
             None \<Rightarrow> Inr None
           | Some (sid, tenant) \<Rightarrow>
               (case withTenant now (systemContextFor tenant) (\<lambda>s c.
                       Inr (find (\<lambda>r. widget_visible s r \<and> w_id r = sid) (widget_sessions c), c)) c of
                  Inl e \<Rightarrow> Inl e
                | Inr (None, _) \<Rightarrow> Inr None
                | Inr (Some r, _) \<Rightarrow>
                    if w_revoked r \<noteq> None then Inr None
                    else if w_expires r \<le> now then Inr None
                    else Inr (Some (WidgetPrincipal tenant (w_id r) (w_contact r))))))"

datatype renew_outcome = OriginRefused | Renewed | SessionDead

definition widget_renew ::
  "((string \<times> json) list \<Rightarrow> string) \<Rightarrow> millis \<Rightarrow> millis \<Rightarrow> ident \<Rightarrow> ident \<Rightarrow> string option \<Rightarrow> credential_tables \<Rightarrow>
   thrown + (widget_grant \<times> credential_tables)" where
  "widget_renew sign now later tenant sid origin c =
     (case withTenant now (systemContextFor tenant) (\<lambda>s c.
             if \<not> originPasses tenant origin s c then Inr (OriginRefused, c)
             else (let hit = (\<lambda>r. widget_visible s r \<and> w_id r = sid \<and> w_revoked r = None);
                       c' = c\<lparr>widget_sessions := map (\<lambda>r. if hit r then r\<lparr>w_expires := expiryFrom now\<rparr> else r)
                                (widget_sessions c)\<rparr>
                   in if length (filter hit (widget_sessions c)) = 1 then Inr (Renewed, c') else Inr (SessionDead, c'))) c of
        Inl e \<Rightarrow> Inl e
      | Inr (OriginRefused, _) \<Rightarrow> Inl refuseOrigin
      | Inr (SessionDead, _) \<Rightarrow> Inl (App (app_error unauthenticated
          ''This widget session can no longer be renewed. Start a new one.''))
      | Inr (Renewed, c') \<Rightarrow> Inr (grantFor sign later sid tenant (expiryFrom now), c'))"

definition lockSession :: "ident \<Rightarrow> session \<Rightarrow> credential_tables \<Rightarrow> widget_row option" where
  "lockSession sid s c = find (\<lambda>r. widget_visible s r \<and> w_id r = sid \<and> w_revoked r = None) (widget_sessions c)"

text \<open>\<open>fresh\<close> is the id of the contact row that the database would create.\<close>

definition contactPrincipalFor ::
  "millis \<Rightarrow> ident \<Rightarrow> ident \<Rightarrow> ident \<Rightarrow> ident option \<Rightarrow> credential_tables \<Rightarrow>
   thrown + (request_principal \<times> credential_tables)" where
  "contactPrincipalFor now fresh tenant sid known c =
     (if known \<notin> {None, Some []} then Inr (ContactPrincipal tenant (the known), c)
      else case withTenant now (systemContextFor tenant) (\<lambda>s c.
             case lockSession sid s c of
               None \<Rightarrow> Inr (None, c)
             | Some locked \<Rightarrow>
                 if w_contact locked \<notin> {None, Some []} then Inr (w_contact locked, c)
                 else if fresh \<in> snd ` set (contacts (core c)) then Inl unique_error
                 else (let c1 = c\<lparr>core := (core c)\<lparr>contacts := contacts (core c) @ [(tenant, fresh)]\<rparr>\<rparr>
                       in Inr (Some fresh, c1\<lparr>widget_sessions :=
                            map (\<lambda>r. if widget_visible s r \<and> w_id r = sid then r\<lparr>w_contact := Some fresh\<rparr> else r)
                              (widget_sessions c1)\<rparr>))) c of
        Inl e \<Rightarrow> Inl e
      | Inr (i, c') \<Rightarrow>
          if i \<in> {None, Some []} then Inl (App (app_error unauthenticated ''This widget session is no longer valid.''))
          else Inr (ContactPrincipal tenant (the i), c'))"

section \<open>The bearer guard\<close>

definition bearerToken :: "string option \<Rightarrow> string option" where
  "bearerToken header =
     (case header of
        None \<Rightarrow> None
      | Some h \<Rightarrow>
          if h = [] then None
          else (case split_on (CHR '' '') h of
                  [] \<Rightarrow> None
                | scheme # rest \<Rightarrow>
                    if lower scheme \<noteq> ''bearer'' then None
                    else if trim (join_with '' '' rest) = [] then None else Some (trim (join_with '' '' rest))))"

definition auth_resolve ::
  "verifier \<Rightarrow> verifier \<Rightarrow> verifier \<Rightarrow> string \<Rightarrow> thrown + request_principal option" where
  "auth_resolve service widget access token =
     (if isServiceToken token then service token
      else if isWidgetToken token then widget token
      else access token)"

definition unauthenticated_thrown :: thrown where
  "unauthenticated_thrown = App (app_error unauthenticated ''A valid access token is required for this operation.'')"

text \<open>The principal that the guard leaves on the request; \<open>None\<close> on a public route.\<close>

definition auth_canActivate ::
  "bool option list \<Rightarrow> verifier \<Rightarrow> verifier \<Rightarrow> verifier \<Rightarrow> string option \<Rightarrow> thrown + request_principal option" where
  "auth_canActivate public service widget access header =
     (if getAllAndOverride public = Some True then Inr None
      else case bearerToken header of
        None \<Rightarrow> Inl unauthenticated_thrown
      | Some token \<Rightarrow>
          (case auth_resolve service widget access token of
             Inl e \<Rightarrow> Inl e
           | Inr None \<Rightarrow> Inl unauthenticated_thrown
           | Inr (Some p) \<Rightarrow> Inr (Some p)))"

section \<open>The refresh cookie\<close>

record cookie_surface =
  ck_name :: string
  ck_path :: string

definition STAFF_REFRESH_COOKIE :: cookie_surface where
  "STAFF_REFRESH_COOKIE = \<lparr>ck_name = ''nivara_refresh'', ck_path = ''/auth''\<rparr>"

definition PORTAL_REFRESH_COOKIE :: cookie_surface where
  "PORTAL_REFRESH_COOKIE = \<lparr>ck_name = ''nivara_portal_refresh'', ck_path = ''/portal/auth''\<rparr>"

definition encodeRefreshCookie :: "ident \<Rightarrow> string \<Rightarrow> string" where
  "encodeRefreshCookie tenant token = tenant @ ''.'' @ token"

text \<open>\<open>indexOf\<close> finds the first separator, so the token keeps any later one.\<close>

definition decodeRefreshCookie :: "string option \<Rightarrow> (ident \<times> string) option" where
  "decodeRefreshCookie value =
     (case value of
        None \<Rightarrow> None
      | Some v \<Rightarrow>
          (let tenant = takeWhile (\<lambda>x. x \<noteq> CHR ''.'') v; token = drop (length tenant + 1) v
           in if v = [] \<or> tenant = v \<or> tenant = [] then None
              else if token = [] then None
              else if \<not> isTenantIdShaped tenant then None
              else Some (tenant, token)))"

record cookie_options =
  co_http_only :: bool
  co_secure :: bool
  co_same_site :: string
  co_path :: string
  co_max_age :: "millis option"

definition refreshCookieOptions :: "cookie_surface \<Rightarrow> bool \<Rightarrow> cookie_options" where
  "refreshCookieOptions surface secure =
     \<lparr>co_http_only = True, co_secure = secure, co_same_site = (if secure then ''none'' else ''lax''),
      co_path = ck_path surface, co_max_age = Some SLIDING_WINDOW_MS\<rparr>"

text \<open>A browser's jar: cookies by name and path.\<close>

type_synonym cookie_jar = "((string \<times> string) \<times> string) list"

definition setRefreshCookie :: "cookie_surface \<Rightarrow> string \<Rightarrow> bool \<Rightarrow> cookie_jar \<Rightarrow> cookie_jar" where
  "setRefreshCookie surface value secure jar =
     AList.update (ck_name surface, co_path (refreshCookieOptions surface secure)) value jar"

definition clearRefreshCookie :: "cookie_surface \<Rightarrow> bool \<Rightarrow> cookie_jar \<Rightarrow> cookie_jar" where
  "clearRefreshCookie surface secure jar =
     AList.delete (ck_name surface, co_path ((refreshCookieOptions surface secure)\<lparr>co_max_age := None\<rparr>)) jar"

definition readRefreshCookie :: "json option \<Rightarrow> cookie_surface \<Rightarrow> string option" where
  "readRefreshCookie cookies surface =
     (case cookies of
        None \<Rightarrow> None
      | Some c \<Rightarrow> (case json_field c (ck_name surface) of Some (JStr v) \<Rightarrow> Some v | _ \<Rightarrow> None))"


section \<open>Steps of the component\<close>

inductive cred_step :: "credential_tables \<Rightarrow> credential_tables \<Rightarrow> bool" where
  minted: "token_mint sha now fr tenant u role nam req c = Inr (x, c') \<Longrightarrow> cred_step c c'"
| revoked: "token_revoke now p i c = Inr (x, c') \<Longrightarrow> cred_step c c'"
| started: "widget_bootstrap sign now later i tenant origin c = Inr (g, c') \<Longrightarrow> cred_step c c'"
| renewed: "widget_renew sign now later tenant sid origin c = Inr (g, c') \<Longrightarrow> cred_step c c'"
| identified: "contactPrincipalFor now i tenant sid known c = Inr (p, c') \<Longrightarrow> cred_step c c'"

inductive cred_later :: "credential_tables \<Rightarrow> credential_tables \<Rightarrow> bool" where
  now: "cred_later c c"
| step: "cred_later c c1 \<Longrightarrow> cred_step c1 c2 \<Longrightarrow> cred_later c c2"

definition tokens_ok :: "credential_tables \<Rightarrow> bool" where
  "tokens_ok c \<longleftrightarrow> distinct (map sv_hash (service_tokens c)) \<and> distinct (map sv_id (service_tokens c))"

definition sessions_ok :: "credential_tables \<Rightarrow> bool" where
  "sessions_ok c \<longleftrightarrow> distinct (map w_id (widget_sessions c))"

text \<open>A row as it may be later: a service token only ever becomes revoked.\<close>

definition ages_token :: "service_row \<Rightarrow> service_row \<Rightarrow> bool" where
  "ages_token r r' \<longleftrightarrow> sv_id r' = sv_id r \<and> sv_tenant r' = sv_tenant r \<and> sv_hash r' = sv_hash r \<and>
     sv_scopes r' = sv_scopes r \<and> (sv_revoked r \<noteq> None \<longrightarrow> sv_revoked r' = sv_revoked r)"

text \<open>A widget session keeps its contact once it has one; only its expiry moves.\<close>

definition ages_session :: "widget_row \<Rightarrow> widget_row \<Rightarrow> bool" where
  "ages_session r r' \<longleftrightarrow> w_id r' = w_id r \<and> w_tenant r' = w_tenant r \<and> w_revoked r' = w_revoked r \<and>
     (w_contact r \<notin> {None, Some []} \<longrightarrow> w_contact r' = w_contact r)"

definition grown :: "('a \<Rightarrow> 'a \<Rightarrow> bool) \<Rightarrow> 'a list \<Rightarrow> 'a list \<Rightarrow> bool" where
  "grown R xs ys \<longleftrightarrow> (\<exists>f zs. ys = map f xs @ zs \<and> (\<forall>x \<in> set xs. R x (f x)))"

lemma ages_token_refl [simp]: "ages_token r r" and ages_session_refl [simp]: "ages_session q q"
  by (simp_all add: ages_token_def ages_session_def)

lemma grown_refl: "(\<And>x. R x x) \<Longrightarrow> grown R xs xs"
  unfolding grown_def by (intro exI [of _ id] exI [of _ "[]"]) simp

lemma grown_map: "(\<And>x. x \<in> set xs \<Longrightarrow> R x (f x)) \<Longrightarrow> grown R xs (map f xs)"
  unfolding grown_def by (intro exI [of _ f] exI [of _ "[]"]) simp

lemma grown_append: "(\<And>x. R x x) \<Longrightarrow> grown R xs (xs @ zs)"
  unfolding grown_def by (intro exI [of _ id] exI [of _ zs]) simp

lemma grownD: "grown R xs ys \<Longrightarrow> x \<in> set xs \<Longrightarrow> \<exists>y \<in> set ys. R x y"
  by (auto simp: grown_def)

lemma grown_trans:
  assumes "grown R xs ys" and "grown R ys zs" and "\<And>a b c. R a b \<Longrightarrow> R b c \<Longrightarrow> R a c"
  shows "grown R xs zs"
proof -
  obtain f us where f: "ys = map f xs @ us" "\<forall>x \<in> set xs. R x (f x)" using assms(1) by (auto simp: grown_def)
  obtain g vs where g: "zs = map g ys @ vs" "\<forall>y \<in> set ys. R y (g y)" using assms(2) by (auto simp: grown_def)
  show ?thesis
    unfolding grown_def
    by (intro exI [of _ "g \<circ> f"] exI [of _ "map g us @ vs"]) (use f g assms(3) in auto)
qed

lemma ages_token_trans: "ages_token a b \<Longrightarrow> ages_token b c \<Longrightarrow> ages_token a c"
  by (auto simp: ages_token_def)

lemma ages_session_trans: "ages_session a b \<Longrightarrow> ages_session b c \<Longrightarrow> ages_session a c"
  unfolding ages_session_def by (metis (no_types, lifting))

subsection \<open>What each operation does to the two tables\<close>

lemma audit_in_tables:
  "audit_in v s c = Inr (u, c') \<Longrightarrow> service_tokens c' = service_tokens c \<and> widget_sessions c' = widget_sessions c"
  by (auto simp: audit_in_def split: sum.splits)

lemma service_create_Inr:
  assumes "service_create r s c = Inr (r', c')"
  shows "r' = r" and "c' = c\<lparr>service_tokens := service_tokens c @ [r]\<rparr>" and "sv_hash r \<notin> sv_hash ` set (service_tokens c)"
    and "sv_id r \<notin> sv_id ` set (service_tokens c)"
  using assms by (auto simp: service_create_def split: if_splits)

lemma token_mint_parts:
  assumes "token_mint sha now fr tenant u role nam req c = Inr ((r, raw), c')"
  obtains scopes where "acceptedScopes req = Inr scopes" "(raw, sv_hash r) = mintServiceToken sha (snd fr) tenant"
    "sv_id r = fst fr" "sv_tenant r = tenant" "sv_scopes r = map permission_name scopes" "sv_revoked r = None"
    "service_tokens c' = service_tokens c @ [r]" "widget_sessions c' = widget_sessions c"
    "sv_hash r \<notin> sv_hash ` set (service_tokens c)" "sv_id r \<notin> sv_id ` set (service_tokens c)" "is_uuid tenant"
proof -
  obtain scopes where sc: "acceptedScopes req = Inr scopes" using assms by (auto simp: token_mint_def split: sum.splits)
  obtain raw0 h where m: "mintServiceToken sha (snd fr) tenant = (raw0, h)" by fastforce
  let ?r = "\<lparr>sv_id = fst fr, sv_tenant = tenant, sv_name = nam, sv_hash = h, sv_scopes = map permission_name scopes,
      sv_created_by = u, sv_revoked = None, sv_created = now\<rparr>"
  from assms sc m obtain s c1 where uuid: "is_uuid tenant"
    and cr: "service_create ?r s c = Inr (r, c1)" and rr: "raw = raw0"
    and au: "\<exists>v x. audit_in v s c1 = Inr (x, c')"
    by (auto simp: token_mint_def split: sum.splits elim!: asPrincipal_session) blast
  have c1: "c1 = c\<lparr>service_tokens := service_tokens c @ [?r]\<rparr>" and fresh: "h \<notin> sv_hash ` set (service_tokens c)"
    "fst fr \<notin> sv_id ` set (service_tokens c)"
    and r: "r = ?r"
    using service_create_Inr [OF cr] by simp_all
  have "service_tokens c' = service_tokens c @ [?r] \<and> widget_sessions c' = widget_sessions c"
    using au audit_in_tables c1 by fastforce
  then show ?thesis using sc m rr uuid fresh r by (intro that [of scopes]) simp_all
qed

lemma token_revoke_parts:
  assumes "token_revoke now p i c = Inr (x, c')"
  obtains s where "service_tokens c' = map (\<lambda>r. if service_visible s r \<and> sv_id r = i \<and> sv_revoked r = None
      then r\<lparr>sv_revoked := Some now\<rparr> else r) (service_tokens c)"
    "widget_sessions c' = widget_sessions c" "\<exists>r \<in> set (service_tokens c). service_visible s r \<and> sv_id r = i \<and> sv_revoked r = None"
proof -
  from assms obtain kind k where
    w: "(case find (\<lambda>r. service_visible (tenant_session now (tenantOf p) kind k) r \<and> sv_id r = i) (service_tokens c) of
         None \<Rightarrow> Inl (App (notFound ''ServiceToken''))
       | Some existing \<Rightarrow>
           (let hit = (\<lambda>r. service_visible (tenant_session now (tenantOf p) kind k) r \<and> sv_id r = i \<and> sv_revoked r = None);
                c1 = c\<lparr>service_tokens :=
                   map (\<lambda>r. if hit r then r\<lparr>sv_revoked := Some now\<rparr> else r) (service_tokens c)\<rparr>
            in if filter hit (service_tokens c) = [] then Inl revoke_conflict
               else audit_in (token_audit token_revoked i (JObj [(''name'', JStr (sv_name existing))]))
                 (tenant_session now (tenantOf p) kind k) c1)) = Inr (x, c')"
    unfolding token_revoke_def by (rule asPrincipal_session)
  show ?thesis
    by (rule that [of "tenant_session now (tenantOf p) kind k"])
      (use w in \<open>auto simp: Let_def filter_empty_conv split: option.splits if_splits dest!: audit_in_tables\<close>)
qed


lemma originPasses_allowed:
  assumes "originPasses tenant origin s c"
  shows "\<exists>origins. (tenant, origins) \<in> set (tenant_rows c) \<and> originIsAllowed origin origins"
proof -
  obtain t where t: "find (\<lambda>t. tenant_matches s (fst t) \<and> fst t = tenant) (tenant_rows c) = Some t" "originIsAllowed origin (snd t)"
    using assms by (auto simp: originPasses_def split: option.splits)
  then show ?thesis using find_SomeD [OF t(1)] by (cases t) auto
qed

lemma widget_bootstrap_parts:
  assumes "widget_bootstrap sign now later i tenant origin c = Inr (g, c')"
  obtains r where "r = \<lparr>w_id = i, w_tenant = tenant, w_contact = None, w_expires = expiryFrom now, w_revoked = None\<rparr>"
    "c' = c\<lparr>widget_sessions := widget_sessions c @ [r]\<rparr>" "i \<notin> w_id ` set (widget_sessions c)" "is_uuid tenant"
    "\<exists>origins. (tenant, origins) \<in> set (tenant_rows c) \<and> originIsAllowed origin origins"
    "g = grantFor sign later i tenant (expiryFrom now)"
proof -
  have tenant: "is_uuid tenant"
    using assms by (auto simp: widget_bootstrap_def withTenant_def contextSettings_def systemContextFor_def isTenantIdShaped_def
      split: sum.splits if_splits)
  show ?thesis
    by (rule that [OF refl])
      (use assms tenant in \<open>auto simp: widget_bootstrap_def withTenant_def contextSettings_def systemContextFor_def
        isTenantIdShaped_def widget_create_def is_uuid_not_Nil
        split: sum.splits if_splits option.splits dest: originPasses_allowed\<close>)
qed

lemma widget_renew_parts:
  assumes "widget_renew sign now later tenant sid origin c = Inr (g, c')"
  obtains P where "c' = c\<lparr>widget_sessions := map (\<lambda>r. if P r then r\<lparr>w_expires := expiryFrom now\<rparr> else r) (widget_sessions c)\<rparr>"
  using assms
  by (auto simp: widget_renew_def withTenant_def Let_def split: sum.splits if_splits renew_outcome.splits)

lemma identified_parts:
  assumes "contactPrincipalFor now i tenant sid known c = Inr (p, c')"
  obtains (known) k where "known = Some k" "k \<noteq> []" "p = ContactPrincipal tenant k" "c' = c"
  | (existing) r k where "r \<in> set (widget_sessions c)" "w_id r = sid" "w_tenant r = tenant" "w_revoked r = None"
      "w_contact r = Some k" "k \<noteq> []" "p = ContactPrincipal tenant k" "c' = c"
  | (created) r where "r \<in> set (widget_sessions c)" "w_id r = sid" "w_tenant r = tenant" "w_revoked r = None"
      "w_contact r \<in> {None, Some []}" "i \<noteq> []" "p = ContactPrincipal tenant i"
      "contacts (core c') = contacts (core c) @ [(tenant, i)]" "service_tokens c' = service_tokens c"
      "widget_sessions c' = map (\<lambda>x. if w_tenant x = tenant \<and> w_id x = sid then x\<lparr>w_contact := Some i\<rparr> else x) (widget_sessions c)"
proof (cases "known \<in> {None, Some []}")
  case False
  then obtain k where "known = Some k" "k \<noteq> []" by (cases known) auto
  then show ?thesis using assms known [of k] by (simp add: contactPrincipalFor_def)
next
  case True
  have tenant: "is_uuid tenant"
    using assms True by (auto simp: contactPrincipalFor_def withTenant_def contextSettings_def systemContextFor_def isTenantIdShaped_def
      split: sum.splits if_splits)
  let ?s = "tenant_session now tenant ''system'' []"
  have vis: "widget_visible ?s x \<longleftrightarrow> w_tenant x = tenant" for x
    using is_uuid_not_Nil [OF tenant] by (simp add: widget_visible_def tenant_matches_def current_actor_is_contact_def)
  have w: "withTenant now (systemContextFor tenant) work c = work ?s c" for work :: "(credential_tables, ident option) transaction"
    using tenant is_uuid_not_Nil [OF tenant]
    by (simp add: withTenant_def contextSettings_def systemContextFor_def isTenantIdShaped_def ACTOR_KINDS_def)
  obtain r where lock: "lockSession sid ?s c = Some r"
    using assms True by (cases "lockSession sid ?s c") (auto simp: contactPrincipalFor_def w)
  have r: "r \<in> set (widget_sessions c)" "w_id r = sid" "w_tenant r = tenant" "w_revoked r = None"
    using find_SomeD [OF lock [unfolded lockSession_def]] vis by auto
  show ?thesis
  proof (cases "w_contact r \<in> {None, Some []}")
    case False
    then obtain k where "w_contact r = Some k" "k \<noteq> []" by (cases "w_contact r") auto
    then show ?thesis using existing [OF r, of k] assms True False by (auto simp: contactPrincipalFor_def w lock)
  next
    case c: True
    show ?thesis
      by (rule created [OF r c]) (use assms True c in \<open>auto simp: contactPrincipalFor_def w lock vis Let_def split: if_splits\<close>)
  qed
qed

lemma cred_step_ok:
  assumes "cred_step c c'" and "tokens_ok c" and "sessions_ok c"
  shows "tokens_ok c' \<and> sessions_ok c' \<and> grown ages_token (service_tokens c) (service_tokens c') \<and>
    grown ages_session (widget_sessions c) (widget_sessions c')"
  using assms(1)
proof cases
  case (minted sha now fr tenant u role nam req x)
  obtain r raw where x: "x = (r, raw)" by (cases x)
  from minted [unfolded x] show ?thesis
    by (rule token_mint_parts) (use assms(2,3) in \<open>auto simp: tokens_ok_def sessions_ok_def intro: grown_append grown_refl\<close>)
next
  case (revoked now p i x)
  then show ?thesis
  proof (rule token_revoke_parts)
    fix s
    assume t: "service_tokens c' = map (\<lambda>r. if service_visible s r \<and> sv_id r = i \<and> sv_revoked r = None
        then r\<lparr>sv_revoked := Some now\<rparr> else r) (service_tokens c)" and w: "widget_sessions c' = widget_sessions c"
    have "grown ages_token (service_tokens c) (service_tokens c')"
      unfolding t by (rule grown_map) (simp add: ages_token_def)
    moreover have "map sv_hash (service_tokens c') = map sv_hash (service_tokens c)" "map sv_id (service_tokens c') = map sv_id (service_tokens c)"
      unfolding t by simp_all
    ultimately show ?thesis using assms(2,3) w by (simp add: tokens_ok_def sessions_ok_def grown_refl)
  qed
next
  case (started sign now later i tenant origin g)
  then show ?thesis
    by (rule widget_bootstrap_parts) (use assms(2,3) in \<open>auto simp: tokens_ok_def sessions_ok_def intro: grown_append grown_refl\<close>)
next
  case (renewed sign now later tenant sid origin g)
  then show ?thesis
  proof (rule widget_renew_parts)
    fix P
    assume c': "c' = c\<lparr>widget_sessions := map (\<lambda>r. if P r then r\<lparr>w_expires := expiryFrom now\<rparr> else r) (widget_sessions c)\<rparr>"
    have "grown ages_session (widget_sessions c) (widget_sessions c')"
      unfolding c' by (simp, rule grown_map) (simp add: ages_session_def)
    moreover have "map w_id (widget_sessions c') = map w_id (widget_sessions c)" unfolding c' by simp
    then have "sessions_ok c'" using assms(3) by (simp only: sessions_ok_def)
    moreover have "service_tokens c' = service_tokens c" by (simp add: c')
    ultimately show ?thesis using assms(2) by (simp add: tokens_ok_def grown_refl)
  qed
next
  case (identified now i tenant sid known p)
  then show ?thesis
  proof (cases rule: identified_parts)
    case (created r)
    have "grown ages_session (widget_sessions c) (widget_sessions c')"
      unfolding created(10)
    proof (rule grown_map)
      fix x assume x: "x \<in> set (widget_sessions c)"
      have "x = r" if "w_id x = sid"
        using distinct_key_eq [of w_id "widget_sessions c" x r] x created(1,2) that assms(3) by (simp add: sessions_ok_def)
      then show "ages_session x (if w_tenant x = tenant \<and> w_id x = sid then x\<lparr>w_contact := Some i\<rparr> else x)"
        using created(5) by (auto simp: ages_session_def)
    qed
    moreover have "map w_id (widget_sessions c') = map w_id (widget_sessions c)" unfolding created(10) by simp
    ultimately show ?thesis using assms(2,3) created(9) by (simp add: tokens_ok_def sessions_ok_def grown_refl)
  qed (use assms(2,3) in \<open>simp_all add: grown_refl\<close>)
qed

lemma cred_later_ok:
  assumes "cred_later c c'" and "tokens_ok c" and "sessions_ok c"
  shows "tokens_ok c' \<and> sessions_ok c' \<and> grown ages_token (service_tokens c) (service_tokens c') \<and>
    grown ages_session (widget_sessions c) (widget_sessions c')"
  using assms
proof (induction rule: cred_later.induct)
  case (now c)
  then show ?case by (simp add: grown_refl)
next
  case (step c c1 c2)
  then have one: "tokens_ok c1" "sessions_ok c1" "grown ages_token (service_tokens c) (service_tokens c1)"
    "grown ages_session (widget_sessions c) (widget_sessions c1)" by simp_all
  have two: "tokens_ok c2" "sessions_ok c2" "grown ages_token (service_tokens c1) (service_tokens c2)"
    "grown ages_session (widget_sessions c1) (widget_sessions c2)" using cred_step_ok [OF step.hyps(2) one(1,2)] by simp_all
  show ?case
    using two(1,2) grown_trans [OF one(3) two(3) ages_token_trans] grown_trans [OF one(4) two(4) ages_session_trans] by simp
qed


section \<open>Verifying a service token\<close>

lemma split_once: "CHR ''.'' \<notin> set a \<Longrightarrow> CHR ''.'' \<notin> set b \<Longrightarrow> split_on (CHR ''.'') (a @ CHR ''.'' # b) = [a, b]"
  by (simp add: split_on_append_sep split_on_no_sep)

lemma uuid_no_dot: "is_uuid t \<Longrightarrow> CHR ''.'' \<notin> set t"
  using is_uuid_chars [of t "CHR ''.''"] by (auto simp: is_hex_def)

lemma parse_minted:
  assumes "is_uuid tenant" and "secret \<noteq> []" and "CHR ''.'' \<notin> set secret" and "mintServiceToken sha secret tenant = (raw, h)"
  shows "parseServiceToken sha raw = Some (tenant, h)"
  using assms is_uuid_not_Nil [OF assms(1)] split_once [OF uuid_no_dot [OF assms(1)] assms(3)]
  by (auto simp: mintServiceToken_def parseServiceToken_def isServiceToken_def isTenantIdShaped_def Let_def)

lemma token_verify_found:
  assumes "parseServiceToken sha raw = Some (tenant, h)" and "distinct (map sv_hash (service_tokens c))"
    and "r \<in> set (service_tokens c)" and "sv_hash r = h" and "sv_tenant r = tenant" and tenant: "is_uuid tenant"
  shows "token_verify sha now raw c = Inr (if sv_revoked r \<noteq> None then None
    else Some (ServicePrincipal tenant (sv_id r) (grantedScopes (sv_scopes r))))"
proof -
  let ?s = "tenant_session now tenant ''system'' []"
  have w: "withTenant now (systemContextFor tenant) work c = work ?s c" for work :: "(credential_tables, service_row option) transaction"
    using tenant is_uuid_not_Nil [OF tenant]
    by (simp add: withTenant_def contextSettings_def systemContextFor_def isTenantIdShaped_def ACTOR_KINDS_def)
  have vis: "service_visible ?s x \<longleftrightarrow> sv_tenant x = tenant" for x
    using is_uuid_not_Nil [OF tenant] by (simp add: service_visible_def tenant_matches_def current_actor_is_contact_def)
  obtain q where q: "find (\<lambda>x. service_visible ?s x \<and> sv_hash x = h) (service_tokens c) = Some q"
    using assms(3-5) vis by (cases "find (\<lambda>x. service_visible ?s x \<and> sv_hash x = h) (service_tokens c)") (auto simp: find_None_iff)
  then have "q = r"
    using find_SomeD [OF q] assms(2-4) distinct_key_eq [of sv_hash "service_tokens c" q r] by simp
  then show ?thesis using assms(1,5) q by (simp add: token_verify_def w)
qed

lemma accepted_granted:
  assumes "acceptedScopes req = Inr scopes"
  shows "permission_name ` set scopes = set req" and "set scopes \<subseteq> set ASSIGNABLE_SCOPES" and "scopes \<noteq> []"
    and "grantedScopes (map permission_name scopes) = scopes"
proof -
  have ne: "dedup req \<noteq> []" and all: "\<forall>s \<in> set req. s \<in> permission_name ` set ASSIGNABLE_SCOPES"
    and sc: "scopes = List.map_filter permission_of (dedup req)"
    using assms by (auto simp: acceptedScopes_def classifyScopes_def Let_def filter_empty_conv split: scope_verdict.splits if_splits)
  show names: "permission_name ` set scopes = set req"
    using all by (force simp: sc set_map_filter_permission_of)
  show sub: "set scopes \<subseteq> set ASSIGNABLE_SCOPES"
    using all by (auto simp: sc set_map_filter_permission_of dest: permission_name_inj)
  show "scopes \<noteq> []" using names ne by auto
  have "filter (\<lambda>scope. scope \<in> set (map permission_name ASSIGNABLE_SCOPES)) (map permission_name scopes) = map permission_name scopes"
    using sub by (auto simp: filter_id_conv)
  moreover have "List.map_filter permission_of (map permission_name scopes) = scopes"
    by (simp add: List.map_filter_def comp_def)
  ultimately show "grantedScopes (map permission_name scopes) = scopes" by (simp add: grantedScopes_def)
qed

section \<open>Properties\<close>



section \<open>Widget sessions and their customer\<close>

lemma with_system:
  assumes "is_uuid tenant"
  shows "withTenant now (systemContextFor tenant) work d = work (tenant_session now tenant ''system'' []) d"
  using assms is_uuid_not_Nil [OF assms]
  by (simp add: withTenant_def contextSettings_def systemContextFor_def isTenantIdShaped_def ACTOR_KINDS_def)

lemma identified_tenant:
  assumes "contactPrincipalFor now i tenant sid None c = Inr (p, c')"
  shows "is_uuid tenant"
  using assms by (auto simp: contactPrincipalFor_def withTenant_def contextSettings_def systemContextFor_def isTenantIdShaped_def
    split: sum.splits if_splits)

lemma widget_find:
  assumes "sessions_ok c" and "r \<in> set (widget_sessions c)" and "w_tenant r = tenant" and "tenant \<noteq> []" and "P r"
  shows "find (\<lambda>x. widget_visible (tenant_session now tenant ''system'' []) x \<and> w_id x = w_id r \<and> P x) (widget_sessions c) = Some r"
proof -
  let ?Q = "\<lambda>x. widget_visible (tenant_session now tenant ''system'' []) x \<and> w_id x = w_id r \<and> P x"
  have "?Q r" using assms(3-5) by (simp add: widget_visible_def tenant_matches_def current_actor_is_contact_def)
  then obtain q where q: "find ?Q (widget_sessions c) = Some q"
    using assms(2) by (cases "find ?Q (widget_sessions c)") (auto simp: find_None_iff)
  then have "q = r" using find_SomeD [OF q] assms(1,2) distinct_key_eq [of w_id "widget_sessions c" q r] by (simp add: sessions_ok_def)
  then show ?thesis using q by simp
qed

lemma identified_again:
  assumes "sessions_ok c" and "r \<in> set (widget_sessions c)" and "w_tenant r = tenant" and "w_revoked r = None"
    and "w_contact r = Some k" and "k \<noteq> []" and "is_uuid tenant"
  shows "contactPrincipalFor now i tenant (w_id r) None c = Inr (ContactPrincipal tenant k, c)"
  using widget_find [OF assms(1-3) is_uuid_not_Nil [OF assms(7)], of "\<lambda>x. w_revoked x = None" now] assms(4-6)
  by (simp add: contactPrincipalFor_def with_system [OF assms(7)] lockSession_def)

text \<open>
  A widget session stands for one customer: whoever first needs a requester on a live
  session gets the session's contact or creates exactly one, and from then on every request
  of that session, also one that was admitted before the contact existed, is answered with the
  same contact and creates nothing.
\<close>

theorem session_has_one_contact:
  assumes run: "contactPrincipalFor now i tenant sid None c = Inr (p, c1)" and ok: "tokens_ok c" "sessions_ok c"
  shows "\<exists>k. p = ContactPrincipal tenant k \<and> k \<noteq> [] \<and>
    contacts (core c1) \<in> {contacts (core c), contacts (core c) @ [(tenant, k)]} \<and>
    (\<forall>c2 now2 i2. cred_later c1 c2 \<longrightarrow> contactPrincipalFor now2 i2 tenant sid None c2 = Inr (p, c2))"
proof -
  have tenant: "is_uuid tenant" by (rule identified_tenant [OF run])
  obtain r k where r: "r \<in> set (widget_sessions c1)" "w_id r = sid" "w_tenant r = tenant" "w_revoked r = None"
      "w_contact r = Some k" "k \<noteq> []" and p: "p = ContactPrincipal tenant k"
      and new: "contacts (core c1) \<in> {contacts (core c), contacts (core c) @ [(tenant, k)]}"
    using run
  proof (cases rule: identified_parts)
    case (existing r k)
    then show thesis by (intro that [of r k]) simp_all
  next
    case (created r)
    have "r\<lparr>w_contact := Some i\<rparr> \<in> set (widget_sessions c1)" unfolding created(10) using created(1-3) by force
    then show thesis using created by (intro that [of "r\<lparr>w_contact := Some i\<rparr>" i]) simp_all
  qed simp
  have ok1: "tokens_ok c1" "sessions_ok c1" using cred_step_ok [OF cred_step.identified [OF run] ok] by simp_all
  have "contactPrincipalFor now2 i2 tenant sid None c2 = Inr (p, c2)" if later: "cred_later c1 c2" for c2 now2 i2
  proof -
    obtain r2 where r2: "r2 \<in> set (widget_sessions c2)" "ages_session r r2"
      using cred_later_ok [OF later ok1] grownD [of ages_session "widget_sessions c1" "widget_sessions c2" r] r(1) by blast
    then show ?thesis
      using identified_again [of c2 r2 tenant k now2 i2] cred_later_ok [OF later ok1] r tenant p by (simp add: ages_session_def)
  qed
  then show ?thesis using p r(6) new by blast
qed

text \<open>
  A widget session is born only for an origin its tenant has listed and is good for half an
  hour: the token of a bootstrap verifies, in every later state in which it was not renewed,
  as the anonymous session of that tenant up to 30 minutes after the bootstrap and as nobody
  from then on. \<open>jwt_verify\<close> returns the claims it was given to sign.
\<close>

theorem widget_session_window:
  assumes jwt: "jwt_verify (sign (widget_claims sid tenant)) = Some (JObj (widget_claims sid tenant))"
    and run: "widget_bootstrap sign now later sid tenant origin c = Inr (g, c1)" and sid: "sid \<noteq> []" and ok: "sessions_ok c1"
  shows "(\<exists>origins. (tenant, origins) \<in> set (tenant_rows c) \<and> originIsAllowed origin origins) \<and>
    (\<exists>r \<in> set (widget_sessions c1). w_id r = sid \<and> w_expires r = now + 1800000 \<and>
       (\<forall>c2 t. sessions_ok c2 \<and> r \<in> set (widget_sessions c2) \<longrightarrow>
          widget_verify jwt_verify t (wg_token g) c2 =
            Inr (if t < now + 1800000 then Some (WidgetPrincipal tenant sid None) else None)))"
proof -
  obtain r where r: "r = \<lparr>w_id = sid, w_tenant = tenant, w_contact = None, w_expires = expiryFrom now, w_revoked = None\<rparr>"
    and c1: "c1 = c\<lparr>widget_sessions := widget_sessions c @ [r]\<rparr>" and tenant: "is_uuid tenant"
    and listed: "\<exists>origins. (tenant, origins) \<in> set (tenant_rows c) \<and> originIsAllowed origin origins"
    and g: "g = grantFor sign later sid tenant (expiryFrom now)"
    using run by (rule widget_bootstrap_parts)
  have claims: "jwt_verify (stripWidgetPrefix (wg_token g)) = Some (JObj (widget_claims sid tenant))"
    by (simp add: g grantFor_def stripWidgetPrefix_def jwt)
  have ref: "sessionFromClaims (JObj (widget_claims sid tenant)) = Some (sid, tenant)"
    using sid is_uuid_not_Nil [OF tenant] by (simp add: widget_claims_def sessionFromClaims_def isNonEmptyString_def)
  have "widget_verify jwt_verify t (wg_token g) c2 =
      Inr (if t < now + 1800000 then Some (WidgetPrincipal tenant sid None) else None)"
    if c2: "sessions_ok c2" "r \<in> set (widget_sessions c2)" for c2 t
    using widget_find [OF c2 _ is_uuid_not_Nil [OF tenant], of "\<lambda>_. True" t] r
    by (simp add: widget_verify_def claims ref with_system [OF tenant] expiryFrom_def WIDGET_SESSION_TTL_SECONDS_def)
  moreover have "r \<in> set (widget_sessions c1)" "w_id r = sid" "w_expires r = now + 1800000"
    using r c1 by (simp_all add: expiryFrom_def WIDGET_SESSION_TTL_SECONDS_def)
  ultimately show ?thesis using listed by blast
qed

text \<open>
  The refresh cookie round-trips: a value decodes to a tenant and a token exactly when it
  is the encoding of them, the tenant has the form of an id and the token is not empty.
\<close>

theorem refresh_cookie_roundtrip:
  "decodeRefreshCookie (Some v) = Some (tenant, token) \<longleftrightarrow>
     v = encodeRefreshCookie tenant token \<and> is_uuid tenant \<and> token \<noteq> []"
proof
  assume d: "decodeRefreshCookie (Some v) = Some (tenant, token)"
  then have t: "tenant = takeWhile (\<lambda>x. x \<noteq> CHR ''.'') v" "tenant \<noteq> v" "token = drop (length tenant + 1) v" "token \<noteq> []" "is_uuid tenant"
    by (auto simp: decodeRefreshCookie_def Let_def isTenantIdShaped_def split: if_splits)
  have "dropWhile (\<lambda>x. x \<noteq> CHR ''.'') v \<noteq> []" using t(1,2) by (auto simp: dropWhile_eq_Nil_conv takeWhile_eq_all_conv)
  then obtain x rest where xr: "dropWhile (\<lambda>x. x \<noteq> CHR ''.'') v = x # rest" by (cases "dropWhile (\<lambda>x. x \<noteq> CHR ''.'') v") simp_all
  then have rest: "dropWhile (\<lambda>x. x \<noteq> CHR ''.'') v = CHR ''.'' # rest" using hd_dropWhile [of "\<lambda>x. x \<noteq> CHR ''.''" v] by simp
  have "v = tenant @ CHR ''.'' # rest" using t(1) rest takeWhile_dropWhile_id [of "\<lambda>x. x \<noteq> CHR ''.''" v] by simp
  moreover have "token = rest" using t(3) calculation by simp
  ultimately show "v = encodeRefreshCookie tenant token \<and> is_uuid tenant \<and> token \<noteq> []"
    using t(4,5) by (simp add: encodeRefreshCookie_def)
next
  assume v: "v = encodeRefreshCookie tenant token \<and> is_uuid tenant \<and> token \<noteq> []"
  have "\<forall>x \<in> set tenant. x \<noteq> CHR ''.''" using v uuid_no_dot [of tenant] by blast
  then have "takeWhile (\<lambda>x. x \<noteq> CHR ''.'') v = tenant" using v by (simp add: encodeRefreshCookie_def takeWhile_append2)
  then show "decodeRefreshCookie (Some v) = Some (tenant, token)"
    using v is_uuid_not_Nil [of tenant] by (auto simp: decodeRefreshCookie_def Let_def isTenantIdShaped_def encodeRefreshCookie_def)
qed

section \<open>Samples\<close>

definition cred_tenant :: ident where "cred_tenant = ''00000000-0000-4000-8000-00000000000c''"
definition cred_admin :: ident where "cred_admin = ''00000000-0000-4000-8000-00000000000d''"
definition cred_token :: ident where "cred_token = ''00000000-0000-4000-8000-00000000000e''"
definition cred_session :: ident where "cred_session = ''00000000-0000-4000-8000-00000000000f''"

definition cred0 :: credential_tables where
  "cred0 = \<lparr>core = \<lparr>contacts = [], users = [(cred_tenant, cred_admin)], tickets = [], messages = [], note_rows = [],
       audit = [], deliveries = [], jobs = []\<rparr>,
     tenant_rows = [(cred_tenant, [''https://Shop.example/''])], service_tokens = [], widget_sessions = []\<rparr>"

definition cred_mint :: "thrown + ((service_row \<times> string) \<times> credential_tables)" where
  "cred_mint = token_mint (\<lambda>x. x) 5 (cred_token, ''s3cret'') cred_tenant cred_admin ''admin'' ''ci''
     [''ticket:read'', ''ticket:create'', ''ticket:read''] cred0"

definition cred_boot :: "thrown + (widget_grant \<times> credential_tables)" where
  "cred_boot = widget_bootstrap (\<lambda>claims. json_text (JObj claims)) 5 6 cred_session cred_tenant (Some ''HTTPS://shop.example'') cred0"

lemma is_okE: "is_ok x \<Longrightarrow> (\<And>y. x = Inr y \<Longrightarrow> P) \<Longrightarrow> P"
  by (cases x) simp_all

lemma cred0_ok: "tokens_ok cred0" "sessions_ok cred0"
  by (simp_all add: tokens_ok_def sessions_ok_def cred0_def)



theorem session_has_one_contact_witness:
  "case cred_boot of Inr (g, c) \<Rightarrow>
     (case contactPrincipalFor 7 ''k'' cred_tenant cred_session None c of
        Inr (p, c1) \<Rightarrow> contactPrincipalFor 8 ''other'' cred_tenant cred_session None c1 = Inr (p, c1)
      | Inl e \<Rightarrow> False)
   | Inl e \<Rightarrow> False"
proof -
  have "is_ok cred_boot" by code_simp
  then obtain y where "cred_boot = Inr y" by (rule is_okE)
  then obtain g c where boot: "cred_boot = Inr (g, c)" by (cases y) auto
  have "case cred_boot of Inr (g, c) \<Rightarrow> is_ok (contactPrincipalFor 7 ''k'' cred_tenant cred_session None c) | Inl e \<Rightarrow> False" by code_simp
  then have "is_ok (contactPrincipalFor 7 ''k'' cred_tenant cred_session None c)" by (simp add: boot)
  then obtain z where "contactPrincipalFor 7 ''k'' cred_tenant cred_session None c = Inr z" by (rule is_okE)
  then obtain p c1 where run: "contactPrincipalFor 7 ''k'' cred_tenant cred_session None c = Inr (p, c1)" by (cases z) auto
  have "tokens_ok c \<and> sessions_ok c" using cred_step_ok [OF cred_step.started [OF boot [unfolded cred_boot_def]] cred0_ok] by simp
  then show ?thesis using session_has_one_contact [OF run] cred_later.now [of c1] by (auto simp: boot run)
qed

theorem widget_session_window_witness:
  "case cred_boot of Inr (g, c) \<Rightarrow>
     widget_verify json_parse 6 (wg_token g) c = Inr (Some (WidgetPrincipal cred_tenant cred_session None)) \<and>
     (\<exists>r \<in> set (widget_sessions c). w_id r = cred_session \<and> w_expires r = 5 + 1800000)
   | Inl e \<Rightarrow> False"
proof -
  have "is_ok cred_boot" by code_simp
  then obtain y where "cred_boot = Inr y" by (rule is_okE)
  then obtain g c where boot: "cred_boot = Inr (g, c)" by (cases y) auto
  have ok: "sessions_ok c" using cred_step_ok [OF cred_step.started [OF boot [unfolded cred_boot_def]] cred0_ok] by simp
  have rt: "json_parse (json_text (JObj (widget_claims cred_session cred_tenant))) = Some (JObj (widget_claims cred_session cred_tenant))"
    by (rule json_flat_roundtrip) (simp_all add: widget_claims_def)
  have sid: "cred_session \<noteq> []" by (simp add: cred_session_def)
  note window = conjunct2 [OF widget_session_window [where jwt_verify = json_parse, OF _ boot [unfolded cred_boot_def] sid ok, OF rt]]
  from window obtain r where "r \<in> set (widget_sessions c)" "w_id r = cred_session" "w_expires r = 5 + 1800000"
    "widget_verify json_parse 6 (wg_token g) c = Inr (Some (WidgetPrincipal cred_tenant cred_session None))"
    using ok by auto
  then show ?thesis by (auto simp: boot)
qed

end
