(* ===== verification/Auth_Surface.thy ===== *)
theory Auth_Surface
  imports Session_Safety Credentials Slack_Events
begin

text \<open>
  The browser's side of authentication: the reading of a Google id token
  (\<open>google-id-token.ts\<close>) and the exchange that fetches it (\<open>google-client.ts\<close>), the routes of
  the two session controllers (\<open>auth.controller.ts\<close>, \<open>portal-auth.controller.ts\<close>) with the
  cookie each answer sets or clears, and the cross-origin policy (\<open>browser-cors.ts\<close>). The
  browser is its jar of cookies; the token endpoint's answer is an argument.
\<close>

section \<open>Google's id token\<close>

definition GOOGLE_ISSUERS :: "string list" where
  "GOOGLE_ISSUERS = [''https://accounts.google.com'', ''accounts.google.com'']"

datatype id_token_refusal = Malformed | IssuerMismatch | AudienceMismatch | NoSubject | EmailUnverified | TokenExpired

definition decodePayload :: "string \<Rightarrow> json option" where
  "decodePayload idToken =
     (case split_on (CHR ''.'') idToken of
        [_, payload, _] \<Rightarrow>
          (case json_parse (base64url_decode payload) of
             Some (JObj kvs) \<Rightarrow> Some (JObj kvs)
           | _ \<Rightarrow> None)
      | _ \<Rightarrow> None)"

text \<open>The value of a number that is not integral is an argument.\<close>

definition exp_seconds :: "rat \<Rightarrow> json option \<Rightarrow> rat option" where
  "exp_seconds fraction v =
     (case v of Some (JNum (JInt n)) \<Rightarrow> Some (of_int n) | Some (JNum JFrac) \<Rightarrow> Some fraction | _ \<Rightarrow> None)"

definition readIdTokenFromTokenEndpoint ::
  "rat \<Rightarrow> string \<Rightarrow> string \<Rightarrow> millis \<Rightarrow> id_token_refusal + google_identity" where
  "readIdTokenFromTokenEndpoint fraction idToken clientId now =
     (case decodePayload idToken of
        None \<Rightarrow> Inl Malformed
      | Some claims \<Rightarrow>
          if \<not> (case json_field claims ''iss'' of Some (JStr iss) \<Rightarrow> iss \<in> set GOOGLE_ISSUERS | _ \<Rightarrow> False) then Inl IssuerMismatch
          else if json_field claims ''aud'' \<noteq> Some (JStr clientId) then Inl AudienceMismatch
          else if (case exp_seconds fraction (json_field claims ''exp'') of None \<Rightarrow> True | Some e \<Rightarrow> e * 1000 \<le> of_int now)
          then Inl TokenExpired
          else (case isNonEmptyString (json_field claims ''sub'') of
                  None \<Rightarrow> Inl NoSubject
                | Some sub \<Rightarrow>
                    if json_field claims ''email_verified'' \<noteq> Some (JBool True) then Inl EmailUnverified
                    else (case isNonEmptyString (json_field claims ''email'') of
                            None \<Rightarrow> Inl EmailUnverified
                          | Some email \<Rightarrow> Inr \<lparr>g_subject = sub, g_email = lower email\<rparr>)))"

section \<open>The exchange\<close>

record google_config =
  gc_client :: "string option"
  gc_secret :: "string option"

definition isConfigured :: "google_config \<Rightarrow> bool" where
  "isConfigured cfg \<longleftrightarrow> gc_client cfg \<noteq> None"

text \<open>The token endpoint fails, or answers with a status and a body that may not parse.\<close>

datatype token_answer = TokenUnreachable | TokenAnswered nat "json option"

definition exchange :: "rat \<Rightarrow> google_config \<Rightarrow> token_answer \<Rightarrow> millis \<Rightarrow> google_identity option" where
  "exchange fraction cfg answer now =
     (case (given (gc_client cfg), given (gc_secret cfg)) of
        (Some clientId, Some _) \<Rightarrow>
          (case answer of
             TokenUnreachable \<Rightarrow> None
           | TokenAnswered status body \<Rightarrow>
               if \<not> (200 \<le> status \<and> status \<le> 299) then None
               else (case Option.bind body (\<lambda>b. json_field b ''id_token'') of
                       Some (JStr idToken) \<Rightarrow>
                         (case readIdTokenFromTokenEndpoint fraction idToken clientId now of
                            Inl _ \<Rightarrow> None
                          | Inr g \<Rightarrow> Some g)
                     | _ \<Rightarrow> None))
      | _ \<Rightarrow> None)"

section \<open>The routes\<close>

text \<open>What a browser sends along: the cookies of its jar whose path covers the route.\<close>

definition cookies_for :: "string \<Rightarrow> cookie_jar \<Rightarrow> json option" where
  "cookies_for route jar =
     Some (JObj (map (\<lambda>((name, _), v). (name, JStr v)) (filter (\<lambda>((_, path), _). starts_with path route) jar)))"

record session_dto =
  sd_access :: string
  sd_expires_in :: int

type_synonym route_result = "(thrown + session_dto) \<times> cookie_jar \<times> identity"

definition respondWith :: "cookie_surface \<Rightarrow> bool \<Rightarrow> auth_session \<Rightarrow> cookie_jar \<Rightarrow> session_dto \<times> cookie_jar" where
  "respondWith surface secure sess jar =
     (\<lparr>sd_access = as_access sess, sd_expires_in = ACCESS_TOKEN_TTL_SECONDS\<rparr>,
      setRefreshCookie surface (encodeRefreshCookie (tenantOf (as_principal sess)) (as_refresh sess)) secure jar)"

definition session_route :: "cookie_surface \<Rightarrow> bool \<Rightarrow> (thrown + auth_session) \<times> identity \<Rightarrow> cookie_jar \<Rightarrow> route_result" where
  "session_route surface secure r jar =
     (case r of
        (Inl e, d) \<Rightarrow> (Inl e, jar, d)
      | (Inr sess, d) \<Rightarrow> (case respondWith surface secure sess jar of (dto, jar') \<Rightarrow> (Inr dto, jar', d)))"

definition staff_sign_in ::
  "crypto \<Rightarrow> bool \<Rightarrow> millis \<Rightarrow> fresh_token \<Rightarrow> ident \<Rightarrow> string \<Rightarrow> string \<Rightarrow> cookie_jar \<Rightarrow> identity \<Rightarrow> route_result" where
  "staff_sign_in cr secure now fr tenant email password jar d =
     session_route STAFF_REFRESH_COOKIE secure (signIn cr now fr tenant email password d) jar"

definition staff_google ::
  "crypto \<Rightarrow> bool \<Rightarrow> rat \<Rightarrow> google_config \<Rightarrow> token_answer \<Rightarrow> millis \<Rightarrow> fresh_token \<Rightarrow> ident \<Rightarrow> cookie_jar \<Rightarrow> identity \<Rightarrow>
   route_result" where
  "staff_google cr secure fraction cfg answer now fr tenant jar d =
     (if \<not> isConfigured cfg
      then (Inl (App (app_error integration_dormant
             ''Google sign-in is not configured in this deployment. Sign in with email and password instead.'')), jar, d)
      else (case exchange fraction cfg answer now of
              None \<Rightarrow> (Inl refuseAuthentication, jar, d)
            | Some g \<Rightarrow> session_route STAFF_REFRESH_COOKIE secure (signInWithGoogle cr now fr tenant g d) jar))"

text \<open>The two refresh routes differ in the surface and the service.\<close>

definition refresh_route ::
  "cookie_surface \<Rightarrow> (ident \<Rightarrow> string \<Rightarrow> identity \<Rightarrow> (thrown + auth_session) \<times> identity) \<Rightarrow> bool \<Rightarrow> json option \<Rightarrow>
   cookie_jar \<Rightarrow> identity \<Rightarrow> route_result" where
  "refresh_route surface service secure cookies jar d =
     (case decodeRefreshCookie (readRefreshCookie cookies surface) of
        None \<Rightarrow>
          (Inl (App (app_error unauthenticated ''No refresh token presented.'')), clearRefreshCookie surface secure jar, d)
      | Some (tenant, token) \<Rightarrow>
          (case service tenant token d of
             (Inr sess, d') \<Rightarrow> session_route surface secure (Inr sess, d') jar
           | (Inl e, d') \<Rightarrow> (Inl e, clearRefreshCookie surface secure jar, d')))"

definition staff_refresh :: "crypto \<Rightarrow> bool \<Rightarrow> millis \<Rightarrow> fresh_token \<Rightarrow> json option \<Rightarrow> cookie_jar \<Rightarrow> identity \<Rightarrow> route_result" where
  "staff_refresh cr secure now fr = refresh_route STAFF_REFRESH_COOKIE (auth_refresh cr now fr) secure"

definition sign_out_route ::
  "cookie_surface \<Rightarrow> (ident \<Rightarrow> string \<Rightarrow> identity \<Rightarrow> thrown + (unit \<times> identity)) \<Rightarrow> bool \<Rightarrow> json option \<Rightarrow>
   cookie_jar \<Rightarrow> identity \<Rightarrow> (thrown + unit) \<times> cookie_jar \<times> identity" where
  "sign_out_route surface service secure cookies jar d =
     (case decodeRefreshCookie (readRefreshCookie cookies surface) of
        None \<Rightarrow> (Inr (), clearRefreshCookie surface secure jar, d)
      | Some (tenant, token) \<Rightarrow>
          (case service tenant token d of
             Inl e \<Rightarrow> (Inl e, jar, d)
           | Inr (_, d') \<Rightarrow> (Inr (), clearRefreshCookie surface secure jar, d')))"

definition staff_sign_out :: "crypto \<Rightarrow> bool \<Rightarrow> millis \<Rightarrow> json option \<Rightarrow> cookie_jar \<Rightarrow> identity \<Rightarrow> (thrown + unit) \<times> cookie_jar \<times> identity" where
  "staff_sign_out cr secure now = sign_out_route STAFF_REFRESH_COOKIE (signOut cr now) secure"

definition portal_sign_in ::
  "crypto \<Rightarrow> bool \<Rightarrow> millis \<Rightarrow> fresh_token \<Rightarrow> ident \<Rightarrow> string \<Rightarrow> string \<Rightarrow> cookie_jar \<Rightarrow> identity \<Rightarrow> route_result" where
  "portal_sign_in cr secure now fr tenant email password jar d =
     session_route PORTAL_REFRESH_COOKIE secure (portal_signIn cr now fr tenant email password d) jar"

definition portal_refresh_route :: "crypto \<Rightarrow> bool \<Rightarrow> millis \<Rightarrow> fresh_token \<Rightarrow> json option \<Rightarrow> cookie_jar \<Rightarrow> identity \<Rightarrow> route_result" where
  "portal_refresh_route cr secure now fr = refresh_route PORTAL_REFRESH_COOKIE (portal_refresh cr now fr) secure"

definition portal_sign_out :: "crypto \<Rightarrow> bool \<Rightarrow> millis \<Rightarrow> json option \<Rightarrow> cookie_jar \<Rightarrow> identity \<Rightarrow> (thrown + unit) \<times> cookie_jar \<times> identity" where
  "portal_sign_out cr secure now = sign_out_route PORTAL_REFRESH_COOKIE (portal_signOut cr now) secure"

record principal_dto =
  pd_user :: ident
  pd_tenant :: ident
  pd_role :: string
  pd_email :: string
  pd_name :: string

definition staff_me :: "millis \<Rightarrow> request_principal \<Rightarrow> ident \<Rightarrow> identity \<Rightarrow> thrown + principal_dto" where
  "staff_me now p uid d =
     (case currentUser now p uid d of
        Inl e \<Rightarrow> Inl e
      | Inr u \<Rightarrow> Inr \<lparr>pd_user = u_id u, pd_tenant = tenantOf p, pd_role = u_role u, pd_email = u_email u, pd_name = u_name u\<rparr>)"

record contact_principal_dto =
  cp_contact :: ident
  cp_tenant :: ident
  cp_email :: "string option"
  cp_name :: "string option"
  cp_verified :: bool

definition portal_me :: "millis \<Rightarrow> request_principal \<Rightarrow> ident \<Rightarrow> identity \<Rightarrow> thrown + contact_principal_dto" where
  "portal_me now p cid d =
     (case currentContact now p cid d of
        Inl e \<Rightarrow> Inl e
      | Inr c \<Rightarrow> Inr \<lparr>cp_contact = c_id c, cp_tenant = tenantOf p, cp_email = c_email c, cp_name = c_name c, cp_verified = c_verified c\<rparr>)"

section \<open>The cross-origin policy\<close>

definition EXPOSED_HEADERS :: "string list" where
  "EXPOSED_HEADERS = [''Retry-After'', ''RateLimit-Limit'', ''RateLimit-Remaining'', ''RateLimit-Reset'', ''Idempotency-Replayed'']"

definition PREFLIGHT_MAX_AGE_SECONDS :: int where "PREFLIGHT_MAX_AGE_SECONDS = 600"

datatype cors_policy = NoCors | Cors (cors_credentials: bool) (cors_exposed: "string list") (cors_max_age: int)

definition browserCorsPolicy :: "string option \<Rightarrow> string list \<Rightarrow> cors_policy" where
  "browserCorsPolicy origin firstParty =
     (case origin of
        None \<Rightarrow> NoCors
      | Some o' \<Rightarrow> Cors (originIsAllowed (Some o') firstParty) EXPOSED_HEADERS PREFLIGHT_MAX_AGE_SECONDS)"

section \<open>Identities\<close>

text \<open>
  The id token that becomes an identity: exactly a token of three segments whose payload is
  an object issued by Google, for this client, not expired, with a subject and a verified
  address; the identity is that subject and the address in lower case.
\<close>

theorem id_token_accepted:
  "readIdTokenFromTokenEndpoint fraction idToken clientId now = Inr g \<longleftrightarrow>
     (\<exists>claims iss e sub email. decodePayload idToken = Some claims \<and>
        json_field claims ''iss'' = Some (JStr iss) \<and> iss \<in> set GOOGLE_ISSUERS \<and>
        json_field claims ''aud'' = Some (JStr clientId) \<and>
        exp_seconds fraction (json_field claims ''exp'') = Some e \<and> of_int now < e * 1000 \<and>
        json_field claims ''sub'' = Some (JStr sub) \<and> sub \<noteq> [] \<and>
        json_field claims ''email_verified'' = Some (JBool True) \<and>
        json_field claims ''email'' = Some (JStr email) \<and> email \<noteq> [] \<and>
        g = \<lparr>g_subject = sub, g_email = lower email\<rparr>)"
proof -
  have str: "isNonEmptyString v = Some x \<longleftrightarrow> v = Some (JStr x) \<and> x \<noteq> []" for v x
    by (auto simp: isNonEmptyString_def split: option.splits json.splits if_splits)
  have none: "isNonEmptyString (Some (JStr x)) = None \<longleftrightarrow> x = []" for x by (simp add: isNonEmptyString_def)
  show ?thesis
    by (auto simp: readIdTokenFromTokenEndpoint_def not_le str none split: option.splits if_splits json.splits)
qed

text \<open>Only an origin that is configured as first-party is granted credentials.\<close>

lemma cors_grants:
  "browserCorsPolicy origin firstParty \<noteq> NoCors \<Longrightarrow> cors_credentials (browserCorsPolicy origin firstParty) \<Longrightarrow>
   \<exists>entry \<in> set firstParty. normalizeOrigin origin = normalizeOrigin (Some entry) \<and> normalizeOrigin origin \<noteq> None"
  by (auto simp: browserCorsPolicy_def originIsAllowed_def list_ex_iff split: option.splits) metis

section \<open>The jar\<close>

definition jar_ok :: "cookie_jar \<Rightarrow> bool" where
  "jar_ok jar \<longleftrightarrow> (\<forall>((name, path), v) \<in> set jar. \<forall>surface \<in> {STAFF_REFRESH_COOKIE, PORTAL_REFRESH_COOKIE}.
     name = ck_name surface \<longrightarrow> path = ck_path surface)"

lemma surface_names [simp]: "ck_name STAFF_REFRESH_COOKIE \<noteq> ck_name PORTAL_REFRESH_COOKIE" "ck_name PORTAL_REFRESH_COOKIE \<noteq> ck_name STAFF_REFRESH_COOKIE"
  by (simp_all add: STAFF_REFRESH_COOKIE_def PORTAL_REFRESH_COOKIE_def)

lemma read_set:
  assumes "jar_ok jar" and "surface \<in> {STAFF_REFRESH_COOKIE, PORTAL_REFRESH_COOKIE}" and "starts_with (ck_path surface) route"
  shows "readRefreshCookie (cookies_for route (setRefreshCookie surface v secure jar)) surface = Some v"
proof -
  have "map_of (map (\<lambda>((name, _), v). (name, JStr v)) (filter (\<lambda>((_, path), _). starts_with path route)
      (AList.update (ck_name surface, ck_path surface) v jar))) (ck_name surface) = Some (JStr v)"
    using assms(1)
  proof (induction jar)
    case (Cons e jar)
    obtain name path w where e: "e = ((name, path), w)" by (cases e) auto
    have ok: "jar_ok jar" and path: "name = ck_name surface \<Longrightarrow> path = ck_path surface"
      using Cons.prems assms(2) by (auto simp: jar_ok_def e)
    show ?case
    proof (cases "(name, path) = (ck_name surface, ck_path surface)")
      case True
      then show ?thesis using assms(3) by (simp add: e)
    next
      case False
      then have "name \<noteq> ck_name surface" using path by auto
      then show ?thesis using False Cons.IH [OF ok] by (simp add: e)
    qed
  qed (use assms(3) in simp)
  then show ?thesis by (simp add: readRefreshCookie_def cookies_for_def setRefreshCookie_def refreshCookieOptions_def)
qed

lemma read_cleared:
  assumes "jar_ok jar" and "surface \<in> {STAFF_REFRESH_COOKIE, PORTAL_REFRESH_COOKIE}"
  shows "readRefreshCookie (cookies_for route (clearRefreshCookie surface secure jar)) surface = None"
proof -
  have "map_of (map (\<lambda>((name, _), v). (name, JStr v)) (filter (\<lambda>((_, path), _). starts_with path route)
      (AList.delete (ck_name surface, ck_path surface) jar))) (ck_name surface) = None"
    using assms by (auto simp: map_of_eq_None_iff jar_ok_def AList.delete_eq image_iff split: prod.splits)
  then show ?thesis by (simp add: readRefreshCookie_def cookies_for_def clearRefreshCookie_def refreshCookieOptions_def)
qed

lemma jar_kept:
  assumes "jar_ok jar" and "surface \<in> {STAFF_REFRESH_COOKIE, PORTAL_REFRESH_COOKIE}"
  shows "jar_ok (setRefreshCookie surface v secure jar)" and "jar_ok (clearRefreshCookie surface secure jar)"
proof -
  have "set (AList.update k v jar) \<subseteq> insert (k, v) (set jar)" for k by (induction jar) auto
  then show "jar_ok (setRefreshCookie surface v secure jar)"
    using assms unfolding jar_ok_def setRefreshCookie_def refreshCookieOptions_def by fastforce
  show "jar_ok (clearRefreshCookie surface secure jar)"
    using assms(1) by (auto simp: jar_ok_def clearRefreshCookie_def AList.delete_eq)
qed

section \<open>A session in a browser\<close>

lemma usable_token_rotates:
  assumes ok: "ledger_ok (ledger d)" and tenant: "is_uuid tenant"
    and r: "r \<in> set (ledger d)" "k_tenant r = tenant" "k_hash r = cr_hash cr token" "usable r" "now < k_expires r" "now < k_family_expires r"
    and u: "u \<in> set (staff d)" "u_tenant u = tenant" "subjectOf r = Some (SubjUser (u_id u))"
    and new: "(tenant, cr_hash cr (ft_token fr)) \<notin> token_key ` set (ledger d)"
  shows "is_ok (fst (auth_refresh cr now fr tenant token d))"
proof -
  let ?s = "system_session now tenant"
  have ne: "tenant \<noteq> []" using is_uuid_not_Nil [OF tenant] .
  have found: "token_find (cr_hash cr) token ?s d = Some r" using ok r(1,2) ne r(3) by (rule find_of_key)
  have "classifyPresentedToken r now = VRotate" using r(4,5,6) by (simp add: classify_rotate)
  then have cl: "token_classify (cr_hash cr) token now ?s d = Some (VRotate, SubjUser (u_id u), k_family r)"
    by (simp add: token_classify_def found u(3))
  have "find (\<lambda>x. user_visible ?s x \<and> u_id x = u_id u) (staff d) \<noteq> None"
    using u ne by (auto simp: find_None_iff user_visible_def tenant_matches_def system_session_def)
  then obtain v where "find (\<lambda>x. user_visible ?s x \<and> u_id x = u_id u) (staff d) = Some v" by blast
  then have v: "resolve_staff tenant (u_id u) ?s d = Some (StaffPrincipal tenant (u_id v) (u_role v))" by (simp add: resolve_staff_def)
  have fresh: "(k_tenant r, cr_hash cr (ft_token fr)) \<notin> token_key ` set (ledger d)" using new r(2) by simp
  have exists: "subject_exists d (k_tenant r) (SubjUser (u_id u))" using u(1,2) r(2) by (force simp: subject_exists_def)
  have unspent: "k_rotated r = None" using r(4) by (simp add: usable_def)
  obtain t d' where run: "token_rotate (cr_hash cr) fr token now ?s d = Inr (t, d')"
    using rotate_total [OF ok found unspent u(3) fresh exists] by (metis is_ok.elims(2) surj_pair)
  have "t = Some (ft_token fr)" by (rule token_rotate_parts [OF ok found unspent u(3) run])
  then show ?thesis
    by (simp add: auth_refresh_def withTenant_system [OF tenant] issueSession_def rotateRefreshSession_def cl v run)
qed

text \<open>
  C35. A browser that comes back is let in exactly while its session lives: with the cookie of
  a tenant and a token in its jar, the refresh route answers with a session exactly when the
  tenant's ledger holds that token unspent, unrevoked and within both of its windows, and a
  member of staff of the tenant it names; the jar then carries the successor for the same
  tenant, and after a refusal it carries no refresh cookie at all.
\<close>

theorem browser_refresh_exact:
  assumes reach: "auth_reachable cr d" and jar: "jar_ok jar" and tenant: "is_uuid tenant" and token: "token \<noteq> []" "ft_token fr \<noteq> []"
    and carried: "readRefreshCookie (cookies_for ''/auth/refresh'' jar) STAFF_REFRESH_COOKIE = Some (encodeRefreshCookie tenant token)"
    and new: "(tenant, cr_hash cr (ft_token fr)) \<notin> token_key ` set (ledger d)"
    and run: "staff_refresh cr secure now fr (cookies_for ''/auth/refresh'' jar) jar d = (res, jar', d')"
  shows "(is_ok res \<longleftrightarrow> (\<exists>r \<in> set (ledger d). \<exists>u \<in> set (staff d).
            k_tenant r = tenant \<and> k_hash r = cr_hash cr token \<and> usable r \<and> now < k_expires r \<and> now < k_family_expires r \<and>
            u_tenant u = tenant \<and> subjectOf r = Some (SubjUser (u_id u)))) \<and>
         decodeRefreshCookie (readRefreshCookie (cookies_for ''/auth/refresh'' jar') STAFF_REFRESH_COOKIE) =
           (if is_ok res then Some (tenant, ft_token fr) else None)"
proof -
  have here: "starts_with (ck_path STAFF_REFRESH_COOKIE) ''/auth/refresh''" by code_simp
  have opened: "decodeRefreshCookie (Some (encodeRefreshCookie tenant t)) = Some (tenant, t)" if "t \<noteq> []" for t
    using that tenant by (simp add: refresh_cookie_roundtrip)
  obtain out where out: "auth_refresh cr now fr tenant token d = (out, snd (auth_refresh cr now fr tenant token d))"
    by (metis prod.collapse)
  show ?thesis
  proof (cases out)
    case (Inl e)
    have "\<not> is_ok (fst (auth_refresh cr now fr tenant token d))" using out Inl by (metis fst_conv is_ok.simps(1))
    then have no: "\<not> (\<exists>r \<in> set (ledger d). \<exists>u \<in> set (staff d).
            k_tenant r = tenant \<and> k_hash r = cr_hash cr token \<and> usable r \<and> now < k_expires r \<and> now < k_family_expires r \<and>
            u_tenant u = tenant \<and> subjectOf r = Some (SubjUser (u_id u)))"
      using usable_token_rotates [OF auth_reachable_ok [OF reach] tenant _ _ _ _ _ _ _ _ _ new] by blast
    have "res = Inl e" and jar': "jar' = clearRefreshCookie STAFF_REFRESH_COOKIE secure jar"
      using run out Inl by (auto simp: staff_refresh_def refresh_route_def carried opened [OF token(1)] split: prod.splits)
    then show ?thesis using no read_cleared [OF jar insertI1] by (simp add: decodeRefreshCookie_def)
  next
    case (Inr sess)
    note lives = refresh_accepted(1) [OF reach tenant out [unfolded Inr]]
    then have p: "tenantOf (as_principal sess) = tenant" "as_refresh sess = ft_token fr" by auto
    have "is_ok res" and jar': "jar' = setRefreshCookie STAFF_REFRESH_COOKIE (encodeRefreshCookie tenant (ft_token fr)) secure jar"
      using run out Inr p by (auto simp: staff_refresh_def refresh_route_def carried opened [OF token(1)] session_route_def respondWith_def split: prod.splits)
    moreover have "\<exists>r \<in> set (ledger d). \<exists>u \<in> set (staff d).
            k_tenant r = tenant \<and> k_hash r = cr_hash cr token \<and> usable r \<and> now < k_expires r \<and> now < k_family_expires r \<and>
            u_tenant u = tenant \<and> subjectOf r = Some (SubjUser (u_id u))"
      using lives by blast
    ultimately show ?thesis using read_set [OF jar insertI1 here] opened [OF token(2)] by simp
  qed
qed

definition jar1 :: cookie_jar where
  "jar1 = [((''nivara_refresh'', ''/auth''), encodeRefreshCookie tenant1 ''T1'')]"

definition back1 :: route_result where
  "back1 = staff_refresh crypto1 True 1000 \<lparr>ft_token = ''T2'', ft_family = ''G''\<rparr> (cookies_for ''/auth/refresh'' jar1) jar1 (snd signed1)"

theorem browser_refresh_exact_witness:
  "is_ok (fst back1) \<and>
   decodeRefreshCookie (readRefreshCookie (cookies_for ''/auth/refresh'' (fst (snd back1))) STAFF_REFRESH_COOKIE) = Some (tenant1, ''T2'')"
proof -
  have facts: "jar_ok jar1" "is_ok (fst back1)" "(''T1'' :: string) \<noteq> []" "ft_token \<lparr>ft_token = ''T2'', ft_family = ''G''\<rparr> \<noteq> []"
    "readRefreshCookie (cookies_for ''/auth/refresh'' jar1) STAFF_REFRESH_COOKIE = Some (encodeRefreshCookie tenant1 ''T1'')"
    by code_simp+
  have new: "(tenant1, cr_hash crypto1 (ft_token \<lparr>ft_token = ''T2'', ft_family = ''G''\<rparr>)) \<notin> token_key ` set (ledger (snd signed1))"
    by (simp add: session_rows token_key_def)
  have run: "staff_refresh crypto1 True 1000 \<lparr>ft_token = ''T2'', ft_family = ''G''\<rparr> (cookies_for ''/auth/refresh'' jar1) jar1 (snd signed1) =
      (fst back1, fst (snd back1), snd (snd back1))"
    by (simp add: back1_def)
  show ?thesis
    using browser_refresh_exact [OF signed1_reachable facts(1) session_rows(4) facts(3,4,5) new run] facts(2) by simp
qed

end
