(* ===== verification/Configuration.thy ===== *)
theory Configuration
  imports Auth_Surface Slack_Work Rate_Limit
begin

text \<open>
  The configuration of the process (\<open>src/src/config\<close>): the transformations and the refinement
  of the environment schema, the report of its problems, and the accessors the components
  read. Parsing the declared fields is the schema library's work and is an argument; what the
  declarations ask of it is the hypothesis \<open>shape_law\<close>.
\<close>

section \<open>The schema\<close>

record env =
  NODE_ENV :: string
  PORT :: int
  DATABASE_URL :: string
  MIGRATE_DATABASE_URL :: "string option"
  REDIS_URL :: "string option"
  RATE_LIMIT_AUTHENTICATED_PER_MINUTE :: int
  RATE_LIMIT_SLACK_IP_PER_MINUTE :: int
  RATE_LIMIT_SLACK_GLOBAL_PER_MINUTE :: int
  JWT_SECRET :: string
  WIDGET_SESSION_SECRET :: string
  GOOGLE_CLIENT_ID :: "string option"
  GOOGLE_CLIENT_SECRET :: "string option"
  SLACK_SIGNING_SECRET :: "string option"
  SLACK_BOT_TOKEN :: "string option"
  RUN_SCHEDULER :: bool
  WEB_ORIGINS :: "string list"
  SWAGGER_ENABLED :: bool

record issue =
  issue_path :: "string list"
  issue_message :: string

type_synonym raw_env = "string \<Rightarrow> string option"

definition booleanish :: "bool \<Rightarrow> string option \<Rightarrow> bool" where
  "booleanish fallback v = (case v of None \<Rightarrow> fallback | Some s \<Rightarrow> s = ''true'' \<or> s = ''1'')"

definition originList :: "string option \<Rightarrow> string list" where
  "originList v = filter (\<lambda>entry. entry \<noteq> []) (map trim (split_on (CHR '','') (case v of None \<Rightarrow> [] | Some s \<Rightarrow> s)))"

definition partial_issue :: "string \<Rightarrow> string list \<Rightarrow> bool list \<Rightarrow> issue list" where
  "partial_issue name ks present =
     (if list_ex id present \<and> \<not> list_all id present
      then [\<lparr>issue_path = [hd ks],
             issue_message = name @ '' is partially configured. Set all of '' @ join_with '', '' ks @
               '', or none of them to leave '' @ name @ '' dormant.''\<rparr>]
      else [])"

definition truthy :: "string option \<Rightarrow> bool" where
  "truthy v \<longleftrightarrow> given v \<noteq> None"

definition superRefine :: "env \<Rightarrow> issue list" where
  "superRefine e =
     partial_issue ''Google OIDC'' [''GOOGLE_CLIENT_ID'', ''GOOGLE_CLIENT_SECRET'']
       [truthy (GOOGLE_CLIENT_ID e), truthy (GOOGLE_CLIENT_SECRET e)] @
     partial_issue ''Slack'' [''SLACK_SIGNING_SECRET'', ''SLACK_BOT_TOKEN'']
       [truthy (SLACK_SIGNING_SECRET e), truthy (SLACK_BOT_TOKEN e)] @
     (if NODE_ENV e = ''production'' \<and> truthy (MIGRATE_DATABASE_URL e)
      then [\<lparr>issue_path = [''MIGRATE_DATABASE_URL''],
             issue_message = ''MIGRATE_DATABASE_URL must not be present in a production process. It is the owner credential, which bypasses row-level security; supply it to the release-phase migrate step alone.''\<rparr>]
      else [])"

text \<open>The refinement is run on what the fields gave; without them there is nothing to refine.\<close>

definition safeParse :: "(raw_env \<Rightarrow> issue list + env) \<Rightarrow> raw_env \<Rightarrow> issue list + env" where
  "safeParse shape raw =
     (case shape raw of
        Inl issues \<Rightarrow> Inl issues
      | Inr e \<Rightarrow> if superRefine e = [] then Inr e else Inl (superRefine e))"

definition problem_line :: "issue \<Rightarrow> string" where
  "problem_line i =
     ''  '' @ (if join_with ''.'' (issue_path i) = [] then ''(root)'' else join_with ''.'' (issue_path i)) @ '': '' @ issue_message i"

definition validateEnv :: "(raw_env \<Rightarrow> issue list + env) \<Rightarrow> raw_env \<Rightarrow> string + env" where
  "validateEnv shape raw =
     (case safeParse shape raw of
        Inl issues \<Rightarrow> Inl (''Invalid configuration:'' @ CHR 0x0A # join_with [CHR 0x0A] (map problem_line issues))
      | Inr e \<Rightarrow> Inr e)"

section \<open>The accessors\<close>

definition config_rateLimits :: "env \<Rightarrow> rate_limit \<times> rate_limit \<times> rate_limit" where
  "config_rateLimits e =
     (overAMinute (RATE_LIMIT_AUTHENTICATED_PER_MINUTE e), overAMinute (RATE_LIMIT_SLACK_IP_PER_MINUTE e),
      overAMinute (RATE_LIMIT_SLACK_GLOBAL_PER_MINUTE e))"

definition googleConfig :: "env \<Rightarrow> google_config" where
  "googleConfig e = \<lparr>gc_client = GOOGLE_CLIENT_ID e, gc_secret = GOOGLE_CLIENT_SECRET e\<rparr>"

definition isProduction :: "env \<Rightarrow> bool" where
  "isProduction e \<longleftrightarrow> NODE_ENV e = ''production''"

definition features :: "env \<Rightarrow> bool \<times> bool" where
  "features e = (GOOGLE_CLIENT_ID e \<noteq> None, SLACK_SIGNING_SECRET e \<noteq> None)"

definition redis_url_client :: "(string \<Rightarrow> 'c) \<Rightarrow> env \<Rightarrow> 'c option" where
  "redis_url_client connect e = map_option connect (given (REDIS_URL e))"

definition corsDelegate :: "env \<Rightarrow> string option \<Rightarrow> cors_policy" where
  "corsDelegate e origin = browserCorsPolicy origin (WEB_ORIGINS e)"

section \<open>What the declarations ask\<close>

definition optional_ok :: "string option \<Rightarrow> bool" where
  "optional_ok v \<longleftrightarrow> v \<noteq> Some []"

definition secret_ok :: "string \<Rightarrow> bool" where
  "secret_ok s \<longleftrightarrow> 32 \<le> length s"

definition fields_typed :: "raw_env \<Rightarrow> env \<Rightarrow> bool" where
  "fields_typed raw e \<longleftrightarrow>
     NODE_ENV e \<in> {''development'', ''test'', ''production''} \<and> 1 \<le> PORT e \<and> PORT e \<le> 65535 \<and> DATABASE_URL e \<noteq> [] \<and>
     optional_ok (MIGRATE_DATABASE_URL e) \<and> optional_ok (REDIS_URL e) \<and>
     1 \<le> RATE_LIMIT_AUTHENTICATED_PER_MINUTE e \<and> 1 \<le> RATE_LIMIT_SLACK_IP_PER_MINUTE e \<and> 1 \<le> RATE_LIMIT_SLACK_GLOBAL_PER_MINUTE e \<and>
     secret_ok (JWT_SECRET e) \<and> secret_ok (WIDGET_SESSION_SECRET e) \<and>
     optional_ok (GOOGLE_CLIENT_ID e) \<and> optional_ok (GOOGLE_CLIENT_SECRET e) \<and>
     optional_ok (SLACK_SIGNING_SECRET e) \<and> optional_ok (SLACK_BOT_TOKEN e) \<and>
     RUN_SCHEDULER e = booleanish False (raw ''RUN_SCHEDULER'') \<and> WEB_ORIGINS e = originList (raw ''WEB_ORIGINS'') \<and>
     SWAGGER_ENABLED e = booleanish True (raw ''SWAGGER_ENABLED'')"

definition shape_law :: "(raw_env \<Rightarrow> issue list + env) \<Rightarrow> bool" where
  "shape_law shape \<longleftrightarrow> (\<forall>raw. (\<forall>e. shape raw = Inr e \<longrightarrow> fields_typed raw e) \<and> shape raw \<noteq> Inl [])"

section \<open>Properties\<close>

lemma partial_none: "partial_issue name ks [a, b] = [] \<longleftrightarrow> a = b"
  by (auto simp: partial_issue_def)

lemma truthy_given: "optional_ok v \<Longrightarrow> truthy v \<longleftrightarrow> v \<noteq> None"
  by (auto simp: truthy_def given_def optional_ok_def split: option.splits)

lemma superRefine_none:
  "superRefine e = [] \<longleftrightarrow> truthy (GOOGLE_CLIENT_ID e) = truthy (GOOGLE_CLIENT_SECRET e) \<and>
     truthy (SLACK_SIGNING_SECRET e) = truthy (SLACK_BOT_TOKEN e) \<and>
     \<not> (isProduction e \<and> truthy (MIGRATE_DATABASE_URL e))"
  by (auto simp: superRefine_def partial_none isProduction_def)

lemma validateEnv_ok: "validateEnv shape raw = Inr e \<longleftrightarrow> shape raw = Inr e \<and> superRefine e = []"
  by (auto simp: validateEnv_def safeParse_def split: sum.splits if_splits)


text \<open>A refused environment is refused with every problem of the refinement on a line of its own.\<close>

lemma refusal_names_all:
  assumes "shape raw = Inr e" and "superRefine e \<noteq> []"
  shows "validateEnv shape raw = Inl (''Invalid configuration:'' @ CHR 0x0A # join_with [CHR 0x0A] (map problem_line (superRefine e)))"
  using assms by (simp add: validateEnv_def safeParse_def)

section \<open>A development environment\<close>

definition sample_shape :: "raw_env \<Rightarrow> issue list + env" where
  "sample_shape raw =
     Inr \<lparr>NODE_ENV = ''development'', PORT = 3000, DATABASE_URL = ''postgres'', MIGRATE_DATABASE_URL = Some ''owner'',
       REDIS_URL = None, RATE_LIMIT_AUTHENTICATED_PER_MINUTE = 300, RATE_LIMIT_SLACK_IP_PER_MINUTE = 60,
       RATE_LIMIT_SLACK_GLOBAL_PER_MINUTE = 600, JWT_SECRET = replicate 32 CHR ''j'', WIDGET_SESSION_SECRET = replicate 32 CHR ''w'',
       GOOGLE_CLIENT_ID = Some ''client'', GOOGLE_CLIENT_SECRET = Some ''secret'', SLACK_SIGNING_SECRET = None, SLACK_BOT_TOKEN = None,
       RUN_SCHEDULER = booleanish False (raw ''RUN_SCHEDULER''), WEB_ORIGINS = originList (raw ''WEB_ORIGINS''),
       SWAGGER_ENABLED = booleanish True (raw ''SWAGGER_ENABLED'')\<rparr>"

definition sample_raw :: raw_env where
  "sample_raw = [''RUN_SCHEDULER'' \<mapsto> ''1'', ''WEB_ORIGINS'' \<mapsto> ''https://a.example, ,https://b.example'']"

definition sample_env :: env where
  "sample_env = projr (sample_shape sample_raw)"


end
