(* ===== verification/Http_Dtos.thy ===== *)
theory Http_Dtos
  imports Listing Configuration
begin

text \<open>
  The shapes of the HTTP surface: the declared bodies and queries with the rules their
  decorators name, what the validation pipe makes of them, and the rows of the database as
  they are sent. Whether a value satisfies a rule is the validation library's to say: its
  verdicts and messages are an argument, as are its errors on a body that is no object. A
  query parameter is sent once.
\<close>

section \<open>Declared bodies\<close>

datatype rule =
    IsString | Length_between nat nat | Max_length nat | Min_length nat | Is_uuid | Is_email | Is_enum "string list"
  | Is_array | Array_not_empty | Each_string | Is_int | Min_value int | Max_value int

record dto_field =
  df_name :: string
  df_null_allowed :: bool
  df_lowered :: bool
  df_rules :: "rule list"

record validator =
  vl_ok :: "rule \<Rightarrow> json option \<Rightarrow> bool"
  vl_message :: "string \<Rightarrow> string \<Rightarrow> string"
  vl_not_object :: "validation_error list"

definition property :: "string \<Rightarrow> rule list \<Rightarrow> dto_field" where
  "property n rules = \<lparr>df_name = n, df_null_allowed = False, df_lowered = False, df_rules = rules\<rparr>"

fun rule_name :: "rule \<Rightarrow> string" where
  "rule_name IsString = ''isString''"
| "rule_name (Length_between _ _) = ''isLength''"
| "rule_name (Max_length _) = ''maxLength''"
| "rule_name (Min_length _) = ''minLength''"
| "rule_name Is_uuid = ''isUuid''"
| "rule_name Is_email = ''isEmail''"
| "rule_name (Is_enum _) = ''isEnum''"
| "rule_name Is_array = ''isArray''"
| "rule_name Array_not_empty = ''arrayNotEmpty''"
| "rule_name Each_string = ''isString''"
| "rule_name Is_int = ''isInt''"
| "rule_name (Min_value _) = ''min''"
| "rule_name (Max_value _) = ''max''"

definition failures :: "validator \<Rightarrow> string \<Rightarrow> rule list \<Rightarrow> json option \<Rightarrow> validation_error list" where
  "failures vl n rules v =
     (let failed = filter (\<lambda>r. \<not> vl_ok vl r v) rules
      in if failed = [] then [] else [ValidationError n (map (\<lambda>r. (rule_name r, vl_message vl n (rule_name r))) failed) []])"

definition field_errors :: "validator \<Rightarrow> (string \<times> json) list \<Rightarrow> dto_field \<Rightarrow> validation_error list" where
  "field_errors vl kvs f =
     (if df_null_allowed f \<and> map_of kvs (df_name f) = Some JNull then []
      else failures vl (df_name f) (df_rules f) (map_of kvs (df_name f)))"

text \<open>The pipe refuses what is not declared, and then what a rule refuses.\<close>

definition body_errors :: "validator \<Rightarrow> dto_field list \<Rightarrow> (string \<times> json) list \<Rightarrow> validation_error list" where
  "body_errors vl fs kvs =
     map (\<lambda>(k, _). ValidationError k [(UNKNOWN_PROPERTY, vl_message vl k UNKNOWN_PROPERTY)] [])
       (filter (\<lambda>(k, _). k \<notin> df_name ` set fs) kvs) @
     concat (map (field_errors vl kvs) fs)"

text \<open>An address is trimmed and lowered before it is checked.\<close>

definition transformed :: "dto_field list \<Rightarrow> (string \<times> json) list \<Rightarrow> (string \<times> json) list" where
  "transformed fs kvs =
     map (\<lambda>(k, v). (k, case v of
            JStr s \<Rightarrow> JStr (if list_ex (\<lambda>f. df_name f = k \<and> df_lowered f) fs then lower (trim s) else s)
          | _ \<Rightarrow> v)) kvs"

definition read_body :: "validator \<Rightarrow> dto_field list \<Rightarrow> json option \<Rightarrow> thrown + (string \<times> json) list" where
  "read_body vl fs body =
     (case (case body of None \<Rightarrow> Some [] | Some (JObj kvs) \<Rightarrow> Some (transformed fs kvs) | _ \<Rightarrow> None) of
        None \<Rightarrow> Inl (App (toAppException (vl_not_object vl)))
      | Some kvs \<Rightarrow>
          if body_errors vl fs kvs = [] then Inr kvs else Inl (App (toAppException (body_errors vl fs kvs))))"

definition CreateTicketDto :: "dto_field list" where
  "CreateTicketDto =
     [property ''subject'' [IsString, Length_between 1 200],
      property ''contactId'' [Is_uuid],
      property ''source'' [Is_enum (map fst SOURCES)]]"

definition SetStateDto :: "dto_field list" where
  "SetStateDto = [property ''state'' [Is_enum (map fst STATES)]]"

definition SetPriorityDto :: "dto_field list" where
  "SetPriorityDto = [property ''priority'' [Is_enum (map fst PRIORITIES)]]"

definition SetAssigneeDto :: "dto_field list" where
  "SetAssigneeDto = [(property ''assigneeId'' [Is_uuid])\<lparr>df_null_allowed := True\<rparr>]"

definition MAX_BODY_LENGTH :: nat where "MAX_BODY_LENGTH = 20000"

definition CreateMessageDto :: "dto_field list" where
  "CreateMessageDto = [property ''body'' [IsString, Length_between 1 MAX_BODY_LENGTH]]"

definition CreateNoteDto :: "dto_field list" where
  "CreateNoteDto = [property ''body'' [IsString, Length_between 1 MAX_BODY_LENGTH]]"

definition OpenTicketDto :: "dto_field list" where
  "OpenTicketDto = [property ''subject'' [IsString, Length_between 1 200]]"

definition OpenWidgetTicketDto :: "dto_field list" where
  "OpenWidgetTicketDto = [property ''subject'' [IsString, Length_between 1 200]]"

definition StartWidgetSessionDto :: "dto_field list" where
  "StartWidgetSessionDto = [property ''tenantId'' [Is_uuid]]"

definition MintServiceTokenDto :: "dto_field list" where
  "MintServiceTokenDto =
     [property ''name'' [IsString, Length_between 1 200],
      property ''scopes'' [Is_array, Array_not_empty, Each_string]]"

definition AcceptInvitationDto :: "dto_field list" where
  "AcceptInvitationDto =
     [property ''tenantId'' [Is_uuid],
      property ''token'' [IsString, Max_length 256],
      property ''password'' [IsString, Min_length 12, Max_length 256]]"

definition InviteStaffDto :: "dto_field list" where
  "InviteStaffDto =
     [(property ''email'' [Is_email])\<lparr>df_lowered := True\<rparr>,
      property ''name'' [IsString, Length_between 1 200],
      property ''role'' [Is_enum ROLES]]"

text \<open>A validated property, as the handler reads it.\<close>

definition text_of :: "(string \<times> json) list \<Rightarrow> string \<Rightarrow> string" where
  "text_of kvs k = (case map_of kvs k of Some (JStr s) \<Rightarrow> s | _ \<Rightarrow> [])"

definition texts_of :: "(string \<times> json) list \<Rightarrow> string \<Rightarrow> string list" where
  "texts_of kvs k = (case map_of kvs k of Some (JArr xs) \<Rightarrow> map (\<lambda>x. case x of JStr s \<Rightarrow> s | _ \<Rightarrow> []) xs | _ \<Rightarrow> [])"

section \<open>Declared queries\<close>

type_synonym query = "(string \<times> string) list"

definition DEFAULT_PAGE_LIMIT :: nat where "DEFAULT_PAGE_LIMIT = 25"
definition MAX_PAGE_LIMIT :: nat where "MAX_PAGE_LIMIT = 100"

definition PaginationQuery :: "string list" where "PaginationQuery = [''limit'', ''cursor'']"

definition ListTicketsQuery :: "string list" where
  "ListTicketsQuery = PaginationQuery @
     [''state'', ''priority'', ''source'', ''assigneeId'', ''contactId'', ''createdAfter'', ''createdBefore'', ''sort'']"

definition ListThreadQuery :: "string list" where "ListThreadQuery = PaginationQuery @ [''sort'']"

definition ListAuditQuery :: "string list" where "ListAuditQuery = PaginationQuery @ [''sort'']"

definition LIMIT_RULES :: "rule list" where
  "LIMIT_RULES = [Is_int, Min_value 1, Max_value (int MAX_PAGE_LIMIT)]"

text \<open>\<open>Number\<close> of the parameter; a page size that is no integer is refused by its rules.\<close>

definition as_number :: "string \<Rightarrow> jsnum" where
  "as_number s =
     (case finite_number s of
        Some x \<Rightarrow> if of_int \<lfloor>x\<rfloor> = x then JInt \<lfloor>x\<rfloor> else JFrac
      | None \<Rightarrow> JFrac)"

definition read_limit :: "validator \<Rightarrow> query \<Rightarrow> thrown + nat" where
  "read_limit vl q =
     (case map_of q ''limit'' of
        None \<Rightarrow> Inr DEFAULT_PAGE_LIMIT
      | Some s \<Rightarrow>
          (let errors = failures vl ''limit'' LIMIT_RULES (Some (JNum (as_number s)))
           in case as_number s of
                JInt k \<Rightarrow> if errors = [] then Inr (nat k) else Inl (App (toAppException errors))
              | JFrac \<Rightarrow> Inl (App (toAppException errors))))"

definition filters_of :: "query \<Rightarrow> ticket_filters" where
  "filters_of q =
     \<lparr>f_state = map_of q ''state'', f_priority = map_of q ''priority'', f_source = map_of q ''source'',
      f_assignee = map_of q ''assigneeId'', f_contact = map_of q ''contactId'',
      f_created_after = map_of q ''createdAfter'', f_created_before = map_of q ''createdBefore''\<rparr>"

section \<open>Rows as they are sent\<close>

definition or_null :: "('a \<Rightarrow> json) \<Rightarrow> 'a option \<Rightarrow> json" where
  "or_null f v = (case v of None \<Rightarrow> JNull | Some x \<Rightarrow> f x)"

definition toTicketDto :: "ticket \<Rightarrow> json" where
  "toTicketDto t =
     JObj [(''id'', JStr (t_id t)), (''subject'', JStr (t_subject t)), (''contactId'', JStr (t_contact t)),
           (''assigneeId'', or_null JStr (t_assignee t)), (''state'', JStr (state_text (t_state t))),
           (''priority'', JStr (priority_text (t_priority t))), (''source'', JStr (source_text (t_source t))),
           (''createdAt'', JStr (to_iso (t_created t))), (''updatedAt'', JStr (to_iso (t_updated t)))]"

definition toMessageDto :: "thread_row \<Rightarrow> json" where
  "toMessageDto m =
     JObj [(''id'', JStr (m_id m)), (''ticketId'', JStr (m_ticket m)), (''body'', JStr (m_body m)),
           (''authorKind'', JStr (m_author_kind m)), (''authorId'', or_null JStr (m_author_id m)),
           (''createdAt'', JStr (to_iso (m_created m)))]"

definition toNoteDto :: "thread_row \<Rightarrow> json" where
  "toNoteDto n =
     JObj [(''id'', JStr (m_id n)), (''ticketId'', JStr (m_ticket n)), (''body'', JStr (m_body n)),
           (''authorKind'', JStr (m_author_kind n)), (''authorId'', or_null JStr (m_author_id n)),
           (''createdAt'', JStr (to_iso (m_created n)))]"

fun toWireAction :: "audit_action \<Rightarrow> string" where
  "toWireAction ticket_created = ''ticket.created''"
| "toWireAction ticket_transitioned = ''ticket.transitioned''"
| "toWireAction ticket_assigned = ''ticket.assigned''"
| "toWireAction ticket_priority_changed = ''ticket.priority_changed''"
| "toWireAction sla_breached = ''sla.breached''"
| "toWireAction token_minted = ''token.minted''"
| "toWireAction token_revoked = ''token.revoked''"
| "toWireAction integration_failed = ''integration.failed''"

text \<open>No statement of the program sets a correlation id.\<close>

definition toAuditEntryDto :: "audit_entry \<Rightarrow> json" where
  "toAuditEntryDto e =
     (let r = ae_row e in
      JObj [(''id'', JStr (ae_id e)), (''action'', JStr (toWireAction (a_action r))), (''actorKind'', JStr (a_actor_kind r)),
            (''actorId'', or_null JStr (a_actor_id r)), (''targetKind'', JStr (a_target_kind r)), (''targetId'', JStr (a_target_id r)),
            (''ticketId'', or_null JStr (a_ticket r)), (''fromValue'', or_null JStr (a_from r)), (''toValue'', or_null JStr (a_to r)),
            (''metadata'', or_null id (a_metadata r)), (''correlationId'', JNull), (''createdAt'', JStr (to_iso (ae_created e)))])"

definition service_token_members :: "service_row \<Rightarrow> (string \<times> json) list" where
  "service_token_members r =
     [(''id'', JStr (sv_id r)), (''name'', JStr (sv_name r)),
      (''scopes'', JArr (map (\<lambda>p. JStr (permission_name p)) (grantedScopes (sv_scopes r)))),
      (''createdById'', JStr (sv_created_by r)), (''revokedAt'', or_null (\<lambda>ms. JStr (to_iso ms)) (sv_revoked r)),
      (''createdAt'', JStr (to_iso (sv_created r)))]"

definition toServiceTokenDto :: "service_row \<Rightarrow> json" where
  "toServiceTokenDto r = JObj (service_token_members r)"

definition MintedServiceTokenDto :: "service_row \<Rightarrow> string \<Rightarrow> json" where
  "MintedServiceTokenDto r raw = JObj (service_token_members r @ [(''token'', JStr raw)])"

definition WidgetSessionDto :: "widget_grant \<Rightarrow> json" where
  "WidgetSessionDto g = JObj [(''token'', JStr (wg_token g)), (''expiresInSeconds'', JNum (JInt (wg_expires_in g)))]"

definition InvitationDto :: "issued_invitation \<Rightarrow> json" where
  "InvitationDto i =
     JObj [(''id'', JStr (ii_id i)), (''userId'', JStr (ii_user i)), (''email'', JStr (ii_email i)), (''role'', JStr (ii_role i)),
           (''token'', JStr (ii_token i)), (''expiresAt'', JStr (to_iso (ii_expires i)))]"

definition page_body :: "('r \<Rightarrow> json) \<Rightarrow> 'r page \<Rightarrow> json" where
  "page_body f pg = JObj [(''data'', JArr (map f (pg_data pg))), (''nextCursor'', or_null JStr (pg_next pg))]"

end
