(* ===== verification/Http_Surface.thy ===== *)
theory Http_Surface
  imports Http_Dtos World
begin

text \<open>
  The HTTP surface: the controllers of tickets, messages, notes, the audit trail, the portal,
  the widget and the service tokens, each as its routes with what their decorators declare and
  one handler, and the global chain every request passes (\<open>auth.module.ts\<close>,
  \<open>global-providers.ts\<close>): the guards, the idempotency interceptor, the pipes, the handler. The
  router, the digest, the signer, the store of the rate limiter and what is drawn at random
  are arguments. Identifiers arrive in the lower case in which the database prints them.
\<close>

section \<open>Routes\<close>

record http_route =
  ro_method :: string
  ro_path :: "string list"
  ro_meta :: "route_meta list"
  ro_status :: nat
  ro_body :: "dto_field list option"
  ro_query :: "string list"
  ro_errors :: "error_code list"

abbreviation undecorated :: route_meta where
  "undecorated \<equiv> \<lparr>meta_public = None, meta_kind = None, meta_permission = None, meta_authenticated_only = None\<rparr>"

definition RequiresPermission :: "permission \<Rightarrow> route_meta" where
  "RequiresPermission r = undecorated\<lparr>meta_permission := Some r\<rparr>"

definition RequiresPrincipalKind :: "principal_kind \<Rightarrow> route_meta" where
  "RequiresPrincipalKind k = undecorated\<lparr>meta_kind := Some k\<rparr>"

definition Public :: route_meta where
  "Public = undecorated\<lparr>meta_public := Some True\<rparr>"

text \<open>A route of the staff console: one permission, declared on the handler.\<close>

definition staff_route ::
  "string \<Rightarrow> string list \<Rightarrow> permission \<Rightarrow> nat \<Rightarrow> dto_field list option \<Rightarrow> string list \<Rightarrow> error_code list \<Rightarrow> http_route" where
  "staff_route mth path r status dto query codes =
     \<lparr>ro_method = mth, ro_path = path, ro_meta = [RequiresPermission r, undecorated], ro_status = status,
      ro_body = dto, ro_query = query, ro_errors = codes\<rparr>"

text \<open>A route of a customer surface: one kind of principal, declared on the class.\<close>

definition customer_route ::
  "string \<Rightarrow> string list \<Rightarrow> principal_kind \<Rightarrow> nat \<Rightarrow> dto_field list option \<Rightarrow> string list \<Rightarrow> error_code list \<Rightarrow> http_route" where
  "customer_route mth path k status dto query codes =
     \<lparr>ro_method = mth, ro_path = path, ro_meta = [undecorated, RequiresPrincipalKind k], ro_status = status,
      ro_body = dto, ro_query = query, ro_errors = codes\<rparr>"

datatype tickets_ep = TCreate | TList | TFindOne | TConversation | TTransition | TSetPriority | TSetAssignee

fun tickets_route :: "tickets_ep \<Rightarrow> http_route" where
  "tickets_route TCreate = staff_route ''POST'' [''tickets''] permission.ticket_create 201 (Some CreateTicketDto) []
     [validation_failed, unauthenticated, forbidden, not_found]"
| "tickets_route TList = staff_route ''GET'' [''tickets''] ticket_read 200 None ListTicketsQuery
     [invalid_filter, invalid_sort, invalid_cursor, unauthenticated, forbidden]"
| "tickets_route TFindOne = staff_route ''GET'' [''tickets'', '':id''] ticket_read 200 None []
     [malformed_request, unauthenticated, forbidden, not_found]"
| "tickets_route TConversation = staff_route ''GET'' [''tickets'', '':id'', ''conversation''] ticket_read 200 None []
     [malformed_request, unauthenticated, forbidden, not_found]"
| "tickets_route TTransition = staff_route ''PATCH'' [''tickets'', '':id'', ''state''] ticket_transition 200 (Some SetStateDto) []
     [malformed_request, validation_failed, unauthenticated, forbidden, not_found, conflict]"
| "tickets_route TSetPriority = staff_route ''PATCH'' [''tickets'', '':id'', ''priority''] ticket_priority 200 (Some SetPriorityDto) []
     [malformed_request, validation_failed, unauthenticated, forbidden, not_found, conflict]"
| "tickets_route TSetAssignee = staff_route ''PATCH'' [''tickets'', '':id'', ''assignee''] ticket_assign 200 (Some SetAssigneeDto) []
     [malformed_request, validation_failed, unauthenticated, forbidden, not_found]"

datatype messages_ep = MPost | MList

fun messages_route :: "messages_ep \<Rightarrow> http_route" where
  "messages_route MPost = staff_route ''POST'' [''tickets'', '':id'', ''messages''] ticket_reply 201 (Some CreateMessageDto) []
     [malformed_request, validation_failed, unauthenticated, forbidden, not_found]"
| "messages_route MList = staff_route ''GET'' [''tickets'', '':id'', ''messages''] ticket_read 200 None ListThreadQuery
     [malformed_request, invalid_sort, invalid_cursor, unauthenticated, forbidden, not_found]"

datatype notes_ep = NWrite | NList

fun notes_route :: "notes_ep \<Rightarrow> http_route" where
  "notes_route NWrite = staff_route ''POST'' [''tickets'', '':id'', ''notes''] permission.note_write 201 (Some CreateNoteDto) []
     [malformed_request, validation_failed, unauthenticated, forbidden, not_found]"
| "notes_route NList = staff_route ''GET'' [''tickets'', '':id'', ''notes''] note_read 200 None ListThreadQuery
     [malformed_request, invalid_sort, invalid_cursor, unauthenticated, forbidden, not_found]"

definition audit_route :: http_route where
  "audit_route = staff_route ''GET'' [''tickets'', '':id'', ''audit''] audit_read 200 None ListAuditQuery
     [malformed_request, invalid_sort, invalid_cursor, unauthenticated, forbidden, not_found]"

datatype customer_ep = COpen | CList | CFindOne | CThread | CReply

fun portal_route :: "customer_ep \<Rightarrow> http_route" where
  "portal_route COpen = customer_route ''POST'' [''portal'', ''tickets''] contact_kind 201 (Some OpenTicketDto) []
     [validation_failed, unauthenticated, forbidden, not_found]"
| "portal_route CList = customer_route ''GET'' [''portal'', ''tickets''] contact_kind 200 None ListTicketsQuery
     [invalid_filter, invalid_sort, invalid_cursor, unauthenticated, forbidden]"
| "portal_route CFindOne = customer_route ''GET'' [''portal'', ''tickets'', '':id''] contact_kind 200 None []
     [malformed_request, unauthenticated, forbidden, not_found]"
| "portal_route CThread = customer_route ''GET'' [''portal'', ''tickets'', '':id'', ''messages''] contact_kind 200 None ListThreadQuery
     [malformed_request, invalid_sort, invalid_cursor, unauthenticated, forbidden, not_found]"
| "portal_route CReply = customer_route ''POST'' [''portal'', ''tickets'', '':id'', ''messages''] contact_kind 201 (Some CreateMessageDto) []
     [malformed_request, validation_failed, unauthenticated, forbidden, not_found, conflict]"

fun widget_tickets_route :: "customer_ep \<Rightarrow> http_route" where
  "widget_tickets_route COpen = customer_route ''POST'' [''widget'', ''tickets''] widget_kind 201 (Some OpenWidgetTicketDto) []
     [validation_failed, unauthenticated, forbidden, not_found]"
| "widget_tickets_route CList = customer_route ''GET'' [''widget'', ''tickets''] widget_kind 200 None ListTicketsQuery
     [invalid_filter, invalid_sort, invalid_cursor, unauthenticated, forbidden]"
| "widget_tickets_route CFindOne = customer_route ''GET'' [''widget'', ''tickets'', '':id''] widget_kind 200 None []
     [malformed_request, unauthenticated, forbidden, not_found]"
| "widget_tickets_route CThread = customer_route ''GET'' [''widget'', ''tickets'', '':id'', ''messages''] widget_kind 200 None ListThreadQuery
     [malformed_request, invalid_sort, invalid_cursor, unauthenticated, forbidden, not_found]"
| "widget_tickets_route CReply = customer_route ''POST'' [''widget'', ''tickets'', '':id'', ''messages''] widget_kind 201 (Some CreateMessageDto) []
     [malformed_request, validation_failed, unauthenticated, forbidden, not_found, conflict]"

datatype widget_sessions_ep = WStart | WRenew

fun widget_sessions_route :: "widget_sessions_ep \<Rightarrow> http_route" where
  "widget_sessions_route WStart =
     \<lparr>ro_method = ''POST'', ro_path = [''widget'', ''sessions''], ro_meta = [Public, undecorated], ro_status = 201,
      ro_body = Some StartWidgetSessionDto, ro_query = [], ro_errors = [validation_failed, forbidden]\<rparr>"
| "widget_sessions_route WRenew =
     \<lparr>ro_method = ''POST'', ro_path = [''widget'', ''sessions'', ''renew''],
      ro_meta = [RequiresPrincipalKind widget_kind, undecorated], ro_status = 200,
      ro_body = None, ro_query = [], ro_errors = [unauthenticated, forbidden]\<rparr>"

datatype service_tokens_ep = SMint | SScopes | SList | SRevoke

fun service_tokens_route :: "service_tokens_ep \<Rightarrow> http_route" where
  "service_tokens_route SMint = staff_route ''POST'' [''service-tokens''] token_manage 201 (Some MintServiceTokenDto) []
     [validation_failed, unauthenticated, forbidden]"
| "service_tokens_route SScopes = staff_route ''GET'' [''service-tokens'', ''scopes''] token_manage 200 None []
     [unauthenticated, forbidden]"
| "service_tokens_route SList = staff_route ''GET'' [''service-tokens''] token_manage 200 None []
     [unauthenticated, forbidden]"
| "service_tokens_route SRevoke = staff_route ''DELETE'' [''service-tokens'', '':id''] token_manage 204 None []
     [malformed_request, unauthenticated, forbidden, not_found, conflict]"

datatype endpoint =
    Tickets tickets_ep | Messages messages_ep | Notes notes_ep | Audit_timeline | Portal customer_ep
  | Widget_tickets customer_ep | Widget_sessions widget_sessions_ep | Service_tokens service_tokens_ep

fun route_of :: "endpoint \<Rightarrow> http_route" where
  "route_of (Tickets e) = tickets_route e"
| "route_of (Messages e) = messages_route e"
| "route_of (Notes e) = notes_route e"
| "route_of Audit_timeline = audit_route"
| "route_of (Portal e) = portal_route e"
| "route_of (Widget_tickets e) = widget_tickets_route e"
| "route_of (Widget_sessions e) = widget_sessions_route e"
| "route_of (Service_tokens e) = service_tokens_route e"

section \<open>The state and the arguments of a request\<close>

record surface =
  su_tables :: credential_tables
  su_rt :: realtime

text \<open>What is not of this repository, and what the framework leaves to its own order.\<close>

record platform =
  pf_sha256 :: "string \<Rightarrow> string"
  pf_sign :: "(string \<times> json) list \<Rightarrow> string"
  pf_widget_jwt :: "string \<Rightarrow> json option"
  pf_access_jwt :: "string \<Rightarrow> json option"
  pf_validator :: validator
  pf_path_uuid :: "string \<Rightarrow> bool"
  pf_date :: "string \<Rightarrow> millis option"
  pf_stamp :: "nat \<Rightarrow> ident \<times> millis"
  pf_between :: "nat \<Rightarrow> idem_table \<Rightarrow> idem_table"
  pf_faults :: settle_faults
  pf_query_guard_first :: bool
  pf_id_first :: bool
  pf_limit :: rate_limit

text \<open>What one request draws: identifiers and a secret, and the clock when its answer is made.\<close>

record draws =
  dr_ids :: fresh_ids
  dr_row :: ident
  dr_secret :: string
  dr_later :: millis

record http_request =
  hq_id :: string
  hq_query :: query
  hq_body :: "json option"
  hq_authorization :: "string option"
  hq_key :: header_value
  hq_origin :: "string option"
  hq_url :: string

text \<open>What the pipes leave for the handler.\<close>

record bound_args =
  ba_id :: ident
  ba_body :: "(string \<times> json) list"
  ba_limit :: nat

section \<open>Handlers\<close>

definition on_core :: "'a service \<Rightarrow> surface \<Rightarrow> (thrown + 'a) \<times> surface" where
  "on_core f w =
     (case f (core (su_tables w)) (su_rt w) of
        Inl e \<Rightarrow> (Inl e, w)
      | Inr (x, d, rt) \<Rightarrow> (Inr x, \<lparr>su_tables = (su_tables w)\<lparr>core := d\<rparr>, su_rt = rt\<rparr>))"

definition reading :: "(db \<Rightarrow> thrown + 'a) \<Rightarrow> surface \<Rightarrow> (thrown + 'a) \<times> surface" where
  "reading f w = (f (core (su_tables w)), w)"

definition on_tables :: "(credential_tables \<Rightarrow> thrown + ('a \<times> credential_tables)) \<Rightarrow> surface \<Rightarrow> (thrown + 'a) \<times> surface" where
  "on_tables f w =
     (case f (su_tables w) of
        Inl e \<Rightarrow> (Inl e, w)
      | Inr (x, c) \<Rightarrow> (Inr x, w\<lparr>su_tables := c\<rparr>))"

definition answering :: "nat \<Rightarrow> ('a \<Rightarrow> json option) \<Rightarrow> (thrown + 'a) \<times> 'w \<Rightarrow> (thrown + (nat \<times> json option)) \<times> 'w" where
  "answering status f r = (case r of (Inl e, w) \<Rightarrow> (Inl e, w) | (Inr x, w) \<Rightarrow> (Inr (status, f x), w))"

text \<open>The answer of a handler whose principal is not of the kind its guard demands.\<close>

definition misrouted :: "'w \<Rightarrow> (thrown + (nat \<times> json option)) \<times> 'w" where
  "misrouted w = (Inl (RawError None None), w)"

fun tickets_handler ::
  "platform \<Rightarrow> millis \<Rightarrow> draws \<Rightarrow> query \<Rightarrow> tickets_ep \<Rightarrow> request_principal \<Rightarrow> bound_args \<Rightarrow> surface handler" where
  "tickets_handler pf now dr q TCreate p a w =
     answering 201 (Some \<circ> toTicketDto)
       (on_core (ticket_create now (fr_ticket (dr_ids dr)) p
          \<lparr>ci_subject = text_of (ba_body a) ''subject'', ci_contact = text_of (ba_body a) ''contactId'',
           ci_source = the (map_of SOURCES (text_of (ba_body a) ''source'')), ci_spawned = None, ci_slack_route = None\<rparr>) w)"
| "tickets_handler pf now dr q TList p a w =
     answering 200 (Some \<circ> page_body toTicketDto)
       (reading (ticket_list (pf_date pf) now p (ba_limit a) (map_of q ''cursor'') (map_of q ''sort'') (filters_of q)) w)"
| "tickets_handler pf now dr q TFindOne p a w =
     answering 200 (Some \<circ> toTicketDto) (reading (ticket_findOne now p (ba_id a)) w)"
| "tickets_handler pf now dr q TConversation p a w =
     answering 200 (\<lambda>chain. Some (page_body toTicketDto \<lparr>pg_data = chain, pg_next = None\<rparr>))
       (reading (conversation now p (ba_id a)) w)"
| "tickets_handler pf now dr q TTransition p a w =
     answering 200 (Some \<circ> toTicketDto)
       (on_core (ticket_transition_op now p (ba_id a) (the (map_of STATES (text_of (ba_body a) ''state'')))) w)"
| "tickets_handler pf now dr q TSetPriority p a w =
     answering 200 (Some \<circ> toTicketDto)
       (on_core (setPriority now p (ba_id a) (the (map_of PRIORITIES (text_of (ba_body a) ''priority'')))) w)"
| "tickets_handler pf now dr q TSetAssignee p a w =
     answering 200 (Some \<circ> toTicketDto)
       (on_core (setAssignee now p (ba_id a)
          (case map_of (ba_body a) ''assigneeId'' of Some (JStr i) \<Rightarrow> Some i | _ \<Rightarrow> None)) w)"

fun messages_handler ::
  "platform \<Rightarrow> millis \<Rightarrow> draws \<Rightarrow> query \<Rightarrow> messages_ep \<Rightarrow> request_principal \<Rightarrow> bound_args \<Rightarrow> surface handler" where
  "messages_handler pf now dr q MPost p a w =
     answering 201 (Some \<circ> toMessageDto)
       (on_core (message_post now (dr_ids dr) p (ba_id a) (text_of (ba_body a) ''body'')) w)"
| "messages_handler pf now dr q MList p a w =
     answering 200 (Some \<circ> page_body toMessageDto)
       (reading (message_list (pf_date pf) now p (ba_id a) (ba_limit a) (map_of q ''cursor'') (map_of q ''sort'')) w)"

fun notes_handler ::
  "platform \<Rightarrow> millis \<Rightarrow> draws \<Rightarrow> query \<Rightarrow> notes_ep \<Rightarrow> request_principal \<Rightarrow> bound_args \<Rightarrow> surface handler" where
  "notes_handler pf now dr q NWrite p a w =
     answering 201 (Some \<circ> toNoteDto)
       (on_core (Conversation.note_write now (fr_message (dr_ids dr)) p (ba_id a) (text_of (ba_body a) ''body'')) w)"
| "notes_handler pf now dr q NList p a w =
     answering 200 (Some \<circ> page_body toNoteDto)
       (reading (note_list (pf_date pf) now p (ba_id a) (ba_limit a) (map_of q ''cursor'') (map_of q ''sort'')) w)"

definition audit_handler ::
  "platform \<Rightarrow> millis \<Rightarrow> query \<Rightarrow> request_principal \<Rightarrow> bound_args \<Rightarrow> surface handler" where
  "audit_handler pf now q p a w =
     answering 200 (Some \<circ> page_body toAuditEntryDto)
       (reading (listForTicket (pf_date pf) (pf_stamp pf) now p (ba_id a) (ba_limit a) (map_of q ''cursor'') (map_of q ''sort'')) w)"

text \<open>The portal, for the contact the credential names; the widget's routes call the same services.\<close>

fun customer_handler ::
  "platform \<Rightarrow> millis \<Rightarrow> draws \<Rightarrow> query \<Rightarrow> ticket_source \<Rightarrow> customer_ep \<Rightarrow> ident \<Rightarrow> ident \<Rightarrow> bound_args \<Rightarrow> surface handler" where
  "customer_handler pf now dr q src COpen tenant contact a w =
     answering 201 (Some \<circ> toTicketDto)
       (on_core (ticket_create now (fr_ticket (dr_ids dr)) (ContactPrincipal tenant contact)
          \<lparr>ci_subject = text_of (ba_body a) ''subject'', ci_contact = contact, ci_source = src,
           ci_spawned = None, ci_slack_route = None\<rparr>) w)"
| "customer_handler pf now dr q src CList tenant contact a w =
     answering 200 (Some \<circ> page_body toTicketDto)
       (reading (ticket_list (pf_date pf) now (ContactPrincipal tenant contact) (ba_limit a) (map_of q ''cursor'')
          (map_of q ''sort'') (filters_of q)) w)"
| "customer_handler pf now dr q src CFindOne tenant contact a w =
     answering 200 (Some \<circ> toTicketDto) (reading (ticket_findOne now (ContactPrincipal tenant contact) (ba_id a)) w)"
| "customer_handler pf now dr q src CThread tenant contact a w =
     answering 200 (Some \<circ> page_body toMessageDto)
       (reading (message_list (pf_date pf) now (ContactPrincipal tenant contact) (ba_id a) (ba_limit a) (map_of q ''cursor'')
          (map_of q ''sort'')) w)"
| "customer_handler pf now dr q src CReply tenant contact a w =
     answering 201 (\<lambda>r. Some (toMessageDto (re_message r)))
       (on_core (Conversation.reply now (dr_ids dr) tenant contact (ba_id a) (text_of (ba_body a) ''body'') src) w)"

fun portal_handler ::
  "platform \<Rightarrow> millis \<Rightarrow> draws \<Rightarrow> query \<Rightarrow> customer_ep \<Rightarrow> request_principal \<Rightarrow> bound_args \<Rightarrow> surface handler" where
  "portal_handler pf now dr q e (ContactPrincipal tenant contact) a = customer_handler pf now dr q SrcPortal e tenant contact a"
| "portal_handler pf now dr q e _ a = misrouted"

fun contactId :: "request_principal \<Rightarrow> ident" where
  "contactId (ContactPrincipal tenant contact) = contact"
| "contactId _ = []"

fun widget_tickets_handler ::
  "platform \<Rightarrow> millis \<Rightarrow> draws \<Rightarrow> query \<Rightarrow> customer_ep \<Rightarrow> request_principal \<Rightarrow> bound_args \<Rightarrow> surface handler" where
  "widget_tickets_handler pf now dr q COpen (WidgetPrincipal tenant sid known) a w =
     (case on_tables (contactPrincipalFor now (dr_row dr) tenant sid known) w of
        (Inl e, w') \<Rightarrow> (Inl e, w')
      | (Inr p, w') \<Rightarrow> customer_handler pf now dr q SrcWidget COpen (tenantOf p) (contactId p) a w')"
| "widget_tickets_handler pf now dr q CList (WidgetPrincipal tenant sid known) a w =
     (case existingContactPrincipal (WidgetPrincipal tenant sid known) of
        None \<Rightarrow> (Inr (200, Some (page_body toTicketDto emptyPage)), w)
      | Some p \<Rightarrow> customer_handler pf now dr q SrcWidget CList tenant (contactId p) a w)"
| "widget_tickets_handler pf now dr q e (WidgetPrincipal tenant sid known) a w =
     (case existingContactPrincipal (WidgetPrincipal tenant sid known) of
        None \<Rightarrow> (Inl (App (notFound ''Ticket'')), w)
      | Some p \<Rightarrow> customer_handler pf now dr q SrcWidget e tenant (contactId p) a w)"
| "widget_tickets_handler pf now dr q e _ a w = misrouted w"

definition widget_start_handler :: "platform \<Rightarrow> millis \<Rightarrow> draws \<Rightarrow> string option \<Rightarrow> bound_args \<Rightarrow> surface handler" where
  "widget_start_handler pf now dr origin a w =
     answering 201 (Some \<circ> WidgetSessionDto)
       (on_tables (widget_bootstrap (pf_sign pf) now (dr_later dr) (dr_row dr) (text_of (ba_body a) ''tenantId'') origin) w)"

fun widget_renew_handler ::
  "platform \<Rightarrow> millis \<Rightarrow> draws \<Rightarrow> string option \<Rightarrow> request_principal \<Rightarrow> surface handler" where
  "widget_renew_handler pf now dr origin (WidgetPrincipal tenant sid known) w =
     answering 200 (Some \<circ> WidgetSessionDto) (on_tables (widget_renew (pf_sign pf) now (dr_later dr) tenant sid origin) w)"
| "widget_renew_handler pf now dr origin _ w = misrouted w"

definition apostrophe :: string where "apostrophe = [CHR 0xE2, CHR 0x80, CHR 0x99]"

fun PERMISSION_CATALOG :: "permission \<Rightarrow> string" where
  "PERMISSION_CATALOG ticket_read = ''Read Tickets and their conversation.''"
| "PERMISSION_CATALOG permission.ticket_create = ''Open a Ticket on a Contact'' @ apostrophe @ ''s behalf.''"
| "PERMISSION_CATALOG ticket_reply = ''Post a customer-visible Message on a Ticket.''"
| "PERMISSION_CATALOG ticket_transition = ''Move a Ticket between states.''"
| "PERMISSION_CATALOG ticket_assign = ''Set or clear a Ticket'' @ apostrophe @ ''s assignee.''"
| "PERMISSION_CATALOG ticket_priority = ''Change a Ticket'' @ apostrophe @ ''s priority.''"
| "PERMISSION_CATALOG note_read = ''Read internal Notes, which are never visible to a Contact.''"
| "PERMISSION_CATALOG permission.note_write = ''Write an internal Note on a Ticket.''"
| "PERMISSION_CATALOG contact_read = ''Read Contact records.''"
| "PERMISSION_CATALOG analytics_read = ''Read the tenant'' @ apostrophe @ ''s analytics.''"
| "PERMISSION_CATALOG user_read = ''List the tenant'' @ apostrophe @ ''s staff '' @ [CHR 0xE2, CHR 0x80, CHR 0x94] @ '' the assignee picker needs this.''"
| "PERMISSION_CATALOG ticket_close = ''End a Ticket for good. Terminal and not reversible.''"
| "PERMISSION_CATALOG ticket_delete = ''Hard-delete a Ticket and its conversation.''"
| "PERMISSION_CATALOG user_invite = ''Invite a staff member into the tenant.''"
| "PERMISSION_CATALOG user_deactivate = ''Deactivate a staff member and evict their sessions.''"
| "PERMISSION_CATALOG sla_configure = ''Change the tenant'' @ apostrophe @ ''s SLA policy.''"
| "PERMISSION_CATALOG token_manage = ''Mint, list, and revoke ServiceTokens.''"
| "PERMISSION_CATALOG audit_read = ''Read the tenant'' @ apostrophe @ ''s audit log.''"

definition assignableScopes :: json where
  "assignableScopes =
     JObj [(''scopes'', JArr (map (\<lambda>r. JObj [(''scope'', JStr (permission_name r)), (''description'', JStr (PERMISSION_CATALOG r))])
        ASSIGNABLE_SCOPES))]"

fun service_tokens_handler ::
  "platform \<Rightarrow> millis \<Rightarrow> draws \<Rightarrow> service_tokens_ep \<Rightarrow> request_principal \<Rightarrow> bound_args \<Rightarrow> surface handler" where
  "service_tokens_handler pf now dr SMint (StaffPrincipal tenant by_user by_role) a w =
     answering 201 (\<lambda>(r, raw). Some (MintedServiceTokenDto r raw))
       (on_tables (token_mint (pf_sha256 pf) now (dr_row dr, dr_secret dr) tenant by_user by_role
          (text_of (ba_body a) ''name'') (texts_of (ba_body a) ''scopes'')) w)"
| "service_tokens_handler pf now dr SMint _ a w = misrouted w"
| "service_tokens_handler pf now dr SScopes p a w = (Inr (200, Some assignableScopes), w)"
| "service_tokens_handler pf now dr SList p a w =
     answering 200 (\<lambda>rs. Some (JArr (map toServiceTokenDto rs))) (on_tables (token_list now p) w)"
| "service_tokens_handler pf now dr SRevoke p a w =
     answering 204 (\<lambda>_. None) (on_tables (token_revoke now p (ba_id a)) w)"

text \<open>A route that is not public is handled for the principal that its guards left.\<close>

fun handle ::
  "platform \<Rightarrow> millis \<Rightarrow> draws \<Rightarrow> http_request \<Rightarrow> endpoint \<Rightarrow> request_principal option \<Rightarrow> bound_args \<Rightarrow> surface handler" where
  "handle pf now dr rq (Widget_sessions WStart) who a = widget_start_handler pf now dr (hq_origin rq) a"
| "handle pf now dr rq e None a = misrouted"
| "handle pf now dr rq (Tickets e) (Some p) a = tickets_handler pf now dr (hq_query rq) e p a"
| "handle pf now dr rq (Messages e) (Some p) a = messages_handler pf now dr (hq_query rq) e p a"
| "handle pf now dr rq (Notes e) (Some p) a = notes_handler pf now dr (hq_query rq) e p a"
| "handle pf now dr rq Audit_timeline (Some p) a = audit_handler pf now (hq_query rq) p a"
| "handle pf now dr rq (Portal e) (Some p) a = portal_handler pf now dr (hq_query rq) e p a"
| "handle pf now dr rq (Widget_tickets e) (Some p) a = widget_tickets_handler pf now dr (hq_query rq) e p a"
| "handle pf now dr rq (Widget_sessions WRenew) (Some p) a = widget_renew_handler pf now dr (hq_origin rq) p"
| "handle pf now dr rq (Service_tokens e) (Some p) a = service_tokens_handler pf now dr e p a"

section \<open>The chain of a request\<close>

text \<open>
  The authentication, rate and permission guards in the order their module provides them, and
  the guard on query parameters before or after them.
\<close>

definition guards ::
  "platform \<Rightarrow> 'r incr \<Rightarrow> millis \<Rightarrow> http_route \<Rightarrow> http_request \<Rightarrow> credential_tables \<Rightarrow> 'r \<Rightarrow>
   (thrown + request_principal option) \<times> 'r" where
  "guards pf incr now ro rq c r =
     (let asked = query_guard (Some (ro_query ro)) (map fst (hq_query rq))
      in case (if pf_query_guard_first pf then asked else Inr ()) of
           Inl e \<Rightarrow> (Inl e, r)
         | Inr _ \<Rightarrow>
             (case auth_canActivate (map meta_public (ro_meta ro)) (\<lambda>t. token_verify (pf_sha256 pf) now t c)
                     (\<lambda>t. widget_verify (pf_widget_jwt pf) now t c) (\<lambda>t. Inr (access_verify (pf_access_jwt pf) t))
                     (hq_authorization rq) of
                Inl e \<Rightarrow> (Inl e, r)
              | Inr who \<Rightarrow>
                  (case rate_guard incr (pf_limit pf) now who r of
                     (Inl rf, r') \<Rightarrow> (Inl (rf_thrown rf), r')
                   | (Inr _, r') \<Rightarrow>
                       (case guard_canActivate (ro_meta ro) who of
                          Inl e \<Rightarrow> (Inl (App e), r')
                        | Inr _ \<Rightarrow>
                            (case (if pf_query_guard_first pf then Inr () else asked) of
                               Inl e \<Rightarrow> (Inl e, r')
                             | Inr _ \<Rightarrow> (Inr who, r'))))))"

definition UuidParam :: "(string \<Rightarrow> bool) \<Rightarrow> string \<Rightarrow> thrown + ident" where
  "UuidParam path_uuid s =
     (if path_uuid s then Inr s else Inl (App (app_error malformed_request ''The id in the path is not a valid uuid.'')))"

text \<open>The pipes of the handler's parameters; which of two refusals comes first is the framework's.\<close>

definition pipes :: "platform \<Rightarrow> http_route \<Rightarrow> http_request \<Rightarrow> thrown + bound_args" where
  "pipes pf ro rq =
     (let i = (if '':id'' \<in> set (ro_path ro) then UuidParam (pf_path_uuid pf) (hq_id rq) else Inr []);
          b = (case ro_body ro of None \<Rightarrow> Inr [] | Some dto \<Rightarrow> read_body (pf_validator pf) dto (hq_body rq));
          l = (if ''limit'' \<in> set (ro_query ro) then read_limit (pf_validator pf) (hq_query rq) else Inr 0)
      in if pf_id_first pf
         then bindE i (\<lambda>i. bindE b (\<lambda>b. bindE l (\<lambda>l. Inr \<lparr>ba_id = i, ba_body = b, ba_limit = l\<rparr>)))
         else bindE b (\<lambda>b. bindE l (\<lambda>l. bindE i (\<lambda>i. Inr \<lparr>ba_id = i, ba_body = b, ba_limit = l\<rparr>))))"

definition piped ::
  "platform \<Rightarrow> http_route \<Rightarrow> http_request \<Rightarrow> (request_principal option \<Rightarrow> bound_args \<Rightarrow> 'w handler) \<Rightarrow> request_principal option \<Rightarrow>
   'w handler" where
  "piped pf ro rq h who w = (case pipes pf ro rq of Inl e \<Rightarrow> (Inl e, w) | Inr a \<Rightarrow> h who a w)"

definition served ::
  "platform \<Rightarrow> 'r incr \<Rightarrow> millis \<Rightarrow> http_route \<Rightarrow> http_request \<Rightarrow> (request_principal option \<Rightarrow> bound_args \<Rightarrow> 'w handler) \<Rightarrow>
   credential_tables \<Rightarrow> 'r \<Rightarrow> idem_table \<Rightarrow> 'w \<Rightarrow> (thrown + http_reply) \<times> 'r \<times> idem_table \<times> 'w" where
  "served pf incr now ro rq h c r idem w =
     (case guards pf incr now ro rq c r of
        (Inl e, r') \<Rightarrow> (Inl e, r', idem, w)
      | (Inr who, r') \<Rightarrow>
          (case intercept (pf_sha256 pf) (pf_between pf) (pf_faults pf) now
                  \<lparr>rq_method = ro_method ro, rq_key = hq_key rq, rq_principal = who, rq_url = hq_url rq, rq_body = hq_body rq\<rparr>
                  (piped pf ro rq h who) idem w of
             (res, idem', w') \<Rightarrow> (res, r', idem', w')))"

definition http_serve ::
  "platform \<Rightarrow> 'r incr \<Rightarrow> millis \<Rightarrow> draws \<Rightarrow> endpoint \<Rightarrow> http_request \<Rightarrow> 'r \<Rightarrow> idem_table \<Rightarrow> surface \<Rightarrow>
   (thrown + http_reply) \<times> 'r \<times> idem_table \<times> surface" where
  "http_serve pf incr now dr e rq r idem w =
     served pf incr now (route_of e) rq (handle pf now dr rq e) (su_tables w) r idem w"

text \<open>What the client reads: the handler's answer, or the filter's.\<close>

definition status_of :: "thrown + http_reply \<Rightarrow> nat" where
  "status_of res = (case res of Inl e \<Rightarrow> fst (normalise e) | Inr rp \<Rightarrow> rp_code rp)"

definition code_of :: "thrown \<Rightarrow> error_code" where
  "code_of e = env_code (snd (normalise e))"

section \<open>Invitations\<close>

datatype invitations_ep = IInvite | IAccept

fun invitations_route :: "invitations_ep \<Rightarrow> http_route" where
  "invitations_route IInvite = staff_route ''POST'' [''staff'', ''invitations''] user_invite 201 (Some InviteStaffDto) []
     [validation_failed, unauthenticated, forbidden, conflict]"
| "invitations_route IAccept =
     \<lparr>ro_method = ''POST'', ro_path = [''staff'', ''invitations'', ''accept''], ro_meta = [Public, undecorated], ro_status = 204,
      ro_body = Some AcceptInvitationDto, ro_query = [], ro_errors = [validation_failed, unauthenticated]\<rparr>"

text \<open>\<open>fresh\<close> is the ids of the two rows and the token; \<open>argon2\<close> is the hash that is drawn for the password.\<close>

fun invitations_handler ::
  "crypto \<Rightarrow> (string \<Rightarrow> string) \<Rightarrow> millis \<Rightarrow> ident \<times> ident \<times> string \<Rightarrow> invitations_ep \<Rightarrow> request_principal option \<Rightarrow> bound_args \<Rightarrow>
   identity handler" where
  "invitations_handler cr argon2 now fresh IInvite (Some (StaffPrincipal tenant by_user by_role)) a d =
     (case invite cr now fresh tenant by_user by_role (text_of (ba_body a) ''email'') (text_of (ba_body a) ''name'')
             (text_of (ba_body a) ''role'') d of
        Inl e \<Rightarrow> (Inl e, d)
      | Inr (i, d') \<Rightarrow> (Inr (201, Some (InvitationDto i)), d'))"
| "invitations_handler cr argon2 now fresh IInvite _ a d = misrouted d"
| "invitations_handler cr argon2 now fresh IAccept who a d =
     (case accept cr now (text_of (ba_body a) ''tenantId'') (text_of (ba_body a) ''token'')
             (argon2 (text_of (ba_body a) ''password'')) d of
        Inl e \<Rightarrow> (Inl e, d)
      | Inr (_, d') \<Rightarrow> (Inr (204, None), d'))"

definition invitations_serve ::
  "platform \<Rightarrow> 'r incr \<Rightarrow> crypto \<Rightarrow> (string \<Rightarrow> string) \<Rightarrow> millis \<Rightarrow> ident \<times> ident \<times> string \<Rightarrow> invitations_ep \<Rightarrow> http_request \<Rightarrow>
   credential_tables \<Rightarrow> 'r \<Rightarrow> idem_table \<Rightarrow> identity \<Rightarrow> (thrown + http_reply) \<times> 'r \<times> idem_table \<times> identity" where
  "invitations_serve pf incr cr argon2 now fresh e rq c r idem d =
     served pf incr now (invitations_route e) rq (invitations_handler cr argon2 now fresh e) c r idem d"

end
