(* ===== verification/Http_Safety.thy ===== *)
theory Http_Safety
  imports Http_Surface Reply_Outcomes Samples
begin

text \<open>
  What the HTTP surface guarantees: a request acts on the rows of one tenant, under the
  authority its route declares; a customer is answered with rows of their own; an error means
  that nothing happened. The contract of a handler is the locale \<open>tenant_handler\<close>, which
  every route meets.
\<close>

section \<open>The contract of a handler\<close>

definition surface_inv :: "surface \<Rightarrow> bool" where
  "surface_inv w \<longleftrightarrow> ticket_inv (core (su_tables w)) \<and> realtime_inv (core (su_tables w)) (su_rt w)"

record surface_rows =
  sr_core :: other_rows
  sr_tokens :: "service_row list"
  sr_sessions :: "widget_row list"
  sr_tenants :: "(ident \<times> string list) list"

definition surface_others :: "ident \<Rightarrow> surface \<Rightarrow> surface_rows" where
  "surface_others tenant w =
     \<lparr>sr_core = others tenant (core (su_tables w)),
      sr_tokens = filter (\<lambda>r. sv_tenant r \<noteq> tenant) (service_tokens (su_tables w)),
      sr_sessions = filter (\<lambda>r. w_tenant r \<noteq> tenant) (widget_sessions (su_tables w)),
      sr_tenants = tenant_rows (su_tables w)\<rparr>"

definition surface_ok :: "ident \<Rightarrow> surface \<Rightarrow> surface \<Rightarrow> bool" where
  "surface_ok tenant w w' \<longleftrightarrow> surface_inv w' \<and> surface_others tenant w' = surface_others tenant w"

lemma surface_ok_refl: "surface_inv w \<Longrightarrow> surface_ok tenant w w"
  by (simp add: surface_ok_def)

lemma surface_ok_trans: "surface_ok tenant w w1 \<Longrightarrow> surface_ok tenant w1 w2 \<Longrightarrow> surface_ok tenant w w2"
  by (simp add: surface_ok_def)

section \<open>Services\<close>

lemma on_core_ok:
  assumes "surface_inv w"
    and "\<And>x d rt. f (core (su_tables w)) (su_rt w) = Inr (x, d, rt) \<Longrightarrow> service_ok tenant (core (su_tables w)) (su_rt w) d rt"
  shows "surface_ok tenant w (snd (on_core f w))"
proof (cases "f (core (su_tables w)) (su_rt w)")
  case (Inl e)
  then show ?thesis using assms(1) by (simp add: on_core_def surface_ok_refl)
next
  case (Inr y)
  obtain x d rt where y: "y = (x, d, rt)" by (cases y)
  show ?thesis
    using assms(2) [of x d rt] Inr y by (simp add: on_core_def surface_ok_def surface_inv_def surface_others_def service_ok_def safe_step_def)
qed

text \<open>The same contract for the operations on the credential tables.\<close>

definition tables_ok :: "ident \<Rightarrow> credential_tables \<Rightarrow> credential_tables \<Rightarrow> bool" where
  "tables_ok tenant c c' \<longleftrightarrow> safe_step tenant (core c) (core c') \<and>
     filter (\<lambda>r. sv_tenant r \<noteq> tenant) (service_tokens c') = filter (\<lambda>r. sv_tenant r \<noteq> tenant) (service_tokens c) \<and>
     filter (\<lambda>r. w_tenant r \<noteq> tenant) (widget_sessions c') = filter (\<lambda>r. w_tenant r \<noteq> tenant) (widget_sessions c) \<and>
     tenant_rows c' = tenant_rows c"

lemma on_tables_ok:
  assumes "surface_inv w" and "\<And>x c. f (su_tables w) = Inr (x, c) \<Longrightarrow> tables_ok tenant (su_tables w) c"
  shows "surface_ok tenant w (snd (on_tables f w))"
proof (cases "f (su_tables w)")
  case (Inl e)
  then show ?thesis using assms(1) by (simp add: on_tables_def surface_ok_refl)
next
  case (Inr y)
  obtain x c where y: "y = (x, c)" by (cases y)
  have "tables_ok tenant (su_tables w) c" using assms(2) Inr y by simp
  then show ?thesis
    using assms(1) Inr y
    by (auto simp: on_tables_def surface_ok_def surface_inv_def surface_others_def tables_ok_def safe_step_def intro: realtime_inv_mono)
qed

lemma audit_in_safe:
  assumes "audit_in v s c = Inr (u, c')" and "ticket_inv (core c)" and "v_action v \<noteq> ticket_transitioned"
  shows "safe_step (s_tenant s) (core c) (core c') \<and> service_tokens c' = service_tokens c \<and>
    widget_sessions c' = widget_sessions c \<and> tenant_rows c' = tenant_rows c"
  using assms audit_record_safe [OF assms(2)] by (auto simp: audit_in_def split: sum.splits)

lemma filter_map_kept: "(\<And>x. P (f x) = P x) \<Longrightarrow> (\<And>x. P x \<Longrightarrow> f x = x) \<Longrightarrow> filter P (map f xs) = filter P xs"
  by (induction xs) auto

lemma token_mint_ok:
  assumes inv: "ticket_inv (core c)" and run: "token_mint sha now fr tenant u role nam req c = Inr (x, c')"
  shows "tables_ok tenant c c'"
proof -
  obtain scopes where sc: "acceptedScopes req = Inr scopes" using run by (auto simp: token_mint_def split: sum.splits)
  obtain raw h where m: "mintServiceToken sha (snd fr) tenant = (raw, h)" by fastforce
  let ?r = "\<lparr>sv_id = fst fr, sv_tenant = tenant, sv_name = nam, sv_hash = h, sv_scopes = map permission_name scopes,
      sv_created_by = u, sv_revoked = None, sv_created = now\<rparr>"
  let ?v = "token_audit token_minted (sv_id ?r) (JObj [(''name'', JStr (sv_name ?r)), (''scopes'', JArr (map (\<lambda>p. JStr (permission_name p)) scopes))])"
  from run sc m obtain kind k y where
    au: "audit_in ?v (tenant_session now tenant kind k) (c\<lparr>service_tokens := service_tokens c @ [?r]\<rparr>) = Inr (y, c')"
    by (auto simp: token_mint_def service_create_def split: sum.splits if_splits elim!: asPrincipal_session)
  show ?thesis
    using audit_in_safe [OF au] inv by (simp add: token_audit_def tables_ok_def)
qed

lemma token_revoke_ok:
  assumes inv: "ticket_inv (core c)" and run: "token_revoke now p i c = Inr (x, c')"
  shows "tables_ok (tenantOf p) c c'"
proof -
  from run obtain kind k where
    w: "(case find (\<lambda>r. service_visible (tenant_session now (tenantOf p) kind k) r \<and> sv_id r = i) (service_tokens c) of
         None \<Rightarrow> Inl (App (notFound ''ServiceToken''))
       | Some existing \<Rightarrow>
           (let hit = (\<lambda>r. service_visible (tenant_session now (tenantOf p) kind k) r \<and> sv_id r = i \<and> sv_revoked r = None);
                c1 = c\<lparr>service_tokens :=
                   map (\<lambda>r. if hit r then r\<lparr>sv_revoked := Some now\<rparr> else r) (service_tokens c)\<rparr>
            in if filter hit (service_tokens c) = [] then Inl revoke_conflict
               else audit_in (token_audit token_revoked i (JObj [(''name'', JStr (sv_name existing))]))
                 (tenant_session now (tenantOf p) kind k) c1)) = Inr (x, c')"
    unfolding token_revoke_def by (rule asPrincipal_session)
  let ?f = "\<lambda>r. if service_visible (tenant_session now (tenantOf p) kind k) r \<and> sv_id r = i \<and> sv_revoked r = None
      then r\<lparr>sv_revoked := Some now\<rparr> else r"
  obtain v y where au: "audit_in v (tenant_session now (tenantOf p) kind k) (c\<lparr>service_tokens := map ?f (service_tokens c)\<rparr>) = Inr (y, c')"
    and v: "v_action v = token_revoked"
    using w by (auto simp: token_audit_def split: option.splits if_splits)
  have "filter (\<lambda>r. sv_tenant r \<noteq> tenantOf p) (map ?f (service_tokens c)) = filter (\<lambda>r. sv_tenant r \<noteq> tenantOf p) (service_tokens c)"
    by (rule filter_map_kept) (auto simp: service_visible_def tenant_matches_def)
  then show ?thesis using audit_in_safe [OF au] v inv by (simp add: tables_ok_def)
qed

lemma token_list_ok: "ticket_inv (core c) \<Longrightarrow> token_list now p c = Inr (x, c') \<Longrightarrow> tables_ok (tenantOf p) c c'"
  by (auto simp: token_list_def tables_ok_def safe_step_refl elim!: asPrincipal_session)

lemma widget_bootstrap_ok:
  "ticket_inv (core c) \<Longrightarrow> widget_bootstrap sign now soon i tenant origin c = Inr (g, c') \<Longrightarrow> tables_ok tenant c c'"
  by (auto simp: tables_ok_def safe_step_refl elim!: widget_bootstrap_parts)

lemma withTenant_system_uuid:
  "withTenant now (systemContextFor tenant) work d = Inr x \<Longrightarrow> is_uuid tenant"
  by (auto simp: withTenant_def contextSettings_def systemContextFor_def isTenantIdShaped_def split: sum.splits if_splits)

lemma widget_renew_ok:
  assumes inv: "ticket_inv (core c)" and run: "widget_renew sign now soon tenant sid origin c = Inr (g, c')"
  shows "tables_ok tenant c c'"
proof -
  have tenant: "is_uuid tenant"
    using run by (auto simp: widget_renew_def split: sum.splits dest: withTenant_system_uuid)
  let ?s = "tenant_session now tenant ''system'' []"
  let ?f = "\<lambda>r. if widget_visible ?s r \<and> w_id r = sid \<and> w_revoked r = None then r\<lparr>w_expires := expiryFrom now\<rparr> else r"
  have c': "c' = c\<lparr>widget_sessions := map ?f (widget_sessions c)\<rparr>"
    using run by (auto simp: widget_renew_def with_system [OF tenant] Let_def split: if_splits)
  have "filter (\<lambda>r. w_tenant r \<noteq> tenant) (map ?f (widget_sessions c)) = filter (\<lambda>r. w_tenant r \<noteq> tenant) (widget_sessions c)"
    by (rule filter_map_kept) (auto simp: widget_visible_def tenant_matches_def)
  then show ?thesis using inv by (simp add: c' tables_ok_def safe_step_refl)
qed

lemma contactPrincipalFor_ok:
  assumes inv: "ticket_inv (core c)" and run: "contactPrincipalFor now i tenant sid known c = Inr (p, c')"
  shows "tables_ok tenant c c' \<and> (\<exists>k. p = ContactPrincipal tenant k)"
proof (cases "known \<in> {None, Some []}")
  case False
  then show ?thesis using run inv by (auto simp: contactPrincipalFor_def tables_ok_def safe_step_refl)
next
  case True
  let ?s = "tenant_session now tenant ''system'' []"
  have tenant: "is_uuid tenant" using True run by (auto simp: contactPrincipalFor_def split: sum.splits dest: withTenant_system_uuid)
  let ?d = "(core c)\<lparr>contacts := contacts (core c) @ [(tenant, i)]\<rparr>"
  let ?f = "\<lambda>r. if widget_visible ?s r \<and> w_id r = sid then r\<lparr>w_contact := Some i\<rparr> else r"
  have "c' = c \<or> c' = c\<lparr>core := ?d, widget_sessions := map ?f (widget_sessions c)\<rparr>"
    and p: "\<exists>k. p = ContactPrincipal tenant k"
    using True run by (auto simp: contactPrincipalFor_def with_system [OF tenant] Let_def split: option.splits if_splits)
  moreover have "safe_step tenant (core c) ?d" by (rule frame_safe [OF inv]) (auto simp: others_def)
  moreover have "filter (\<lambda>r. w_tenant r \<noteq> tenant) (map ?f (widget_sessions c)) = filter (\<lambda>r. w_tenant r \<noteq> tenant) (widget_sessions c)"
    by (rule filter_map_kept) (auto simp: widget_visible_def tenant_matches_def)
  ultimately show ?thesis using inv by (auto simp: tables_ok_def safe_step_refl)
qed

lemmas tables_oks = token_mint_ok token_revoke_ok token_list_ok widget_bootstrap_ok widget_renew_ok

section \<open>Handlers\<close>

locale tenant_handler =
  fixes h :: "surface handler" and tenant :: ident
  assumes keeps: "surface_inv w \<Longrightarrow> surface_ok tenant w (snd (h w))"
begin

text \<open>The interceptor runs the handler once or not at all.\<close>

lemma intercepted:
  assumes "surface_inv w"
    and "intercept sha between fl now rq h idem w = (res, idem', w')"
  shows "surface_ok tenant w w'"
proof -
  have "w' = w \<or> w' = snd (h w)"
    using assms(2)
    by (auto simp: intercept_def pass_through_def runAndSettle_def Let_def
        split: if_splits sum.splits option.splits prod.splits idem_claim.splits)
  then show ?thesis using keeps [OF assms(1)] surface_ok_refl [OF assms(1)] by auto
qed

end

lemma answering_snd [simp]: "snd (answering status f r) = snd r"
  by (cases r; cases "fst r") (auto simp: answering_def)

lemma reading_snd [simp]: "snd (reading f w) = w"
  by (simp add: reading_def)

lemma misrouted_snd [simp]: "snd (misrouted w) = w"
  by (simp add: misrouted_def)

lemma tickets_handler_ok: "surface_inv w \<Longrightarrow> surface_ok (tenantOf p) w (snd (tickets_handler pf now dr q e p a w))"
  by (cases e) (auto simp: surface_inv_def surface_ok_refl intro!: on_core_ok intro: service_oks)

lemma messages_handler_ok: "surface_inv w \<Longrightarrow> surface_ok (tenantOf p) w (snd (messages_handler pf now dr q e p a w))"
  by (cases e) (auto simp: surface_inv_def surface_ok_refl intro!: on_core_ok intro: service_oks)

lemma notes_handler_ok: "surface_inv w \<Longrightarrow> surface_ok (tenantOf p) w (snd (notes_handler pf now dr q e p a w))"
  by (cases e) (auto simp: surface_inv_def surface_ok_refl intro!: on_core_ok intro: service_oks)

lemma customer_handler_ok:
  "surface_inv w \<Longrightarrow> surface_ok tenant w (snd (customer_handler pf now dr q src e tenant contact a w))"
  by (cases e)
    (auto simp: surface_inv_def surface_ok_refl intro!: on_core_ok intro: reply_ok ticket_create_ok [where p = "ContactPrincipal tenant contact", simplified])

lemma portal_handler_ok: "surface_inv w \<Longrightarrow> surface_ok (tenantOf p) w (snd (portal_handler pf now dr q e p a w))"
  by (cases p) (simp_all add: customer_handler_ok surface_ok_refl)

lemma widget_open_ok:
  assumes "surface_inv w"
  shows "surface_ok tenant w (snd (widget_tickets_handler pf now dr q COpen (WidgetPrincipal tenant sid known) a w))"
proof -
  let ?r = "on_tables (contactPrincipalFor now (dr_row dr) tenant sid known) w"
  obtain x w1 where r: "?r = (x, w1)" by (cases ?r)
  have ok: "surface_ok tenant w w1"
    using on_tables_ok [OF assms, of "contactPrincipalFor now (dr_row dr) tenant sid known" tenant] contactPrincipalFor_ok assms r
    by (simp add: surface_inv_def)
  show ?thesis
  proof (cases x)
    case (Inl e)
    then show ?thesis using ok r by simp
  next
    case (Inr p)
    then obtain c where "contactPrincipalFor now (dr_row dr) tenant sid known (su_tables w) = Inr (p, c)"
      using r by (auto simp: on_tables_def split: sum.splits)
    then obtain k where p: "p = ContactPrincipal tenant k" using contactPrincipalFor_ok assms unfolding surface_inv_def by blast
    have "surface_ok tenant w1 (snd (customer_handler pf now dr q SrcWidget COpen tenant k a w1))"
      by (rule customer_handler_ok) (use ok in \<open>simp add: surface_ok_def\<close>)
    then show ?thesis using surface_ok_trans [OF ok] r Inr p by simp
  qed
qed

lemma widget_tickets_handler_ok: "surface_inv w \<Longrightarrow> surface_ok (tenantOf p) w (snd (widget_tickets_handler pf now dr q e p a w))"
proof (cases p)
  case (WidgetPrincipal tenant sid known)
  assume "surface_inv w"
  then show ?thesis
    using WidgetPrincipal widget_open_ok
    by (cases e) (auto simp: surface_ok_refl customer_handler_ok simp del: customer_handler.simps existingContactPrincipal.simps split: option.splits)
qed (cases e; simp add: surface_ok_refl)+

lemma widget_start_handler_ok:
  "surface_inv w \<Longrightarrow> surface_ok (text_of (ba_body a) ''tenantId'') w (snd (widget_start_handler pf now dr origin a w))"
  by (auto simp: widget_start_handler_def surface_inv_def intro!: on_tables_ok intro: tables_oks)

lemma widget_renew_handler_ok: "surface_inv w \<Longrightarrow> surface_ok (tenantOf p) w (snd (widget_renew_handler pf now dr origin p w))"
  by (cases p) (auto simp: surface_inv_def surface_ok_refl intro!: on_tables_ok intro: tables_oks)

lemma service_tokens_handler_ok: "surface_inv w \<Longrightarrow> surface_ok (tenantOf p) w (snd (service_tokens_handler pf now dr e p a w))"
proof (cases e)
  case SMint
  assume "surface_inv w"
  then show ?thesis using SMint by (cases p) (auto simp: surface_inv_def surface_ok_refl intro!: on_tables_ok intro: tables_oks)
qed (auto simp: surface_inv_def surface_ok_refl intro!: on_tables_ok intro: tables_oks)

text \<open>The tenant a request acts in: its credential's, or the one a visitor asks to start a session for.\<close>

fun acting :: "endpoint \<Rightarrow> request_principal option \<Rightarrow> thrown + bound_args \<Rightarrow> ident" where
  "acting (Widget_sessions WStart) who (Inr a) = text_of (ba_body a) ''tenantId''"
| "acting (Widget_sessions WStart) who (Inl _) = []"
| "acting e (Some p) a = tenantOf p"
| "acting e None a = []"

lemma handle_ok: "surface_inv w \<Longrightarrow> surface_ok (acting e who (Inr a)) w (snd (handle pf now dr rq e who a w))"
proof (cases "e = Widget_sessions WStart")
  case True
  assume "surface_inv w"
  then show ?thesis using True by (simp add: widget_start_handler_ok)
next
  case False
  assume inv: "surface_inv w"
  have start: "x = WRenew" if "e = Widget_sessions x" for x using that False by (cases x) simp_all
  show ?thesis
  proof (cases who)
    case None
    then show ?thesis using False inv start by (cases e) (auto simp: surface_ok_refl)
  next
    case (Some p)
    then show ?thesis
      using False inv start
      by (cases e) (auto simp: audit_handler_def surface_ok_refl tickets_handler_ok messages_handler_ok notes_handler_ok
          portal_handler_ok widget_tickets_handler_ok widget_renew_handler_ok service_tokens_handler_ok)
  qed
qed

interpretation route: tenant_handler "piped pf (route_of e) rq (handle pf now dr rq e) who" "acting e who (pipes pf (route_of e) rq)"
  for pf now dr rq e who
  by unfold_locales (auto simp: piped_def surface_ok_refl intro: handle_ok split: sum.splits)

section \<open>Authority\<close>

text \<open>The credential of a request, as the authentication guard resolves it.\<close>

definition presents :: "platform \<Rightarrow> millis \<Rightarrow> credential_tables \<Rightarrow> http_request \<Rightarrow> request_principal \<Rightarrow> bool" where
  "presents pf now c rq p \<longleftrightarrow>
     (\<exists>token. bearerToken (hq_authorization rq) = Some token \<and>
        auth_resolve (\<lambda>t. token_verify (pf_sha256 pf) now t c) (\<lambda>t. widget_verify (pf_widget_jwt pf) now t c)
          (\<lambda>t. Inr (access_verify (pf_access_jwt pf) t)) token = Inr (Some p))"

text \<open>Who may use a route: the table the decorators amount to.\<close>

fun admitted :: "endpoint \<Rightarrow> request_principal \<Rightarrow> bool" where
  "admitted (Tickets e) p \<longleftrightarrow>
     (case e of TCreate \<Rightarrow> permission.ticket_create | TTransition \<Rightarrow> ticket_transition | TSetPriority \<Rightarrow> ticket_priority
      | TSetAssignee \<Rightarrow> ticket_assign | _ \<Rightarrow> ticket_read) \<in> permissionsFor p"
| "admitted (Messages e) p \<longleftrightarrow> (case e of MPost \<Rightarrow> ticket_reply | MList \<Rightarrow> ticket_read) \<in> permissionsFor p"
| "admitted (Notes e) p \<longleftrightarrow> (case e of NWrite \<Rightarrow> permission.note_write | NList \<Rightarrow> note_read) \<in> permissionsFor p"
| "admitted Audit_timeline p \<longleftrightarrow> (\<exists>t u. p = StaffPrincipal t u ''admin'')"
| "admitted (Portal e) p \<longleftrightarrow> (\<exists>t c. p = ContactPrincipal t c)"
| "admitted (Widget_tickets e) p \<longleftrightarrow> (\<exists>t s c. p = WidgetPrincipal t s c)"
| "admitted (Widget_sessions e) p \<longleftrightarrow> (\<exists>t s c. p = WidgetPrincipal t s c)"
| "admitted (Service_tokens e) p \<longleftrightarrow> (\<exists>t u. p = StaffPrincipal t u ''admin'')"

lemma presented_scopes:
  assumes "presents pf now c rq (ServicePrincipal t k scopes)"
  shows "set scopes \<subseteq> set ASSIGNABLE_SCOPES"
proof -
  have access: "access_verify v x \<noteq> Some (ServicePrincipal t k scopes)" for v x
    by (auto simp: access_verify_def principalFromClaims_def split: option.splits if_splits)
  have widget: "widget_verify v now x c \<noteq> Inr (Some (ServicePrincipal t k scopes))" for v x
    by (auto simp: widget_verify_def split: option.splits sum.splits)
  have "\<exists>stored. scopes = grantedScopes stored" if "token_verify sha now x c = Inr (Some (ServicePrincipal t k scopes))" for sha x
    using that by (auto simp: token_verify_def split: option.splits sum.splits if_splits) blast+
  then obtain stored where "scopes = grantedScopes stored"
    using assms by (auto simp: presents_def auth_resolve_def access widget split: if_splits)
  then show ?thesis using granted_scopes_assignable by simp
qed

lemma admin_only:
  assumes "presents pf now c rq p" and "r \<in> permissionsFor p" and "r \<in> {audit_read, token_manage}"
  shows "\<exists>t u. p = StaffPrincipal t u ''admin''"
proof (cases p)
  case (StaffPrincipal t u role)
  then show ?thesis using assms(2,3) by (auto simp: ROLE_PERMISSIONS_def SUPPORT_WORK_def split: option.splits if_splits)
next
  case (ServicePrincipal t k scopes)
  then show ?thesis using assms presented_scopes [of pf now c rq t k scopes] by (auto simp: ASSIGNABLE_SCOPES_def SUPPORT_WORK_def)
qed (use assms(2) in simp_all)

lemmas route_metas = staff_route_def customer_route_def audit_route_def RequiresPermission_def RequiresPrincipalKind_def Public_def

lemma kind_shapes:
  "kindOf p = contact_kind \<longleftrightarrow> (\<exists>t c. p = ContactPrincipal t c)" "kindOf p = widget_kind \<longleftrightarrow> (\<exists>t s c. p = WidgetPrincipal t s c)"
  by (cases p; simp)+

lemma guard_entitles:
  assumes "guard_canActivate (ro_meta (route_of e)) (Some p) = Inr b" and "presents pf now c rq p" and "e \<noteq> Widget_sessions WStart"
  shows "admitted e p"
proof (cases e)
  case (Tickets x)
  then show ?thesis using assms(1) by (cases x) (auto simp: guard_canActivate_def Let_def route_metas split: if_splits)
next
  case (Messages x)
  then show ?thesis using assms(1) by (cases x) (auto simp: guard_canActivate_def Let_def route_metas split: if_splits)
next
  case (Notes x)
  then show ?thesis using assms(1) by (cases x) (auto simp: guard_canActivate_def Let_def route_metas split: if_splits)
next
  case Audit_timeline
  then show ?thesis
    using assms(1) admin_only [OF assms(2), of audit_read] by (auto simp: guard_canActivate_def Let_def route_metas split: if_splits)
next
  case (Portal x)
  then show ?thesis using assms(1) by (cases x) (auto simp: guard_canActivate_def Let_def route_metas kind_shapes [symmetric] split: if_splits)
next
  case (Widget_tickets x)
  then show ?thesis using assms(1) by (cases x) (auto simp: guard_canActivate_def Let_def route_metas kind_shapes [symmetric] split: if_splits)
next
  case (Widget_sessions x)
  then show ?thesis
    using assms(1,3) by (cases x) (auto simp: guard_canActivate_def Let_def route_metas kind_shapes [symmetric] split: if_splits)
next
  case (Service_tokens x)
  then show ?thesis
    using assms(1) admin_only [OF assms(2), of token_manage] by (cases x) (auto simp: guard_canActivate_def Let_def route_metas split: if_splits)
qed

lemma only_start_public: "getAllAndOverride (map meta_public (ro_meta (route_of e))) = Some True \<longleftrightarrow> e = Widget_sessions WStart"
proof (cases e)
  case (Tickets x) then show ?thesis by (cases x) (simp_all add: route_metas)
next
  case (Messages x) then show ?thesis by (cases x) (simp_all add: route_metas)
next
  case (Notes x) then show ?thesis by (cases x) (simp_all add: route_metas)
next
  case (Portal x) then show ?thesis by (cases x) (simp_all add: route_metas)
next
  case (Widget_tickets x) then show ?thesis by (cases x) (simp_all add: route_metas)
next
  case (Widget_sessions x) then show ?thesis by (cases x) (simp_all add: route_metas)
next
  case (Service_tokens x) then show ?thesis by (cases x) (simp_all add: route_metas)
qed (simp add: route_metas)

lemma guards_passed:
  assumes "guards pf incr now (route_of e) rq c r = (Inr who, r')"
  shows "e = Widget_sessions WStart \<and> who = None \<or>
    e \<noteq> Widget_sessions WStart \<and> (\<exists>p. who = Some p \<and> presents pf now c rq p \<and> admitted e p)"
proof (cases "e = Widget_sessions WStart")
  case True
  then have "getAllAndOverride (map meta_public (ro_meta (route_of e))) = Some True" by (simp only: only_start_public)
  then show ?thesis
    using assms True by (auto simp: guards_def auth_canActivate_def Let_def simp del: route_of.simps split: if_splits sum.splits prod.splits)
next
  case False
  then have "getAllAndOverride (map meta_public (ro_meta (route_of e))) \<noteq> Some True" by (simp only: only_start_public not_False_eq_True)
  then obtain p where who: "who = Some p" and pr: "presents pf now c rq p"
    and ok: "\<exists>b. guard_canActivate (ro_meta (route_of e)) (Some p) = Inr b"
    using assms
    by (auto simp: guards_def auth_canActivate_def presents_def Let_def simp del: route_of.simps
        split: if_splits sum.splits prod.splits option.splits)
  then show ?thesis using guard_entitles [OF _ pr False] False by blast
qed

lemma served_run:
  assumes "http_serve pf incr now dr e rq r idem w = (res, r', idem', w')"
  obtains (refused) err where "res = Inl err" "w' = w" "idem' = idem"
  | (passed) who where "guards pf incr now (route_of e) rq (su_tables w) r = (Inr who, r')"
      "intercept (pf_sha256 pf) (pf_between pf) (pf_faults pf) now
         \<lparr>rq_method = ro_method (route_of e), rq_key = hq_key rq, rq_principal = who, rq_url = hq_url rq, rq_body = hq_body rq\<rparr>
         (piped pf (route_of e) rq (handle pf now dr rq e) who) idem w = (res, idem', w')"
  using assms by (auto simp: http_serve_def served_def simp del: route_of.simps split: prod.splits sum.splits)

text \<open>A run of the interceptor ends in a replay or before the handler, or the handler ran.\<close>

lemma intercept_run:
  assumes "intercept sha between fl now rq h idem w = (res, idem', w')"
  obtains (unrun) "w' = w" "\<And>rp. res = Inr rp \<Longrightarrow> rp_replayed rp \<and> rq_principal rq \<noteq> None"
  | (ran) x where "h w = (x, w')"
      "res = (case x of Inl err \<Rightarrow> Inl err | Inr (code, body) \<Rightarrow> Inr \<lparr>rp_code = code, rp_body = body, rp_replayed = False\<rparr>) \<or>
       is_ok x \<and> \<not> is_ok res \<and> rq_principal rq \<noteq> None"
  using assms
  by (auto simp: intercept_def pass_through_def runAndSettle_def Let_def
      split: if_splits sum.splits option.splits prod.splits idem_claim.splits)

text \<open>
  C3. A request has an effect or a successful answer only with the authority its route asks for,
  and acts in one tenant: it starts a widget session for a tenant that lists its origin, or
  its bearer token is verified as a principal that is admitted to the route, and in either
  case every row of every other tenant, among the tickets, the conversation, the audit log,
  the queue, the service tokens and the widget sessions, is what it was.
\<close>

theorem http_authority:
  assumes inv: "surface_inv w"
    and run: "http_serve pf incr now dr e rq r idem w = (res, r', idem', w')"
    and effect: "is_ok res \<or> w' \<noteq> w"
  shows "(e = Widget_sessions WStart \<and> (\<exists>tenant origins. surface_ok tenant w w' \<and>
            (tenant, origins) \<in> set (tenant_rows (su_tables w)) \<and> originIsAllowed (hq_origin rq) origins)) \<or>
         (\<exists>p. presents pf now (su_tables w) rq p \<and> admitted e p \<and> surface_ok (tenantOf p) w w')"
  using run
proof (cases rule: served_run)
  case refused
  then show ?thesis using effect by simp
next
  case (passed who)
  from guards_passed [OF passed(1)] show ?thesis
  proof (elim disjE conjE exE)
    fix p assume "e \<noteq> Widget_sessions WStart" "who = Some p" "presents pf now (su_tables w) rq p" "admitted e p"
    moreover from this have "acting e who args = tenantOf p" for args
      by (cases "(e, who, args)" rule: acting.cases) auto
    then have "surface_ok (tenantOf p) w w'" using route.intercepted [OF inv passed(2)] by simp
    ultimately show ?thesis by blast
  next
    assume start: "e = Widget_sessions WStart" "who = None"
    from passed(2) show ?thesis
    proof (cases rule: intercept_run)
      case unrun
      then show ?thesis using effect start by (cases res) simp_all
    next
      case (ran x)
      have "is_ok x \<or> w' \<noteq> w" using effect ran(2) start by (auto split: sum.splits prod.splits)
      then obtain a g c where a: "pipes pf (route_of e) rq = Inr a"
        and boot: "widget_bootstrap (pf_sign pf) now (dr_later dr) (dr_row dr) (text_of (ba_body a) ''tenantId'') (hq_origin rq)
          (su_tables w) = Inr (g, c)"
        using ran(1) start
        by (auto simp: piped_def widget_start_handler_def on_tables_def answering_def split: sum.splits)
      have "surface_ok (text_of (ba_body a) ''tenantId'') w w'"
        using route.intercepted [OF inv passed(2)] start a by simp
      moreover from boot obtain origins where "(text_of (ba_body a) ''tenantId'', origins) \<in> set (tenant_rows (su_tables w))"
        "originIsAllowed (hq_origin rq) origins"
        by (rule widget_bootstrap_parts) blast
      ultimately show ?thesis using start(1) by blast
    qed
  qed
qed

section \<open>What a customer is shown\<close>

definition own_ticket :: "ident \<Rightarrow> ident \<Rightarrow> db \<Rightarrow> ticket \<Rightarrow> bool" where
  "own_ticket tenant contact d t \<longleftrightarrow> t \<in> set (tickets d) \<and> t_tenant t = tenant \<and> t_contact t = contact"

text \<open>
  The answers a customer may get: a ticket of theirs, a page of tickets of theirs, a page of
  the messages of one ticket of theirs, or the message they wrote.
\<close>

fun own_answer :: "customer_ep \<Rightarrow> ident \<Rightarrow> ident \<Rightarrow> db \<Rightarrow> json option \<Rightarrow> bool" where
  "own_answer COpen tenant contact d out \<longleftrightarrow> (\<exists>t. own_ticket tenant contact d t \<and> t_state t = TOpen \<and> out = Some (toTicketDto t))"
| "own_answer CList tenant contact d out \<longleftrightarrow>
     (\<exists>pg. (\<forall>t \<in> set (pg_data pg). own_ticket tenant contact d t) \<and> out = Some (page_body toTicketDto pg))"
| "own_answer CFindOne tenant contact d out \<longleftrightarrow> (\<exists>t. own_ticket tenant contact d t \<and> out = Some (toTicketDto t))"
| "own_answer CThread tenant contact d out \<longleftrightarrow>
     (\<exists>t pg. own_ticket tenant contact d t \<and> (\<forall>m \<in> set (pg_data pg). m \<in> set (messages d) \<and> m_ticket m = t_id t) \<and>
        out = Some (page_body toMessageDto pg))"
| "own_answer CReply tenant contact d out \<longleftrightarrow>
     (\<exists>m \<in> set (messages d). m_author_kind m = ''contact'' \<and> m_author_id m = Some contact \<and> out = Some (toMessageDto m))"

lemma page_rows:
  assumes "find_many tb s plan k rows = Inr found" and "buildPage tb found limit s = Inr pg"
  shows "set (pg_data pg) \<subseteq> set rows"
proof -
  have "set found \<subseteq> set rows"
    using assms(1) set_take_subset [of k]
    by (fastforce simp: find_many_def split: if_splits direction.splits)
  moreover have "set (pg_data pg) \<subseteq> set found"
    using assms(2) set_take_subset [of limit found] by (auto simp: buildPage_def Let_def split: if_splits sum.splits dest: in_set_takeD)
  ultimately show ?thesis by blast
qed

text \<open>The session of a customer's transaction sees the tickets of that customer alone.\<close>

lemma customer_session:
  assumes "asPrincipal now (ContactPrincipal tenant contact) work d = Inr x"
  obtains s where "work s d = Inr x" "\<And>t. visible_ticket s t \<longleftrightarrow> t_tenant t = tenant \<and> t_contact t = contact"
proof -
  from assms obtain kind i where a: "actorFor (ContactPrincipal tenant contact) = Inr (kind, i)" "is_uuid (tenantOf (ContactPrincipal tenant contact))"
    and i: "i \<noteq> []" and run: "work (tenant_session now (tenantOf (ContactPrincipal tenant contact)) kind i) d = Inr x"
    by (rule asPrincipal_session)
  have "kind = ''contact''" "i = contact" "is_uuid tenant" using a by simp_all
  with that run is_uuid_not_Nil [of tenant] show ?thesis
    by (force simp: visible_ticket_def tenant_matches_def current_actor_is_contact_def)
qed

lemma own_list:
  assumes "ticket_list other now (ContactPrincipal tenant contact) limit cursor rawSort f d = Inr pg" and "t \<in> set (pg_data pg)"
  shows "own_ticket tenant contact d t"
proof -
  from assms(1) obtain sort plan rows d' where
    tx: "asPrincipal now (ContactPrincipal tenant contact) (\<lambda>s d. bindE (ticketWhere other f) (\<lambda>w.
       bindE (find_many ticket_table sort plan (Suc limit) (ticket_select (where_selects w) s d)) (\<lambda>rows. Inr (rows, d)))) d = Inr (rows, d')"
    and pg: "buildPage ticket_table rows limit sort = Inr pg"
    by (auto simp: ticket_list_def bindE_eq_Inr)
  from tx obtain s w where found: "find_many ticket_table sort plan (Suc limit) (ticket_select (where_selects w) s d) = Inr rows"
    and vis: "\<And>t. visible_ticket s t \<longleftrightarrow> t_tenant t = tenant \<and> t_contact t = contact"
    by (elim customer_session) (auto simp: bindE_eq_Inr)
  show ?thesis using page_rows [OF found pg] assms(2) vis by (auto simp: own_ticket_def ticket_select_def)
qed

lemma own_one:
  assumes "ticket_findOne now (ContactPrincipal tenant contact) i d = Inr t"
  shows "own_ticket tenant contact d t"
proof -
  from assms obtain d' where "asPrincipal now (ContactPrincipal tenant contact) (\<lambda>s d. Inr (ticket_findUnique i s d, d)) d = Inr (Some t, d')"
    by (auto simp: ticket_findOne_def split: sum.splits option.splits)
  then show ?thesis by (rule customer_session) (auto simp: own_ticket_def ticket_findUnique_def dest: find_SomeD)
qed

lemma own_thread:
  assumes "message_list other now (ContactPrincipal tenant contact) i limit cursor rawSort d = Inr pg"
  shows "\<exists>t. own_ticket tenant contact d t \<and> (\<forall>m \<in> set (pg_data pg). m \<in> set (messages d) \<and> m_ticket m = t_id t)"
proof -
  from assms obtain sort plan rows d' where
    tx: "asPrincipal now (ContactPrincipal tenant contact) (\<lambda>s d. bindE (assertTicketVisible i s d) (\<lambda>_.
       bindE (find_many thread_table sort plan (Suc limit) (filter (\<lambda>m. visible_message s d m \<and> m_ticket m = i) (messages d)))
         (\<lambda>rows. Inr (rows, d)))) d = Inr (rows, d')"
    and pg: "buildPage thread_table rows limit sort = Inr pg"
    by (auto simp: message_list_def bindE_eq_Inr)
  from tx obtain s where found: "find_many thread_table sort plan (Suc limit) (filter (\<lambda>m. visible_message s d m \<and> m_ticket m = i) (messages d)) = Inr rows"
    and ticket: "\<exists>u. assertTicketVisible i s d = Inr u"
    and vis: "\<And>t. visible_ticket s t \<longleftrightarrow> t_tenant t = tenant \<and> t_contact t = contact"
    by (elim customer_session) (auto simp: bindE_eq_Inr)
  obtain t where "ticket_findUnique i s d = Some t" using ticket by (auto simp: assertTicketVisible_def split: option.splits)
  then have "own_ticket tenant contact d t" "t_id t = i" using vis by (auto simp: own_ticket_def ticket_findUnique_def dest: find_SomeD)
  then show ?thesis using page_rows [OF found pg] by auto
qed

lemma own_opened:
  assumes "ticket_create now i (ContactPrincipal tenant contact)
      \<lparr>ci_subject = subj, ci_contact = contact, ci_source = src, ci_spawned = None, ci_slack_route = None\<rparr> d rt = Inr (t, d', rt')"
  shows "own_ticket tenant contact d' t \<and> t_state t = TOpen"
proof -
  let ?in = "\<lparr>ci_subject = subj, ci_contact = contact, ci_source = src, ci_spawned = None, ci_slack_route = None\<rparr>"
  have "asPrincipal now (ContactPrincipal tenant contact) (createIn i (ContactPrincipal tenant contact) ?in) d = Inr (t, d')"
    using assms by (auto simp: ticket_create_def announcing_def split: sum.splits)
  then obtain s where "createIn i (ContactPrincipal tenant contact) ?in s d = Inr (t, d')" by (rule customer_session)
  then obtain d1 where ins: "ticket_insert (new_ticket i (s_now s) tenant ?in) s d = Inr (t, d1)"
    and aud: "audit_record (ticket_audit_values ticket_created (t_id t) None (Some (state_text (t_state t)))) s d1 = Inr ((), d')"
    by (elim createIn_parts) simp
  have "tickets d' = tickets d1"
    using aud by (auto simp: audit_record_def audit_insert_def Let_def split: sum.splits if_splits)
  then show ?thesis
    using ins linkage_on_insert_simps by (elim insert_parts) (auto simp: own_ticket_def ticket_linkage_on_insert_def)
qed

lemma own_handler:
  assumes "surface_inv w" and "customer_handler pf now dr q src e tenant contact a w = (Inr (code, out), w')"
  shows "own_answer e tenant contact (core (su_tables w')) out"
proof (cases e)
  case COpen
  then show ?thesis
    using assms(2) own_opened by (auto simp: answering_def on_core_def split: sum.splits) blast
next
  case CList
  then show ?thesis using assms(2) own_list by (auto simp: answering_def reading_def split: sum.splits) blast
next
  case CFindOne
  then show ?thesis using assms(2) own_one by (auto simp: answering_def reading_def split: sum.splits) blast
next
  case CThread
  then show ?thesis using assms(2) own_thread by (auto simp: answering_def reading_def split: sum.splits) blast
next
  case CReply
  then show ?thesis
    using assms reply_facts by (auto simp: surface_inv_def answering_def on_core_def split: sum.splits) blast
qed

text \<open>A visitor of the widget is the contact of their session, once it has one.\<close>

definition acts_as :: "platform \<Rightarrow> millis \<Rightarrow> credential_tables \<Rightarrow> http_request \<Rightarrow> endpoint \<Rightarrow> ident \<Rightarrow> ident \<Rightarrow> bool" where
  "acts_as pf now c rq e tenant contact \<longleftrightarrow>
     (case e of
        Portal _ \<Rightarrow> presents pf now c rq (ContactPrincipal tenant contact)
      | Widget_tickets _ \<Rightarrow> (\<exists>sid known. presents pf now c rq (WidgetPrincipal tenant sid known) \<and> known \<in> {None, Some [], Some contact})
      | _ \<Rightarrow> False)"

lemma own_empty: "own_answer CList tenant contact d (Some (page_body toTicketDto emptyPage))"
  unfolding own_answer.simps by (rule exI [of _ emptyPage]) (simp add: emptyPage_def)

lemma own_widget_handler:
  assumes inv: "surface_inv w"
    and run: "widget_tickets_handler pf now dr q e (WidgetPrincipal tenant sid known) a w = (Inr (code, out), w')"
  shows "\<exists>contact. known \<in> {None, Some [], Some contact} \<and> own_answer e tenant contact (core (su_tables w')) out"
proof (cases "e = COpen")
  case False
  then have run': "(case existingContactPrincipal (WidgetPrincipal tenant sid known) of
       None \<Rightarrow> e = CList \<and> out = Some (page_body toTicketDto emptyPage) \<and> w' = w
     | Some p \<Rightarrow> customer_handler pf now dr q SrcWidget e tenant (contactId p) a w = (Inr (code, out), w'))"
    using run by (cases e) (auto simp del: customer_handler.simps existingContactPrincipal.simps split: option.splits)
  show ?thesis
  proof (cases "known \<in> {None, Some []}")
    case True
    then have "e = CList" "out = Some (page_body toTicketDto emptyPage)" using run' by auto
    then show ?thesis using True own_empty by blast
  next
    case False
    then obtain contact where "known = Some contact" "contact \<noteq> []" by auto
    then show ?thesis using own_handler [OF inv] run' by auto
  qed
next
  case True
  let ?r = "on_tables (contactPrincipalFor now (dr_row dr) tenant sid known) w"
  obtain x w1 where r: "?r = (x, w1)" by (cases ?r)
  obtain p where x: "x = Inr p" using run True r by (cases x) simp_all
  then obtain c where ident: "contactPrincipalFor now (dr_row dr) tenant sid known (su_tables w) = Inr (p, c)"
    and w1: "w1 = w\<lparr>su_tables := c\<rparr>"
    using r by (auto simp: on_tables_def split: sum.splits)
  have ok: "tables_ok tenant (su_tables w) c \<and> (\<exists>k. p = ContactPrincipal tenant k)"
    using contactPrincipalFor_ok [OF _ ident] inv by (simp add: surface_inv_def)
  then obtain k where p: "p = ContactPrincipal tenant k" by blast
  have known: "known \<in> {None, Some [], Some k}"
    using ident p by (cases "known \<in> {None, Some []}") (auto simp: contactPrincipalFor_def)
  have "surface_inv w1"
    using ok inv w1 by (auto simp: surface_inv_def tables_ok_def safe_step_def intro: realtime_inv_mono)
  moreover have "customer_handler pf now dr q SrcWidget COpen tenant k a w1 = (Inr (code, out), w')"
    using run True r x p by simp
  ultimately show ?thesis using own_handler known True by blast
qed


section \<open>Refusals\<close>

text \<open>The one thing a refused request can leave: the contact of the visitor who opened a ticket.\<close>

definition visitor_named :: "surface \<Rightarrow> surface \<Rightarrow> bool" where
  "visitor_named w w' \<longleftrightarrow> su_rt w' = su_rt w \<and> service_tokens (su_tables w') = service_tokens (su_tables w) \<and>
     tenant_rows (su_tables w') = tenant_rows (su_tables w) \<and>
     map w_id (widget_sessions (su_tables w')) = map w_id (widget_sessions (su_tables w)) \<and>
     (\<exists>tenant contact. core (su_tables w') =
        (core (su_tables w))\<lparr>contacts := contacts (core (su_tables w)) @ [(tenant, contact)]\<rparr>)"

lemma answering_Inl: "answering status f r = (Inl e, w') \<longleftrightarrow> r = (Inl e, w')"
  by (auto simp: answering_def split: prod.splits sum.splits)

lemma lifted_Inl:
  "on_core f w = (Inl e, w') \<Longrightarrow> w' = w" "reading g w = (Inl e, w') \<Longrightarrow> w' = w" "on_tables k w = (Inl e, w') \<Longrightarrow> w' = w"
  by (auto simp: on_core_def reading_def on_tables_def split: sum.splits)

lemma customer_refused: "customer_handler pf now dr q src e tenant contact a w = (Inl err, w') \<Longrightarrow> w' = w"
  by (cases e) (auto simp: answering_Inl dest: lifted_Inl)

lemma widget_refused:
  assumes "widget_tickets_handler pf now dr q e p a w = (Inl err, w')"
  shows "w' = w \<or> e = COpen \<and> visitor_named w w'"
proof (cases "e = COpen \<and> (\<exists>tenant sid known. p = WidgetPrincipal tenant sid known)")
  case False
  then show ?thesis
    using assms
    by (cases e; cases p) (auto simp: misrouted_def simp del: customer_handler.simps existingContactPrincipal.simps dest: customer_refused split: option.splits)
next
  case True
  then obtain tenant sid known where p: "p = WidgetPrincipal tenant sid known" and e: "e = COpen" by blast
  let ?r = "on_tables (contactPrincipalFor now (dr_row dr) tenant sid known) w"
  obtain x w1 where r: "?r = (x, w1)" by (cases ?r)
  have w': "w' = w1"
    using assms p e r customer_refused
    by (cases x) (auto simp del: customer_handler.simps)
  show ?thesis
  proof (cases x)
    case (Inl err')
    then show ?thesis using r w' lifted_Inl(3) by blast
  next
    case (Inr y)
    then obtain c where run: "contactPrincipalFor now (dr_row dr) tenant sid known (su_tables w) = Inr (y, c)" and w1: "w1 = w\<lparr>su_tables := c\<rparr>"
      using r by (auto simp: on_tables_def split: sum.splits)
    have "c = su_tables w \<or> visitor_named w w1"
    proof (cases "known \<in> {None, Some []}")
      case False
      then show ?thesis using run by (simp add: contactPrincipalFor_def)
    next
      case True
      then have tenant: "is_uuid tenant" using run by (auto simp: contactPrincipalFor_def split: sum.splits dest: withTenant_system_uuid)
      show ?thesis
        using True run w1
        by (auto simp: contactPrincipalFor_def with_system [OF tenant] visitor_named_def Let_def split: option.splits if_splits) blast+
    qed
    then show ?thesis using w' w1 e by auto
  qed
qed

lemma handle_refused:
  assumes "handle pf now dr rq e who a w = (Inl err, w')"
  shows "w' = w \<or> e = Widget_tickets COpen \<and> visitor_named w w'"
  using assms
proof (cases "(pf, now, dr, rq, e, who, a)" rule: handle.cases)
  case (3 pf now dr rq x p a)
  then show ?thesis using assms by (cases x) (auto simp: answering_Inl dest: lifted_Inl)
next
  case (4 pf now dr rq x p a)
  then show ?thesis using assms by (cases x) (auto simp: answering_Inl dest: lifted_Inl)
next
  case (5 pf now dr rq x p a)
  then show ?thesis using assms by (cases x) (auto simp: answering_Inl dest: lifted_Inl)
next
  case (7 pf now dr rq x p a)
  then show ?thesis using assms customer_refused by (cases p) (auto simp: misrouted_def simp del: customer_handler.simps)
next
  case (8 pf now dr rq x p a)
  then show ?thesis using assms widget_refused by (auto simp del: widget_tickets_handler.simps)
next
  case (9 pf now dr rq p a)
  then show ?thesis using assms by (cases p) (auto simp: misrouted_def answering_Inl dest: lifted_Inl)
next
  case (10 pf now dr rq x p a)
  then show ?thesis using assms by (cases x; cases p) (auto simp: misrouted_def answering_Inl dest: lifted_Inl)
qed (use assms in \<open>auto simp: misrouted_def widget_start_handler_def audit_handler_def answering_Inl dest: lifted_Inl\<close>)

lemma claim_arms: "idem_claim_op between now ctx ref h d = (Inr c, d') \<Longrightarrow> \<exists>st. contextSettings ctx = Inr st"
  by (cases "contextSettings ctx") (auto simp: idem_claim_op_def attemptClaim.simps [of between now ctx ref h RECLAIM_ATTEMPTS] withTenant_def split: if_splits)

lemma intercept_refused:
  assumes sound: "complete_fault fl = None" and run: "intercept sha between fl now rq h idem w = (Inl err, idem', w')"
  shows "w' = w \<or> h w = (Inl err, w')"
proof -
  have "\<not> (idem_claim_op between now ctx ref k d = (Inr Fresh, d') \<and> complete_or_fail fl now ctx ref ans d' = Inl e)" for ctx ref k d d' ans e
    using claim_arms [of between now ctx ref k d Fresh d'] complete_total [of ctx _ now ref "Some ans" d'] sound
    by (auto simp: complete_or_fail_def)
  then show ?thesis
    using run
    by (auto simp: intercept_def pass_through_def runAndSettle_def Let_def
        split: if_splits sum.splits option.splits prod.splits idem_claim.splits)
qed


section \<open>Declared errors\<close>

text \<open>
  The document of the assignee route leaves out a code it answers with: on a closed ticket a
  request that passes the guards and the pipes and names another assignee is answered
  \<open>conflict\<close>, which is not among the codes the route declares.
\<close>

theorem assignee_conflict_undeclared:
  assumes inv: "surface_inv w" and arms: "can_arm p"
    and passed: "guards pf incr now (route_of (Tickets TSetAssignee)) rq (su_tables w) r = (Inr (Some p), r')"
    and bound: "pipes pf (route_of (Tickets TSetAssignee)) rq = Inr a"
    and closed: "ticket_findUnique (ba_id a) (session_of now p) (core (su_tables w)) = Some cur" "t_state cur = TClosed"
    and other: "t_assignee cur \<noteq> (case map_of (ba_body a) ''assigneeId'' of Some (JStr i) \<Rightarrow> Some i | _ \<Rightarrow> None)"
  shows "\<exists>err. http_serve pf incr now dr (Tickets TSetAssignee) rq r idem w = (Inl err, r', idem, w) \<and>
    code_of err = conflict \<and> conflict \<notin> set (ro_errors (route_of (Tickets TSetAssignee)))"
proof -
  let ?u = "case map_of (ba_body a) ''assigneeId'' of Some (JStr i) \<Rightarrow> Some i | _ \<Rightarrow> None"
  let ?err = "rethrowTicketRefusal (raised ''TK002'')"
  have "ticket_inv (core (su_tables w))" using inv by (simp add: surface_inv_def)
  then have "setAssignee now p (ba_id a) ?u (core (su_tables w)) (su_rt w) = Inl ?err"
    unfolding setAssignee_def ticket_update_def announcing_def session_of_armed(2) [OF arms]
    using closed not_sym [OF other] by (simp add: edit_assignee session_of_armed [OF arms])
  moreover have "ro_method (route_of (Tickets TSetAssignee)) = ''PATCH''" by (simp add: staff_route_def)
  ultimately have "http_serve pf incr now dr (Tickets TSetAssignee) rq r idem w = (Inl ?err, r', idem, w)"
    using passed bound
    by (simp add: http_serve_def served_def intercept_def pass_through_def piped_def answering_def on_core_def del: route_of.simps)
  moreover have "code_of ?err = conflict" by (simp add: code_of_def)
  moreover have "conflict \<notin> set (ro_errors (route_of (Tickets TSetAssignee)))" by (simp add: staff_route_def)
  ultimately show ?thesis by blast
qed

text \<open>Nor does any list declare the code of a page size outside 1 to 100.\<close>

lemma limit_undeclared:
  assumes "map_of (hq_query rq) ''limit'' = Some s" and "r \<in> set LIMIT_RULES"
    and "\<not> vl_ok (pf_validator pf) r (Some (JNum (as_number s)))"
  shows "\<exists>err. pipes pf (tickets_route TList) rq = Inl err \<and> code_of err = validation_failed \<and>
    validation_failed \<notin> set (ro_errors (tickets_route TList))"
proof -
  have "failures (pf_validator pf) ''limit'' LIMIT_RULES (Some (JNum (as_number s))) \<noteq> []"
    using assms(2,3) by (auto simp: failures_def Let_def filter_empty_conv)
  then show ?thesis
    using assms(1)
    by (auto simp: pipes_def staff_route_def ListTicketsQuery_def PaginationQuery_def read_limit_def code_of_def
        toAppException_def Let_def split: jsnum.splits)
qed

section \<open>A sample request\<close>

fun sample_verdict :: "rule \<Rightarrow> json option \<Rightarrow> bool" where
  "sample_verdict IsString (Some (JStr s)) = True"
| "sample_verdict (Length_between a b) (Some (JStr s)) = (a \<le> length s \<and> length s \<le> b)"
| "sample_verdict Is_uuid (Some (JStr s)) = is_uuid s"
| "sample_verdict _ _ = False"

definition validator1 :: validator where
  "validator1 = \<lparr>vl_ok = sample_verdict, vl_message = (\<lambda>_ _. []), vl_not_object = []\<rparr>"

definition platform1 :: platform where
  "platform1 = \<lparr>pf_sha256 = (\<lambda>s. s), pf_sign = (\<lambda>_. []), pf_widget_jwt = (\<lambda>_. None),
     pf_access_jwt = (\<lambda>t. if t = ''A'' then Some (JObj (accessClaims adminA))
                        else if t = ''C'' then Some (JObj (accessClaims customerA)) else None),
     pf_validator = validator1, pf_path_uuid = is_uuid, pf_date = (\<lambda>_. None), pf_stamp = (\<lambda>_. ([], 0)),
     pf_between = (\<lambda>_ d. d), pf_faults = no_faults, pf_query_guard_first = True, pf_id_first = True, pf_limit = overAMinute 300\<rparr>"

definition draws1 :: draws where
  "draws1 = \<lparr>dr_ids = fresh1, dr_row = [], dr_secret = [], dr_later = 5000\<rparr>"

definition surface0 :: surface where
  "surface0 = \<lparr>su_tables = \<lparr>core = w_db world0, tenant_rows = [], service_tokens = [], widget_sessions = []\<rparr>, su_rt = w_rt world0\<rparr>"

definition surface3 :: surface where
  "surface3 = \<lparr>su_tables = \<lparr>core = w_db world3, tenant_rows = [], service_tokens = [], widget_sessions = []\<rparr>, su_rt = w_rt world3\<rparr>"

lemma surface0_inv: "surface_inv surface0" and surface3_inv: "surface_inv surface3"
  using reachable_inv [OF world0_reachable] reachable_inv [OF worlds_reachable(3)]
  by (simp_all add: surface_inv_def surface0_def surface3_def world_inv_def)

text \<open>A customer opens a ticket, somebody without a credential asks for one, an admin assigns a closed one.\<close>

definition open1 :: http_request where
  "open1 = \<lparr>hq_id = [], hq_query = [], hq_body = Some (JObj [(''subject'', JStr ''Refund'')]),
     hq_authorization = Some ''Bearer C'', hq_key = HAbsent, hq_origin = None, hq_url = ''/portal/tickets''\<rparr>"

definition anonymous1 :: http_request where
  "anonymous1 = open1\<lparr>hq_authorization := None\<rparr>"

definition assign1 :: http_request where
  "assign1 = open1\<lparr>hq_id := ticketA, hq_body := Some (JObj [(''assigneeId'', JStr userA)]), hq_authorization := Some ''Bearer A''\<rparr>"

definition opened1 :: "(thrown + http_reply) \<times> sample_store \<times> idem_table \<times> surface" where
  "opened1 = http_serve platform1 sample_incr 5000 draws1 (Portal COpen) open1 [] [] surface0"

definition turned_away1 :: "(thrown + http_reply) \<times> sample_store \<times> idem_table \<times> surface" where
  "turned_away1 = http_serve platform1 sample_incr 5000 draws1 (Portal COpen) anonymous1 [] [] surface0"

lemma turned_away1_result: "\<not> is_ok (fst turned_away1)"
  by code_simp

lemma opened1_result: "case fst opened1 of Inr rp \<Rightarrow> rp_code rp = 201 \<and> \<not> rp_replayed rp | Inl _ \<Rightarrow> False"
  by code_simp

lemma run_parts: "r = (fst r, fst (snd r), fst (snd (snd r)), snd (snd (snd r)))"
  by simp

theorem http_authority_witness:
  "\<exists>p. presents platform1 5000 (su_tables surface0) open1 p \<and> admitted (Portal COpen) p \<and>
     surface_ok (tenantOf p) surface0 (snd (snd (snd opened1)))"
proof -
  have "is_ok (fst opened1)" using opened1_result by (cases "fst opened1") simp_all
  then show ?thesis
    using http_authority [OF surface0_inv run_parts [of "opened1", unfolded opened1_def], folded opened1_def] by auto
qed



lemma assign1_passes:
  "guards platform1 sample_incr 5000 (route_of (Tickets TSetAssignee)) assign1 c [] =
    (Inr (Some adminA), snd (guards platform1 sample_incr 5000 (route_of (Tickets TSetAssignee)) assign1 c []))"
  by code_simp

lemma assign1_bound:
  "pipes platform1 (route_of (Tickets TSetAssignee)) assign1 = Inr \<lparr>ba_id = ticketA, ba_body = [(''assigneeId'', JStr userA)], ba_limit = 0\<rparr>"
  by code_simp

theorem assignee_conflict_undeclared_witness:
  "\<exists>err. fst (http_serve platform1 sample_incr 5000 draws1 (Tickets TSetAssignee) assign1 [] [] surface3) = Inl err \<and> code_of err = conflict"
proof -
  have "case ticket_findUnique ticketA (session_of 5000 adminA) (w_db world3) of None \<Rightarrow> False
      | Some cur \<Rightarrow> t_state cur = TClosed \<and> t_assignee cur = None" by code_simp
  then obtain cur where cur: "ticket_findUnique ticketA (session_of 5000 adminA) (core (su_tables surface3)) = Some cur"
    "t_state cur = TClosed" "t_assignee cur = None"
    by (auto simp: surface3_def split: option.splits)
  show ?thesis
    using assignee_conflict_undeclared [OF surface3_inv adminA_arms assign1_passes assign1_bound, of cur draws1 "[]"] cur
    by (auto simp del: route_of.simps)
qed

end
