(* ===== verification/Seed_Clocks.thy ===== *)
theory Seed_Clocks
  imports Sweeps
begin

text \<open>
  The clocks of the demo data (\<open>prisma/seed/sla.ts\<close>, the shapes of \<open>plan.ts\<close> and the update of
  \<open>write.ts\<close>): a planned ticket's history, given in days before the run, is replayed into the
  columns that the database would hold. The product of days and the length of a day, which
  the source takes in floating point, is the argument \<open>ms\<close>.
\<close>

section \<open>Plans\<close>

datatype seed_author = ByContact | ByAgent | ByAi

record thread_entry =
  te_days :: rat
  te_by :: seed_author
  te_body :: string
  te_internal :: bool

record planned_move =
  mv_to :: ticket_state
  mv_days :: rat
  mv_by :: "seed_author option"

record ticket_plan =
  tp_id :: ident
  tp_subject :: string
  tp_contact :: ident
  tp_assignee :: "ident option"
  tp_source :: ticket_source
  tp_priority :: ticket_priority
  tp_opened :: rat
  tp_path :: "planned_move list"
  tp_thread :: "thread_entry list"
  tp_spawned :: "ident option"
  tp_slack_route :: "(string \<times> string) option"

section \<open>The replay\<close>

record sla_target =
  ta_first_response :: int
  ta_resolution :: int

record sla_clocks =
  sc_paused :: int
  sc_pause_started :: "millis option"
  sc_first_response_breached :: "millis option"
  sc_resolution_breached :: "millis option"
  sc_last_activity :: millis

definition STOPS_THE_CLOCK :: "ticket_state list" where
  "STOPS_THE_CLOCK = [TPending, TResolved, TClosed]"

text \<open>A date drops the fraction of its milliseconds.\<close>

definition at_instant :: "(rat \<Rightarrow> rat) \<Rightarrow> millis \<Rightarrow> rat \<Rightarrow> millis" where
  "at_instant ms now days = (let x = of_int now - ms days in if 0 \<le> x then \<lfloor>x\<rfloor> else \<lceil>x\<rceil>)"

record segment =
  se_state :: ticket_state
  se_from :: millis
  se_until :: millis
  se_open :: bool

fun segments_from :: "(rat \<Rightarrow> rat) \<Rightarrow> millis \<Rightarrow> ticket_state \<Rightarrow> millis \<Rightarrow> planned_move list \<Rightarrow> segment list" where
  "segments_from ms now st since [] = [\<lparr>se_state = st, se_from = since, se_until = now, se_open = True\<rparr>]"
| "segments_from ms now st since (mv # path) =
     (let til = at_instant ms now (mv_days mv)
      in \<lparr>se_state = st, se_from = since, se_until = til, se_open = False\<rparr> # segments_from ms now (mv_to mv) til path)"

definition timeline :: "(rat \<Rightarrow> rat) \<Rightarrow> millis \<Rightarrow> millis \<Rightarrow> planned_move list \<Rightarrow> segment list" where
  "timeline ms now opened path = segments_from ms now TOpen opened path"

text \<open>The loop over the segments: what is paused, the open pause, what was active, and the breach.\<close>

fun walk ::
  "int \<Rightarrow> segment list \<Rightarrow> int \<times> millis option \<times> int \<times> millis option \<Rightarrow> int \<times> millis option \<times> int \<times> millis option" where
  "walk target [] acc = acc"
| "walk target (sg # rest) (paused, started, active, breached) =
     (let span = se_until sg - se_from sg
      in if se_state sg \<in> set STOPS_THE_CLOCK
         then walk target rest (if se_open sg then (paused, Some (se_from sg), active, breached)
                                else (paused + span, started, active, breached))
         else walk target rest
                (paused, started, active + span,
                 if breached = None \<and> target < active + span then Some (se_from sg + (target - active)) else breached))"

definition responses :: "(rat \<Rightarrow> rat) \<Rightarrow> millis \<Rightarrow> thread_entry list \<Rightarrow> millis list" where
  "responses ms now thread =
     map (\<lambda>en. at_instant ms now (te_days en)) (filter (\<lambda>en. te_by en \<noteq> ByContact \<and> \<not> te_internal en) thread)"

definition firstResponseBreach ::
  "(rat \<Rightarrow> rat) \<Rightarrow> millis \<Rightarrow> millis \<Rightarrow> thread_entry list \<Rightarrow> sla_target \<Rightarrow> millis option" where
  "firstResponseBreach ms now opened thread target =
     (let deadline = opened + ta_first_response target
      in if responses ms now thread \<noteq> []
         then (if deadline < min_list (responses ms now thread) then Some deadline else None)
         else if deadline < now then Some deadline else None)"

definition lastActivity :: "(rat \<Rightarrow> rat) \<Rightarrow> millis \<Rightarrow> millis \<Rightarrow> planned_move list \<Rightarrow> thread_entry list \<Rightarrow> millis" where
  "lastActivity ms now opened path thread =
     foldl max opened (map (\<lambda>mv. at_instant ms now (mv_days mv)) path @ map (\<lambda>en. at_instant ms now (te_days en)) thread)"

definition replay ::
  "(rat \<Rightarrow> rat) \<Rightarrow> millis \<Rightarrow> millis \<Rightarrow> planned_move list \<Rightarrow> thread_entry list \<Rightarrow> sla_target \<Rightarrow> sla_clocks" where
  "replay ms now opened path thread target =
     (case walk (ta_resolution target) (timeline ms now opened path) (0, None, 0, None) of
        (paused, started, _, breached) \<Rightarrow>
          \<lparr>sc_paused = paused, sc_pause_started = started,
           sc_first_response_breached = firstResponseBreach ms now opened thread target,
           sc_resolution_breached = breached,
           sc_last_activity = lastActivity ms now opened path thread\<rparr>)"

section \<open>The columns\<close>

text \<open>The raw update of \<open>backdateClocks\<close>, on a row whose latches are not set.\<close>

definition backdated :: "sla_clocks \<Rightarrow> ticket \<Rightarrow> ticket" where
  "backdated cl t = t
     \<lparr>t_paused_ms := sc_paused cl, t_pause_started := sc_pause_started cl,
      t_first_response_breached := sc_first_response_breached cl, t_resolution_breached := sc_resolution_breached cl,
      t_last_activity := sc_last_activity cl, t_updated := sc_last_activity cl\<rparr>"

definition backdateClocks :: "(rat \<Rightarrow> rat) \<Rightarrow> millis \<Rightarrow> ticket_plan \<Rightarrow> sla_target \<Rightarrow> ticket \<Rightarrow> ticket" where
  "backdateClocks ms now plan target t =
     backdated (replay ms now (at_instant ms now (tp_opened plan)) (tp_path plan) (tp_thread plan) target) t"

section \<open>The trigger's account of the same history\<close>

text \<open>The moves of a plan at the instants they are planned for, through the trigger of the table.\<close>

fun driven :: "(rat \<Rightarrow> rat) \<Rightarrow> millis \<Rightarrow> planned_move list \<Rightarrow> ticket \<Rightarrow> ticket" where
  "driven ms now [] t = t"
| "driven ms now (mv # path) t =
     driven ms now path (transition_effect (at_instant ms now (mv_days mv)) t (t\<lparr>t_state := mv_to mv\<rparr>))"

text \<open>A plan in order: no move before the one it follows, none after the run, and each changes the state.\<close>

fun in_order :: "(rat \<Rightarrow> rat) \<Rightarrow> millis \<Rightarrow> ticket_state \<Rightarrow> millis \<Rightarrow> planned_move list \<Rightarrow> bool" where
  "in_order ms now st since [] \<longleftrightarrow> since \<le> now"
| "in_order ms now st since (mv # path) \<longleftrightarrow>
     since \<le> at_instant ms now (mv_days mv) \<and> mv_to mv \<noteq> st \<and> in_order ms now (mv_to mv) (at_instant ms now (mv_days mv)) path"

lemma stops_iff: "st \<in> set STOPS_THE_CLOCK \<longleftrightarrow> pauses_sla st"
  by (simp add: STOPS_THE_CLOCK_def pauses_sla_def)

lemma walk_driven:
  assumes "in_order ms now (t_state t) since path"
    and "t_pause_started t = (if pauses_sla (t_state t) then Some since else None)"
    and "walk target (segments_from ms now (t_state t) since path) (t_paused_ms t, None, active, breached) = (paused, started, spent, late)"
  shows "t_paused_ms (driven ms now path t) = paused \<and> t_pause_started (driven ms now path t) = started"
  using assms
proof (induction path arbitrary: t since active breached)
  case Nil
  then show ?case by (auto simp: stops_iff Let_def split: if_splits)
next
  case (Cons mv path)
  let ?til = "at_instant ms now (mv_days mv)"
  let ?t = "transition_effect ?til t (t\<lparr>t_state := mv_to mv\<rparr>)"
  have moved: "t_state ?t = mv_to mv" "t_pause_started ?t = (if pauses_sla (mv_to mv) then Some ?til else None)"
    "t_paused_ms ?t = t_paused_ms t + (if pauses_sla (t_state t) then ?til - since else 0)"
    using Cons.prems(1,2) by (auto simp: transition_effect_def accrue_pause_def Let_def)
  show ?case
    using Cons.IH [of ?t ?til] Cons.prems moved by (auto simp: stops_iff Let_def split: if_splits)
qed

text \<open>The time a ticket has been active, as the walk counts it and as the migration computes it.\<close>

lemma walk_active:
  assumes "in_order ms now st since path"
    and "walk target (segments_from ms now st since path) (paused, None, active, breached) = (paused', started, spent, late)"
    and "breached = None \<longleftrightarrow> active \<le> target"
  shows "spent = active + (now - since) - (paused' - paused) - (case started of None \<Rightarrow> 0 | Some p \<Rightarrow> now - p) \<and>
    active \<le> spent \<and> (late = None \<longleftrightarrow> spent \<le> target)"
  using assms
proof (induction path arbitrary: st since active breached paused)
  case Nil
  then show ?case by (auto simp: Let_def split: if_splits)
next
  case (Cons mv path)
  then show ?case
    by (fastforce simp: Let_def split: if_splits)
qed

lemma in_order_past: "in_order ms now st since path \<Longrightarrow> since \<le> now"
  by (induction path arbitrary: st since) (auto intro: order.trans)

text \<open>
  For a plan whose moves are in order, a row with the replayed columns holds the clocks the trigger
  would; its resolution latch is set exactly when the ticket has been active for longer than its
  target; and a sweep at the moment of the run finds no timer of the row due that is not latched.
\<close>

lemma replay_fixed_point:
  assumes order: "in_order ms now TOpen opened path"
    and cl: "cl = replay ms now opened path thread target"
    and row: "t_created r = opened" "t_paused_ms r = sc_paused cl" "t_pause_started r = sc_pause_started cl"
      "t_first_response_breached r = sc_first_response_breached cl" "t_resolution_breached r = sc_resolution_breached cl"
    and first: "t_first_response r = None \<longleftrightarrow> responses ms now thread = []"
    and target: "0 \<le> ta_resolution target" "targets (t_tenant r) (t_priority r) = Some (ta_first_response target, ta_resolution target)"
    and born: "t_state t = TOpen" "t_paused_ms t = 0" "t_pause_started t = None"
  shows "t_paused_ms r = t_paused_ms (driven ms now path t) \<and> t_pause_started r = t_pause_started (driven ms now path t) \<and>
    (t_resolution_breached r \<noteq> None \<longleftrightarrow>
       ta_resolution target < ticket_sla_active_elapsed_ms opened (t_paused_ms r) (t_pause_started r) now) \<and>
    \<not> breach_selects targets now r"
proof -
  obtain paused started spent late where
    w: "walk (ta_resolution target) (segments_from ms now TOpen opened path) (0, None, 0, None) = (paused, started, spent, late)"
    by (metis prod.exhaust)
  have same: "t_paused_ms (driven ms now path t) = paused" "t_pause_started (driven ms now path t) = started"
    using walk_driven [of ms now t opened path] order born w by (auto simp: pauses_sla_def)
  have spent: "spent = now - opened - paused - (case started of None \<Rightarrow> 0 | Some p \<Rightarrow> now - p)" "0 \<le> spent"
    and late: "late = None \<longleftrightarrow> spent \<le> ta_resolution target"
    using walk_active [OF order w] target(1) by auto
  have r: "t_paused_ms r = paused" "t_pause_started r = started" "t_resolution_breached r = late"
    "t_first_response_breached r = firstResponseBreach ms now opened thread target"
    using w by (simp_all add: row cl replay_def timeline_def)
  have active: "ticket_sla_active_elapsed_ms opened paused started now = spent"
    using spent by (simp add: ticket_sla_active_elapsed_ms_def)
  have "opened \<le> now" using order by (rule in_order_past)
  then have "\<not> first_due targets now r"
    using first target(2) by (auto simp: first_due_def r row(1) firstResponseBreach_def ticket_sla_wall_elapsed_ms_def Let_def split: if_splits)
  moreover have "\<not> resolution_due targets now r"
    using late target(2) by (auto simp: resolution_due_def active r row(1))
  ultimately show ?thesis using same late by (simp add: r active breach_selects_def not_le)
qed

end
