(* ===== verification/Seed_Plans.thy ===== *)
theory Seed_Plans
  imports Seed_Clocks
begin

text \<open>
  The demo data: the anchored identifiers (\<open>prisma/seed/anchors.ts\<close>), the plans of the two tenants
  (\<open>sortwood.ts\<close>, \<open>meridian.ts\<close>) with the generator of the routine backlog, and that every planned
  history is one the state machine and the clocks accept. Identifiers drawn at random, the
  contacts and the texts of the topics are arguments; days are exact where the source has
  floating point.
\<close>

section \<open>Anchors\<close>

definition anchored :: "(string \<times> ident) list \<Rightarrow> string \<Rightarrow> ident" where
  "anchored ids name = (case map_of ids name of Some i \<Rightarrow> i | None \<Rightarrow> [])"

definition tenant_anchors :: "(string \<times> ident) list" where
  "tenant_anchors =
     [(''meridian'', ''5eed0000-0000-4000-8000-000000000001''), (''sortwood'', ''5eed0000-0000-4000-8000-000000000002'')]"

definition user_anchors :: "(string \<times> ident) list" where
  "user_anchors =
     [(''meridianAdmin'', ''5eed0001-0000-4000-8000-000000000001''), (''meridianAgent'', ''5eed0001-0000-4000-8000-000000000002''),
      (''meridianAgentTwo'', ''5eed0001-0000-4000-8000-000000000003''), (''meridianAgentThree'', ''5eed0001-0000-4000-8000-000000000004''),
      (''meridianAgentFour'', ''5eed0001-0000-4000-8000-000000000005''), (''sortwoodAdmin'', ''5eed0001-0000-4000-8000-000000000006''),
      (''sortwoodAgent'', ''5eed0001-0000-4000-8000-000000000007''), (''sortwoodDual'', ''5eed0001-0000-4000-8000-000000000008'')]"

definition contact_anchors :: "(string \<times> ident) list" where
  "contact_anchors =
     [(''meridianJules'', ''5eed0002-0000-4000-8000-000000000001''), (''sortwoodSam'', ''5eed0002-0000-4000-8000-000000000002'')]"

definition token_anchors :: "(string \<times> ident) list" where
  "token_anchors =
     [(''assistant'', ''5eed0003-0000-4000-8000-000000000001''), (''reporter'', ''5eed0003-0000-4000-8000-000000000002'')]"

definition ticket_anchors :: "(string \<times> ident) list" where
  "ticket_anchors =
     [(''breached'', ''5eed0004-0000-4000-8000-000000000001''), (''paused'', ''5eed0004-0000-4000-8000-000000000002''),
      (''deflected'', ''5eed0004-0000-4000-8000-000000000003''), (''reopened'', ''5eed0004-0000-4000-8000-000000000004''),
      (''closedWithSuccessor'', ''5eed0004-0000-4000-8000-000000000005'')]"

definition USER_IDS :: "string \<Rightarrow> ident" where "USER_IDS = anchored user_anchors"
definition CONTACT_IDS :: "string \<Rightarrow> ident" where "CONTACT_IDS = anchored contact_anchors"
definition TICKET_IDS :: "string \<Rightarrow> ident" where "TICKET_IDS = anchored ticket_anchors"

text \<open>The anchors are well-formed and no two rows share one.\<close>

lemma anchors_wellformed:
  "(let ids = map snd (tenant_anchors @ user_anchors @ contact_anchors @ token_anchors @ ticket_anchors)
    in list_all is_uuid ids \<and> distinct ids)"
  by code_simp

section \<open>Written plans\<close>

definition planned :: "ticket_state \<Rightarrow> rat \<Rightarrow> seed_author option \<Rightarrow> planned_move" where
  "planned st days author = \<lparr>mv_to = st, mv_days = days, mv_by = author\<rparr>"

definition said :: "rat \<Rightarrow> seed_author \<Rightarrow> string \<Rightarrow> bool \<Rightarrow> thread_entry" where
  "said days author body internal = \<lparr>te_days = days, te_by = author, te_body = body, te_internal = internal\<rparr>"

text \<open>Sortwood; \<open>fresh\<close> numbers the identifiers drawn for its tickets.\<close>

definition sortwood_tickets :: "(nat \<Rightarrow> ident) \<Rightarrow> ident \<Rightarrow> ident \<Rightarrow> ident \<Rightarrow> ticket_plan list" where
  "sortwood_tickets fresh sam nell gus =
    [\<lparr>tp_id = fresh 0, tp_subject = ''Password reset email never arrives'', tp_contact = sam, tp_assignee = Some (USER_IDS ''sortwoodAgent''),
      tp_source = SrcPortal, tp_priority = PHigh, tp_opened = 3,
      tp_path =
       [],
      tp_thread =
       [said (3) ByContact ''I have asked for a reset link four times and nothing has come through.'' False,
        said (295 / 100) ByAgent (''Your address was on a bounce suppression list from an earlier delivery failure. I have cleared it '' @ [CHR 0xE2, CHR 0x80, CHR 0x94] @ '' try once more.'') False],
      tp_spawned = None, tp_slack_route = None\<rparr>,
     \<lparr>tp_id = fresh 1, tp_subject = ''Can we add a second admin?'', tp_contact = nell, tp_assignee = Some (USER_IDS ''sortwoodAgent''),
      tp_source = SrcWidget, tp_priority = PNormal, tp_opened = 6,
      tp_path =
       [planned TPending (59 / 10) None],
      tp_thread =
       [said (6) ByContact ''We would like a second person with admin rights. Who do we ask?'' False,
        said (595 / 100) ByAgent (''Your existing admin can invite them from Settings '' @ [CHR 0xE2, CHR 0x86, CHR 0x92] @ '' Team and choose the admin role. Let me know who it should be if you would rather we did it.'') False],
      tp_spawned = None, tp_slack_route = None\<rparr>,
     \<lparr>tp_id = fresh 2, tp_subject = ''Billing charged us twice this month'', tp_contact = gus, tp_assignee = None,
      tp_source = SrcPortal, tp_priority = PUrgent, tp_opened = 15 / 10,
      tp_path =
       [],
      tp_thread =
       [said (15 / 10) ByContact ''There are two identical charges on our card for this month.'' False],
      tp_spawned = None, tp_slack_route = None\<rparr>,
     \<lparr>tp_id = fresh 3, tp_subject = ''Where do I find the changelog?'', tp_contact = nell, tp_assignee = Some (USER_IDS ''sortwoodAdmin''),
      tp_source = SrcPortal, tp_priority = PLow, tp_opened = 14,
      tp_path =
       [planned TResolved (135 / 10) None],
      tp_thread =
       [said (14) ByContact ''Is there a changelog anywhere? We keep missing new features.'' False,
        said (138 / 10) ByAgent (''It is published under Product '' @ [CHR 0xE2, CHR 0x86, CHR 0x92] @ '' Changelog, and there is an RSS feed if you would rather subscribe.'') False],
      tp_spawned = None, tp_slack_route = None\<rparr>,
     \<lparr>tp_id = fresh 4, tp_subject = ''Cancelling one of our seats'', tp_contact = sam, tp_assignee = Some (USER_IDS ''sortwoodAgent''),
      tp_source = SrcPortal, tp_priority = PNormal, tp_opened = 21,
      tp_path =
       [planned TResolved (205 / 10) None,
        planned TClosed (18) None],
      tp_thread =
       [said (21) ByContact ''One of our team has left. Can we drop to three seats at renewal?'' False,
        said (207 / 10) ByAgent (''Done '' @ [CHR 0xE2, CHR 0x80, CHR 0x94] @ '' the seat count drops at renewal and the prorated difference is credited then.'') False,
        said (206 / 10) ByAgent ''Downgrade scheduled rather than applied immediately, so nothing changes mid-term.'' True],
      tp_spawned = None, tp_slack_route = None\<rparr>]"

text \<open>Meridian's rotation, and its reference tickets; \<open>people\<close> are the identifiers of its contacts.\<close>

definition AGENTS :: "ident list" where
  "AGENTS = map USER_IDS [''meridianAgent'', ''meridianAgentTwo'', ''meridianAgentThree'', ''meridianAgentFour'']"

definition cycle :: "'a list \<Rightarrow> nat \<Rightarrow> 'a" where
  "cycle items k = items ! (k mod length items)"

definition referenceTickets :: "(nat \<Rightarrow> ident) \<Rightarrow> ident list \<Rightarrow> ticket_plan list" where
  "referenceTickets fresh people =
    [\<lparr>tp_id = TICKET_IDS ''breached'', tp_subject = ''Production API returning 503 for all requests'', tp_contact = CONTACT_IDS ''meridianJules'', tp_assignee = None,
      tp_source = SrcPortal, tp_priority = PUrgent, tp_opened = 25 / 100,
      tp_path =
       [],
      tp_thread =
       [said (25 / 100) ByContact (''Everything is down for us '' @ [CHR 0xE2, CHR 0x80, CHR 0x94] @ '' every call to the API comes back 503. This is affecting all of our customers.'') False],
      tp_spawned = None, tp_slack_route = None\<rparr>,
     \<lparr>tp_id = TICKET_IDS ''paused'', tp_subject = ''Reconciliation report does not match our ledger'', tp_contact = cycle people 1, tp_assignee = Some (USER_IDS ''meridianAgent''),
      tp_source = SrcPortal, tp_priority = PHigh, tp_opened = 9,
      tp_path =
       [planned TPending (89 / 10) None],
      tp_thread =
       [said (9) ByContact ''Our finance team is seeing a discrepancy of about four hundred entries against the reconciliation report.'' False,
        said (895 / 100) ByAgent ''Could you send the ledger export for the same period? I would like to compare row counts before changing anything.'' False,
        said (89 / 10) ByAgent ''Waiting on their export. Nothing to do here until it arrives.'' True],
      tp_spawned = None, tp_slack_route = None\<rparr>,
     \<lparr>tp_id = TICKET_IDS ''deflected'', tp_subject = ''How do I rotate an API key?'', tp_contact = cycle people 2, tp_assignee = None,
      tp_source = SrcWidget, tp_priority = PNormal, tp_opened = 12,
      tp_path =
       [planned TResolved (1199 / 100) (Some ByAi),
        planned TClosed (11) (Some ByAi)],
      tp_thread =
       [said (12) ByContact ''How do I rotate an API key without downtime?'' False,
        said (11995 / 1000) ByAi (''Mint the replacement first, deploy it, then revoke the old key '' @ [CHR 0xE2, CHR 0x80, CHR 0x94] @ '' both are valid in between, so there is no gap. '' @ [CHR 0xE2, CHR 0x80, CHR 0x94] @ '' Meridian Assistant'') False],
      tp_spawned = None, tp_slack_route = None\<rparr>,
     \<lparr>tp_id = TICKET_IDS ''reopened'', tp_subject = ''Scheduled report stopped arriving'', tp_contact = cycle people 3, tp_assignee = Some (USER_IDS ''meridianAgentTwo''),
      tp_source = SrcPortal, tp_priority = PNormal, tp_opened = 20,
      tp_path =
       [planned TResolved (19) None,
        planned TOpen (15) None,
        planned TResolved (14) None],
      tp_thread =
       [said (20) ByContact ''Our Monday report has not arrived for two weeks.'' False,
        said (191 / 10) ByAgent ''The schedule had been paused by a former teammate. I have re-enabled it.'' False,
        said (15) ByContact ''It arrived once and then stopped again.'' False,
        said (142 / 10) ByAgent (''The recipient list still pointed at a deactivated mailbox. Corrected '' @ [CHR 0xE2, CHR 0x80, CHR 0x94] @ '' you should see it every Monday now.'') False,
        said (141 / 10) ByAgent ''Two separate causes, which is why this came back. Worth checking other schedules on this account.'' True],
      tp_spawned = None, tp_slack_route = None\<rparr>,
     \<lparr>tp_id = TICKET_IDS ''closedWithSuccessor'', tp_subject = ''Migrating our workspace to the new plan'', tp_contact = CONTACT_IDS ''meridianJules'', tp_assignee = Some (USER_IDS ''meridianAgentThree''),
      tp_source = SrcPortal, tp_priority = PNormal, tp_opened = 30,
      tp_path =
       [planned TResolved (28) None,
        planned TClosed (26) None],
      tp_thread =
       [said (30) ByContact ''We would like to move to the annual plan before renewal.'' False,
        said (298 / 10) ByAgent ''Moved you across, with the remaining balance credited. The new term starts today.'' False,
        said (285 / 10) ByContact ''Confirmed on our side, thanks.'' False,
        said (282 / 10) ByAgent (''Credit applied manually '' @ [CHR 0xE2, CHR 0x80, CHR 0x94] @ '' finance has the reference.'') True],
      tp_spawned = None, tp_slack_route = None\<rparr>,
     \<lparr>tp_id = fresh 5, tp_subject = ''Migrating our workspace to the new plan'', tp_contact = CONTACT_IDS ''meridianJules'', tp_assignee = Some (USER_IDS ''meridianAgentThree''),
      tp_source = SrcPortal, tp_priority = PNormal, tp_opened = 10,
      tp_path =
       [],
      tp_thread =
       [said (10) ByContact (''One more thing on the plan move '' @ [CHR 0xE2, CHR 0x80, CHR 0x94] @ '' the credit does not show on this month'' @ [CHR 0xE2, CHR 0x80, CHR 0x99] @ ''s invoice.'') False,
        said (99 / 10) ByAgent ''It lands on the next invoice rather than this one. I have attached the credit note so you have it in the meantime.'' False],
      tp_spawned = Some (TICKET_IDS ''closedWithSuccessor''), tp_slack_route = None\<rparr>]"

section \<open>The routine backlog\<close>

datatype shape =
    Open_assigned | Open_untriaged | Pending_shape | On_hold_shape | Resolved_shape | Closed_shape
  | Deflected_resolved | Deflected_closed

definition SHAPES :: "(shape \<times> nat) list" where
  "SHAPES = [(Open_assigned, 7), (Open_untriaged, 3), (Pending_shape, 7), (On_hold_shape, 4), (Resolved_shape, 9),
     (Closed_shape, 6), (Deflected_resolved, 4), (Deflected_closed, 4)]"

definition isDeflected :: "shape \<Rightarrow> bool" where
  "isDeflected sh \<longleftrightarrow> sh \<in> {Deflected_resolved, Deflected_closed}"

definition isLive :: "shape \<Rightarrow> bool" where
  "isLive sh \<longleftrightarrow> sh \<in> {Open_assigned, Open_untriaged, Pending_shape, On_hold_shape}"

definition ROUTINE :: "shape list" where
  "ROUTINE = concat (map (\<lambda>(sh, k). replicate k sh) SHAPES)"

definition seed_priorities :: "ticket_priority list" where
  "seed_priorities = [PNormal, PHigh, PNormal, PLow, PUrgent, PNormal, PHigh, PNormal]"

definition seed_sources :: "ticket_source list" where
  "seed_sources = [SrcPortal, SrcPortal, SrcWidget, SrcPortal, SrcWidget, SrcSlack, SrcWidget, SrcPortal]"

definition isSlow :: "nat \<Rightarrow> bool" where
  "isSlow k \<longleftrightarrow> k mod 5 = 4"

record topic =
  to_subject :: string
  to_asked :: string
  to_answered :: string
  to_deflected :: string
  to_note :: string

text \<open>\<open>live_rank\<close> and \<open>settled_rank\<close> are the ranks of the ticket in its age series.\<close>

definition routine_opened :: "shape \<Rightarrow> nat \<Rightarrow> nat \<Rightarrow> rat" where
  "routine_opened sh live_rank settled_rank =
     (if isLive sh then 3 / 10 + of_nat live_rank * (2 / 10) else 8 + of_nat settled_rank * (155 / 100))"

definition routine_path :: "shape \<Rightarrow> nat \<Rightarrow> rat \<Rightarrow> planned_move list" where
  "routine_path sh k opened =
     (let resolvedAfter = (if isSlow k then 45 / 10 else 8 / 10)
      in case sh of
           Deflected_closed \<Rightarrow> [planned TResolved (opened - 1 / 100) (Some ByAi), planned TClosed (opened - 1) (Some ByAi)]
         | Deflected_resolved \<Rightarrow> [planned TResolved (opened - 1 / 100) (Some ByAi)]
         | Open_assigned \<Rightarrow> []
         | Open_untriaged \<Rightarrow> []
         | Pending_shape \<Rightarrow> [planned TPending (opened - 2 / 100) None]
         | On_hold_shape \<Rightarrow> [planned TOnHold (opened - 6 / 100) None]
         | Closed_shape \<Rightarrow> [planned TResolved (opened - resolvedAfter) None, planned TClosed (opened - (resolvedAfter + 2)) None]
         | Resolved_shape \<Rightarrow> [planned TResolved (opened - resolvedAfter) None])"

definition routine_thread :: "shape \<Rightarrow> topic \<Rightarrow> rat \<Rightarrow> thread_entry list" where
  "routine_thread sh tp opened =
     (let asked = said opened ByContact (to_asked tp) False;
          answered = said (opened - 2 / 100) ByAgent (to_answered tp) False;
          internal = said (opened - 5 / 100) ByAgent (to_note tp) True
      in if isDeflected sh then [asked, said (opened - 5 / 1000) ByAi (to_deflected tp) False]
         else if sh \<in> {Open_assigned, Pending_shape} then [asked, answered]
         else if sh = Open_untriaged then [asked]
         else if sh = On_hold_shape then [asked, answered, internal]
         else [asked, answered,
               said (opened - 5 / 10) ByContact (''That worked '' @ [CHR 0xE2, CHR 0x80, CHR 0x94] @ '' thank you.'') False,
               said (opened - 6 / 10) ByAgent ''Glad to hear it. I will close this off unless anything else comes up.'' False,
               internal])"

definition routineTicket ::
  "(nat \<Rightarrow> ident) \<Rightarrow> ident list \<Rightarrow> topic list \<Rightarrow> shape \<Rightarrow> nat \<Rightarrow> nat \<Rightarrow> nat \<Rightarrow> ticket_plan" where
  "routineTicket fresh people topics sh k live_rank settled_rank =
     (let opened = routine_opened sh live_rank settled_rank;
          source = cycle seed_sources k
      in \<lparr>tp_id = fresh k, tp_subject = to_subject (cycle topics k), tp_contact = cycle people k,
          tp_assignee = (if isDeflected sh \<or> sh = Open_untriaged then None else Some (cycle AGENTS k)),
          tp_source = source, tp_priority = cycle seed_priorities k, tp_opened = opened,
          tp_path = routine_path sh k opened, tp_thread = routine_thread sh (cycle topics k) opened, tp_spawned = None,
          tp_slack_route =
            (if source = SrcSlack then Some (''C5EED0SUPPORT'', int_text (1700000000 + int k) @ ''.000100'') else None)\<rparr>)"

fun routine_from ::
  "(nat \<Rightarrow> ident) \<Rightarrow> ident list \<Rightarrow> topic list \<Rightarrow> shape list \<Rightarrow> nat \<Rightarrow> nat \<Rightarrow> nat \<Rightarrow> ticket_plan list" where
  "routine_from fresh people topics [] k live_rank settled_rank = []"
| "routine_from fresh people topics (sh # shs) k live_rank settled_rank =
     routineTicket fresh people topics sh k live_rank settled_rank #
     (if isLive sh then routine_from fresh people topics shs (Suc k) (Suc live_rank) settled_rank
      else routine_from fresh people topics shs (Suc k) live_rank (Suc settled_rank))"

definition routineTickets ::
  "(nat \<Rightarrow> ident) \<Rightarrow> ident list \<Rightarrow> topic list \<Rightarrow> ticket_plan list" where
  "routineTickets fresh people topics = routine_from fresh people topics ROUTINE 0 0 0"

definition meridian_tickets :: "(nat \<Rightarrow> ident) \<Rightarrow> (nat \<Rightarrow> ident) \<Rightarrow> ident list \<Rightarrow> topic list \<Rightarrow> ticket_plan list" where
  "meridian_tickets fresh_ref fresh people topics = referenceTickets fresh_ref people @ routineTickets fresh people topics"

section \<open>Writing the plans\<close>

datatype seed_actor = SeedContact ident | SeedService "ident option" | SeedUser ident

definition seed_actorFor :: "seed_author \<Rightarrow> ticket_plan \<Rightarrow> ident \<Rightarrow> ident option \<Rightarrow> seed_actor" where
  "seed_actorFor author plan admin token =
     (case author of
        ByContact \<Rightarrow> SeedContact (tp_contact plan)
      | ByAi \<Rightarrow> SeedService token
      | ByAgent \<Rightarrow> SeedUser (case tp_assignee plan of Some u \<Rightarrow> u | None \<Rightarrow> admin))"

text \<open>The oldest ticket first; a sort keeps the order of equals.\<close>

definition chronological :: "ticket_plan list \<Rightarrow> ticket_plan list" where
  "chronological plans = sort_key (\<lambda>p. - tp_opened p) plans"

definition chronological_thread :: "ticket_plan \<Rightarrow> thread_entry list" where
  "chronological_thread plan = sort_key (\<lambda>en. - te_days en) (tp_thread plan)"

definition assistant_scopes :: "permission list" where
  "assistant_scopes = [ticket_read, ticket_reply, ticket_transition, permission.note_write]"

definition reporter_scopes :: "permission list" where
  "reporter_scopes = [analytics_read]"

section \<open>The plans are histories\<close>

text \<open>
  A history the application accepts: days do not run backwards nor past the run, and every move
  is one of the state machine's that changes the state.
\<close>

fun path_ok :: "ticket_state \<Rightarrow> rat \<Rightarrow> planned_move list \<Rightarrow> bool" where
  "path_ok st since [] \<longleftrightarrow> 0 \<le> since"
| "path_ok st since (mv # path) \<longleftrightarrow>
     mv_days mv \<le> since \<and> mv_to mv \<noteq> st \<and> ticket_transition_is_legal st (mv_to mv) \<and> path_ok (mv_to mv) (mv_days mv) path"

text \<open>The customer's question comes first, at the opening, and only an agent writes notes.\<close>

definition thread_ok :: "rat \<Rightarrow> thread_entry list \<Rightarrow> bool" where
  "thread_ok opened thread \<longleftrightarrow> (case thread of [] \<Rightarrow> False
     | en # rest \<Rightarrow> te_by en = ByContact \<and> \<not> te_internal en \<and> te_days en = opened \<and>
         list_all (\<lambda>en. 0 \<le> te_days en \<and> te_days en < opened \<and> (te_internal en \<longrightarrow> te_by en = ByAgent)) rest)"

definition plan_ok :: "ticket_plan \<Rightarrow> bool" where
  "plan_ok plan \<longleftrightarrow> path_ok TOpen (tp_opened plan) (tp_path plan) \<and> thread_ok (tp_opened plan) (tp_thread plan)"

lemma routine_length: "length ROUTINE = 44"
  by code_simp

lemma sortwood_ok: "list_all plan_ok (sortwood_tickets fresh sam nell gus)"
  by code_simp

lemma reference_ok: "list_all plan_ok (referenceTickets fresh people)"
  by code_simp

lemma routine_opened_bounds:
  "3 / 10 \<le> routine_opened sh live_rank settled_rank" "isLive sh \<or> 8 \<le> routine_opened sh live_rank settled_rank"
  by (auto simp: routine_opened_def)

lemma routine_path_ok:
  assumes "3 / 10 \<le> opened" "isLive sh \<or> 8 \<le> opened"
  shows "path_ok TOpen opened (routine_path sh k opened)"
  using assms by (cases sh) (simp_all add: routine_path_def planned_def ticket_transition_is_legal_def isLive_def Let_def)

lemma routine_thread_ok:
  assumes "3 / 10 \<le> opened" "isLive sh \<or> 8 \<le> opened"
  shows "thread_ok opened (routine_thread sh tp opened)"
  using assms by (cases sh) (simp_all add: thread_ok_def routine_thread_def said_def isLive_def isDeflected_def Let_def)

lemma routineTicket_ok: "plan_ok (routineTicket fresh people topics sh k live_rank settled_rank)"
  using routine_path_ok [OF routine_opened_bounds] routine_thread_ok [OF routine_opened_bounds]
  by (simp add: plan_ok_def routineTicket_def Let_def)

lemma routine_ok: "list_all plan_ok (routine_from fresh people topics shs k live_rank settled_rank)"
  by (induction shs arbitrary: k live_rank settled_rank) (simp_all add: routineTicket_ok)

lemma demo_plans_ok:
  assumes "plan \<in> set (sortwood_tickets fresh sam nell gus @ meridian_tickets fresh_ref fresh' people topics)"
  shows "plan_ok plan"
  using assms sortwood_ok [of fresh sam nell gus] reference_ok [of fresh_ref people] routine_ok [of fresh' people topics]
  by (auto simp: meridian_tickets_def routineTickets_def list_all_iff)

text \<open>Instants keep the order of days under any product that does.\<close>

lemma at_instant_mono: "ms d \<le> ms d' \<Longrightarrow> at_instant ms now d' \<le> at_instant ms now d"
proof -
  assume le: "ms d \<le> ms d'"
  let ?x = "of_int now - ms d'" and ?y = "of_int now - ms d"
  have xy: "?x \<le> ?y" using le by simp
  show ?thesis
  proof (cases "0 \<le> ?x \<or> ?y < 0")
    case True
    then show ?thesis using xy by (auto simp: at_instant_def Let_def intro: floor_mono ceiling_mono)
  next
    case False
    then have "\<lceil>?x\<rceil> \<le> 0" "0 \<le> \<lfloor>?y\<rfloor>" by (simp_all add: ceiling_le_iff le_floor_iff)
    then have "\<lceil>?x\<rceil> \<le> \<lfloor>?y\<rfloor>" by linarith
    then show ?thesis using False by (auto simp: at_instant_def Let_def)
  qed
qed

lemma at_instant_past: "0 \<le> ms d \<Longrightarrow> at_instant ms now d \<le> now"
  using at_instant_mono [of "\<lambda>_. 0" 0 d now] at_instant_mono [of ms d d now]
  by (auto simp: at_instant_def Let_def floor_le_iff ceiling_le_iff le_diff_eq)

lemma path_ok_nonneg: "path_ok st since path \<Longrightarrow> 0 \<le> since"
  by (induction path arbitrary: st since) (auto intro: order.trans)

lemma path_ok_in_order:
  assumes mono: "\<And>a b. 0 \<le> a \<Longrightarrow> a \<le> b \<Longrightarrow> 0 \<le> ms a \<and> ms a \<le> ms b"
  shows "path_ok st since path \<Longrightarrow> in_order ms now st (at_instant ms now since) path"
proof (induction path arbitrary: st since)
  case Nil
  then show ?case using mono [of since since] by (simp add: at_instant_past)
next
  case (Cons mv path)
  then have "0 \<le> mv_days mv" "mv_days mv \<le> since" by (auto dest: path_ok_nonneg)
  then show ?case using Cons mono [of "mv_days mv" since] by (simp add: at_instant_mono)
qed

text \<open>The parent of a follow-up ticket is written before it.\<close>

lemma older_first:
  assumes "chronological plans = xs" "i < length xs" "j < length xs" "tp_opened (xs ! j) < tp_opened (xs ! i)"
  shows "i < j"
proof (rule ccontr)
  assume "\<not> i < j"
  moreover have "sorted (map (\<lambda>p. - tp_opened p) xs)" using assms(1) by (auto simp: chronological_def)
  ultimately have "- tp_opened (xs ! j) \<le> - tp_opened (xs ! i)"
    using assms(2,3) sorted_nth_mono [of "map (\<lambda>p. - tp_opened p) xs" j i] by simp
  then show False using assms(4) by simp
qed

end
