(* ===== verification/Seed_Rows.thy ===== *)
theory Seed_Rows
  imports Seed_Plans
begin

text \<open>
  Writing the plans (\<open>prisma/seed/write.ts\<close>): the row of one ticket through every statement of
  \<open>writeTicket\<close>, each of which passes the triggers of the table, and what the sweeps make of the
  rows. The statements run within the moments of the script, \<open>clk\<close>; the columns of the clocks are
  written last.
\<close>

section \<open>The statements\<close>

record seed_context =
  sx_now :: millis
  sx_admin :: ident
  sx_token :: "ident option"

fun seed_actor_kind :: "seed_actor \<Rightarrow> string" where
  "seed_actor_kind (SeedContact i) = ''contact''"
| "seed_actor_kind (SeedService i) = ''service''"
| "seed_actor_kind (SeedUser i) = ''user''"

fun seed_actor_id :: "seed_actor \<Rightarrow> ident option" where
  "seed_actor_id (SeedContact i) = Some i"
| "seed_actor_id (SeedService i) = i"
| "seed_actor_id (SeedUser i) = Some i"

text \<open>An update of the row as the trigger leaves it.\<close>

definition touched :: "millis \<Rightarrow> (ticket \<Rightarrow> ticket) \<Rightarrow> ticket \<Rightarrow> ticket" where
  "touched clk f t = transition_effect clk t (keep_latches t (f t))"

definition seed_born :: "(rat \<Rightarrow> rat) \<Rightarrow> ident \<Rightarrow> seed_context \<Rightarrow> ticket_plan \<Rightarrow> ticket" where
  "seed_born ms tenant cx plan =
     new_ticket (tp_id plan) (at_instant ms (sx_now cx) (tp_opened plan)) tenant
       \<lparr>ci_subject = tp_subject plan, ci_contact = tp_contact plan, ci_source = tp_source plan,
        ci_spawned = tp_spawned plan, ci_slack_route = tp_slack_route plan\<rparr>"

definition writeThreadEntry ::
  "(rat \<Rightarrow> rat) \<Rightarrow> (thread_entry \<Rightarrow> ident) \<Rightarrow> ident \<Rightarrow> seed_context \<Rightarrow> ticket_plan \<Rightarrow> thread_entry \<Rightarrow> ticket \<Rightarrow> ticket" where
  "writeThreadEntry ms drawn tenant cx plan en t =
     (let actor = seed_actorFor (te_by en) plan (sx_admin cx) (sx_token cx);
          m = \<lparr>m_id = drawn en, m_tenant = tenant, m_ticket = tp_id plan, m_body = te_body en,
               m_author_kind = seed_actor_kind actor, m_author_id = seed_actor_id actor,
               m_created = at_instant ms (sx_now cx) (te_days en)\<rparr>
      in if te_internal en then t\<lparr>t_last_activity := m_created m\<rparr> else observe_message m t)"

definition write_thread ::
  "(rat \<Rightarrow> rat) \<Rightarrow> millis \<Rightarrow> (thread_entry \<Rightarrow> ident) \<Rightarrow> ident \<Rightarrow> seed_context \<Rightarrow> ticket_plan \<Rightarrow> ticket \<Rightarrow> ticket" where
  "write_thread ms clk drawn tenant cx plan t =
     fold (\<lambda>en. touched clk (writeThreadEntry ms drawn tenant cx plan en)) (chronological_thread plan) t"

definition write_triage :: "millis \<Rightarrow> ticket_plan \<Rightarrow> ticket \<Rightarrow> ticket" where
  "write_triage clk plan t =
     (if tp_priority plan \<noteq> PNormal \<or> tp_assignee plan \<noteq> None
      then touched clk (\<lambda>t. t\<lparr>t_priority := tp_priority plan, t_assignee := tp_assignee plan, t_updated := clk\<rparr>) t else t)"

definition write_path :: "millis \<Rightarrow> ticket_plan \<Rightarrow> ticket \<Rightarrow> ticket" where
  "write_path clk plan t = fold (\<lambda>mv. touched clk (\<lambda>t. t\<lparr>t_state := mv_to mv, t_updated := clk\<rparr>)) (tp_path plan) t"

definition writeTicket ::
  "(rat \<Rightarrow> rat) \<Rightarrow> millis \<Rightarrow> (thread_entry \<Rightarrow> ident) \<Rightarrow> ident \<Rightarrow> seed_context \<Rightarrow> ticket_plan \<Rightarrow> sla_target \<Rightarrow> ticket \<Rightarrow> ticket" where
  "writeTicket ms clk drawn tenant cx plan target t =
     touched clk (backdateClocks ms (sx_now cx) plan target)
       (write_path clk plan (write_triage clk plan (write_thread ms clk drawn tenant cx plan t)))"

section \<open>The columns of a written row\<close>

lemma touched_columns [simp]:
  "t_created (touched clk f t) = t_created (f t)" "t_tenant (touched clk f t) = t_tenant (f t)"
  "t_priority (touched clk f t) = t_priority (f t)" "t_state (touched clk f t) = t_state (f t)"
  "t_first_response (touched clk f t) = keep_latch (t_first_response t) (t_first_response (f t))"
  "t_first_response_breached (touched clk f t) = keep_latch (t_first_response_breached t) (t_first_response_breached (f t))"
  "t_resolution_breached (touched clk f t) = keep_latch (t_resolution_breached t) (t_resolution_breached (f t))"
  by (simp_all add: touched_def transition_effect_def accrue_pause_def keep_latches_def Let_def split: option.splits)

lemma touched_clocks:
  assumes "t_state (f t) = t_state t"
  shows "t_paused_ms (touched clk f t) = t_paused_ms (f t)" "t_pause_started (touched clk f t) = t_pause_started (f t)"
  using assms by (simp_all add: touched_def transition_effect_def keep_latches_def Let_def)

lemma keep_latch_same [simp]: "keep_latch x x = x"
  by (simp add: keep_latch_def split: option.splits)

definition is_response :: "thread_entry \<Rightarrow> bool" where
  "is_response en \<longleftrightarrow> te_by en \<noteq> ByContact \<and> \<not> te_internal en"

text \<open>What no statement of the thread and of the path touches.\<close>

definition row_keeps :: "ticket \<Rightarrow> ticket \<Rightarrow> bool" where
  "row_keeps t u \<longleftrightarrow> t_created u = t_created t \<and> t_tenant u = t_tenant t \<and> t_priority u = t_priority t \<and>
     t_first_response_breached u = t_first_response_breached t \<and> t_resolution_breached u = t_resolution_breached t"

lemma row_keeps_refl [simp]: "row_keeps t t"
  by (simp add: row_keeps_def)

lemma row_keeps_trans: "row_keeps t u \<Longrightarrow> row_keeps u v \<Longrightarrow> row_keeps t v"
  by (simp add: row_keeps_def)

lemma row_keeps_touched: "row_keeps t (f t) \<Longrightarrow> row_keeps t (touched clk f t)"
  by (simp add: row_keeps_def)

lemma entry_keeps: "row_keeps t (writeThreadEntry ms drawn tenant cx plan en t)"
  by (simp add: row_keeps_def writeThreadEntry_def observe_message_def Let_def)

lemma entry_state: "t_state (writeThreadEntry ms drawn tenant cx plan en t) = t_state t"
  by (simp add: writeThreadEntry_def observe_message_def Let_def)

lemma entry_response:
  "t_first_response (touched clk (writeThreadEntry ms drawn tenant cx plan en) t) = None \<longleftrightarrow>
   t_first_response t = None \<and> \<not> is_response en"
  by (auto simp: keep_latch_def writeThreadEntry_def observe_message_def seed_actorFor_def is_response_def Let_def
      split: seed_author.splits option.splits)

lemma thread_keeps: "row_keeps t (fold (\<lambda>en. touched clk (writeThreadEntry ms drawn tenant cx plan en)) ens t)"
proof (induction ens arbitrary: t)
  case (Cons en ens)
  show ?case unfolding fold_Cons comp_def by (rule row_keeps_trans [OF row_keeps_touched [OF entry_keeps] Cons.IH])
qed simp

lemma thread_state: "t_state (fold (\<lambda>en. touched clk (writeThreadEntry ms drawn tenant cx plan en)) ens t) = t_state t"
  by (induction ens arbitrary: t) (simp_all add: entry_state)

lemma thread_response:
  "t_first_response (fold (\<lambda>en. touched clk (writeThreadEntry ms drawn tenant cx plan en)) ens t) = None \<longleftrightarrow>
   t_first_response t = None \<and> (\<forall>en \<in> set ens. \<not> is_response en)"
  by (induction ens arbitrary: t) (auto simp del: touched_columns simp: entry_response)

lemma path_keeps: "row_keeps t (fold (\<lambda>mv. touched clk (\<lambda>t. t\<lparr>t_state := mv_to mv, t_updated := clk\<rparr>)) path t)"
  by (induction path arbitrary: t) (auto intro!: row_keeps_trans [OF row_keeps_touched] simp: row_keeps_def)

lemma path_response:
  "t_first_response (fold (\<lambda>mv. touched clk (\<lambda>t. t\<lparr>t_state := mv_to mv, t_updated := clk\<rparr>)) path t) = t_first_response t"
  by (induction path arbitrary: t) simp_all

lemma path_state:
  "t_state (fold (\<lambda>mv. touched clk (\<lambda>t. t\<lparr>t_state := mv_to mv, t_updated := clk\<rparr>)) path t) =
   (if path = [] then t_state t else mv_to (last path))"
  by (induction path arbitrary: t) simp_all

lemma written_columns:
  assumes r: "r = writeTicket ms clk drawn tenant cx plan target t"
    and t: "t_priority t = PNormal" "t_first_response t = None" "t_first_response_breached t = None" "t_resolution_breached t = None"
    and cl: "cl = replay ms (sx_now cx) (at_instant ms (sx_now cx) (tp_opened plan)) (tp_path plan) (tp_thread plan) target"
  shows "t_created r = t_created t" "t_tenant r = t_tenant t" "t_priority r = tp_priority plan"
    "t_state r = (if tp_path plan = [] then t_state t else mv_to (last (tp_path plan)))"
    "t_paused_ms r = sc_paused cl" "t_pause_started r = sc_pause_started cl" "t_last_activity r = sc_last_activity cl"
    "t_first_response_breached r = sc_first_response_breached cl" "t_resolution_breached r = sc_resolution_breached cl"
    "t_first_response r = None \<longleftrightarrow> responses ms (sx_now cx) (tp_thread plan) = []"
proof -
  define a where "a = write_thread ms clk drawn tenant cx plan t"
  define b where "b = write_triage clk plan a"
  define c where "c = write_path clk plan b"
  have a: "row_keeps t a" "t_state a = t_state t"
    "t_first_response a = None \<longleftrightarrow> responses ms (sx_now cx) (tp_thread plan) = []"
    using t(2) by (auto simp: a_def write_thread_def thread_keeps thread_state thread_response chronological_thread_def
        responses_def filter_empty_conv is_response_def)
  have b: "t_created b = t_created a" "t_tenant b = t_tenant a" "t_priority b = tp_priority plan" "t_state b = t_state a"
    "t_first_response b = t_first_response a" "t_first_response_breached b = t_first_response_breached a"
    "t_resolution_breached b = t_resolution_breached a"
    using a(1) t(1) by (auto simp: b_def write_triage_def row_keeps_def)
  have c: "row_keeps b c" "t_first_response c = t_first_response b"
    "t_state c = (if tp_path plan = [] then t_state b else mv_to (last (tp_path plan)))"
    by (auto simp: c_def write_path_def path_keeps path_response path_state)
  have r: "r = touched clk (\<lambda>t. backdated cl t) c"
    by (simp add: r cl writeTicket_def a_def b_def c_def backdateClocks_def [abs_def])
  show "t_created r = t_created t" "t_tenant r = t_tenant t" "t_priority r = tp_priority plan"
    "t_state r = (if tp_path plan = [] then t_state t else mv_to (last (tp_path plan)))"
    "t_first_response_breached r = sc_first_response_breached cl" "t_resolution_breached r = sc_resolution_breached cl"
    "t_first_response r = None \<longleftrightarrow> responses ms (sx_now cx) (tp_thread plan) = []"
    using a b c t by (auto simp: r backdated_def row_keeps_def keep_latch_def)
  show "t_paused_ms r = sc_paused cl" "t_pause_started r = sc_pause_started cl"
    by (simp_all add: r touched_clocks backdated_def)
  show "t_last_activity r = sc_last_activity cl"
    by (simp add: r touched_def transition_effect_def backdated_def keep_latches_def Let_def)
qed

section \<open>What the sweeps make of the demo\<close>

text \<open>The columns of a ticket as its insert leaves it.\<close>

lemma born_columns:
  assumes "ticket_linkage_on_insert s d (seed_born ms tenant cx plan) = Inr t"
  shows "t_created t = at_instant ms (sx_now cx) (tp_opened plan)" "t_tenant t = tenant" "t_state t = TOpen"
    "t_priority t = PNormal" "t_first_response t = None" "t_first_response_breached t = None" "t_resolution_breached t = None"
    "t_paused_ms t = 0" "t_pause_started t = None"
  using assms by (auto simp: ticket_linkage_on_insert_def seed_born_def new_ticket_def split: option.splits)

definition seed_target :: "ticket_priority \<Rightarrow> sla_target" where
  "seed_target p = \<lparr>ta_first_response = fst (sla_seed_targets p), ta_resolution = snd (sla_seed_targets p)\<rparr>"

lemma seed_target_nonneg: "0 \<le> ta_resolution (seed_target p)"
  by (cases p) (simp_all add: seed_target_def)

text \<open>
  C39. The demo data is a fixed point of the breach sweep. Take any ticket of either tenant, any
  product of days and milliseconds that keeps their order, and the targets the schema gives a new
  tenant. The ticket's planned moves are legal and in order; the written row ends in the last
  planned state; its pause columns are those the table's trigger would hold had the moves been
  made when planned; its resolution latch is set exactly when it was active for longer than its
  target; and a sweep at the moment of the run has nothing to latch on it.
\<close>

theorem demo_data_is_fixed_point:
  assumes plan: "plan \<in> set (sortwood_tickets fresh sam nell gus @ meridian_tickets fresh_ref fresh' people topics)"
    and days: "\<And>a b. 0 \<le> a \<Longrightarrow> a \<le> b \<Longrightarrow> 0 \<le> ms a \<and> ms a \<le> ms b"
    and inserted: "ticket_linkage_on_insert s d (seed_born ms tenant cx plan) = Inr t"
    and r: "r = writeTicket ms clk drawn tenant cx plan (seed_target (tp_priority plan)) t"
    and targets: "\<And>p. targets tenant p = Some (sla_seed_targets p)"
  shows "path_ok TOpen (tp_opened plan) (tp_path plan) \<and>
    t_state r = (if tp_path plan = [] then TOpen else mv_to (last (tp_path plan))) \<and>
    t_paused_ms r = t_paused_ms (driven ms (sx_now cx) (tp_path plan) t) \<and>
    t_pause_started r = t_pause_started (driven ms (sx_now cx) (tp_path plan) t) \<and>
    (t_resolution_breached r \<noteq> None \<longleftrightarrow>
       snd (sla_seed_targets (t_priority r)) <
         ticket_sla_active_elapsed_ms (t_created r) (t_paused_ms r) (t_pause_started r) (sx_now cx)) \<and>
    \<not> breach_selects targets (sx_now cx) r"
proof -
  have ok: "path_ok TOpen (tp_opened plan) (tp_path plan)" using demo_plans_ok [OF plan] by (simp add: plan_ok_def)
  note born = born_columns [OF inserted]
  note cols = written_columns [OF r born(4-7) refl]
  have order: "in_order ms (sx_now cx) TOpen (at_instant ms (sx_now cx) (tp_opened plan)) (tp_path plan)"
    using days ok by (rule path_ok_in_order)
  show ?thesis
    using replay_fixed_point [OF order refl cols(1) [unfolded born(1)] cols(5,6,8,9,10) seed_target_nonneg _ born(3,8,9), of targets]
      ok cols(1-4) born(1-3) targets by (simp add: seed_target_def)
qed

text \<open>A run of the script, and two of the tickets it writes.\<close>

definition sample_ms :: "rat \<Rightarrow> rat" where "sample_ms days = days * 86400000"

lemma sample_ms_keeps_order: "0 \<le> a \<Longrightarrow> a \<le> b \<Longrightarrow> 0 \<le> sample_ms a \<and> sample_ms a \<le> sample_ms b"
  by (simp add: sample_ms_def)

definition sample_run :: seed_context where
  "sample_run = \<lparr>sx_now = 1700000000000, sx_admin = USER_IDS ''meridianAdmin'', sx_token = None\<rparr>"

definition sample_reference :: "nat \<Rightarrow> ticket_plan" where
  "sample_reference k = referenceTickets (\<lambda>_. ''00000000-0000-4000-8000-00000000000a'') [CONTACT_IDS ''meridianJules''] ! k"

definition sample_inserted :: "nat \<Rightarrow> ticket" where
  "sample_inserted k = seed_born sample_ms (anchored tenant_anchors ''meridian'') sample_run (sample_reference k)"

definition sample_row :: "nat \<Rightarrow> ticket" where
  "sample_row k = writeTicket sample_ms 1700000000500 (\<lambda>_. ''00000000-0000-4000-8000-00000000000b'') (anchored tenant_anchors ''meridian'')
     sample_run (sample_reference k) (seed_target (tp_priority (sample_reference k))) (sample_inserted k)"

definition sample_session :: session where
  "sample_session = \<lparr>s_tenant = anchored tenant_anchors ''meridian'', s_actor_kind = ''contact'', s_actor_id = CONTACT_IDS ''meridianJules'',
     s_scheduler = False, s_sweeper = False, s_installations = False, s_now = 1700000000500\<rparr>"

definition sample_db :: db where
  "sample_db = \<lparr>contacts = [], users = [], tickets = [], messages = [], note_rows = [], audit = [], deliveries = [], jobs = []\<rparr>"

lemma sample_linked:
  "tp_spawned (sample_reference k) = None \<Longrightarrow>
   ticket_linkage_on_insert sample_session sample_db (sample_inserted k) = Inr (sample_inserted k)"
  by (simp add: sample_inserted_def seed_born_def new_ticket_def ticket_linkage_on_insert_def)

theorem demo_data_is_fixed_point_witness:
  "t_state (sample_row 3) = TResolved \<and> t_paused_ms (sample_row 3) = 345600000 \<and>
   t_pause_started (sample_row 3) = Some 1698790400000 \<and>
   \<not> breach_selects (\<lambda>_ p. Some (sla_seed_targets p)) 1700000000000 (sample_row 3)"
proof -
  have mem: "sample_reference 3 \<in> set (sortwood_tickets undefined undefined undefined undefined @
      meridian_tickets (\<lambda>_. ''00000000-0000-4000-8000-00000000000a'') undefined [CONTACT_IDS ''meridianJules''] undefined)"
    unfolding sample_reference_def meridian_tickets_def by (simp add: referenceTickets_def)
  have "map mv_to (tp_path (sample_reference 3)) = [TResolved, TOpen, TResolved]"
    "t_paused_ms (driven sample_ms (sx_now sample_run) (tp_path (sample_reference 3)) (sample_inserted 3)) = 345600000"
    "t_pause_started (driven sample_ms (sx_now sample_run) (tp_path (sample_reference 3)) (sample_inserted 3)) = Some 1698790400000"
    "sx_now sample_run = 1700000000000"
    by code_simp+
  moreover have "tp_spawned (sample_reference 3) = None" by code_simp
  ultimately show ?thesis
    using demo_data_is_fixed_point [OF mem sample_ms_keeps_order sample_linked [unfolded sample_inserted_def, of 3] sample_row_def
        [unfolded sample_inserted_def, of 3], of "\<lambda>_ p. Some (sla_seed_targets p)"]
    by (auto simp: last_map [symmetric] simp flip: sample_inserted_def)
qed

text \<open>
  C40. One sweep undoes a documented row. The ticket printed as pending with its resolution clock
  stopped was last active 8.9 days before the run, which is beyond the dwell window: the row as
  written is pending, and the first run of the dwell sweep resolves it.
\<close>

theorem paused_reference_settles:
  assumes plan: "plan = referenceTickets fresh people ! 1"
    and days: "\<And>a b. 0 \<le> a \<Longrightarrow> a \<le> b \<Longrightarrow> 0 \<le> ms a \<and> ms a \<le> ms b" "604800001 \<le> ms (89 / 10)"
    and inserted: "ticket_linkage_on_insert s d (seed_born ms tenant cx plan) = Inr t"
    and r: "r = writeTicket ms clk drawn tenant cx plan target t"
    and visited: "tenant \<in> set tenants"
  shows "tp_id plan = TICKET_IDS ''paused'' \<and> t_state r = TPending \<and> t_pause_started r \<noteq> None \<and>
    dwell_selects (sx_now cx) TPending r \<and> t_state (dwelt clk (sx_now cx) tenants r) = TResolved"
proof -
  note born = born_columns [OF inserted]
  note cols = written_columns [OF r born(4-7) refl]
  let ?at = "at_instant ms (sx_now cx)"
  have at: "?at (89 / 10) < sx_now cx - ticket_dwell_window"
    using at_instant_mono [of "\<lambda>d. d" 604800001 "ms (89 / 10)" "sx_now cx"] days(2)
    by (simp add: at_instant_def ticket_dwell_window_def Let_def split: if_splits)
  have before: "?at x \<le> ?at (89 / 10)" if "89 / 10 \<le> x" for x
    using days(1) [of "89 / 10" x] that by (intro at_instant_mono) simp
  have p: "tp_id plan = TICKET_IDS ''paused''" "tp_opened plan = 9" "map mv_to (tp_path plan) = [TPending]"
    "map mv_days (tp_path plan) = [89 / 10]" "map te_days (tp_thread plan) = [9, 895 / 100, 89 / 10]"
    unfolding plan by (simp_all add: referenceTickets_def planned_def said_def)
  obtain mv where mv: "tp_path plan = [mv]" "mv_to mv = TPending" "mv_days mv = 89 / 10" using p(3,4) by auto
  have "lastActivity ms (sx_now cx) (?at 9) (tp_path plan) (tp_thread plan) = foldl max (?at 9) (map ?at (map mv_days (tp_path plan) @ map te_days (tp_thread plan)))"
    by (simp add: lastActivity_def comp_def)
  also have "\<dots> < sx_now cx - ticket_dwell_window"
    unfolding p(4,5) using at before [of 9] before [of "895 / 100"] by simp
  finally have "t_last_activity r < sx_now cx - ticket_dwell_window"
    by (simp add: cols(7) replay_def p(2) split: prod.splits)
  moreover have "t_pause_started r \<noteq> None"
    by (simp add: cols(6) replay_def timeline_def mv p(2) STOPS_THE_CLOCK_def Let_def)
  ultimately show ?thesis
    using p(1) cols(2,4) born(2) visited
    by (simp add: mv dwell_selects_def dwelt_def settled_row_def transition_effect_def accrue_pause_def Let_def split: option.splits)
qed

theorem paused_reference_settles_witness:
  "t_state (sample_row 1) = TPending \<and> dwell_selects 1700000000000 TPending (sample_row 1) \<and>
   t_state (dwelt 1700000000500 1700000000000 [anchored tenant_anchors ''meridian''] (sample_row 1)) = TResolved"
proof -
  have "604800001 \<le> sample_ms (89 / 10)" by (simp add: sample_ms_def)
  moreover have "sx_now sample_run = 1700000000000" by (simp add: sample_run_def)
  moreover have "anchored tenant_anchors ''meridian'' \<in> set [anchored tenant_anchors ''meridian'']" by simp
  moreover have "tp_spawned (sample_reference 1) = None" by code_simp
  ultimately show ?thesis
    using paused_reference_settles [where tenants = "[anchored tenant_anchors ''meridian'']", OF sample_reference_def sample_ms_keeps_order _ sample_linked [unfolded sample_inserted_def, of 1] sample_row_def
        [unfolded sample_inserted_def, of 1]]
    by auto
qed

end
