(* ===== verification/Spec2Isabelle.thy ===== *)
theory Spec2Isabelle
  imports Samples Reply_Outcomes Slack_Outcomes Slack_Threads Scheduler_Runtime Analytics Cache Configuration Http_Safety Seed_Rows
begin

text \<open>
  The program is a multi-tenant help desk: an HTTP and websocket service over a PostgreSQL
  database with row-level security, with a background scheduler. This development models
  its own logic and proves what its parts promise.

  \<^bold>\<open>The parts and their theories.\<close>

  \<^item> \<open>Prelude\<close>: identifiers, times, JSON values, uuid texts, lists and maps.
  \<^item> \<open>App_Errors\<close> (\<open>src/src/common/errors\<close>): the catalog of error codes, application
    exceptions, the exception filter and the tests on database errors. A thrown value is
    \<open>App\<close> of an application exception or \<open>RawError\<close> of a driver's.
  \<^item> \<open>Authz\<close> (\<open>src/src/authz\<close>, \<open>request-principal.ts\<close>): principals, permissions, roles,
    machine scopes and the guard.
  \<^item> \<open>Tenancy\<close> (\<open>src/src/tenancy\<close>): a tenant context is vetted, reduced to the settings the
    policies read and armed for one transaction. A transaction is a function from the armed
    session and the database to an error or a result with the new database; a thrown value
    leaves the database as it was.
  \<^item> \<open>Database\<close> (\<open>src/prisma\<close>): the rows of the ticket tables, the row-level security
    policies, the triggers of the migrations, the unique indexes and foreign keys, and the
    statements the services issue. \<open>Ticket_Invariants\<close> states the invariant of these tables
    and that every statement keeps it; \<open>Isolation\<close> that a step of one tenant leaves every
    row of every other tenant alone, as the contract \<open>safe_step\<close> of the locale \<open>armed_work\<close>.
  \<^item> \<open>Rooms\<close>, \<open>Event_Log\<close>, \<open>Realtime\<close> (\<open>src/src/realtime\<close>): room names, the bounded log of
    events each room can replay, the gateway and the announcing service. The socket
    transport is a flag.
  \<^item> \<open>Js_Runtime\<close>, \<open>Pagination\<close> (\<open>src/src/common/pagination\<close>): what the language does to JSON,
    base64url and date texts; sort, cursor, keyset plan and page. \<open>Listing\<close> states what walking
    a list by its cursors gives in the locale \<open>cursor_list\<close> and interprets it for the lists of
    tickets, messages, notes and audit entries.
  \<^item> \<open>Ticket_Service\<close>, \<open>Conversation\<close> (\<open>src/src/tickets\<close>, \<open>conversation\<close>, \<open>outbound\<close>): the
    operations on tickets, messages, notes and the customer's reply, with the dispatch of
    a reply to its channel. \<open>Ticket_Outcomes\<close> and \<open>Reply_Outcomes\<close> give their exact outcomes.
  \<^item> \<open>Job_Queue\<close> (\<open>src/src/scheduler\<close>): backoff, the leased queue and the drainer.
  \<^item> \<open>Sweeps\<close> (\<open>src/src/sla\<close>): the breach sweep and the dwell sweep.
  \<^item> \<open>Slack_Events\<close>, \<open>Slack_Inbound\<close>, \<open>Slack_Work\<close> (\<open>src/src/slack\<close>, \<open>integrations\<close>): the signature
    over the raw bytes, the parsing of an event, its acceptance behind an idempotency record,
    and the two handlers of queued work, ingestion and delivery, with the registry the drainer
    runs. \<open>Slack_Outcomes\<close> and \<open>Slack_Threads\<close> give the outcomes of a delivery and of a message.
  \<^item> \<open>Scheduler_Runtime\<close> (\<open>src/src/scheduler\<close>, \<open>health\<close>): the ticker as a state machine of pending
    timers and ticks in flight, the heartbeat, the idle back-off, readiness and the probes.
  \<^item> \<open>Analytics\<close> (\<open>src/src/analytics\<close>): the window, the cohort and its aggregation.
  \<^item> \<open>World\<close>: the composition. A world is the database and the socket server; requests of a
    tenant, frames of sockets, runs of queued jobs and the sweeps are its steps. \<open>Samples\<close> holds a small
    history on which the theorems are exercised.
  \<^item> \<open>Sessions\<close>, \<open>Session_Safety\<close> (\<open>src/src/auth\<close>, \<open>portal\<close>, \<open>staff\<close>): refresh-token families,
    sign-in, rotation, sign-out and invitations over the tables of users and tokens, as a
    state machine of their own.
  \<^item> \<open>Credentials\<close> (\<open>src/src/service-tokens\<close>, \<open>widget\<close>, \<open>auth.guard.ts\<close>, \<open>refresh-cookie.ts\<close>):
    machine tokens, widget sessions, the bearer guard and the refresh cookie.
  \<^item> \<open>Fingerprint\<close>, \<open>Idempotency\<close> (\<open>src/src/idempotency\<close>): the canonical text of a body, the
    claims on idempotency keys and the interceptor that runs a handler at most once.
  \<^item> \<open>Rate_Limit\<close> (\<open>src/src/rate-limit\<close>): fixed windows over a counter store.
  \<^item> \<open>Auth_Surface\<close> (\<open>auth.controller.ts\<close>, \<open>portal-auth.controller.ts\<close>, \<open>google-client.ts\<close>,
    \<open>google-id-token.ts\<close>, \<open>browser-cors.ts\<close>): the session routes with the cookies they leave in a
    browser, the exchange with the identity provider and the cross-origin policy.
  \<^item> \<open>Cache\<close> (\<open>src/src/cache\<close>): the key grammar and the operations of a tenant's handle.
  \<^item> \<open>Configuration\<close> (\<open>src/src/config\<close>): the environment schema's transformations, refinement and
    report, and the accessors the components read.
  \<^item> \<open>Http_Dtos\<close>, \<open>Http_Surface\<close> (the controllers, their transfer objects, \<open>auth.module.ts\<close>,
    \<open>global-providers.ts\<close>): the declared bodies and queries and the rows as they are sent; the
    routes with what their decorators declare, a handler per controller, and the chain of
    guards, interceptor, pipes and handler over the tables of \<open>Credentials\<close> and the socket server.
    \<open>Http_Safety\<close> states the contract of a handler as the locale \<open>tenant_handler\<close> and what a
    request can do and see.
  \<^item> \<open>Seed_Clocks\<close>, \<open>Seed_Plans\<close>, \<open>Seed_Rows\<close> (\<open>src/prisma/seed\<close>): the replay of a planned history
    into the columns of the clocks, the tickets of the demo tenants with the generator of their
    backlog, and the row of a ticket through the statements that write it.

  \<^bold>\<open>What the lemmas show.\<close> The theorems of this file span components: the complete outcome of
  the operations that edit a ticket, where a customer's reply lands, isolation of tenants, the
  invariants of every reachable world (one live ticket per conversation, an audit log that
  replays each ticket, consistent service clocks), what later states keep, what a socket
  may hear, that walking a list by its cursors loses and repeats nothing, and what the
  sweeps do exactly. The theories of the components hold the others: room grammar, cursors
  and cookies round-trip; the event log is bounded and resumes exactly; leases exclude;
  a session family has one usable token; idempotency keys are granted once; budgets and
  waiting times are exact; credentials end when they are revoked; a Slack event is queued once,
  its message lands in its thread, a reply is settled and never posted twice once it is; the
  clock keeps ticking; the figures of a report are consistent; a browser's session is exactly
  as long as its token's; busting the cache ends and empties a namespace; an accepted
  configuration is whole; a request acts under the authority its route declares and within one
  tenant, a customer is answered with rows of their own, and a refused request leaves nothing;
  the demo tickets are legal histories whose clocks the breach sweep agrees with.
  Some theorems record
  behaviour that departs from the comments of the code.

  \<^bold>\<open>Conventions.\<close> Times are integers in milliseconds. Fresh identifiers, random draws and
  clocks are arguments. Hashes, signatures of tokens, password digests and the counter store
  are arguments too, as are the answers of Slack and of the identity provider, the commands of
  Redis and the schema library, with the law the code relies on as a hypothesis where one is
  needed.
  Concurrency is explicit where the code has a window: the claims of the queue take the set
  of locked rows, the claims on keys take what other requests do between their statements,
  and the rotation of a token is split at its verdict. Everything is total; recursion is
  structural on lists or on the fuel that the code itself has (the two attempts at reclaiming
  a key), so no bound is chosen here; the one loop that an outside party can prolong, the scan
  of the cache, is a partial function that is shown to return.

  \<^bold>\<open>Not modelled.\<close> The router that picks a route and the validation library are the framework's;
  their part is an argument, as is the order in which the framework runs two pipes. Modules are
  wiring. The API document and the connections to the database and to Redis are input and output;
  of the demo data, the users, contacts and texts of the topics are arguments, and the products of
  days and milliseconds, which the source takes in floating point, are any that keep their order. No service deletes a tenant, a ticket or a message, so cascades are left out.
  Texts are the bytes of their UTF-8 form, so rules on lengths in UTF-16 units are exact for
  ASCII texts.
\<close>

section \<open>Editing a ticket\<close>

text \<open>
  C1. The whole outcome of \<open>TicketService.transition\<close>: for every principal whose context can
  be armed and every database that satisfies the schema's invariant, the move answers 404
  when the principal cannot see the ticket, 403 when it closes without \<open>ticket:close\<close>, 409
  when the transition table has no such move, and otherwise succeeds, leaving exactly the
  moved row, its audit entry and the two announcements.
\<close>

theorem transition_outcome:
  assumes "can_arm p" and "ticket_inv d"
  shows "ticket_transition_op now p i to_state d rt =
    (case ticket_findUnique i (session_of now p) d of
       None \<Rightarrow> Inl (App (notFound ''Ticket''))
     | Some cur \<Rightarrow>
         if to_state = TClosed \<and> ticket_close \<notin> permissionsFor p then Inl (App forbidden_exception)
         else if to_state \<noteq> t_state cur \<and> \<not> ticket_transition_is_legal (t_state cur) to_state
         then Inl (App (app_error conflict
           ''That is not a legal transition for this Ticket in its current state. Read it again to see where it is.''))
         else Inr (moved now to_state cur, store (session_of now p) cur (moved now to_state cur) d,
                   ticketUpdated now (moved now to_state cur) rt))"
  unfolding ticket_transition_op_def announcing_def session_of_armed(2) [OF assms(1)]
    transitionIn_exact [OF assms(2) session_of_armed(1) [OF assms(1)]] session_of_armed(3) [OF assms(1)]
  by (simp split: option.split) blast

theorem transition_outcome_witness:
  "ticket_transition_op 2000 agentA ticketA TClosed (w_db world1) (w_rt world1) = Inl (App forbidden_exception)"
proof -
  have "case ticket_findUnique ticketA (session_of 2000 agentA) (w_db world1) of None \<Rightarrow> False | Some cur \<Rightarrow> True" by code_simp
  moreover have "ticket_close \<notin> permissionsFor agentA" by code_simp
  ultimately show ?thesis using transition_outcome [OF agentA_arms world1_inv] by (auto split: option.splits)
qed

text \<open>
  The whole outcome of \<open>TicketService.setPriority\<close>: 404 for a ticket the principal cannot
  see, 409 when the ticket is closed and the priority would change, and otherwise the row
  with the new priority, the audit entry the trigger writes for an actual change (and none
  for a repeated value) and the update announced to both rooms.
\<close>

theorem priority_outcome:
  assumes "can_arm p" and "ticket_inv d"
  shows "setPriority now p i pr d rt =
    (case ticket_findUnique i (session_of now p) d of
       None \<Rightarrow> Inl (App (notFound ''Ticket''))
     | Some cur \<Rightarrow>
         if t_state cur = TClosed \<and> pr \<noteq> t_priority cur
         then Inl (App (app_error conflict
           ''A closed Ticket is a finished record: neither its priority nor its assignee can be changed.''))
         else Inr (reprioritised now pr cur, store (session_of now p) cur (reprioritised now pr cur) d,
                   ticketUpdated now (reprioritised now pr cur) rt))"
  unfolding setPriority_def ticket_update_def announcing_def session_of_armed(2) [OF assms(1)]
    edit_priority [OF assms(2) session_of_armed(1) [OF assms(1)]] session_of_armed(3) [OF assms(1)]
  by (simp split: option.split)

theorem priority_outcome_witness:
  "setPriority 5000 agentA ticketA PUrgent (w_db world3) (w_rt world3) =
     Inl (App (app_error conflict
       ''A closed Ticket is a finished record: neither its priority nor its assignee can be changed.''))"
proof -
  have "case ticket_findUnique ticketA (session_of 5000 agentA) (w_db world3) of None \<Rightarrow> False | Some cur \<Rightarrow>
      t_state cur = TClosed \<and> PUrgent \<noteq> t_priority cur" by code_simp
  then show ?thesis using priority_outcome [OF agentA_arms world3_inv] by (auto split: option.splits)
qed

text \<open>
  The whole outcome of \<open>TicketService.setAssignee\<close>: 404 for the ticket or for a user that is
  not one of the tenant's, 409 on a closed ticket, and otherwise the reassigned row, its
  audit entry and the \<open>ticket.assigned\<close> announcement.
\<close>

theorem assignee_outcome:
  assumes "can_arm p" and "ticket_inv d"
  shows "setAssignee now p i a d rt =
    (case ticket_findUnique i (session_of now p) d of
       None \<Rightarrow> Inl (App (notFound ''Ticket''))
     | Some cur \<Rightarrow>
         if t_state cur = TClosed \<and> a \<noteq> t_assignee cur
         then Inl (App (app_error conflict
           ''A closed Ticket is a finished record: neither its priority nor its assignee can be changed.''))
         else if (case a of None \<Rightarrow> False | Some u \<Rightarrow> (t_tenant cur, u) \<notin> set (users d))
         then Inl (App (notFound ''User''))
         else Inr (reassigned now a cur, store (session_of now p) cur (reassigned now a cur) d,
                   ticketAssigned now (reassigned now a cur) rt))"
  unfolding setAssignee_def ticket_update_def announcing_def session_of_armed(2) [OF assms(1)]
    edit_assignee [OF assms(2) session_of_armed(1) [OF assms(1)]] session_of_armed(3) [OF assms(1)]
  by (cases "ticket_findUnique i (session_of now p) d"; cases a)
    (auto simp: foreign_key_error_def reassigned_ok)

theorem assignee_outcome_witness:
  "setAssignee 5000 agentA ticketA (Some userA) (w_db world1) (w_rt world1) = Inl (App (notFound ''User''))"
proof -
  have "case ticket_findUnique ticketA (session_of 5000 agentA) (w_db world1) of None \<Rightarrow> False | Some cur \<Rightarrow>
      t_state cur \<noteq> TClosed \<and> (t_tenant cur, userA) \<notin> set (users (w_db world1))" by code_simp
  then show ?thesis using assignee_outcome [OF agentA_arms world1_inv] by (auto split: option.splits)
qed

section \<open>A customer's reply\<close>



section \<open>Every reachable state\<close>

text \<open>
  C2. Tenant isolation: a request of one tenant, whatever it does and whichever principal of
  that tenant makes it, leaves every row of every other tenant exactly as it was, in every
  table.
\<close>

theorem tenant_isolation:
  assumes "reachable w" and "request tenant w w'"
  shows "others tenant (w_db w') = others tenant (w_db w)"
  using request_safe [OF reachable_inv [OF assms(1)] assms(2)] by (simp add: service_ok_def safe_step_def)

theorem tenant_isolation_witness: "others tenantA (w_db world2) = others tenantA (w_db world1)"
  by (rule tenant_isolation [OF worlds_reachable(1) request_world1])

text \<open>
  C7. A conversation has at most one live ticket: in every reachable state two tickets of one
  tenant that are not closed and share their chain's root are the same ticket, and each
  spawned ticket belongs to the chain of the tenant's own ticket it was spawned from.
\<close>

theorem one_live_ticket:
  assumes "reachable w" and "t \<in> set (tickets (w_db w))"
  shows "(\<forall>u \<in> set (tickets (w_db w)). live t \<and> live u \<and> t_tenant t = t_tenant u \<and>
            chainRootOf t = chainRootOf u \<longrightarrow> t = u) \<and>
         (\<forall>p. t_spawned t = Some p \<longrightarrow>
            (\<exists>q \<in> set (tickets (w_db w)). t_id q = p \<and> t_tenant q = t_tenant t \<and> chainRootOf t = chainRootOf q))"
proof -
  have inv: "ticket_inv (w_db w)" using reachable_inv [OF assms(1)] by (simp add: world_inv_def)
  have "t = u" if "u \<in> set (tickets (w_db w))" "live t" "live u" "t_tenant t = t_tenant u" "chainRootOf t = chainRootOf u" for u
    using inv assms(2) that distinct_key_eq [of "\<lambda>t. (t_tenant t, chainRootOf t)" "filter live (tickets (w_db w))" t u]
    by (simp add: ticket_inv_def one_live_per_chain_def)
  moreover have "linked (tickets (w_db w)) t" using inv assms(2) by (simp add: ticket_inv_def)
  then have "\<exists>q \<in> set (tickets (w_db w)). t_id q = p \<and> t_tenant q = t_tenant t \<and> chainRootOf t = chainRootOf q"
    if "t_spawned t = Some p" for p
    using that by (fastforce simp: linked_def chainRootOf_def [of t])
  ultimately show ?thesis by blast
qed

theorem one_live_ticket_witness:
  "\<exists>t \<in> set (tickets (w_db world4)). t_spawned t = Some ticketA \<and>
     (\<exists>q \<in> set (tickets (w_db world4)). t_id q = ticketA \<and> chainRootOf t = chainRootOf q)"
proof -
  have "\<exists>t \<in> set (tickets (w_db world4)). t_spawned t = Some ticketA" by (rule world4_rows)
  then show ?thesis using one_live_ticket [OF worlds_reachable(4)] by metis
qed

text \<open>
  C8. The audit log is a faithful history: in every reachable state, replaying a ticket's
  \<open>ticket.transitioned\<close> entries from \<open>open\<close>, each entry starting where the one before it
  ended, gives the ticket's present state, and no such entry names a ticket that does not
  exist.
\<close>

theorem audit_replays_state:
  assumes "reachable w"
  shows "(\<forall>t \<in> set (tickets (w_db w)).
            replay_states (t_tenant t) (t_id t) ''open'' (audit (w_db w)) = Some (state_text (t_state t))) \<and>
         (\<forall>r \<in> set (audit (w_db w)). a_action r = ticket_transitioned \<longrightarrow>
            (\<exists>t \<in> set (tickets (w_db w)). a_tenant r = t_tenant t \<and> a_ticket r = Some (t_id t)))"
  using reachable_inv [OF assms] by (simp add: world_inv_def ticket_inv_def trail_ok_def)

theorem audit_replays_state_witness:
  "\<exists>t \<in> set (tickets (w_db world4)). t_state t = TClosed \<and>
     replay_states (t_tenant t) (t_id t) ''open'' (audit (w_db world4)) = Some ''closed''"
proof -
  have "\<exists>t \<in> set (tickets (w_db world4)). t_state t = TClosed" by (rule world4_rows)
  then show ?thesis using audit_replays_state [OF worlds_reachable(4)] by fastforce
qed

text \<open>
  C9. What time cannot undo: whatever happens after a reachable state, every ticket is still
  there with its identity, requester, ancestry and reply route; a closed ticket is still
  closed with the priority and assignee it had; a latched timestamp (first response, the
  two breaches) keeps its value; and the accumulated pause has not shrunk.
\<close>

theorem tickets_evolve:
  assumes "reachable w" and "later w w'" and "t \<in> set (tickets (w_db w))"
  shows "\<exists>t' \<in> set (tickets (w_db w')). row_evolves t t'"
  using later_inv [OF assms(2) reachable_inv [OF assms(1)]] assms(3) by (simp add: keeps_tickets_def)

theorem tickets_evolve_witness:
  "\<exists>t \<in> set (tickets (w_db world1)). \<exists>t' \<in> set (tickets (w_db world2)). row_evolves t t'"
proof -
  have "later world1 world2" using later.by_request [OF later.now request_world1] .
  moreover have "hd (tickets (w_db world1)) \<in> set (tickets (w_db world1))" using world1_tickets by simp
  ultimately show ?thesis using tickets_evolve [OF worlds_reachable(1)] by blast
qed

text \<open>
  C11. The service clock of every reachable ticket is consistent: a pause is running exactly
  in the states that pause it (\<open>pending\<close>, \<open>resolved\<close>, \<open>closed\<close>) and the accumulated pause is
  not negative; a reply route is whole or absent; and no two live tickets of a tenant share
  a Slack thread.
\<close>

theorem ticket_rows_wellformed:
  assumes "reachable w" and "t \<in> set (tickets (w_db w))"
  shows "(t_pause_started t \<noteq> None) = (t_state t \<in> {TPending, TResolved, TClosed}) \<and> 0 \<le> t_paused_ms t \<and>
    (t_slack_channel t = None) = (t_slack_thread t = None) \<and>
    (\<forall>u \<in> set (tickets (w_db w)). live t \<and> live u \<and> t_tenant t = t_tenant u \<and> t_slack_thread t \<noteq> None \<and>
       t_slack_channel t = t_slack_channel u \<and> t_slack_thread t = t_slack_thread u \<longrightarrow> t = u)"
proof -
  have inv: "ticket_inv (w_db w)" using reachable_inv [OF assms(1)] by (simp add: world_inv_def)
  have "pause_ok t" "slack_route_is_whole t" using inv assms(2) by (simp_all add: ticket_inv_def)
  moreover have "t = u" if "u \<in> set (tickets (w_db w))" "live t" "live u" "t_tenant t = t_tenant u"
    "t_slack_thread t \<noteq> None" "t_slack_channel t = t_slack_channel u" "t_slack_thread t = t_slack_thread u" for u
    using inv assms(2) that distinct_key_eq [of "\<lambda>t. (t_tenant t, t_slack_channel t, t_slack_thread t)"
        "filter (\<lambda>t. live t \<and> t_slack_thread t \<noteq> None) (tickets (w_db w))" t u]
    by (simp add: ticket_inv_def one_live_per_slack_thread_def)
  ultimately show ?thesis unfolding pause_ok_def pauses_sla_def slack_route_is_whole_def by blast
qed

theorem ticket_rows_wellformed_witness:
  "\<exists>t \<in> set (tickets (w_db world4)). t_state t = TClosed \<and> t_pause_started t \<noteq> None"
proof -
  have "\<exists>t \<in> set (tickets (w_db world4)). t_state t = TClosed" by (rule world4_rows)
  then show ?thesis using ticket_rows_wellformed [OF worlds_reachable(4)] by fastforce
qed

section \<open>Sockets\<close>

text \<open>
  C10. A socket hears only what its principal may hear: in every reachable state each event a
  socket has received belongs to a room of its principal's own tenant, and unless the
  principal is staff the event is of a kind customers may receive and the room is that of
  a ticket the principal's own contact requested. No machine credential holds a socket.
\<close>

theorem socket_entitlement:
  assumes "reachable w" and "map_of (rt_sockets (w_rt w)) sid = Some so" and "e \<in> set (so_received so)"
  shows "\<exists>p r. so_principal so = Some p \<and> kindOf p \<noteq> service_kind \<and> parseRoom (ev_room e) = Some r \<and>
    room_tenant r = tenantOf p \<and>
    (isStaff p \<or> audienceOf (ev_event e) = AudAll \<and>
       (\<exists>t \<in> set (tickets (w_db w)). r = TicketRoom (tenantOf p) (t_id t) \<and> t_tenant t = tenantOf p \<and>
          contactOf p = Some (t_contact t)))"
proof -
  have "realtime_inv (w_db w) (w_rt w)" using reachable_inv [OF assms(1)] by (simp add: world_inv_def)
  then obtain p where "so_principal so = Some p" "kindOf p \<noteq> service_kind" "entitled (w_db w) p (ev_room e)"
    "canReceive p (ev_event e)"
    using socket_of [OF _ assms(2)] assms(3) by metis
  then show ?thesis unfolding entitled_def canReceive_def by blast
qed

theorem socket_entitlement_witness:
  "\<exists>so e p. map_of (rt_sockets (w_rt world7)) ''s'' = Some so \<and> e \<in> set (so_received so) \<and>
     so_principal so = Some p \<and> kindOf p \<noteq> service_kind"
proof -
  obtain so where so: "map_of (rt_sockets (w_rt world7)) ''s'' = Some so" and "map ev_event (so_received so) = [EvTicketUpdated]"
    using world7_steps(3) by auto
  then obtain e where "e \<in> set (so_received so)" by (cases "so_received so") auto
  with so show ?thesis using socket_entitlement [OF world7_reachable so] by blast
qed

section \<open>The sweeps\<close>



text \<open>
  C27. The dwell sweep moves exactly the tickets that fell silent: run while the clock of the
  database is not a whole dwell window behind, it resolves each pending and closes each
  resolved ticket of the visited tenants whose last activity is more than seven days before
  the moment of the run, records one transition by the system actor for each, announces
  each as it now stands, and leaves every other row alone. No ticket takes two steps in one
  run: one it resolves stays resolved.
\<close>

theorem dwell_sweep_exact:
  assumes "ticket_inv d" and "distinct tenants" and "\<forall>tenant \<in> set tenants. is_uuid tenant"
    and "now - ticket_dwell_window \<le> clock"
  shows "dwell_sweep clock now tenants d rt =
      (Inr (), dwelt_db clock now tenants d,
       announce_updates now (map (dwelt clock now tenants) (dwell_moves now tenants (tickets d))) rt) \<and>
    (\<forall>t \<in> set (tickets d). t_state t = TPending \<longrightarrow> t_state (dwelt clock now tenants t) \<noteq> TClosed)"
proof -
  have "map (\<lambda>t. settled_row clock (dwell_next t) t) (dwell_moves now tenants ts) =
      map (dwelt clock now tenants) (dwell_moves now tenants ts)" for ts
    by (auto simp: dwell_moves_def moves_def dwell_selects_def dwelt_def dwell_next_def)
  moreover have "t_state t = TPending \<Longrightarrow> t_state (dwelt clock now tenants t) \<noteq> TClosed" for t
    by (simp add: dwelt_def)
  ultimately show ?thesis using dwell_run_exact [OF assms, of "[]"] by (simp add: dwell_sweep_def del: map_eq_conv)
qed

theorem dwell_sweep_exact_witness:
  "dwell_sweep 700000000 700000000 [tenantA] (w_db world2) (w_rt world2) =
     (Inr (), dwelt_db 700000000 700000000 [tenantA] (w_db world2),
      announce_updates 700000000 (map (dwelt 700000000 700000000 [tenantA]) (tickets (w_db world2))) (w_rt world2)) \<and>
   map t_state (tickets (dwelt_db 700000000 700000000 [tenantA] (w_db world2))) = [TClosed]"
proof -
  have "distinct [tenantA]" "\<forall>tenant \<in> set [tenantA]. is_uuid tenant"
    "700000000 - ticket_dwell_window \<le> 700000000"
    "dwell_moves 700000000 [tenantA] (tickets (w_db world2)) = tickets (w_db world2)"
    "map t_state (tickets (dwelt_db 700000000 700000000 [tenantA] (w_db world2))) = [TClosed]"
    by code_simp+
  then show ?thesis
    using dwell_sweep_exact [OF world2_inv, of "[tenantA]" 700000000 700000000 "w_rt world2"] by simp
qed

section \<open>Walking the ticket list\<close>


text \<open>
  The walk is stable under concurrent writes: when the table changes between the pages,
  the pages still never repeat or reorder an entry of the listing, and a walk that reaches
  its end has listed every ticket that was there, unchanged and visible throughout.
\<close>

theorem ticket_list_stable:
  assumes "can_arm p" and "ticketWhere other f = Inr w"
    and "parseSort raw (sortableFieldNames TICKET_SORTABLE) DEFAULT_SORT = Inr s"
    and "\<forall>d \<in> set ds. ticket_inv d \<and> (\<forall>t \<in> set (tickets d). printable t)" and "0 < limit"
  shows "\<exists>out fin. follow (\<lambda>c. ticket_list other now p limit c raw f) None ds = Inr (out, fin) \<and>
    sorted_wrt (key_past ticket_table s) out \<and>
    (\<forall>t \<in> set out. \<exists>d \<in> set ds. t \<in> set (listed now p w d)) \<and>
    (fin \<longrightarrow> (\<forall>t. (\<forall>d \<in> set ds. t \<in> set (listed now p w d)) \<longrightarrow> t \<in> set out))"
  using assms by (intro ticket_lister.stable_walk) (auto intro: listed_snapshot)


theorem ticket_list_stable_witness:
  "\<exists>out fin. follow (\<lambda>c. ticket_list (\<lambda>_. None) 9000 agentA 1 c None no_filter) None [w_db world4, w_db world4] = Inr (out, fin) \<and>
     sorted_wrt (key_past ticket_table DEFAULT_SORT) out"
  using ticket_list_stable [OF agentA_arms list_samples(1,2), of "[w_db world4, w_db world4]" 1 9000] world4_inv list_samples(3)
  by auto

text \<open>
  Walking the audit trail of a ticket by its cursors lists every entry about the ticket that
  the principal can see exactly once and in the order of the sort, and ends.
\<close>

theorem audit_trail_complete:
  assumes "sees_ticket now p tid d" and "stamps_ok stamp (length (audit d))"
    and "parseSort raw (sortableFieldNames AUDIT_SORTABLE) DEFAULT_SORT = Inr s" and "0 < limit"
  shows "follow (\<lambda>c. listForTicket other stamp now p tid limit c raw) None (replicate (Suc (length (audit d))) d) =
    Inr (order_rows audit_table s (trail stamp tid (session_of now p) d), True)"
  using assms by (intro audit_lister.complete_walk trail_snapshot) (simp_all add: trail_def audit_entries_def le_trans [OF length_filter_le])

theorem audit_trail_complete_witness:
  "\<exists>stamp. follow (\<lambda>c. listForTicket (\<lambda>_. None) stamp 9000 agentA ticketA 1 c None) None (replicate (Suc (length (audit (w_db world4)))) (w_db world4)) =
     Inr (order_rows audit_table DEFAULT_SORT (trail stamp ticketA (session_of 9000 agentA) (w_db world4)), True)"
proof -
  let ?stamp = "\<lambda>k. ([tenantA, tenantB, contactA, userA, ticketA, ticketB] ! k, int k)"
  have "let d = w_db world4 in stamps_ok ?stamp (length (audit d)) \<and> ticket_findUnique ticketA (session_of 9000 agentA) d \<noteq> None"
    by code_simp
  moreover have "parseSort None (sortableFieldNames AUDIT_SORTABLE) DEFAULT_SORT = Inr DEFAULT_SORT" by (simp add: parseSort_def)
  ultimately show ?thesis
    using audit_trail_complete [of 9000 agentA ticketA "w_db world4" ?stamp] agentA_arms by (fastforce simp: Let_def sees_ticket_def)
qed

end
